(* ===== verification/Prelude.thy ===== *)
theory Prelude
  imports Main "HOL-Library.Sublist"
begin

text \<open>
  The prelude of the development: the named collections of facts the component theories
  add to, and the generic lemmas on lists and maps that several components use.
\<close>

named_theorems go_text \<open>equations of the model of Go's string functions\<close>
named_theorems inv_intros \<open>preservation lemmas of component invariants\<close>
named_theorems frame \<open>fields an operation leaves unchanged\<close>

text \<open>Errors are values: \<open>Inl\<close> carries the Go error, \<open>Inr\<close> the result.\<close>

abbreviation Err :: "'e \<Rightarrow> 'e + 'a" where "Err \<equiv> Inl"
abbreviation Ok :: "'a \<Rightarrow> 'e + 'a" where "Ok \<equiv> Inr"

definition is_ok :: "'e + 'a \<Rightarrow> bool" where
  "is_ok r = (case r of Inl _ \<Rightarrow> False | Inr _ \<Rightarrow> True)"

lemma is_ok_simps [simp]: "is_ok (Ok x)" "\<not> is_ok (Err e)"
  by (simp_all add: is_ok_def)

section \<open>Lists\<close>

lemma find_SomeD: "List.find P xs = Some x \<Longrightarrow> P x \<and> x \<in> set xs"
  by (induction xs) (auto split: if_splits)

lemma find_NoneD: "List.find P xs = None \<Longrightarrow> x \<in> set xs \<Longrightarrow> \<not> P x"
  by (induction xs) (auto split: if_splits)

lemma find_NoneI: "(\<And>x. x \<in> set xs \<Longrightarrow> \<not> P x) \<Longrightarrow> List.find P xs = None"
  by (induction xs) auto

lemma distinct_removeAll [simp]: "distinct xs \<Longrightarrow> distinct (removeAll x xs)"
  by (induction xs) auto

lemma remove1_subset: "x \<in> set (remove1 y xs) \<Longrightarrow> x \<in> set xs"
  using set_remove1_subset by fastforce

lemma map_of_filter_fst:
  "map_of (filter (\<lambda>p. P (fst p)) al) k = (if P k then map_of al k else None)"
  by (induction al) auto

lemma distinct_map_filter: "distinct (map f xs) \<Longrightarrow> distinct (map f (filter P xs))"
  by (induction xs) auto

text \<open>Stable sorting, as SQL's \<open>ORDER BY\<close> on several columns.\<close>

lemma sort_key_sorted: "sorted (map f xs) \<Longrightarrow> sort_key f xs = xs"
  by (induction xs) (auto intro: insort_is_Cons)

lemma insort_key_map: "insort_key f (g x) (map g xs) = map g (insort_key (\<lambda>x. f (g x)) x xs)"
  by (induction xs) auto

lemma sort_key_map: "sort_key f (map g xs) = map g (sort_key (\<lambda>x. f (g x)) xs)"
  by (induction xs) (auto simp: insort_key_map)

lemma find_map: "List.find P (map g xs) = map_option g (List.find (\<lambda>x. P (g x)) xs)"
  by (induction xs) auto

section \<open>Maps\<close>

lemma dom_upd_mono: "k \<in> dom m \<Longrightarrow> k \<in> dom (m(j \<mapsto> v))"
  by auto

lemma map_upd_same_dom: "k \<in> dom m \<Longrightarrow> dom (m(k \<mapsto> v)) = dom m"
  by auto

end
