(* ===== verification/Go_Text.thy ===== *)
theory Go_Text
  imports Prelude
begin

text \<open>
  Go's strings, as far as the program uses them. A Go string is a sequence of bytes, and
  so is an Isabelle \<^typ>\<open>string\<close>. Runes are natural numbers. The functions
  follow the Go standard library: \<open>utf8.DecodeRune\<close> (an invalid byte decodes to
  U+FFFD and has width 1), \<open>for range\<close> over a string, \<open>utf8.AppendRune\<close>,
  \<open>strings.TrimSpace\<close>, \<open>strings.Fields\<close>, \<open>strings.Split\<close>,
  \<open>strings.Cut\<close>, \<open>strconv.ParseInt\<close> and their kin. \<open>to_lower\<close> and
  \<open>to_upper\<close> are exact on ASCII and on the four runes outside ASCII whose case
  mapping is an ASCII letter; the other Unicode case pairs are left unchanged, so a
  comparison of a folded string with an ASCII constant is exact for every input.
\<close>

type_synonym rune = nat

abbreviation byte :: "char \<Rightarrow> nat" where "byte \<equiv> of_char"

text \<open>Character codes of concrete strings are evaluated with these.\<close>

lemmas char_eval = char_of_def bit_Suc_0_iff

section \<open>UTF-8\<close>

definition rune_error :: rune where "rune_error = 0xFFFD"

definition cont :: "nat \<Rightarrow> bool" where "cont b \<longleftrightarrow> 0x80 \<le> b \<and> b \<le> 0xBF"

definition valid_rune :: "rune \<Rightarrow> bool" where
  "valid_rune r \<longleftrightarrow> r \<le> 0x10FFFF \<and> \<not> (0xD800 \<le> r \<and> r \<le> 0xDFFF)"

text \<open>The rune at the head of a string and its width in bytes.\<close>

definition decode_rune :: "string \<Rightarrow> rune \<times> nat" where
  "decode_rune s = (case s of [] \<Rightarrow> (rune_error, 0) | c0 # s1 \<Rightarrow>
     let b0 = byte c0 in
     if b0 < 0x80 then (b0, 1)
     else if 0xC2 \<le> b0 \<and> b0 \<le> 0xDF then
       (case s1 of
          c1 # _ \<Rightarrow>
            if cont (byte c1) then ((b0 - 0xC0) * 64 + (byte c1 - 0x80), 2) else (rune_error, 1)
        | _ \<Rightarrow> (rune_error, 1))
     else if 0xE0 \<le> b0 \<and> b0 \<le> 0xEF then
       (case s1 of
          c1 # c2 # _ \<Rightarrow>
            if (if b0 = 0xE0 then 0xA0 else 0x80) \<le> byte c1
               \<and> byte c1 \<le> (if b0 = 0xED then 0x9F else 0xBF) \<and> cont (byte c2)
            then ((b0 - 0xE0) * 4096 + (byte c1 - 0x80) * 64 + (byte c2 - 0x80), 3)
            else (rune_error, 1)
        | _ \<Rightarrow> (rune_error, 1))
     else if 0xF0 \<le> b0 \<and> b0 \<le> 0xF4 then
       (case s1 of
          c1 # c2 # c3 # _ \<Rightarrow>
            if (if b0 = 0xF0 then 0x90 else 0x80) \<le> byte c1
               \<and> byte c1 \<le> (if b0 = 0xF4 then 0x8F else 0xBF)
               \<and> cont (byte c2) \<and> cont (byte c3)
            then ((b0 - 0xF0) * 262144 + (byte c1 - 0x80) * 4096
                  + (byte c2 - 0x80) * 64 + (byte c3 - 0x80), 4)
            else (rune_error, 1)
        | _ \<Rightarrow> (rune_error, 1))
     else (rune_error, 1))"

lemma decode_rune_width:
  "s \<noteq> [] \<Longrightarrow> 1 \<le> snd (decode_rune s) \<and> snd (decode_rune s) \<le> length s"
  by (auto simp: decode_rune_def Let_def split: list.splits)

text \<open>The runes a \<open>for _, r := range s\<close> loop visits.\<close>

function runes :: "string \<Rightarrow> rune list" where
  "runes s = (if s = [] then []
     else fst (decode_rune s) # runes (drop (snd (decode_rune s)) s))"
  by pat_completeness auto
termination
  by (relation "measure length") (use decode_rune_width in fastforce)+

declare runes.simps [simp del]

lemma runes_Nil [simp, go_text]: "runes [] = []"
  by (simp add: runes.simps)

lemma decode_rune_ascii: "byte c < 0x80 \<Longrightarrow> decode_rune (c # s) = (byte c, 1)"
  by (simp add: decode_rune_def)

lemma runes_ascii_Cons [simp, go_text]: "byte c < 0x80 \<Longrightarrow> runes (c # s) = byte c # runes s"
  by (subst runes.simps) (simp add: decode_rune_ascii)

definition ascii :: "string \<Rightarrow> bool" where "ascii s \<longleftrightarrow> (\<forall>c \<in> set s. byte c < 0x80)"

lemma ascii_simps [simp]:
  "ascii []" "ascii (c # s) \<longleftrightarrow> byte c < 0x80 \<and> ascii s" "ascii (s @ t) \<longleftrightarrow> ascii s \<and> ascii t"
  by (auto simp: ascii_def)

lemma runes_ascii_append: "ascii s \<Longrightarrow> runes (s @ t) = map byte s @ runes t"
  by (induction s) auto

lemma runes_ascii: "ascii s \<Longrightarrow> runes s = map byte s"
  using runes_ascii_append [of s "[]"] by simp

definition encode_rune :: "rune \<Rightarrow> string" where
  "encode_rune r =
     (if r < 0x80 then [char_of r]
      else if r < 0x800 then [char_of (0xC0 + r div 64), char_of (0x80 + r mod 64)]
      else if \<not> valid_rune r then [CHR 0xEF, CHR 0xBF, CHR 0xBD]
      else if r < 0x10000 then
        [char_of (0xE0 + r div 4096), char_of (0x80 + r div 64 mod 64), char_of (0x80 + r mod 64)]
      else
        [char_of (0xF0 + r div 262144), char_of (0x80 + r div 4096 mod 64),
         char_of (0x80 + r div 64 mod 64), char_of (0x80 + r mod 64)])"

definition unrunes :: "rune list \<Rightarrow> string" where
  "unrunes rs = concat (map encode_rune rs)"

lemma unrunes_simps [simp, go_text]:
  "unrunes [] = []" "unrunes (r # rs) = encode_rune r @ unrunes rs"
  "unrunes (rs @ rs') = unrunes rs @ unrunes rs'"
  by (simp_all add: unrunes_def)

lemma encode_rune_ascii [simp]: "r < 0x80 \<Longrightarrow> encode_rune r = [char_of r]"
  by (simp add: encode_rune_def)

lemma encode_rune_not_Nil [simp]: "encode_rune r \<noteq> []"
  by (simp add: encode_rune_def)

lemma unrunes_ascii: "ascii s \<Longrightarrow> unrunes (map byte s) = s"
  by (induction s) auto

lemma decode_encode2:
  assumes "0x80 \<le> r" "r < 0x800"
  shows "decode_rune (encode_rune r @ s) = (r, length (encode_rune r))"
proof -
  have "r div 64 < 32" "2 \<le> r div 64" using assms by (auto simp: div_less_iff_less_mult)
  moreover have "r mod 64 < 64" by simp
  ultimately show ?thesis
    using assms by (simp add: decode_rune_def encode_rune_def cont_def)
qed

lemma split_digits3: "r = r div 4096 * 4096 + r div 64 mod 64 * 64 + r mod 64" for r :: nat
proof -
  have "r = r div 64 * 64 + r mod 64" by simp
  also have "r div 64 = r div 64 div 64 * 64 + r div 64 mod 64" by simp
  also have "r div 64 div 64 = r div 4096" by (simp add: div_mult2_eq [symmetric])
  finally show ?thesis by (simp add: algebra_simps)
qed

lemma split_digits4:
  "r = r div 262144 * 262144 + r div 4096 mod 64 * 4096 + r div 64 mod 64 * 64 + r mod 64"
  for r :: nat
proof -
  have "r div 4096 = r div 4096 div 64 * 64 + r div 4096 mod 64" by simp
  also have "r div 4096 div 64 = r div 262144" by (simp add: div_mult2_eq [symmetric])
  finally show ?thesis using split_digits3 [of r] by linarith
qed

lemma decode_encode3:
  assumes "0x800 \<le> r" "r < 0x10000" "valid_rune r"
  shows "decode_rune (encode_rune r @ s) = (r, length (encode_rune r))"
proof -
  define a b c where "a = r div 4096" and "b = r div 64 mod 64" and "c = r mod 64"
  have r: "r = a * 4096 + b * 64 + c" unfolding a_def b_def c_def by (rule split_digits3)
  have bc: "b < 64" "c < 64" by (simp_all add: b_def c_def)
  have a: "a < 16" unfolding a_def using assms(2) by (simp add: div_less_iff_less_mult)
  have lo: "a = 0 \<Longrightarrow> 32 \<le> b" using r bc assms(1) by simp
  have hi: "a = 13 \<Longrightarrow> b < 32" using r bc assms(3) by (simp add: valid_rune_def)
  have enc: "encode_rune r = [char_of (0xE0 + a), char_of (0x80 + b), char_of (0x80 + c)]"
    using assms by (simp add: encode_rune_def a_def b_def c_def)
  show ?thesis
    unfolding enc using a bc lo hi
    by (auto simp: decode_rune_def cont_def Let_def r)
qed

lemma decode_encode4:
  assumes "0x10000 \<le> r" "valid_rune r"
  shows "decode_rune (encode_rune r @ s) = (r, length (encode_rune r))"
proof -
  define a b c d where "a = r div 262144" and "b = r div 4096 mod 64"
    and "c = r div 64 mod 64" and "d = r mod 64"
  have r: "r = a * 262144 + b * 4096 + c * 64 + d"
    unfolding a_def b_def c_def d_def by (rule split_digits4)
  have bcd: "b < 64" "c < 64" "d < 64" by (simp_all add: b_def c_def d_def)
  have a: "a < 5" unfolding a_def using assms(2)
    by (simp add: div_less_iff_less_mult valid_rune_def)
  have lo: "a = 0 \<Longrightarrow> 16 \<le> b" using r bcd assms(1) by simp
  have hi: "a = 4 \<Longrightarrow> b < 16" using r bcd assms(2) by (simp add: valid_rune_def)
  have enc: "encode_rune r = [char_of (0xF0 + a), char_of (0x80 + b),
      char_of (0x80 + c), char_of (0x80 + d)]"
    using assms by (simp add: encode_rune_def a_def b_def c_def d_def)
  show ?thesis
    unfolding enc using a bcd lo hi
    by (auto simp: decode_rune_def cont_def Let_def r)
qed

lemma decode_encode:
  assumes "valid_rune r"
  shows "decode_rune (encode_rune r @ s) = (r, length (encode_rune r))"
proof -
  consider "r < 0x80" | "0x80 \<le> r" "r < 0x800" | "0x800 \<le> r" "r < 0x10000" | "0x10000 \<le> r"
    by linarith
  then show ?thesis
    using assms decode_encode2 decode_encode3 decode_encode4
    by cases (auto simp: decode_rune_ascii)
qed

lemma runes_encode_Cons [simp, go_text]:
  "valid_rune r \<Longrightarrow> runes (encode_rune r @ s) = r # runes s"
  by (subst runes.simps) (simp add: decode_encode)

lemma runes_unrunes_append:
  "(\<forall>r \<in> set rs. valid_rune r) \<Longrightarrow> runes (unrunes rs @ s) = rs @ runes s"
  by (induction rs) auto

text \<open>A string is valid UTF-8 when decoding and encoding it again gives it back.\<close>

definition valid_utf8 :: "string \<Rightarrow> bool" where
  "valid_utf8 s \<longleftrightarrow> unrunes (runes s) = s"

lemma valid_utf8_ascii: "ascii s \<Longrightarrow> valid_utf8 s"
  by (simp add: valid_utf8_def runes_ascii unrunes_ascii)

lemma rune_error_valid [simp]: "valid_rune rune_error"
  by (simp add: valid_rune_def rune_error_def)

lemma ascii_valid [simp]: "r < 0x80 \<Longrightarrow> valid_rune r"
  by (simp add: valid_rune_def)

text \<open>Each of the lead-byte ranges decodes to a valid rune or to \<^const>\<open>rune_error\<close>.\<close>

lemma decode_rune_valid: "valid_rune (fst (decode_rune s))"
proof (cases s)
  case Nil then show ?thesis by (simp add: decode_rune_def)
next
  case (Cons c0 s1)
  consider "byte c0 < 0x80" | "0xC2 \<le> byte c0" "byte c0 \<le> 0xDF"
    | "0xE0 \<le> byte c0" "byte c0 \<le> 0xEF" | "0xF0 \<le> byte c0" "byte c0 \<le> 0xF4"
    | "0x80 \<le> byte c0" "byte c0 < 0xC2" | "0xF5 \<le> byte c0"
    by linarith
  then show ?thesis
  proof cases
    case 1 then show ?thesis by (simp add: Cons decode_rune_ascii)
  next
    case 2 then show ?thesis
      by (auto simp: Cons decode_rune_def cont_def valid_rune_def rune_error_def split: list.split)
  next
    case 3 then show ?thesis
      by (auto simp: Cons decode_rune_def cont_def valid_rune_def rune_error_def Let_def
               split: list.split if_splits)
  next
    case 4 then show ?thesis
      by (auto simp: Cons decode_rune_def cont_def valid_rune_def rune_error_def Let_def
               split: list.split if_splits)
  qed (simp_all add: Cons decode_rune_def)
qed

lemma runes_valid: "r \<in> set (runes s) \<Longrightarrow> valid_rune r"
proof (induction s rule: runes.induct)
  case (1 s)
  then show ?case
    by (subst (asm) runes.simps) (auto simp: decode_rune_valid split: if_splits)
qed

lemma runes_append_valid:
  assumes "valid_utf8 s" shows "runes (s @ t) = runes s @ runes t"
proof -
  have "runes (unrunes (runes s) @ t) = runes s @ runes t"
    by (rule runes_unrunes_append) (simp add: runes_valid)
  then show ?thesis using assms by (simp add: valid_utf8_def)
qed

text \<open>A rune outside ASCII is encoded without ASCII bytes.\<close>

lemma encode_rune_high:
  assumes "valid_rune r" "0x80 \<le> r" "c \<in> set (encode_rune r)" shows "0x80 \<le> byte c"
proof -
  consider "r < 0x800" | "0x800 \<le> r" "r < 0x10000" | "0x10000 \<le> r" by linarith
  then show ?thesis
  proof cases
    case 1
    then have "r div 64 < 32" by (simp add: div_less_iff_less_mult)
    with 1 assms show ?thesis by (auto simp: encode_rune_def)
  next
    case 2
    then have "r div 4096 < 16" by (simp add: div_less_iff_less_mult)
    with 2 assms show ?thesis by (auto simp: encode_rune_def)
  next
    case 3
    then have "r div 262144 < 5" using assms(1) by (simp add: div_less_iff_less_mult valid_rune_def)
    with 3 assms show ?thesis by (auto simp: encode_rune_def)
  qed
qed

lemma encode_rune_cases:
  assumes "valid_rune r"
  obtains c where "byte c < 0x80" "encode_rune r = [c]"
    | "\<forall>c \<in> set (encode_rune r). 0x80 \<le> byte c"
proof (cases "r < 0x80")
  case True
  then show ?thesis using that(1) [of "char_of r"] by simp
next
  case False
  then show ?thesis using that(2) encode_rune_high [OF assms] by auto
qed

lemma ascii_in_unrunes:
  "(\<forall>r \<in> set rs. valid_rune r) \<Longrightarrow> byte c < 0x80 \<Longrightarrow> c \<in> set (unrunes rs) \<Longrightarrow> byte c \<in> set rs"
proof (induction rs)
  case (Cons r rs)
  then have v: "valid_rune r" by simp
  show ?case
  proof (cases "c \<in> set (encode_rune r)")
    case True
    then have "r < 0x80" using encode_rune_high [OF v, of c] Cons.prems(2) by force
    then show ?thesis using True by simp
  qed (use Cons in simp)
qed simp

lemma runes_unrunes: "(\<forall>r \<in> set rs. valid_rune r) \<Longrightarrow> runes (unrunes rs) = rs"
  using runes_unrunes_append [of rs "[]"] by simp

section \<open>White space, trimming, str_fields\<close>

text \<open>\<open>unicode.IsSpace\<close> and \<open>unicode.IsControl\<close>, complete.\<close>

definition space_runes :: "rune list" where
  "space_runes = [9, 10, 11, 12, 13, 32, 0x85, 0xA0, 0x1680, 0x2000, 0x2001, 0x2002, 0x2003,
     0x2004, 0x2005, 0x2006, 0x2007, 0x2008, 0x2009, 0x200A, 0x2028, 0x2029, 0x202F, 0x205F,
     0x3000]"

definition is_space :: "rune \<Rightarrow> bool" where "is_space r \<longleftrightarrow> r \<in> set space_runes"

definition is_control :: "rune \<Rightarrow> bool" where
  "is_control r \<longleftrightarrow> r < 0x20 \<or> (0x7F \<le> r \<and> r < 0xA0)"

definition space_codes :: "string list" where
  "space_codes = map encode_rune space_runes"

text \<open>
  A string starts (ends) with a space rune when it starts (ends) with its encoding.
  \<open>strip\<close> drops such codes from the front as long as there is one; for the end of
  the string it works on the reversed string and the reversed codes.
\<close>

function strip :: "string list \<Rightarrow> string \<Rightarrow> string" where
  "strip es s = (case List.find (\<lambda>e. e \<noteq> [] \<and> prefix e s) es of
     None \<Rightarrow> s | Some e \<Rightarrow> strip es (drop (length e) s))"
  by pat_completeness auto
termination
  by (relation "measure (\<lambda>(es, s). length s)") (auto dest!: find_SomeD simp: prefix_def)

declare strip.simps [simp del]

definition trim_left_space :: "string \<Rightarrow> string" where
  "trim_left_space s = strip space_codes s"

definition trim_right_space :: "string \<Rightarrow> string" where
  "trim_right_space s = rev (strip (map rev space_codes) (rev s))"

definition trim_space :: "string \<Rightarrow> string" where
  "trim_space s = trim_right_space (trim_left_space s)"

text \<open>
  Every encoding of a space rune is one ASCII space, or starts with a byte at or above 0xC2
  and ends with a byte at or above 0x80. So an ASCII byte at an end of the string is stripped
  exactly when it is a space.
\<close>

lemma space_code_cases:
  "e \<in> set space_codes \<Longrightarrow>
     (\<exists>c. e = [c] \<and> byte c < 0x80 \<and> is_space (byte c)) \<or> (0x80 \<le> byte (hd e) \<and> 0x80 \<le> byte (last e))"
  by (auto simp: space_codes_def space_runes_def is_space_def encode_rune_def valid_rune_def)

lemma ascii_space_code: "byte c < 0x80 \<Longrightarrow> is_space (byte c) \<Longrightarrow> [c] \<in> set space_codes"
  unfolding space_codes_def set_map
  by (rule image_eqI [of _ _ "byte c"]) (simp_all add: is_space_def)

lemma strip_Nil [simp]: "strip es [] = []"
  by (simp add: strip.simps find_NoneI)

lemma strip_ascii:
  assumes c: "byte c < 0x80"
    and codes: "\<And>e. e \<in> set es \<Longrightarrow> e = [] \<or> (\<exists>d. e = [d] \<and> is_space (byte d)) \<or> 0x80 \<le> byte (hd e)"
    and mem: "is_space (byte c) \<Longrightarrow> [c] \<in> set es"
  shows "strip es (c # s) = (if is_space (byte c) then strip es s else c # s)"
proof (cases "List.find (\<lambda>e. e \<noteq> [] \<and> prefix e (c # s)) es")
  case None
  then have "\<not> is_space (byte c)" using mem find_NoneD [OF None, of "[c]"] by auto
  then show ?thesis by (simp add: strip.simps [of es "c # s"] None)
next
  case (Some e)
  then have e: "e \<noteq> []" "prefix e (c # s)" "e \<in> set es" by (auto dest: find_SomeD)
  then have "hd e = c" by (cases e) auto
  then have "e = [c] \<and> is_space (byte c)" using codes [OF e(3)] e(1) c by auto
  then show ?thesis by (simp add: strip.simps [of es "c # s"] Some)
qed

lemma strip_space_codes [go_text]:
  "byte c < 0x80 \<Longrightarrow>
     strip space_codes (c # s) = (if is_space (byte c) then strip space_codes s else c # s)"
  by (rule strip_ascii) (auto dest: space_code_cases ascii_space_code)

lemma strip_rev_space_codes [go_text]:
  "byte c < 0x80 \<Longrightarrow> strip (map rev space_codes) (c # s) =
     (if is_space (byte c) then strip (map rev space_codes) s else c # s)"
proof (rule strip_ascii)
  fix e assume "e \<in> set (map rev space_codes)"
  then obtain d where "e = rev d" "d \<in> set space_codes" by auto
  then show "e = [] \<or> (\<exists>d. e = [d] \<and> is_space (byte d)) \<or> 0x80 \<le> byte (hd e)"
    using space_code_cases [of d] by (auto simp: hd_rev)
next
  assume "byte c < 0x80" "is_space (byte c)"
  then have "rev [c] \<in> rev ` set space_codes" using ascii_space_code by blast
  then show "[c] \<in> set (map rev space_codes)" by simp
qed

lemma trim_space_Nil [simp, go_text]: "trim_space [] = []"
  by (simp add: trim_space_def trim_left_space_def trim_right_space_def)

text \<open>A string that starts and ends with an ASCII byte that is no space is left alone.\<close>

definition solid :: "char \<Rightarrow> bool" where
  "solid c \<longleftrightarrow> byte c < 0x80 \<and> \<not> is_space (byte c)"

lemma trim_space_solid:
  assumes "s \<noteq> []" "solid (hd s)" "solid (last s)" shows "trim_space s = s"
proof -
  have "strip space_codes s = s"
    using assms by (cases s) (auto simp: strip_space_codes solid_def)
  moreover have "strip (map rev space_codes) (rev s) = rev s"
  proof (cases "rev s")
    case (Cons c t)
    then have "last s = c" by (metis hd_rev list.sel(1))
    then show ?thesis using assms(3) Cons by (simp add: strip_rev_space_codes solid_def)
  qed (use assms(1) in simp)
  ultimately show ?thesis
    by (simp add: trim_space_def trim_left_space_def trim_right_space_def)
qed

function str_fields_aux :: "string \<Rightarrow> string \<Rightarrow> string list" where
  "str_fields_aux acc s = (if s = [] then (if acc = [] then [] else [acc])
     else if is_space (fst (decode_rune s))
     then (if acc = [] then [] else [acc]) @ str_fields_aux [] (drop (snd (decode_rune s)) s)
     else str_fields_aux (acc @ take (snd (decode_rune s)) s) (drop (snd (decode_rune s)) s))"
  by pat_completeness auto
termination
  by (relation "measure (\<lambda>(acc, s). length s)") (use decode_rune_width in fastforce)+

declare str_fields_aux.simps [simp del]

definition str_fields :: "string \<Rightarrow> string list" where "str_fields s = str_fields_aux [] s"

lemma str_fields_aux_Nil [simp]: "str_fields_aux acc [] = (if acc = [] then [] else [acc])"
  by (simp add: str_fields_aux.simps)

lemma str_fields_aux_ascii [go_text]:
  "byte c < 0x80 \<Longrightarrow> str_fields_aux acc (c # s) =
     (if is_space (byte c) then (if acc = [] then [] else [acc]) @ str_fields_aux [] s
      else str_fields_aux (acc @ [c]) s)"
  by (simp add: str_fields_aux.simps [of acc "c # s"] decode_rune_ascii)

lemma str_fields_aux_word:
  "ascii w \<Longrightarrow> (\<forall>c \<in> set w. \<not> is_space (byte c)) \<Longrightarrow> str_fields_aux acc (w @ s) = str_fields_aux (acc @ w) s"
  by (induction w arbitrary: acc) (auto simp: str_fields_aux_ascii)

text \<open>No field is empty.\<close>

lemma str_fields_aux_nonempty: "w \<in> set (str_fields_aux acc s) \<Longrightarrow> w \<noteq> []"
proof (induction acc s rule: str_fields_aux.induct)
  case (1 acc s)
  show ?case
  proof (cases "s = []")
    case True with 1 show ?thesis by (auto split: if_splits)
  next
    case False
    with 1 show ?thesis
      by (subst (asm) (3) str_fields_aux.simps) (auto simp: Let_def split: if_splits)
  qed
qed

lemma str_fields_nonempty: "w \<in> set (str_fields s) \<Longrightarrow> w \<noteq> []"
  by (simp add: str_fields_def str_fields_aux_nonempty)

declare is_space_def [go_text] space_runes_def [go_text]

section \<open>Searching, splitting, joining\<close>

definition has_prefix :: "string \<Rightarrow> string \<Rightarrow> bool" where "has_prefix s p = prefix p s"

definition trim_prefix :: "string \<Rightarrow> string \<Rightarrow> string" where
  "trim_prefix s p = (if prefix p s then drop (length p) s else s)"

text \<open>\<open>strings.IndexByte\<close>, with \<open>None\<close> for -1.\<close>

fun index_byte :: "string \<Rightarrow> char \<Rightarrow> nat option" where
  "index_byte [] c = None"
| "index_byte (x # xs) c = (if x = c then Some 0 else map_option Suc (index_byte xs c))"

lemma index_byte_None [simp]: "index_byte s c = None \<longleftrightarrow> c \<notin> set s"
  by (induction s) auto

lemma index_byte_Some:
  "index_byte s c = Some i \<Longrightarrow> i < length s \<and> s ! i = c \<and> c \<notin> set (take i s)"
  by (induction s arbitrary: i) (auto split: if_splits simp: nth_Cons' take_Cons')

definition contains_any :: "string \<Rightarrow> string \<Rightarrow> bool" where
  "contains_any s cs \<longleftrightarrow> (\<exists>c \<in> set s. c \<in> set cs)"

text \<open>\<open>strings.Contains\<close>.\<close>

definition contains_str :: "string \<Rightarrow> string \<Rightarrow> bool" where
  "contains_str s t = sublist t s"

text \<open>\<open>strings.Cut\<close> and \<open>strings.Split\<close> with a one-byte separator.\<close>

fun cut_byte :: "char \<Rightarrow> string \<Rightarrow> string \<times> string \<times> bool" where
  "cut_byte c [] = ([], [], False)"
| "cut_byte c (x # xs) = (if x = c then ([], xs, True)
     else (case cut_byte c xs of (b, a, found) \<Rightarrow> (x # b, a, found)))"

fun split_byte :: "char \<Rightarrow> string \<Rightarrow> string list" where
  "split_byte c [] = [[]]"
| "split_byte c (x # xs) = (if x = c then [] # split_byte c xs
     else (case split_byte c xs of [] \<Rightarrow> [[x]] | w # ws \<Rightarrow> (x # w) # ws))"

text \<open>\<open>strings.SplitN\<close>: at most \<open>n\<close> pieces, the last one unsplit.\<close>

fun split_n :: "nat \<Rightarrow> char \<Rightarrow> string \<Rightarrow> string list" where
  "split_n 0 c s = []"
| "split_n (Suc 0) c s = [s]"
| "split_n (Suc (Suc n)) c s = (case cut_byte c s of
     (b, a, found) \<Rightarrow> if found then b # split_n (Suc n) c a else [b])"

lemma split_n_length: "length (split_n n c s) \<le> n"
  by (induction n c s rule: split_n.induct) (auto split: prod.splits)

fun join :: "string \<Rightarrow> string list \<Rightarrow> string" where
  "join sep [] = []"
| "join sep [w] = w"
| "join sep (w # v # ws) = w @ sep @ join sep (v # ws)"

lemma cut_byte_notin: "c \<notin> set s \<Longrightarrow> cut_byte c s = (s, [], False)"
  by (induction s) auto

lemma cut_byte_split: "c \<notin> set s \<Longrightarrow> cut_byte c (s @ c # t) = (s, t, True)"
  by (induction s) auto

lemma cut_byte_notin_fst: "cut_byte c s = (b, a, f) \<Longrightarrow> c \<notin> set b"
  by (induction s arbitrary: b a f) (auto split: if_splits prod.splits)

lemma split_byte_not_Nil [simp]: "split_byte c s \<noteq> []"
  by (induction s) (auto split: list.splits)

lemma split_byte_notin: "c \<notin> set s \<Longrightarrow> split_byte c s = [s]"
  by (induction s) auto

lemma split_byte_sep: "c \<notin> set s \<Longrightarrow> split_byte c (s @ c # t) = s # split_byte c t"
  by (induction s) auto

lemma split_byte_elem: "w \<in> set (split_byte c s) \<Longrightarrow> c \<notin> set w"
  by (induction s arbitrary: w) (auto split: list.splits if_splits)

lemma split_join: "segs \<noteq> [] \<Longrightarrow> \<forall>w \<in> set segs. c \<notin> set w \<Longrightarrow> split_byte c (join [c] segs) = segs"
proof (induction segs)
  case (Cons w segs)
  then show ?case by (cases segs) (simp_all add: split_byte_notin split_byte_sep)
qed simp

lemma join_split_byte: "join [c] (split_byte c s) = s"
proof (induction s)
  case (Cons x xs)
  then show ?case
    by (cases "split_byte c xs") (auto, (metis join.simps(2,3) list.exhaust append_Cons)+)
qed simp

text \<open>\<open>strings.ReplaceAll(s, "\textbackslash r\textbackslash n", "\textbackslash n")\<close> and its single-byte form.\<close>

fun replace_crlf :: "string \<Rightarrow> string" where
  "replace_crlf (x # y # s) =
     (if x = CHR 13 \<and> y = CHR 10 then CHR 10 # replace_crlf s else x # replace_crlf (y # s))"
| "replace_crlf s = s"

definition replace_byte :: "char \<Rightarrow> string \<Rightarrow> string \<Rightarrow> string" where
  "replace_byte c w s = concat (map (\<lambda>x. if x = c then w else [x]) s)"

lemma replace_byte_simps [simp]:
  "replace_byte c w [] = []"
  "replace_byte c w (x # s) = (if x = c then w else [x]) @ replace_byte c w s"
  by (simp_all add: replace_byte_def)

lemma replace_byte_notin: "c \<notin> set s \<Longrightarrow> replace_byte c w s = s"
  by (induction s) auto

lemma replace_byte_append: "replace_byte c w (s @ t) = replace_byte c w s @ replace_byte c w t"
  by (simp add: replace_byte_def)

section \<open>Case\<close>

definition lower_rune :: "rune \<Rightarrow> rune" where
  "lower_rune r = (if 65 \<le> r \<and> r \<le> 90 then r + 32
     else if r = 0x130 then 105 else if r = 0x212A then 107 else r)"

definition upper_rune :: "rune \<Rightarrow> rune" where
  "upper_rune r = (if 97 \<le> r \<and> r \<le> 122 then r - 32
     else if r = 0x131 then 73 else if r = 0x17F then 83 else r)"

definition to_lower :: "string \<Rightarrow> string" where
  "to_lower s = unrunes (map lower_rune (runes s))"

definition to_upper :: "string \<Rightarrow> string" where
  "to_upper s = unrunes (map upper_rune (runes s))"

text \<open>\<open>strings.EqualFold\<close>: the case orbits that contain an ASCII letter.\<close>

definition fold_rune :: "rune \<Rightarrow> rune" where
  "fold_rune r = (if 65 \<le> r \<and> r \<le> 90 then r + 32
     else if r = 0x212A then 107 else if r = 0x17F then 115 else r)"

definition equal_fold :: "string \<Rightarrow> string \<Rightarrow> bool" where
  "equal_fold s t \<longleftrightarrow> map fold_rune (runes s) = map fold_rune (runes t)"

lemma equal_fold_equiv:
  "equal_fold s s" "equal_fold s t \<Longrightarrow> equal_fold t s"
  "equal_fold s t \<Longrightarrow> equal_fold t u \<Longrightarrow> equal_fold s u"
  by (simp_all add: equal_fold_def)

text \<open>An ASCII string with no lower (upper) case letter is its own upper (lower) case.\<close>

lemma to_upper_id:
  assumes "\<forall>c \<in> set s. byte c < 0x80 \<and> \<not> (97 \<le> byte c \<and> byte c \<le> 122)" shows "to_upper s = s"
proof -
  have "ascii s" using assms by (simp add: ascii_def)
  moreover have "map upper_rune (map byte s) = map byte s"
    using assms by (auto simp: upper_rune_def)
  ultimately show ?thesis by (simp add: to_upper_def runes_ascii unrunes_ascii del: map_map)
qed

lemma to_lower_id:
  assumes "\<forall>c \<in> set s. byte c < 0x80 \<and> \<not> (65 \<le> byte c \<and> byte c \<le> 90)" shows "to_lower s = s"
proof -
  have "ascii s" using assms by (simp add: ascii_def)
  moreover have "map lower_rune (map byte s) = map byte s"
    using assms by (auto simp: lower_rune_def)
  ultimately show ?thesis by (simp add: to_lower_def runes_ascii unrunes_ascii del: map_map)
qed

section \<open>Numbers\<close>

definition is_digit :: "char \<Rightarrow> bool" where
  "is_digit c \<longleftrightarrow> 48 \<le> byte c \<and> byte c \<le> 57"

definition digits_val :: "string \<Rightarrow> nat" where
  "digits_val = foldl (\<lambda>n c. 10 * n + (byte c - 48)) 0"

definition parse_digits :: "string \<Rightarrow> nat option" where
  "parse_digits s = (if s \<noteq> [] \<and> (\<forall>c \<in> set s. is_digit c) then Some (digits_val s) else None)"

text \<open>
  \<open>strconv.ParseInt(s, 10, 64)\<close>, which is also \<open>strconv.Atoi\<close> on the 64-bit
  targets; \<open>None\<close> is a syntax or range error. \<open>strconv.ParseUint(s, 10, 32)\<close>.
\<close>

definition parse_int64 :: "string \<Rightarrow> int option" where
  "parse_int64 s = (case s of [] \<Rightarrow> None | c # t \<Rightarrow>
     if c = CHR ''-'' then
       (case parse_digits t of None \<Rightarrow> None
        | Some n \<Rightarrow> if n \<le> 2 ^ 63 then Some (- int n) else None)
     else
       (case parse_digits (if c = CHR ''+'' then t else s) of None \<Rightarrow> None
        | Some n \<Rightarrow> if n < 2 ^ 63 then Some (int n) else None))"

definition parse_uint32 :: "string \<Rightarrow> nat option" where
  "parse_uint32 s = (case parse_digits s of None \<Rightarrow> None
     | Some n \<Rightarrow> if n < 2 ^ 32 then Some n else None)"

text \<open>\<open>strconv.Itoa\<close> and \<open>strconv.FormatInt(n, 10)\<close>.\<close>

fun nat_str :: "nat \<Rightarrow> string" where
  "nat_str n = (if n < 10 then [char_of (48 + n)] else nat_str (n div 10) @ [char_of (48 + n mod 10)])"

declare nat_str.simps [simp del]

definition int_str :: "int \<Rightarrow> string" where
  "int_str i = (if i < 0 then CHR ''-'' # nat_str (nat (- i)) else nat_str (nat i))"

lemma nat_str_digits: "c \<in> set (nat_str n) \<Longrightarrow> is_digit c"
proof (induction n rule: nat_str.induct)
  case (1 n)
  then show ?case
    by (subst (asm) (2) nat_str.simps) (auto simp: is_digit_def split: if_splits)
qed

lemma nat_str_not_Nil [simp]: "nat_str n \<noteq> []"
  by (subst nat_str.simps) simp

lemma digits_val_nat_str: "digits_val (nat_str n) = n"
proof (induction n rule: nat_str.induct)
  case (1 n)
  show ?case
  proof (cases "n < 10")
    case True then show ?thesis by (simp add: nat_str.simps digits_val_def)
  next
    case False
    with 1 have "digits_val (nat_str (n div 10)) = n div 10" by simp
    with False show ?thesis
      by (subst nat_str.simps) (simp add: digits_val_def)
  qed
qed

lemma parse_digits_nat_str [simp]: "parse_digits (nat_str n) = Some n"
  by (simp add: parse_digits_def digits_val_nat_str nat_str_digits)

lemma digit_ascii: "is_digit c \<Longrightarrow> byte c < 0x80 \<and> \<not> is_space (byte c)"
  by (auto simp: is_digit_def is_space_def space_runes_def)

lemma hd_nat_str: "is_digit (hd (nat_str n))"
  by (rule nat_str_digits [of _ n]) simp

text \<open>Formatting and parsing a number round trips on the whole int64 range.\<close>

lemma parse_int64_int_str:
  assumes "- (2 ^ 63) \<le> i" "i < 2 ^ 63"
  shows "parse_int64 (int_str i) = Some i"
proof (cases "i < 0")
  case True
  then have "nat (- i) \<le> 2 ^ 63" using assms by simp
  then show ?thesis using True by (simp add: parse_int64_def int_str_def)
next
  case False
  obtain c t where ct: "nat_str (nat i) = c # t" by (cases "nat_str (nat i)") auto
  then have "is_digit c" using hd_nat_str [of "nat i"] by simp
  then have c: "c \<noteq> CHR ''-''" "c \<noteq> CHR ''+''" by (auto simp: is_digit_def)
  have "nat i < 2 ^ 63" using assms False by (simp add: nat_less_iff)
  then show ?thesis
    using False c parse_digits_nat_str [of "nat i"] unfolding parse_int64_def int_str_def
    by (simp add: ct)
qed

lemma parse_uint32_nat_str: "n < 2 ^ 32 \<Longrightarrow> parse_uint32 (nat_str n) = Some n"
  by (simp add: parse_uint32_def)

lemma parse_int64_range: "parse_int64 s = Some i \<Longrightarrow> - (2 ^ 63) \<le> i \<and> i < 2 ^ 63"
  by (auto simp: parse_int64_def split: list.splits if_splits option.splits)

end
