(* ===== verification/Mode_Parse.thy ===== *)
theory Mode_Parse
  imports Go_Text "HOL-Library.Finite_Map"
begin

text \<open>
  The channel-mode grammar of \<open>internal/irc/modeparse.go\<close>: classification of mode
  letters by the CHANMODES and PREFIX tokens, the mode-string parser, and the canonical
  channel mode state with its parser, printer and update. A Go \<open>map[rune]bool\<close> is a
  finite set, a \<open>map[rune]string\<close> a finite map.
\<close>

definition defaultChanModes :: string where
  "defaultChanModes = ''b,k,l,imnstp''"

datatype ModeKind =
  ModeKindFlag | ModeKindList | ModeKindParam | ModeKindSetParam | ModeKindPrefix

record ModeChange =
  mcAdd :: bool
  mcMode :: rune
  mcParam :: string
  mcKind :: ModeKind

record ModeClassification =
  ListModes :: "rune fset"
  ParamModes :: "rune fset"
  SetParamModes :: "rune fset"
  FlagModes :: "rune fset"
  PrefixModes :: "rune fset"

definition kindOf :: "ModeClassification \<Rightarrow> rune \<Rightarrow> ModeKind" where
  "kindOf c m =
     (if m |\<in>| PrefixModes c then ModeKindPrefix
      else if m |\<in>| ListModes c then ModeKindList
      else if m |\<in>| ParamModes c then ModeKindParam
      else if m |\<in>| SetParamModes c then ModeKindSetParam
      else ModeKindFlag)"

fun consumesParam :: "ModeKind \<Rightarrow> bool \<Rightarrow> bool" where
  "consumesParam ModeKindList add = True"
| "consumesParam ModeKindParam add = True"
| "consumesParam ModeKindPrefix add = True"
| "consumesParam ModeKindSetParam add = add"
| "consumesParam ModeKindFlag add = False"

text \<open>
  The loop of \<open>ParseModeChanges\<close>: its state is the operator in force and the index
  \<open>pi\<close> of the next parameter.
\<close>

fun parse_mode_loop ::
    "string list \<Rightarrow> ModeClassification \<Rightarrow> bool \<Rightarrow> nat \<Rightarrow> rune list \<Rightarrow> ModeChange list" where
  "parse_mode_loop params cls add pi [] = []"
| "parse_mode_loop params cls add pi (r # rs) =
     (if r = 43 then parse_mode_loop params cls True pi rs
      else if r = 45 then parse_mode_loop params cls False pi rs
      else if consumesParam (kindOf cls r) add \<and> pi < length params
      then \<lparr>mcAdd = add, mcMode = r, mcParam = params ! pi, mcKind = kindOf cls r\<rparr>
           # parse_mode_loop params cls add (Suc pi) rs
      else \<lparr>mcAdd = add, mcMode = r, mcParam = [], mcKind = kindOf cls r\<rparr>
           # parse_mode_loop params cls add pi rs)"

definition ParseModeChanges ::
    "string \<Rightarrow> string list \<Rightarrow> ModeClassification \<Rightarrow> ModeChange list" where
  "ParseModeChanges modeStr params cls = parse_mode_loop params cls True 0 (runes modeStr)"

definition nth_group :: "string list \<Rightarrow> nat \<Rightarrow> rune fset" where
  "nth_group groups i = (if i < length groups then fset_of_list (runes (groups ! i)) else {||})"

definition classifyChanModes :: "string \<Rightarrow> rune fset \<times> rune fset \<times> rune fset \<times> rune fset" where
  "classifyChanModes chanModes =
     (let groups = split_n 4 (CHR '','') chanModes
      in (nth_group groups 0, nth_group groups 1, nth_group groups 2, nth_group groups 3))"

definition parseExtban :: "string \<Rightarrow> (rune \<times> rune fset) option" where
  "parseExtban value = (case cut_byte (CHR '','') value of (pfx, types, found) \<Rightarrow>
     if \<not> found then None
     else Some ((case runes pfx of [] \<Rightarrow> 0 | r # _ \<Rightarrow> r), fset_of_list (runes types)))"

definition sortedRunes :: "rune fset \<Rightarrow> string" where
  "sortedRunes m = unrunes (sorted_list_of_fset m)"

record ChannelModeState =
  stFlags :: "rune fset"
  stParams :: "(rune, string) fmap"

definition empty_state :: ChannelModeState where
  "empty_state = \<lparr>stFlags = {||}, stParams = fmempty\<rparr>"

text \<open>The body of the loop of \<open>parseChannelModeState\<close> ignores the operator.\<close>

fun set_mode :: "ModeChange \<Rightarrow> ChannelModeState \<Rightarrow> ChannelModeState" where
  "set_mode ch st = (case mcKind ch of
     ModeKindFlag \<Rightarrow> st\<lparr>stFlags := finsert (mcMode ch) (stFlags st)\<rparr>
   | ModeKindParam \<Rightarrow> st\<lparr>stParams := fmupd (mcMode ch) (mcParam ch) (stParams st)\<rparr>
   | ModeKindSetParam \<Rightarrow> st\<lparr>stParams := fmupd (mcMode ch) (mcParam ch) (stParams st)\<rparr>
   | _ \<Rightarrow> st)"

definition parseChannelModeState :: "string \<Rightarrow> ModeClassification \<Rightarrow> ChannelModeState" where
  "parseChannelModeState s0 cls =
     (let s = trim_space s0 in
      if s = [] then empty_state
      else (case str_fields s of [] \<Rightarrow> empty_state
            | modeStr # rest \<Rightarrow>
                let modeStr' = (if \<not> has_prefix modeStr ''+'' \<and> \<not> has_prefix modeStr ''-''
                                then CHR ''+'' # modeStr else modeStr)
                in fold set_mode (ParseModeChanges modeStr' rest cls) empty_state))"

text \<open>The letters of a state: stFlags and parameter letters, sorted.\<close>

definition letters :: "ChannelModeState \<Rightarrow> rune list" where
  "letters st = sort (sorted_list_of_fset (stFlags st) @ sorted_list_of_fset (fmdom (stParams st)))"

definition mode_args :: "ChannelModeState \<Rightarrow> string list" where
  "mode_args st = filter (\<lambda>v. v \<noteq> [])
     (map (\<lambda>m. case fmlookup (stParams st) m of None \<Rightarrow> [] | Some v \<Rightarrow> v) (letters st))"

definition mode_string :: "ChannelModeState \<Rightarrow> string" where
  "mode_string st =
     (if letters st = [] then []
      else CHR ''+'' # unrunes (letters st)
             @ concat (map (\<lambda>v. CHR '' '' # v) (mode_args st)))"

fun apply_mode :: "ModeChange \<Rightarrow> ChannelModeState \<Rightarrow> ChannelModeState" where
  "apply_mode ch st = (case mcKind ch of
     ModeKindFlag \<Rightarrow>
       if mcAdd ch then st\<lparr>stFlags := finsert (mcMode ch) (stFlags st)\<rparr>
       else st\<lparr>stFlags := stFlags st |-| {|mcMode ch|}\<rparr>
   | ModeKindParam \<Rightarrow>
       if mcAdd ch then st\<lparr>stParams := fmupd (mcMode ch) (mcParam ch) (stParams st)\<rparr>
       else st\<lparr>stParams := fmdrop (mcMode ch) (stParams st)\<rparr>
   | ModeKindSetParam \<Rightarrow>
       if mcAdd ch then st\<lparr>stParams := fmupd (mcMode ch) (mcParam ch) (stParams st)\<rparr>
       else st\<lparr>stParams := fmdrop (mcMode ch) (stParams st)\<rparr>
   | _ \<Rightarrow> st)"

definition applyChannelModes :: "string \<Rightarrow> ModeChange list \<Rightarrow> ModeClassification \<Rightarrow> string" where
  "applyChannelModes prior changes cls =
     mode_string (fold apply_mode changes (parseChannelModeState prior cls))"

section \<open>The parser consumes parameters in order\<close>

definition takes_param :: "ModeChange \<Rightarrow> bool" where
  "takes_param ch \<longleftrightarrow> consumesParam (mcKind ch) (mcAdd ch)"

lemma loop_params:
  "let cs = parse_mode_loop ps cls add pi rs; n = length (filter takes_param cs) in
   map mcParam (filter takes_param cs)
     = take n (drop pi ps) @ replicate (n - (length ps - pi)) []"
proof (induction rs arbitrary: add pi)
  case (Cons r rs)
  show ?case
  proof (cases "r \<noteq> 43 \<and> r \<noteq> 45 \<and> consumesParam (kindOf cls r) add \<and> pi < length ps")
    case True
    then have "drop pi ps = ps ! pi # drop (Suc pi) ps" by (simp add: Cons_nth_drop_Suc)
    with True Cons.IH [of add "Suc pi"] show ?thesis
      by (simp add: Let_def takes_param_def Suc_diff_Suc)
  next
    case False
    show ?thesis
    proof (cases "r = 43 \<or> r = 45 \<or> \<not> consumesParam (kindOf cls r) add")
      case True
      then show ?thesis using Cons.IH [of _ pi] by (auto simp: Let_def takes_param_def)
    next
      case exhausted: False
      with False have "length ps \<le> pi" by auto
      with exhausted Cons.IH [of add pi] show ?thesis
        by (simp add: Let_def takes_param_def)
    qed
  qed
qed (simp add: Let_def)

lemma loop_no_param: "ch \<in> set (parse_mode_loop ps cls add pi rs) \<Longrightarrow> \<not> takes_param ch \<Longrightarrow> mcParam ch = []"
  by (induction rs arbitrary: add pi) (auto simp: takes_param_def split: if_splits)

lemma loop_modes: "map mcMode (parse_mode_loop ps cls add pi rs) = filter (\<lambda>r. r \<noteq> 43 \<and> r \<noteq> 45) rs"
  by (induction rs arbitrary: add pi) auto

lemma loop_kind: "ch \<in> set (parse_mode_loop ps cls add pi rs) \<Longrightarrow> mcKind ch = kindOf cls (mcMode ch)"
  by (induction rs arbitrary: add pi) (auto split: if_splits)

text \<open>
  Every mode letter of the mode string yields one change, in order; the changes whose
  class takes a parameter get the parameters of the list in order and without gaps, empty
  ones only once the list is used up; the other changes get none.
\<close>

theorem ParseModeChanges_params:
  defines "takers \<equiv> \<lambda>s ps cls. filter takes_param (ParseModeChanges s ps cls)"
  shows "map mcMode (ParseModeChanges s ps cls) = filter (\<lambda>r. r \<noteq> 43 \<and> r \<noteq> 45) (runes s)
    \<and> map mcParam (takers s ps cls) = take (length (takers s ps cls)) ps
         @ replicate (length (takers s ps cls) - length ps) []
    \<and> filter (\<lambda>ch. \<not> takes_param ch \<and> mcParam ch \<noteq> []) (ParseModeChanges s ps cls) = []"
  using loop_params [of ps cls True 0 "runes s"] loop_modes [of ps cls True 0 "runes s"]
    loop_no_param [of _ ps cls True 0 "runes s"]
  by (auto simp: takers_def ParseModeChanges_def Let_def filter_empty_conv)

section \<open>The canonical mode string\<close>

text \<open>
  A state is well formed for a classification when its letters are printable ASCII other
  than the operators, flags and parameter modes have the matching class, and every
  parameter is a nonempty printable word.
\<close>

definition letter_ok :: "rune \<Rightarrow> bool" where
  "letter_ok m \<longleftrightarrow> m < 0x80 \<and> \<not> is_space m \<and> m \<noteq> 43 \<and> m \<noteq> 45"

definition word_ok :: "string \<Rightarrow> bool" where
  "word_ok v \<longleftrightarrow> v \<noteq> [] \<and> (\<forall>c \<in> set v. solid c)"

definition is_param_kind :: "ModeKind \<Rightarrow> bool" where
  "is_param_kind k \<longleftrightarrow> k = ModeKindParam \<or> k = ModeKindSetParam"

definition wf_state :: "ModeClassification \<Rightarrow> ChannelModeState \<Rightarrow> bool" where
  "wf_state cls st \<longleftrightarrow>
     (\<forall>m \<in> fset (stFlags st). letter_ok m \<and> kindOf cls m = ModeKindFlag)
   \<and> (\<forall>m \<in> fset (fmdom (stParams st)). letter_ok m \<and> is_param_kind (kindOf cls m))
   \<and> (\<forall>m v. fmlookup (stParams st) m = Some v \<longrightarrow> word_ok v)"

lemma set_letters: "set (letters st) = fset (stFlags st) \<union> fset (fmdom (stParams st))"
  by (simp add: letters_def)

lemma wf_letters_distinct:
  assumes "wf_state cls st" shows "distinct (letters st)"
proof -
  have "fset (stFlags st) \<inter> fset (fmdom (stParams st)) = {}"
    using assms by (fastforce simp: wf_state_def is_param_kind_def)
  then show ?thesis by (simp add: letters_def sorted_list_of_fset.rep_eq)
qed

lemma wf_letters_ok: "wf_state cls st \<Longrightarrow> m \<in> set (letters st) \<Longrightarrow> letter_ok m"
  by (auto simp: set_letters wf_state_def)

lemma str_fields_aux_words:
  "acc @ w \<noteq> [] \<Longrightarrow> (\<forall>c \<in> set w. solid c) \<Longrightarrow> (\<forall>v \<in> set vs. word_ok v) \<Longrightarrow>
   str_fields_aux acc (w @ concat (map (\<lambda>v. CHR '' '' # v) vs)) = (acc @ w) # vs"
proof (induction vs arbitrary: acc w)
  case Nil
  then have "str_fields_aux acc (w @ []) = str_fields_aux (acc @ w) []"
    by (intro str_fields_aux_word) (auto simp: ascii_def solid_def)
  with Nil show ?case by simp
next
  case (Cons v vs)
  have sp: "is_space 32" by (simp add: go_text)
  have "str_fields_aux acc (w @ CHR '' '' # v @ concat (map (\<lambda>v. CHR '' '' # v) vs))
      = str_fields_aux (acc @ w) (CHR '' '' # v @ concat (map (\<lambda>v. CHR '' '' # v) vs))"
    using Cons.prems by (intro str_fields_aux_word) (auto simp: ascii_def solid_def)
  also have "\<dots> = (acc @ w) # str_fields_aux [] (v @ concat (map (\<lambda>v. CHR '' '' # v) vs))"
    using Cons.prems(1) sp by (simp add: str_fields_aux_ascii)
  also have "str_fields_aux [] (v @ concat (map (\<lambda>v. CHR '' '' # v) vs)) = ([] @ v) # vs"
    using Cons.prems by (intro Cons.IH) (auto simp: word_ok_def)
  finally show ?case by simp
qed

text \<open>The change that sets letter \<open>m\<close> to its value in \<open>st\<close>.\<close>

definition value_of :: "ChannelModeState \<Rightarrow> rune \<Rightarrow> string" where
  "value_of st m = (case fmlookup (stParams st) m of None \<Rightarrow> [] | Some v \<Rightarrow> v)"

definition change_of :: "ModeClassification \<Rightarrow> ChannelModeState \<Rightarrow> rune \<Rightarrow> ModeChange" where
  "change_of cls st m =
     \<lparr>mcAdd = True, mcMode = m, mcParam = value_of st m, mcKind = kindOf cls m\<rparr>"

lemma mode_args_value_of: "mode_args st = filter (\<lambda>v. v \<noteq> []) (map (value_of st) (letters st))"
  by (simp add: mode_args_def value_of_def cong: map_cong)

lemma wf_letter_cases:
  assumes "wf_state cls st" "m \<in> set (letters st)"
  shows "(kindOf cls m = ModeKindFlag \<and> m |\<in>| stFlags st \<and> fmlookup (stParams st) m = None)
       \<or> (is_param_kind (kindOf cls m) \<and> m |\<notin>| stFlags st
            \<and> fmlookup (stParams st) m = Some (value_of st m) \<and> word_ok (value_of st m))"
proof (cases "m |\<in>| fmdom (stParams st)")
  case True
  then obtain v where v: "fmlookup (stParams st) m = Some v" by (auto simp: fmlookup_dom_iff)
  have k: "is_param_kind (kindOf cls m)" using True assms(1) by (simp add: wf_state_def)
  then have "m |\<notin>| stFlags st" using assms(1) by (auto simp: wf_state_def is_param_kind_def)
  with k v assms(1) show ?thesis by (simp add: wf_state_def value_of_def)
next
  case False
  with assms show ?thesis by (auto simp: wf_state_def set_letters fmdom_notD)
qed

lemma parse_mode_loop_values:
  assumes "wf_state cls st" "set ls \<subseteq> set (letters st)"
  shows "parse_mode_loop (xs @ filter (\<lambda>v. v \<noteq> []) (map (value_of st) ls)) cls True (length xs) ls
       = map (change_of cls st) ls"
  using assms(2)
proof (induction ls arbitrary: xs)
  case (Cons m ls)
  let ?rest = "filter (\<lambda>v. v \<noteq> []) (map (value_of st) ls)"
  have m: "m \<in> set (letters st)" using Cons.prems by simp
  then have ok: "m \<noteq> 43" "m \<noteq> 45"
    using wf_letters_ok [OF assms(1)] by (auto simp: letter_ok_def)
  from wf_letter_cases [OF assms(1) m] show ?case
  proof (elim disjE conjE)
    assume "kindOf cls m = ModeKindFlag" "fmlookup (stParams st) m = None"
    then show ?thesis
      using Cons.IH [of xs] Cons.prems ok by (simp add: change_of_def value_of_def)
  next
    assume k: "is_param_kind (kindOf cls m)" and v: "word_ok (value_of st m)"
    then have "consumesParam (kindOf cls m) True" by (auto simp: is_param_kind_def)
    moreover have "parse_mode_loop ((xs @ [value_of st m]) @ ?rest) cls True (Suc (length xs)) ls
        = map (change_of cls st) ls"
      using Cons.IH [of "xs @ [value_of st m]"] Cons.prems by simp
    ultimately show ?thesis using v ok by (simp add: change_of_def word_ok_def)
  qed
qed simp

lemma fold_set_mode_flags:
  "m |\<in>| stFlags (fold set_mode cs st) \<longleftrightarrow>
     m |\<in>| stFlags st \<or> (\<exists>ch \<in> set cs. mcMode ch = m \<and> mcKind ch = ModeKindFlag)"
  by (induction cs arbitrary: st) (auto split: ModeKind.splits)

lemma fold_set_mode_params:
  assumes "\<And>ch. ch \<in> set cs \<Longrightarrow> mcMode ch = m \<Longrightarrow> is_param_kind (mcKind ch) \<Longrightarrow> mcParam ch = v"
  shows "fmlookup (stParams (fold set_mode cs st)) m =
    (if \<exists>ch \<in> set cs. mcMode ch = m \<and> is_param_kind (mcKind ch) then Some v
     else fmlookup (stParams st) m)"
  using assms by (induction cs arbitrary: st) (auto simp: is_param_kind_def split: ModeKind.splits)

lemma fold_changes_of:
  assumes "wf_state cls st"
  shows "fold set_mode (map (change_of cls st) (letters st)) empty_state = st" (is "?s = st")
proof -
  have "stFlags ?s = stFlags st"
  proof (rule fset_eqI)
    fix m show "m |\<in>| stFlags ?s \<longleftrightarrow> m |\<in>| stFlags st"
      unfolding fold_set_mode_flags
      using wf_letter_cases [OF assms, of m]
      by (auto simp: empty_state_def change_of_def set_letters is_param_kind_def)
  qed
  moreover have "stParams ?s = stParams st"
  proof (rule fmap_ext)
    fix m
    have look: "fmlookup (stParams ?s) m =
        (if m \<in> set (letters st) \<and> is_param_kind (kindOf cls m) then Some (value_of st m) else None)"
      by (subst fold_set_mode_params [where v = "value_of st m"])
         (auto simp: change_of_def empty_state_def)
    show "fmlookup (stParams ?s) m = fmlookup (stParams st) m"
    proof (cases "m \<in> set (letters st)")
      case True
      with wf_letter_cases [OF assms True] show ?thesis
        by (auto simp: look is_param_kind_def)
    next
      case False
      then have "fmlookup (stParams st) m = None" by (simp add: set_letters fmdom_notD)
      with False show ?thesis by (simp add: look)
    qed
  qed
  ultimately show ?thesis by simp
qed

lemma unrunes_letters_ok:
  "\<forall>m \<in> set ls. letter_ok m \<Longrightarrow> unrunes ls = map char_of ls"
  by (induction ls) (auto simp: letter_ok_def)

lemma runes_letters_ok:
  "\<forall>m \<in> set ls. letter_ok m \<Longrightarrow> runes (map char_of ls) = ls"
  by (induction ls) (auto simp: letter_ok_def)

lemma letter_ok_solid: "letter_ok m \<Longrightarrow> solid (char_of m)"
  by (simp add: letter_ok_def solid_def)

lemma mode_string_words:
  assumes wf: "wf_state cls st" and ne: "letters st \<noteq> []"
  shows "trim_space (mode_string st) = mode_string st"
    and "str_fields (mode_string st) = (CHR ''+'' # map char_of (letters st)) # mode_args st"
proof -
  let ?w = "CHR ''+'' # map char_of (letters st)"
  have ms: "mode_string st = ?w @ concat (map (\<lambda>v. CHR '' '' # v) (mode_args st))"
    using ne wf_letters_ok [OF wf] by (simp add: mode_string_def unrunes_letters_ok)
  have plus: "solid (CHR ''+'')" by (simp add: solid_def go_text)
  have w: "\<forall>c \<in> set ?w. solid c"
    using wf_letters_ok [OF wf] letter_ok_solid plus by auto
  have args: "\<forall>v \<in> set (mode_args st). word_ok v"
  proof
    fix v assume "v \<in> set (mode_args st)"
    then obtain m where "v = value_of st m" "v \<noteq> []" "m \<in> set (letters st)"
      by (auto simp: mode_args_value_of)
    then show "word_ok v" using wf_letter_cases [OF wf, of m] by (auto simp: value_of_def)
  qed
  show "str_fields (mode_string st) = ?w # mode_args st"
    unfolding ms str_fields_def using str_fields_aux_words [of "[]" ?w "mode_args st"] w args by simp
  have "solid (last (mode_string st))"
  proof (cases "mode_args st" rule: rev_cases)
    case Nil
    then show ?thesis using w ne by (simp add: ms last_map wf_letters_ok [OF wf] letter_ok_solid)
  next
    case (snoc vs v)
    then have "word_ok v" using args by simp
    then show ?thesis unfolding ms snoc by (simp add: word_ok_def)
  qed
  then show "trim_space (mode_string st) = mode_string st"
    by (intro trim_space_solid) (auto simp: ms plus)
qed

lemma parse_mode_string_roundtrip_aux:
  assumes wf: "wf_state cls st"
  shows "parseChannelModeState (mode_string st) cls = st"
proof (cases "letters st = []")
  case True
  then have "fset (stFlags st) = {}" "fset (fmdom (stParams st)) = {}"
    using set_letters [of st] by auto
  then have "stFlags st = {||}" "stParams st = fmempty"
    by (auto simp: fset_inject [symmetric] intro!: fmap_ext fmdom_notD)
  then show ?thesis
    using True by (simp add: mode_string_def parseChannelModeState_def empty_state_def)
next
  case False
  let ?ls = "letters st"
  note w = mode_string_words [OF wf False]
  have "ParseModeChanges (CHR ''+'' # map char_of ?ls) (mode_args st) cls = map (change_of cls st) ?ls"
    using parse_mode_loop_values [OF wf subset_refl, of "[]"] wf_letters_ok [OF wf]
    by (simp add: ParseModeChanges_def runes_letters_ok mode_args_value_of)
  moreover have "mode_string st \<noteq> []" using False by (simp add: mode_string_def)
  ultimately show ?thesis
    using fold_changes_of [OF wf]
    by (simp add: parseChannelModeState_def w has_prefix_def Let_def)
qed

text \<open>
  Parsing the canonical string of a well-formed channel mode state gives the state back:
  nothing is lost or realigned on the way through the stored mode string.
\<close>

theorem parse_mode_string_roundtrip:
  assumes "wf_state cls st"
  shows "parseChannelModeState (mode_string st) cls = st"
  using assms by (rule parse_mode_string_roundtrip_aux)

text \<open>A concrete classification: the RFC 1459 defaults with op and voice.\<close>

definition rfc_class :: ModeClassification where
  "rfc_class = (case classifyChanModes defaultChanModes of (a, b, c, d) \<Rightarrow>
     \<lparr>ListModes = a, ParamModes = b, SetParamModes = c, FlagModes = d,
      PrefixModes = {|111, 118|}\<rparr>)"

lemma rfc_class_eq:
  "rfc_class = \<lparr>ListModes = {|98|}, ParamModes = {|107|}, SetParamModes = {|108|},
     FlagModes = {|105, 109, 110, 115, 116, 112|}, PrefixModes = {|111, 118|}\<rparr>"
  by (simp add: rfc_class_def classifyChanModes_def defaultChanModes_def nth_group_def
      numeral_eq_Suc go_text)

lemma rfc_class_kinds:
  "kindOf rfc_class 107 = ModeKindParam" "kindOf rfc_class 108 = ModeKindSetParam"
  "kindOf rfc_class 110 = ModeKindFlag" "kindOf rfc_class 116 = ModeKindFlag"
  by (simp_all add: rfc_class_eq kindOf_def)

definition keyed_state :: ChannelModeState where
  "keyed_state = \<lparr>stFlags = {|110, 116|}, stParams = fmupd 107 ''pw'' fmempty\<rparr>"

lemma wf_keyed_state: "wf_state rfc_class keyed_state"
  by (auto simp: wf_state_def keyed_state_def rfc_class_kinds letter_ok_def is_param_kind_def
      word_ok_def solid_def go_text split: if_splits)

theorem parse_mode_string_roundtrip_witness:
  "wf_state rfc_class keyed_state \<and> parseChannelModeState (mode_string keyed_state) rfc_class = keyed_state"
  using wf_keyed_state parse_mode_string_roundtrip [OF wf_keyed_state] by simp

section \<open>Applying changes\<close>

definition last_change :: "rune \<Rightarrow> ModeChange list \<Rightarrow> ModeChange option" where
  "last_change m cs = List.find (\<lambda>ch. mcMode ch = m) (rev cs)"

lemma last_change_snoc:
  "last_change m (cs @ [ch]) = (if mcMode ch = m then Some ch else last_change m cs)"
  by (simp add: last_change_def)

lemma fold_apply_flags:
  assumes "kindOf cls m = ModeKindFlag" "\<forall>ch \<in> set cs. mcKind ch = kindOf cls (mcMode ch)"
  shows "m |\<in>| stFlags (fold apply_mode cs st) \<longleftrightarrow>
    (case last_change m cs of None \<Rightarrow> m |\<in>| stFlags st | Some ch \<Rightarrow> mcAdd ch)"
  using assms
proof (induction cs rule: rev_induct)
  case (snoc ch cs)
  then show ?case
    by (cases "mcKind ch") (auto simp: last_change_snoc split: option.splits)
qed (simp add: last_change_def)

lemma fold_apply_params:
  assumes "is_param_kind (kindOf cls m)" "\<forall>ch \<in> set cs. mcKind ch = kindOf cls (mcMode ch)"
  shows "fmlookup (stParams (fold apply_mode cs st)) m =
    (case last_change m cs of None \<Rightarrow> fmlookup (stParams st) m
     | Some ch \<Rightarrow> if mcAdd ch then Some (mcParam ch) else None)"
  using assms
proof (induction cs rule: rev_induct)
  case (snoc ch cs)
  then show ?case
    by (cases "mcKind ch") (auto simp: last_change_snoc is_param_kind_def split: option.splits)
qed (simp add: last_change_def)

lemma apply_mode_wf:
  assumes "wf_state cls st" "mcKind ch = kindOf cls (mcMode ch)" "letter_ok (mcMode ch)"
    "is_param_kind (mcKind ch) \<Longrightarrow> mcAdd ch \<Longrightarrow> word_ok (mcParam ch)"
  shows "wf_state cls (apply_mode ch st)"
  using assms by (cases "mcKind ch") (auto simp: wf_state_def is_param_kind_def split: if_splits)

text \<open>The changes a server line with usable letters and complete parameters carries.\<close>

definition wf_change :: "ModeClassification \<Rightarrow> ModeChange \<Rightarrow> bool" where
  "wf_change cls ch \<longleftrightarrow> mcKind ch = kindOf cls (mcMode ch) \<and> letter_ok (mcMode ch)
     \<and> (is_param_kind (mcKind ch) \<and> mcAdd ch \<longrightarrow> word_ok (mcParam ch))"

lemma fold_apply_wf:
  "wf_state cls st \<Longrightarrow> (\<forall>ch \<in> set cs. wf_change cls ch) \<Longrightarrow> wf_state cls (fold apply_mode cs st)"
  by (induction cs arbitrary: st) (auto simp: wf_change_def simp del: apply_mode.simps intro: apply_mode_wf)

text \<open>
  Folding well-formed changes into a stored mode string and parsing the result again
  shows, for every flag, the operator of its last change (the old flag when there is
  none), and for every parameter mode the parameter of its last change when that set it.
\<close>

theorem applyChannelModes_last_wins:
  assumes wf: "wf_state cls (parseChannelModeState prior cls)"
    and changes: "\<forall>ch \<in> set cs. wf_change cls ch"
  defines "after \<equiv> parseChannelModeState (applyChannelModes prior cs cls) cls"
  shows "(kindOf cls m = ModeKindFlag \<longrightarrow>
            (m |\<in>| stFlags after \<longleftrightarrow>
              (case last_change m cs of
                 None \<Rightarrow> m |\<in>| stFlags (parseChannelModeState prior cls) | Some ch \<Rightarrow> mcAdd ch)))
       \<and> (is_param_kind (kindOf cls m) \<longrightarrow>
            fmlookup (stParams after) m =
              (case last_change m cs of
                 None \<Rightarrow> fmlookup (stParams (parseChannelModeState prior cls)) m
               | Some ch \<Rightarrow> if mcAdd ch then Some (mcParam ch) else None))"
proof -
  have after: "after = fold apply_mode cs (parseChannelModeState prior cls)"
    unfolding after_def applyChannelModes_def
    by (rule parse_mode_string_roundtrip_aux) (rule fold_apply_wf [OF wf changes])
  show ?thesis
    unfolding after using fold_apply_flags [of cls m cs] fold_apply_params [of cls m cs] changes
    by (auto simp: wf_change_def)
qed

theorem applyChannelModes_last_wins_witness:
  defines "cs \<equiv> [\<lparr>mcAdd = False, mcMode = 110, mcParam = [], mcKind = ModeKindFlag\<rparr>,
                 \<lparr>mcAdd = True, mcMode = 107, mcParam = ''new'', mcKind = ModeKindParam\<rparr>]"
  shows "110 |\<notin>| stFlags (parseChannelModeState (applyChannelModes (mode_string keyed_state) cs rfc_class) rfc_class)
    \<and> fmlookup (stParams (parseChannelModeState (applyChannelModes (mode_string keyed_state) cs rfc_class) rfc_class)) 107
        = Some ''new''"
proof -
  have wf: "wf_state rfc_class (parseChannelModeState (mode_string keyed_state) rfc_class)"
    by (simp add: parse_mode_string_roundtrip_aux wf_keyed_state)
  have cs: "\<forall>ch \<in> set cs. wf_change rfc_class ch"
    by (simp add: cs_def wf_change_def rfc_class_kinds letter_ok_def word_ok_def solid_def
        is_param_kind_def go_text)
  show ?thesis
    using applyChannelModes_last_wins [OF wf cs, of 110] applyChannelModes_last_wins [OF wf cs, of 107]
    by (simp add: rfc_class_kinds last_change_def cs_def is_param_kind_def)
qed

text \<open>
  Without the completeness hypothesis the stored string loses the alignment: a key set
  without a parameter prints as a letter with no word, and the next parse gives the key the
  user limit's parameter.
\<close>

lemma empty_param_misaligns:
  "mode_string \<lparr>stFlags = {||}, stParams = fmupd 108 ''5'' (fmupd 107 [] fmempty)\<rparr> = ''+kl 5''"
  "fmlookup (stParams (parseChannelModeState ''+kl 5'' rfc_class)) 107 = Some ''5''"
proof -
  have chars: "char_of (107 :: nat) = CHR ''k''" "char_of (108 :: nat) = CHR ''l''"
    using char_of_char [of "CHR ''k''", where 'a = nat] char_of_char [of "CHR ''l''", where 'a = nat]
    by simp_all
  show "mode_string \<lparr>stFlags = {||}, stParams = fmupd 108 ''5'' (fmupd 107 [] fmempty)\<rparr> = ''+kl 5''"
    by (simp add: mode_string_def mode_args_def letters_def sorted_list_of_fset.rep_eq
        finsert_commute insert_commute unrunes_def chars)
  have "trim_space ''+kl 5'' = ''+kl 5''"
    by (rule trim_space_solid) (simp_all add: solid_def go_text)
  then show "fmlookup (stParams (parseChannelModeState ''+kl 5'' rfc_class)) 107 = Some ''5''"
    by (simp add: parseChannelModeState_def str_fields_def go_text has_prefix_def
        ParseModeChanges_def rfc_class_kinds)
qed

end
