(* ===== verification/Ip_Addr.thy ===== *)
theory Ip_Addr
  imports Go_Text "HOL-Library.Word"
begin

text \<open>
  IP addresses as the program uses them through Go's \<open>net\<close> and \<open>net/netip\<close>: the
  address values, the classification predicates, and the textual parser of
  \<open>netip.ParseAddr\<close> (without zones) that \<open>net.ParseIP\<close> shares. The dial guard
  of \<open>internal/unfurl/guard.go\<close> is at the end.
\<close>

datatype ip = V4 "32 word" | V6 "128 word"

text \<open>\<open>Addr.Unmap\<close>, which is also what \<open>net.IP.To4\<close> does: an IPv4-mapped IPv6 address is the IPv4 address.\<close>

definition mapped :: "32 word \<Rightarrow> 128 word" where
  "mapped w = word_of_nat (0xFFFF * 2 ^ 32 + unat w)"

fun unmap :: "ip \<Rightarrow> ip" where
  "unmap (V4 w) = V4 w"
| "unmap (V6 w) = (if unat w div 2 ^ 32 = 0xFFFF then V4 (word_of_nat (unat w mod 2 ^ 32)) else V6 w)"

lemma unat_mapped: "unat (mapped w) = 0xFFFF * 2 ^ 32 + unat w"
proof -
  have "unat w < 2 ^ 32" using unsigned_less [of w, where 'a = nat] by simp
  then show ?thesis unfolding mapped_def by (subst unat_of_nat) simp
qed

lemma unmap_mapped: "unmap (V6 (mapped w)) = V4 w"
proof -
  have w: "unat w < 2 ^ 32" using unsigned_less [of w, where 'a = nat] by simp
  have "(0xFFFF * 2 ^ 32 + unat w) div 2 ^ 32 = 0xFFFF" using w by simp
  moreover have "(0xFFFF * 2 ^ 32 + unat w) mod 2 ^ 32 = unat w"
    using w by (subst add.commute, subst mod_mult_self1) (simp only: mod_less)
  ultimately show ?thesis by (simp only: unmap.simps unat_mapped) simp
qed

section \<open>Classification\<close>

definition v4_octet0 :: "32 word \<Rightarrow> nat" where "v4_octet0 w = unat w div 2 ^ 24"
definition v6_byte0 :: "128 word \<Rightarrow> nat" where "v6_byte0 w = unat w div 2 ^ 120"
definition v6_byte1 :: "128 word \<Rightarrow> nat" where "v6_byte1 w = unat w div 2 ^ 112 mod 256"

fun IsUnspecified :: "ip \<Rightarrow> bool" where
  "IsUnspecified (V4 w) \<longleftrightarrow> w = 0"
| "IsUnspecified (V6 w) \<longleftrightarrow> w = 0"

fun IsLoopback :: "ip \<Rightarrow> bool" where
  "IsLoopback (V4 w) \<longleftrightarrow> v4_octet0 w = 127"
| "IsLoopback (V6 w) \<longleftrightarrow> w = 1"

fun IsMulticast :: "ip \<Rightarrow> bool" where
  "IsMulticast (V4 w) \<longleftrightarrow> v4_octet0 w div 16 = 14"
| "IsMulticast (V6 w) \<longleftrightarrow> v6_byte0 w = 0xFF"

fun IsLinkLocalUnicast :: "ip \<Rightarrow> bool" where
  "IsLinkLocalUnicast (V4 w) \<longleftrightarrow> unat w div 2 ^ 16 = 169 * 256 + 254"
| "IsLinkLocalUnicast (V6 w) \<longleftrightarrow> v6_byte0 w = 0xFE \<and> v6_byte1 w div 64 = 2"

fun IsLinkLocalMulticast :: "ip \<Rightarrow> bool" where
  "IsLinkLocalMulticast (V4 w) \<longleftrightarrow> unat w div 2 ^ 8 = 224 * 65536"
| "IsLinkLocalMulticast (V6 w) \<longleftrightarrow> v6_byte0 w = 0xFF \<and> v6_byte1 w mod 16 = 2"

fun IsInterfaceLocalMulticast :: "ip \<Rightarrow> bool" where
  "IsInterfaceLocalMulticast (V4 w) \<longleftrightarrow> False"
| "IsInterfaceLocalMulticast (V6 w) \<longleftrightarrow> v6_byte0 w = 0xFF \<and> v6_byte1 w mod 16 = 1"

fun IsPrivate :: "ip \<Rightarrow> bool" where
  "IsPrivate (V4 w) \<longleftrightarrow> v4_octet0 w = 10
     \<or> unat w div 2 ^ 20 = 172 * 16 + 1 \<or> unat w div 2 ^ 16 = 192 * 256 + 168"
| "IsPrivate (V6 w) \<longleftrightarrow> v6_byte0 w div 2 = 0x7E"

section \<open>Parsing\<close>

text \<open>An IPv4 field: one to three digits, no leading zero, at most 255.\<close>

definition parse_octet :: "string \<Rightarrow> nat option" where
  "parse_octet s = (case parse_digits s of None \<Rightarrow> None
     | Some n \<Rightarrow> if n \<le> 255 \<and> length s \<le> 3 \<and> (length s > 1 \<longrightarrow> hd s \<noteq> CHR ''0'')
                then Some n else None)"

definition parse_ipv4 :: "string \<Rightarrow> nat option" where
  "parse_ipv4 s = (case map parse_octet (split_byte (CHR ''.'') s) of
     [Some a, Some b, Some c, Some d] \<Rightarrow> Some (((a * 256 + b) * 256 + c) * 256 + d)
   | _ \<Rightarrow> None)"

definition hex_val :: "char \<Rightarrow> nat option" where
  "hex_val c = (let b = byte c in
     if 48 \<le> b \<and> b \<le> 57 then Some (b - 48)
     else if 97 \<le> b \<and> b \<le> 102 then Some (b - 87)
     else if 65 \<le> b \<and> b \<le> 70 then Some (b - 55) else None)"

text \<open>The maximal run of hexadecimal digits at the front, its value, and the rest.\<close>

fun scan_hex :: "nat \<Rightarrow> nat \<Rightarrow> string \<Rightarrow> nat \<times> nat \<times> string" where
  "scan_hex n acc [] = (n, acc, [])"
| "scan_hex n acc (c # s) = (case hex_val c of
     None \<Rightarrow> (n, acc, c # s) | Some d \<Rightarrow> scan_hex (Suc n) (acc * 16 + d) s)"

lemma scan_hex_length: "length (snd (snd (scan_hex n acc s))) \<le> length s"
  by (induction n acc s rule: scan_hex.induct) (auto split: option.splits)

text \<open>
  The loop of \<open>netip.parseIPv6\<close>. \<open>gs\<close> are the 16-bit groups read so far and
  \<open>el\<close> the position of the double colon. The result is the final pair, \<open>None\<close> an error.
\<close>

function ipv6_loop :: "nat list \<Rightarrow> nat option \<Rightarrow> string \<Rightarrow> (nat list \<times> nat option) option" where
  "ipv6_loop gs el s =
     (if 8 \<le> length gs then (if s = [] then Some (gs, el) else None)
      else let h = scan_hex 0 0 s; n = fst h; acc = fst (snd h); t = snd (snd h) in
        if n = 0 \<or> n > 4 then None
        else if t \<noteq> [] \<and> hd t = CHR ''.'' then
          (if (el = None \<and> length gs \<noteq> 6) \<or> length gs > 6 then None
           else map_option (\<lambda>v. (gs @ [v div 65536, v mod 65536], el)) (parse_ipv4 s))
        else if t = [] then Some (gs @ [acc], el)
        else if hd t \<noteq> CHR '':'' \<or> length t = 1 then None
        else if hd (tl t) = CHR '':'' then
          (if el \<noteq> None then None
           else if length t = 2 then Some (gs @ [acc], Some (Suc (length gs)))
           else ipv6_loop (gs @ [acc]) (Some (Suc (length gs))) (drop 2 t))
        else ipv6_loop (gs @ [acc]) el (tl t))"
  by pat_completeness auto
termination
  by (relation "measure (\<lambda>(gs, el, s). 8 - length gs)") auto

declare ipv6_loop.simps [simp del]

definition groups_val :: "nat list \<Rightarrow> nat" where
  "groups_val gs = foldl (\<lambda>n g. n * 65536 + g) 0 gs"

definition ipv6_expand :: "nat list \<times> nat option \<Rightarrow> nat option" where
  "ipv6_expand p = (case p of (gs, el) \<Rightarrow>
     (case el of
        None \<Rightarrow> if length gs = 8 then Some (groups_val gs) else None
      | Some k \<Rightarrow> if length gs < 8
                 then Some (groups_val (take k gs @ replicate (8 - length gs) 0 @ drop k gs))
                 else None))"

definition parse_ipv6 :: "string \<Rightarrow> nat option" where
  "parse_ipv6 s = Option.bind
     (if has_prefix s ''::'' then
        (if length s = 2 then Some ([], Some 0) else ipv6_loop [] (Some 0) (drop 2 s))
      else ipv6_loop [] None s) ipv6_expand"

text \<open>The first separator decides which parser runs.\<close>

definition ParseAddr :: "string \<Rightarrow> ip option" where
  "ParseAddr s = (case List.find (\<lambda>c. c = CHR ''.'' \<or> c = CHR '':'' \<or> c = CHR ''%'') s of
     None \<Rightarrow> None
   | Some c \<Rightarrow> if c = CHR ''.'' then map_option (\<lambda>n. V4 (word_of_nat n)) (parse_ipv4 s)
               else if c = CHR '':'' then map_option (\<lambda>n. V6 (word_of_nat n)) (parse_ipv6 s)
               else None)"

definition ParseIP :: "string \<Rightarrow> ip option" where
  "ParseIP s = map_option unmap (ParseAddr s)"

section \<open>Printing\<close>

definition hex_digit :: "nat \<Rightarrow> char" where
  "hex_digit d = (if d < 10 then char_of (48 + d) else char_of (87 + d))"

fun hex_str :: "nat \<Rightarrow> string" where
  "hex_str n = (if n < 16 then [hex_digit n] else hex_str (n div 16) @ [hex_digit (n mod 16)])"

declare hex_str.simps [simp del]

definition v6_groups :: "128 word \<Rightarrow> nat list" where
  "v6_groups w = map (\<lambda>i. unat w div 65536 ^ (7 - i) mod 65536) [0..<8]"

definition zero_run :: "nat list \<Rightarrow> nat \<Rightarrow> nat" where
  "zero_run gs i = length (takeWhile (\<lambda>g. g = 0) (drop i gs))"

text \<open>The first longest run of at least two zero groups: start and end.\<close>

definition longest_zero_run :: "nat list \<Rightarrow> nat \<times> nat" where
  "longest_zero_run gs = fold (\<lambda>i (a, b).
      if 2 \<le> zero_run gs i \<and> b - a < zero_run gs i then (i, i + zero_run gs i) else (a, b))
     [0..<8] (255, 255)"

definition ipv6_str :: "128 word \<Rightarrow> string" where
  "ipv6_str w = (let gs = v6_groups w; z = longest_zero_run gs in
     if fst z = 255 then join '':'' (map hex_str gs)
     else join '':'' (map hex_str (take (fst z) gs)) @ ''::''
            @ join '':'' (map hex_str (drop (snd z) gs)))"

end
