(* ===== verification/Dcc_Protocol.thy ===== *)
theory Dcc_Protocol
  imports Ip_Addr
begin

text \<open>
  The CTCP DCC control messages of \<open>internal/dcc/protocol.go\<close>: the quoting-aware
  field splitter, the parser of SEND, RESUME, ACCEPT and CHAT, the formatters, the filename and
  address checks. \<open>filepath\<close> is modelled on the Unix targets.
\<close>

datatype Command = CommandSend | CommandResume | CommandAccept | CommandChat

record Offer =
  ofCommand :: Command
  ofFilename :: string
  ofAddress :: string
  ofPort :: int
  ofSize :: int
  ofPosition :: int
  ofToken :: string
  ofPassive :: bool

datatype dcc_error =
    ErrUnterminated | ErrEmptyCommand | ErrResumeArity | ErrSendArity | ErrSendOffer
  | ErrFilename | ErrPort | ErrPosition | ErrSize | ErrPassive | ErrAddress | ErrUnsafeAddress
  | ErrAdvertised | ErrUnsupported string

abbreviation dquote :: char where "dquote \<equiv> CHR 34"
abbreviation backslash :: char where "backslash \<equiv> CHR 92"

section \<open>Fields\<close>

text \<open>
  The loop of \<open>splitFields\<close> over the runes of the payload, with the builder \<open>b\<close> and
  the flags \<open>inQuote\<close>, \<open>escaped\<close> and \<open>have\<close>. The fields are returned in order.
\<close>

fun split_loop :: "rune list \<Rightarrow> string \<Rightarrow> bool \<Rightarrow> bool \<Rightarrow> bool \<Rightarrow> dcc_error + string list" where
  "split_loop [] b inQuote escaped have_b =
     (if escaped \<or> inQuote then Err ErrUnterminated else Ok (if have_b then [b] else []))"
| "split_loop (r # rs) b inQuote escaped have_b =
     (if escaped then split_loop rs (b @ encode_rune r) inQuote False True
      else if inQuote \<and> r = 92 then split_loop rs b inQuote True have_b
      else if r = 34 then split_loop rs b (\<not> inQuote) False True
      else if is_space r \<and> \<not> inQuote then
        (if have_b then map_sum id (Cons b) (split_loop rs [] inQuote False False)
         else split_loop rs b inQuote False False)
      else split_loop rs (b @ encode_rune r) inQuote False True)"

definition splitFields :: "string \<Rightarrow> dcc_error + string list" where
  "splitFields s = split_loop (runes s) [] False False False"

section \<open>Filenames, ports, addresses\<close>

definition filepath_base :: "string \<Rightarrow> string" where
  "filepath_base p =
     (if p = [] then ''.''
      else let t = rev (dropWhile (\<lambda>c. c = CHR ''/'') (rev p));
               b = rev (takeWhile (\<lambda>c. c \<noteq> CHR ''/'') (rev t))
           in if b = [] then ''/'' else b)"

definition safeFilename :: "string \<Rightarrow> dcc_error + string" where
  "safeFilename raw =
     (if raw = [] \<or> CHR 0x00 \<in> set raw \<or> (\<exists>r \<in> set (runes raw). is_control r)
         \<or> has_prefix raw ''/'' \<or> filepath_base raw \<noteq> raw \<or> raw = ''.'' \<or> raw = ''..''
      then Err ErrFilename
      else if contains_any raw [CHR ''/'', backslash] then Err ErrFilename
      else Ok raw)"

definition quoteFilename :: "string \<Rightarrow> string" where
  "quoteFilename name0 =
     (let name = filepath_base name0 in
      if (\<forall>r \<in> set (runes name). \<not> is_space r) \<and> dquote \<notin> set name then name
      else [dquote] @ replace_byte dquote [backslash, dquote] name @ [dquote])"

definition parsePort :: "string \<Rightarrow> bool \<Rightarrow> dcc_error + int" where
  "parsePort raw allowZero = (case parse_int64 raw of
     None \<Rightarrow> Err ErrPort
   | Some n \<Rightarrow> if n < 0 \<or> n > 65535 \<or> (\<not> allowZero \<and> n = 0) then Err ErrPort else Ok n)"

definition validateRemoteIP :: "ip \<Rightarrow> dcc_error + ip" where
  "validateRemoteIP a =
     (if IsUnspecified a \<or> IsLoopback a \<or> IsMulticast a \<or> IsLinkLocalUnicast a
         \<or> IsLinkLocalMulticast a
      then Err ErrUnsafeAddress else Ok a)"

text \<open>\<open>strings.Trim(raw, "[]")\<close>.\<close>

definition trim_brackets :: "string \<Rightarrow> string" where
  "trim_brackets s =
     (let p = \<lambda>c. c = CHR ''['' \<or> c = CHR '']'' in rev (dropWhile p (rev (dropWhile p s))))"

definition ParseAddress :: "string \<Rightarrow> dcc_error + ip" where
  "ParseAddress raw = (case parse_uint32 raw of
     Some n \<Rightarrow> validateRemoteIP (V4 (word_of_nat n))
   | None \<Rightarrow> (case ParseIP (trim_brackets raw) of
       None \<Rightarrow> Err ErrAddress
     | Some a \<Rightarrow> validateRemoteIP a))"

definition FormatAddress :: "string \<Rightarrow> dcc_error + string" where
  "FormatAddress raw = (case ParseIP (trim_space raw) of
     None \<Rightarrow> Err ErrAdvertised
   | Some (V4 w) \<Rightarrow> Ok (nat_str (unat w))
   | Some (V6 w) \<Rightarrow> Ok (ipv6_str w))"

section \<open>Parsing\<close>

definition makeSendOffer ::
    "string \<Rightarrow> string \<Rightarrow> string \<Rightarrow> string \<Rightarrow> string \<Rightarrow> dcc_error + Offer" where
  "makeSendOffer filenameRaw address portRaw sizeRaw token =
     (case safeFilename filenameRaw of Inl e \<Rightarrow> Err e | Inr filename \<Rightarrow>
      case parsePort portRaw True of Inl e \<Rightarrow> Err e | Inr port \<Rightarrow>
      case parse_int64 sizeRaw of None \<Rightarrow> Err ErrSize | Some sz \<Rightarrow>
      if sz < 0 then Err ErrSize
      else let offer = \<lparr>ofCommand = CommandSend, ofFilename = filename, ofAddress = address,
                 ofPort = port, ofSize = sz, ofPosition = 0, ofToken = token,
                 ofPassive = (port = 0)\<rparr>
        in if port = 0 then
             (if token = [] \<or> address \<noteq> ''0'' then Err ErrPassive else Ok offer)
           else (case ParseAddress address of Inl e \<Rightarrow> Err e | Inr _ \<Rightarrow> Ok offer))"

text \<open>
  The fallbacks of \<open>parseSendFields\<close>: the protocol's own form with five or six fields,
  then the numeric tail counted from the right with a token, then without one.
\<close>

definition parseSendFields :: "string list \<Rightarrow> dcc_error + Offer" where
  "parseSendFields fs =
     (if length fs < 5 then Err ErrSendArity
      else
        let n = length fs;
            direct = (if n \<le> 6
              then makeSendOffer (fs ! 1) (fs ! 2) (fs ! 3) (fs ! 4) (if n = 6 then fs ! 5 else [])
              else Err ErrSendOffer);
            tail4 = (if n \<ge> 6 \<and> n - 4 > 1
              then makeSendOffer (join '' '' (take (n - 5) (tl fs)))
                     (fs ! (n - 4)) (fs ! (n - 3)) (fs ! (n - 2)) (fs ! (n - 1))
              else Err ErrSendOffer);
            tail3 = (if n \<ge> 6 \<and> n - 3 > 1
              then makeSendOffer (join '' '' (take (n - 4) (tl fs)))
                     (fs ! (n - 3)) (fs ! (n - 2)) (fs ! (n - 1)) []
              else Err ErrSendOffer)
        in if is_ok direct then direct
           else if is_ok tail4 then tail4
           else if is_ok tail3 then tail3
           else Err ErrSendOffer)"

definition parse_resume :: "Command \<Rightarrow> string list \<Rightarrow> dcc_error + Offer" where
  "parse_resume cmd fs =
     (if length fs < 4 \<or> length fs > 5 then Err ErrResumeArity
      else case safeFilename (fs ! 1) of Inl e \<Rightarrow> Err e | Inr filename \<Rightarrow>
      case parsePort (fs ! 2) True of Inl e \<Rightarrow> Err e | Inr port \<Rightarrow>
      case parse_int64 (fs ! 3) of None \<Rightarrow> Err ErrPosition | Some position \<Rightarrow>
      if position < 0 then Err ErrPosition
      else Ok \<lparr>ofCommand = cmd, ofFilename = filename, ofAddress = [], ofPort = port,
                ofSize = 0, ofPosition = position,
                ofToken = (if length fs = 5 then fs ! 4 else []), ofPassive = (port = 0)\<rparr>)"

definition Parse :: "string \<Rightarrow> dcc_error + Offer" where
  "Parse payload =
     (case splitFields (trim_space payload) of Inl e \<Rightarrow> Err e | Inr fs \<Rightarrow>
      (case fs of [] \<Rightarrow> Err ErrEmptyCommand | verb # _ \<Rightarrow>
        let cmd = to_upper verb in
        if cmd = ''SEND'' then parseSendFields fs
        else if cmd = ''RESUME'' then parse_resume CommandResume fs
        else if cmd = ''ACCEPT'' then parse_resume CommandAccept fs
        else if cmd = ''CHAT'' then
          Ok \<lparr>ofCommand = CommandChat, ofFilename = [], ofAddress = [], ofPort = 0, ofSize = 0,
              ofPosition = 0, ofToken = [], ofPassive = False\<rparr>
        else Err (ErrUnsupported verb)))"

section \<open>Formatting\<close>

fun command_str :: "Command \<Rightarrow> string" where
  "command_str CommandSend = ''SEND''"
| "command_str CommandResume = ''RESUME''"
| "command_str CommandAccept = ''ACCEPT''"
| "command_str CommandChat = ''CHAT''"

definition FormatSend :: "string \<Rightarrow> string \<Rightarrow> int \<Rightarrow> int \<Rightarrow> string \<Rightarrow> string" where
  "FormatSend filename address port sz token =
     join '' '' ([''SEND'', quoteFilename filename, address, int_str port, int_str sz]
                 @ (if token \<noteq> [] then [token] else []))"

definition FormatResume :: "Command \<Rightarrow> string \<Rightarrow> int \<Rightarrow> int \<Rightarrow> string \<Rightarrow> string" where
  "FormatResume command filename port position token =
     join '' '' ([command_str command, quoteFilename filename, int_str port, int_str position]
                 @ (if token \<noteq> [] then [token] else []))"

section \<open>What a parsed offer guarantees\<close>

text \<open>A filename that is a single path element with no control byte.\<close>

definition safe_name :: "string \<Rightarrow> bool" where
  "safe_name f \<longleftrightarrow> f \<noteq> [] \<and> f \<noteq> ''.'' \<and> f \<noteq> ''..'' \<and> CHR ''/'' \<notin> set f \<and> backslash \<notin> set f
     \<and> CHR 0x00 \<notin> set f \<and> (\<forall>r \<in> set (runes f). \<not> is_control r)"

lemma filepath_base_id: "p \<noteq> [] \<Longrightarrow> CHR ''/'' \<notin> set p \<Longrightarrow> filepath_base p = p"
proof -
  assume p: "p \<noteq> []" "CHR ''/'' \<notin> set p"
  then have "dropWhile (\<lambda>c. c = CHR ''/'') (rev p) = rev p"
    by (cases p rule: rev_cases) auto
  moreover have "\<forall>c \<in> set (rev p). c \<noteq> CHR ''/''" using p by auto
  then have "takeWhile (\<lambda>c. c \<noteq> CHR ''/'') (rev p) = rev p" by (subst takeWhile_eq_all_conv)
  ultimately have "filepath_base p = (if rev (rev p) = [] then ''/'' else rev (rev p))"
    using p(1) unfolding filepath_base_def Let_def by (simp only: rev_rev_ident if_False)
  then show ?thesis using p by simp
qed

lemma safeFilename_iff: "safeFilename raw = Ok f \<longleftrightarrow> f = raw \<and> safe_name raw"
proof
  assume "safeFilename raw = Ok f"
  then show "f = raw \<and> safe_name raw"
    by (auto simp: safeFilename_def safe_name_def contains_any_def split: if_splits)
next
  assume a: "f = raw \<and> safe_name raw"
  then have "filepath_base raw = raw" by (intro filepath_base_id) (auto simp: safe_name_def)
  moreover have "\<not> has_prefix raw ''/''"
    using a by (auto simp: has_prefix_def safe_name_def prefix_def)
  ultimately show "safeFilename raw = Ok f"
    using a by (auto simp: safeFilename_def safe_name_def contains_any_def)
qed

lemma parsePort_Ok: "parsePort raw allowZero = Ok n \<Longrightarrow> 0 \<le> n \<and> n \<le> 65535"
  by (auto simp: parsePort_def split: option.splits if_splits)

definition send_ok :: "Offer \<Rightarrow> bool" where
  "send_ok off \<longleftrightarrow> safe_name (ofFilename off) \<and> 0 \<le> ofPort off \<and> ofPort off \<le> 65535
     \<and> 0 \<le> ofSize off \<and> ofSize off < 2 ^ 63 \<and> (ofPassive off \<longleftrightarrow> ofPort off = 0)
     \<and> (ofPassive off \<longrightarrow> ofToken off \<noteq> [] \<and> ofAddress off = ''0'')
     \<and> (\<not> ofPassive off \<longrightarrow> is_ok (ParseAddress (ofAddress off)))"

lemma makeSendOffer_ok:
  "makeSendOffer f a p s t = Ok off \<Longrightarrow> ofCommand off = CommandSend \<and> send_ok off"
  by (auto simp: makeSendOffer_def send_ok_def safeFilename_iff Let_def
           dest!: parsePort_Ok parse_int64_range split: sum.splits option.splits if_splits)

lemma is_ok_cases: "is_ok r \<Longrightarrow> \<exists>x. r = Ok x"
  by (cases r) auto

lemma parseSendFields_ok: "parseSendFields fs = Ok off \<Longrightarrow> ofCommand off = CommandSend \<and> send_ok off"
  by (auto simp: parseSendFields_def Let_def split: if_splits dest!: is_ok_cases makeSendOffer_ok)

definition resume_ok :: "Offer \<Rightarrow> bool" where
  "resume_ok off \<longleftrightarrow> safe_name (ofFilename off) \<and> 0 \<le> ofPort off \<and> ofPort off \<le> 65535
     \<and> 0 \<le> ofPosition off \<and> ofPosition off < 2 ^ 63 \<and> (ofPassive off \<longleftrightarrow> ofPort off = 0)"

lemma parse_resume_ok: "parse_resume cmd fs = Ok off \<Longrightarrow> ofCommand off = cmd \<and> resume_ok off"
  by (auto simp: parse_resume_def resume_ok_def safeFilename_iff
           dest!: parsePort_Ok parse_int64_range split: sum.splits option.splits if_splits)

lemma Parse_ok:
  "Parse payload = Ok off \<Longrightarrow>
     (ofCommand off = CommandSend \<and> send_ok off)
   \<or> ((ofCommand off = CommandResume \<or> ofCommand off = CommandAccept) \<and> resume_ok off)
   \<or> ofCommand off = CommandChat"
  by (auto simp: Parse_def Let_def split: sum.splits list.splits if_splits
           dest!: parseSendFields_ok parse_resume_ok)

lemma verb_upper:
  "to_upper ''SEND'' = ''SEND''" "to_upper ''RESUME'' = ''RESUME''" "to_upper ''ACCEPT'' = ''ACCEPT''"
  by (simp_all add: to_upper_id)

text \<open>
  C10: Whatever a peer sends, a SEND, RESUME or ACCEPT that parses names a single path element
  without separators or control characters, a port in range and a size or position in the
  non-negative int64 range; a passive SEND carries a token and the address 0, an active one an
  address that is no loopback, multicast, link-local or unspecified host.
\<close>

theorem Parse_safe:
  assumes "Parse payload = Ok off" and "ofCommand off \<noteq> CommandChat"
  shows "safe_name (ofFilename off) \<and> 0 \<le> ofPort off \<and> ofPort off \<le> 65535
    \<and> (ofPassive off \<longleftrightarrow> ofPort off = 0)
    \<and> (ofCommand off = CommandSend \<longrightarrow>
         0 \<le> ofSize off \<and> ofSize off < 2 ^ 63
       \<and> (if ofPassive off then ofToken off \<noteq> [] \<and> ofAddress off = ''0''
          else \<exists>a. ParseAddress (ofAddress off) = Ok a
                 \<and> \<not> IsUnspecified a \<and> \<not> IsLoopback a \<and> \<not> IsMulticast a
                 \<and> \<not> IsLinkLocalUnicast a \<and> \<not> IsLinkLocalMulticast a))
    \<and> (ofCommand off \<noteq> CommandSend \<longrightarrow> 0 \<le> ofPosition off \<and> ofPosition off < 2 ^ 63)"
proof -
  have addr: "\<exists>a. ParseAddress s = Ok a \<and> \<not> IsUnspecified a \<and> \<not> IsLoopback a \<and> \<not> IsMulticast a
      \<and> \<not> IsLinkLocalUnicast a \<and> \<not> IsLinkLocalMulticast a" if "is_ok (ParseAddress s)" for s
    using is_ok_cases [OF that]
    by (auto simp: ParseAddress_def validateRemoteIP_def split: option.splits if_splits)
  from Parse_ok [OF assms(1)] assms(2) show ?thesis
    using addr by (auto simp: send_ok_def resume_ok_def)
qed

text \<open>An accepted resume point, and the offer it parses to.\<close>

theorem Parse_safe_witness:
  "Parse ''ACCEPT a.txt 4000 512'' = Ok
    \<lparr>ofCommand = CommandAccept, ofFilename = ''a.txt'', ofAddress = [], ofPort = 4000, ofSize = 0,
     ofPosition = 512, ofToken = [], ofPassive = False\<rparr>
   \<and> safe_name ''a.txt''"
proof -
  have p: "Parse ''ACCEPT a.txt 4000 512'' = Ok
    \<lparr>ofCommand = CommandAccept, ofFilename = ''a.txt'', ofAddress = [], ofPort = 4000, ofSize = 0,
     ofPosition = 512, ofToken = [], ofPassive = False\<rparr>"
  proof -
    have "trim_space ''ACCEPT a.txt 4000 512'' = ''ACCEPT a.txt 4000 512''"
      by (rule trim_space_solid) (simp_all add: solid_def go_text)
    moreover have "splitFields ''ACCEPT a.txt 4000 512'' = Ok [''ACCEPT'', ''a.txt'', ''4000'', ''512'']"
      by (simp add: splitFields_def go_text char_eval)
    moreover have "safeFilename ''a.txt'' = Ok ''a.txt''"
      by (simp add: safeFilename_iff safe_name_def is_control_def)
    ultimately show ?thesis
      by (simp add: Parse_def verb_upper parse_resume_def parsePort_def parse_int64_def
          parse_digits_def is_digit_def digits_val_def)
  qed
  show ?thesis using p Parse_safe [OF p] by simp
qed

section \<open>Round trips\<close>

text \<open>A bare word of the payload: ASCII, no white space, no quote.\<close>

definition bare :: "string \<Rightarrow> bool" where
  "bare w \<longleftrightarrow> w \<noteq> [] \<and> (\<forall>c \<in> set w. solid c \<and> c \<noteq> dquote)"

lemma dquote_byte: "byte c = 34 \<longleftrightarrow> c = dquote"
  using of_char_eq_iff [of c dquote, where 'a = nat] by simp

lemma split_loop_plain:
  assumes "\<forall>r \<in> set xs. \<not> is_space r \<and> r \<noteq> 34"
  shows "split_loop (xs @ rs) b False False h = split_loop rs (b @ unrunes xs) False False (h \<or> xs \<noteq> [])"
  using assms by (induction xs arbitrary: b h) auto

lemma is_space_32: "is_space 32" by (simp add: go_text)

lemma split_loop_word:
  assumes "xs \<noteq> []" "\<forall>r \<in> set xs. \<not> is_space r \<and> r \<noteq> 34"
  shows "split_loop (xs @ 32 # rs) [] False False False
           = map_sum id (Cons (unrunes xs)) (split_loop rs [] False False False)"
    and "split_loop xs [] False False False = Ok [unrunes xs]"
  using split_loop_plain [OF assms(2), of "32 # rs" "[]" False]
    split_loop_plain [OF assms(2), of "[]" "[]" False] assms(1) is_space_32 by simp_all

text \<open>Inside quotes every rune but the backslash is taken literally, an escaped quote is a quote.\<close>

definition escape :: "rune list \<Rightarrow> rune list" where
  "escape xs = concat (map (\<lambda>r. if r = 34 then [92, 34] else [r]) xs)"

lemma split_loop_quoted:
  assumes "92 \<notin> set xs"
  shows "split_loop (escape xs @ 34 # rs) b True False h
           = split_loop rs (b @ unrunes xs) False False True"
  using assms by (induction xs arbitrary: b h) (auto simp: escape_def)

text \<open>The bytes of an encoded rune contain a quote only when the rune is the quote.\<close>

lemma encode_rune_byte:
  assumes "c \<in> set (encode_rune r)" "byte c < 0x80" shows "byte c = r"
proof (cases "r < 0x80")
  case True then show ?thesis using assms(1) by simp
next
  case False
  have "\<forall>c \<in> set (encode_rune r). 0x80 \<le> byte c"
  proof -
    have a: "0x80 \<le> (0xC0 + r div 64) mod (256::nat)" if "r < 0x800"
      using that by (simp add: div_less_iff_less_mult)
    have b: "0x80 \<le> (0x80 + n mod 64) mod (256::nat)" for n
    proof -
      have "n mod 64 < 64" by simp
      then show ?thesis by simp
    qed
    have c: "0x80 \<le> (0xE0 + r div 4096) mod (256::nat)" if "r < 0x10000"
      using that by (simp add: div_less_iff_less_mult)
    have d: "0x80 \<le> (0xF0 + r div 262144) mod (256::nat)" if "valid_rune r"
      using that by (simp add: div_less_iff_less_mult valid_rune_def)
    show ?thesis using False a b c d by (auto simp: encode_rune_def)
  qed
  with assms show ?thesis by auto
qed

lemma dquote_in_encode: "dquote \<in> set (encode_rune r) \<longleftrightarrow> r = 34"
proof
  assume "dquote \<in> set (encode_rune r)"
  then show "r = 34" using encode_rune_byte [of dquote r] by simp
next
  assume "r = 34" then show "dquote \<in> set (encode_rune r)"
    using char_of_char [of dquote, where 'a = nat] by simp
qed

lemma encode_34: "encode_rune 34 = [dquote]"
  using char_of_char [of dquote, where 'a = nat] by simp

lemma replace_quote_unrunes:
  "replace_byte dquote [backslash, dquote] (unrunes xs) =
     concat (map (\<lambda>r. if r = 34 then [backslash, dquote] else encode_rune r) xs)"
proof (induction xs)
  case (Cons r xs)
  then show ?case
    by (cases "r = 34") (simp_all add: replace_byte_append encode_34 replace_byte_notin dquote_in_encode)
qed simp

lemma runes_replace_quote:
  assumes "\<forall>r \<in> set xs. valid_rune r"
  shows "runes (replace_byte dquote [backslash, dquote] (unrunes xs) @ s) = escape xs @ runes s"
  unfolding replace_quote_unrunes using assms by (induction xs) (auto simp: escape_def)

lemma safe_name_runes_no_backslash:
  assumes "safe_name f" "valid_utf8 f" shows "92 \<notin> set (runes f)"
proof
  assume "92 \<in> set (runes f)"
  moreover have "encode_rune 92 = [backslash]"
    using char_of_char [of backslash, where 'a = nat] by simp
  ultimately have "backslash \<in> set (unrunes (runes f))"
    unfolding unrunes_def by (metis list.set_intros(1) UN_I set_concat set_map image_eqI)
  with assms show False by (simp add: safe_name_def valid_utf8_def)
qed

text \<open>The quoted or bare filename is one field, followed by a space.\<close>

lemma split_loop_filename:
  assumes f: "safe_name f" "valid_utf8 f"
  shows "split_loop (runes (quoteFilename f @ CHR '' '' # s)) [] False False False
       = map_sum id (Cons f) (split_loop (runes s) [] False False False)"
proof -
  have base: "filepath_base f = f" using f(1) by (intro filepath_base_id) (auto simp: safe_name_def)
  have val: "\<forall>r \<in> set (runes f). valid_rune r" by (simp add: runes_valid)
  have un: "unrunes (runes f) = f" using f(2) by (simp add: valid_utf8_def)
  have ne: "runes f \<noteq> []" using f(1) un by (auto simp: safe_name_def)
  show ?thesis
  proof (cases "(\<forall>r \<in> set (runes f). \<not> is_space r) \<and> dquote \<notin> set f")
    case True
    have "34 \<notin> set (runes f)"
    proof
      assume "34 \<in> set (runes f)"
      then have "dquote \<in> set (unrunes (runes f))" by (auto simp: unrunes_def dquote_in_encode)
      with True un show False by simp
    qed
    then have w: "\<forall>r \<in> set (runes f). \<not> is_space r \<and> r \<noteq> 34" using True by auto
    have "runes (quoteFilename f @ CHR '' '' # s) = runes f @ 32 # runes s"
      using True by (simp add: quoteFilename_def base runes_append_valid [OF f(2)])
    then show ?thesis using split_loop_word(1) [OF ne w] un by simp
  next
    case False
    have "runes (replace_byte dquote [backslash, dquote] f @ t) = escape (runes f) @ runes t" for t
      using runes_replace_quote [OF val, of t] un by simp
    then have "runes (quoteFilename f @ CHR '' '' # s) = 34 # escape (runes f) @ 34 # 32 # runes s"
      using False by (auto simp: quoteFilename_def base)
    then show ?thesis
      using split_loop_quoted [OF safe_name_runes_no_backslash [OF f]] un is_space_32 by simp
  qed
qed

lemma bare_runes:
  assumes "bare w" shows "runes (w @ s) = map byte w @ runes s"
    "map byte w \<noteq> []" "\<forall>r \<in> set (map byte w). \<not> is_space r \<and> r \<noteq> 34" "unrunes (map byte w) = w"
proof -
  have "ascii w" using assms by (auto simp: bare_def ascii_def solid_def)
  then show "runes (w @ s) = map byte w @ runes s" "unrunes (map byte w) = w"
    by (simp_all add: runes_ascii_append unrunes_ascii)
qed (use assms dquote_byte in \<open>auto simp: bare_def solid_def\<close>)

lemma split_loop_bare:
  assumes "bare w"
  shows "split_loop (runes (w @ CHR '' '' # s)) [] False False False
           = map_sum id (Cons w) (split_loop (runes s) [] False False False)"
    and "split_loop (runes w) [] False False False = Ok [w]"
  using split_loop_word [OF bare_runes(2,3) [OF assms]] bare_runes(1) [OF assms]
    bare_runes(1) [OF assms, of "[]"] bare_runes(4) [OF assms] by simp_all

lemma bare_int_str [simp]: "bare (int_str i)"
proof -
  have "is_digit c \<Longrightarrow> solid c \<and> c \<noteq> dquote" for c
    using digit_ascii [of c] by (auto simp: solid_def is_digit_def)
  then have "\<forall>c \<in> set (nat_str n). solid c \<and> c \<noteq> dquote" for n
    using nat_str_digits [of _ n] by blast
  moreover have "solid (CHR ''-'')" by (simp add: solid_def go_text)
  ultimately show ?thesis by (auto simp: bare_def int_str_def)
qed

text \<open>A list of fields, joined: bare words after a verb and a filename.\<close>

lemma split_loop_bares:
  "ws \<noteq> [] \<Longrightarrow> \<forall>w \<in> set ws. bare w \<Longrightarrow>
     split_loop (runes (join '' '' ws)) [] False False False = Ok ws"
proof (induction ws rule: list_nonempty_induct)
  case (cons w ws)
  then show ?case by (cases ws) (simp_all add: split_loop_bare)
qed (simp add: split_loop_bare)

lemma bare_solid_last: "bare w \<Longrightarrow> solid (last w)"
  by (simp add: bare_def)

lemma join_not_Nil: "ws \<noteq> [] \<Longrightarrow> \<forall>w \<in> set ws. bare w \<Longrightarrow> join '' '' ws \<noteq> []"
  by (induction ws rule: list_nonempty_induct) (auto simp: bare_def neq_Nil_conv)

lemma bare_solid_last_join:
  "ws \<noteq> [] \<Longrightarrow> \<forall>w \<in> set ws. bare w \<Longrightarrow> solid (last (join '' '' ws))"
proof (induction ws rule: list_nonempty_induct)
  case (cons w ws)
  then show ?case using join_not_Nil [of ws] by (cases ws) (auto simp: bare_solid_last)
qed (simp add: bare_solid_last)

text \<open>A formatted message splits into the verb, the filename and its bare fields.\<close>

lemma splitFields_formatted:
  assumes f: "safe_name f" "valid_utf8 f" and v: "bare v" and ws: "ws \<noteq> []" "\<forall>w \<in> set ws. bare w"
  shows "splitFields (trim_space (join '' '' (v # quoteFilename f # ws))) = Ok (v # f # ws)"
proof -
  obtain w ws' where w: "ws = w # ws'" using ws(1) by (cases ws) auto
  let ?tail = "join '' '' ws"
  let ?s = "v @ CHR '' '' # quoteFilename f @ CHR '' '' # ?tail"
  have s: "join '' '' (v # quoteFilename f # ws) = ?s" by (simp add: w)
  have "solid (hd ?s)" using v by (simp add: bare_def)
  moreover have "solid (last ?s)"
    using bare_solid_last_join [OF ws] join_not_Nil [OF ws] by simp
  ultimately have "trim_space ?s = ?s" by (intro trim_space_solid) auto
  then show ?thesis
    unfolding s splitFields_def
    using split_loop_bare(1) [OF v] split_loop_filename [OF f] split_loop_bares [OF ws] by simp
qed

lemma verb_bare: "bare ''SEND''" "bare ''RESUME''" "bare ''ACCEPT''"
  by (simp_all add: bare_def solid_def is_space_def space_runes_def)

lemma parsePort_int_str:
  "0 \<le> port \<Longrightarrow> port \<le> 65535 \<Longrightarrow> parsePort (int_str port) True = Ok port"
  by (simp add: parsePort_def parse_int64_int_str)

lemma safe_name_safeFilename: "safe_name f \<Longrightarrow> safeFilename f = Ok f"
  by (simp add: safeFilename_iff)

text \<open>
  A SEND offer this client formats is read back by its own parser as the same offer, for
  every filename that is one safe path element (quotes and spaces included), every port and size in range
  and both the active and the passive form.
\<close>

theorem Parse_FormatSend:
  assumes f: "safe_name f" "valid_utf8 f"
    and port: "0 \<le> port" "port \<le> 65535" and sz: "0 \<le> sz" "sz < 2 ^ 63"
    and address: "bare address" and token: "token = [] \<or> bare token"
    and reverse: "port = 0 \<Longrightarrow> token \<noteq> [] \<and> address = ''0''"
    and direct: "port \<noteq> 0 \<Longrightarrow> is_ok (ParseAddress address)"
  shows "Parse (FormatSend f address port sz token) = Ok
    \<lparr>ofCommand = CommandSend, ofFilename = f, ofAddress = address, ofPort = port, ofSize = sz,
     ofPosition = 0, ofToken = token, ofPassive = (port = 0)\<rparr>"
proof -
  let ?ws = "[address, int_str port, int_str sz] @ (if token \<noteq> [] then [token] else [])"
  have "FormatSend f address port sz token = join '' '' (''SEND'' # quoteFilename f # ?ws)"
    by (simp add: FormatSend_def)
  moreover have "\<forall>w \<in> set ?ws. bare w" using address token by auto
  ultimately have sp: "splitFields (trim_space (FormatSend f address port sz token))
      = Ok (''SEND'' # f # ?ws)"
    using splitFields_formatted [OF f verb_bare(1), of ?ws] by simp
  have "parse_int64 (int_str sz) = Some sz" using sz by (simp add: parse_int64_int_str)
  then have "makeSendOffer f address (int_str port) (int_str sz) token = Ok
    \<lparr>ofCommand = CommandSend, ofFilename = f, ofAddress = address, ofPort = port, ofSize = sz,
     ofPosition = 0, ofToken = token, ofPassive = (port = 0)\<rparr>"
    using f(1) port sz reverse direct
    by (cases "port = 0")
      (auto simp: makeSendOffer_def safe_name_safeFilename parsePort_int_str dest!: is_ok_cases)
  then have "parseSendFields (''SEND'' # f # ?ws) = Ok
    \<lparr>ofCommand = CommandSend, ofFilename = f, ofAddress = address, ofPort = port, ofSize = sz,
     ofPosition = 0, ofToken = token, ofPassive = (port = 0)\<rparr>"
    by (cases "token = []") (simp_all add: parseSendFields_def)
  then show ?thesis by (simp add: Parse_def sp verb_upper)
qed

text \<open>A filename with a space and a quote, in the active form.\<close>

theorem Parse_FormatSend_witness:
  "Parse (FormatSend [CHR ''a'', CHR '' '', dquote, CHR ''b''] ''16909060'' 5000 77 []) = Ok
    \<lparr>ofCommand = CommandSend, ofFilename = [CHR ''a'', CHR '' '', dquote, CHR ''b''],
     ofAddress = ''16909060'', ofPort = 5000, ofSize = 77, ofPosition = 0, ofToken = [],
     ofPassive = False\<rparr>"
proof -
  have "safe_name [CHR ''a'', CHR '' '', dquote, CHR ''b'']"
    by (simp add: safe_name_def is_control_def)
  moreover have "valid_utf8 [CHR ''a'', CHR '' '', dquote, CHR ''b'']"
    by (simp add: valid_utf8_ascii)
  moreover have "bare ''16909060''" by (simp add: bare_def solid_def go_text)
  moreover have "is_ok (ParseAddress ''16909060'')"
    by (simp add: ParseAddress_def parse_uint32_def parse_digits_def is_digit_def digits_val_def
        validateRemoteIP_def v4_octet0_def)
  ultimately show ?thesis
    using Parse_FormatSend [of "[CHR ''a'', CHR '' '', dquote, CHR ''b'']" 5000 77 "''16909060''" "[]"]
    by simp
qed

text \<open>
  A RESUME or ACCEPT this client formats is read back as the same message, in the active form (a port,
  no token) and in the passive one (port 0 and a token).
\<close>

theorem Parse_FormatResume:
  assumes f: "safe_name f" "valid_utf8 f" and cmd: "cmd = CommandResume \<or> cmd = CommandAccept"
    and port: "0 \<le> port" "port \<le> 65535" and pos: "0 \<le> position" "position < 2 ^ 63"
    and token: "token = [] \<or> bare token"
  shows "Parse (FormatResume cmd f port position token) = Ok
    \<lparr>ofCommand = cmd, ofFilename = f, ofAddress = [], ofPort = port, ofSize = 0,
     ofPosition = position, ofToken = token, ofPassive = (port = 0)\<rparr>"
proof -
  let ?ws = "[int_str port, int_str position] @ (if token \<noteq> [] then [token] else [])"
  have "FormatResume cmd f port position token = join '' '' (command_str cmd # quoteFilename f # ?ws)"
    by (simp add: FormatResume_def)
  moreover have "\<forall>w \<in> set ?ws. bare w" using token by auto
  moreover have v: "bare (command_str cmd)" using cmd verb_bare by auto
  ultimately have sp: "splitFields (trim_space (FormatResume cmd f port position token))
      = Ok (command_str cmd # f # ?ws)"
    using splitFields_formatted [OF f v, of ?ws] by simp
  have "parse_int64 (int_str position) = Some position" using pos by (simp add: parse_int64_int_str)
  then have "parse_resume cmd (command_str cmd # f # ?ws) = Ok
    \<lparr>ofCommand = cmd, ofFilename = f, ofAddress = [], ofPort = port, ofSize = 0,
     ofPosition = position, ofToken = token, ofPassive = (port = 0)\<rparr>"
    using f(1) port pos
    by (simp add: parse_resume_def safe_name_safeFilename parsePort_int_str)
  then show ?thesis using cmd by (auto simp: Parse_def sp verb_upper)
qed

theorem Parse_FormatResume_witness:
  "Parse (FormatResume CommandResume ''my file'' 0 1024 ''tok'') = Ok
    \<lparr>ofCommand = CommandResume, ofFilename = ''my file'', ofAddress = [], ofPort = 0, ofSize = 0,
     ofPosition = 1024, ofToken = ''tok'', ofPassive = True\<rparr>"
proof -
  have "safe_name ''my file''" by (simp add: safe_name_def is_control_def)
  moreover have "valid_utf8 ''my file''" by (simp add: valid_utf8_ascii)
  moreover have "bare ''tok''" by (simp add: bare_def solid_def go_text)
  ultimately show ?thesis
    using Parse_FormatResume [of "''my file''" CommandResume 0 1024 "''tok''"] by simp
qed

end
