(* ===== verification/Dcc_Manager.thy ===== *)
theory Dcc_Manager
  imports Dcc_Protocol
begin

text \<open>
  The transfer manager of \<open>internal/dcc/manager.go\<close> with the types of \<open>types.go\<close>.
  The manager is a record; every exported method is a function on it. What a method calls
  (the clock, the file system, the listener, the control channel) is the record \<^typ>\<open>'a\<close> \<open>Env\<close>
  of answers valid during one call, what it does to the outside is the list \<open>mOut\<close>. A
  goroutine is a \<open>Spawn\<close> effect; what it later does to the manager is one of the functions
  \<open>runSend_start\<close>, \<open>progress\<close>, \<open>complete\<close>, \<open>finishWithError\<close>. Go's map iteration order is the
  list argument \<open>ord\<close>. Contexts are numbers; \<open>mDone\<close> are the cancelled ones.
\<close>

section \<open>Types\<close>

datatype Direction = DirectionIncoming | DirectionOutgoing

datatype Status = StatusOffered | StatusQueued | StatusNegotiating | StatusConnecting
  | StatusTransferring | StatusCompleted | StatusFailed | StatusCanceled | StatusDeclined
  | StatusResumable

fun Active :: "Status \<Rightarrow> bool" where
  "Active StatusOffered = True"
| "Active StatusQueued = True"
| "Active StatusNegotiating = True"
| "Active StatusConnecting = True"
| "Active StatusTransferring = True"
| "Active _ = False"

text \<open>The modes and retentions are strings at the boundary; \<open>ValidateSettings\<close> rejects others.\<close>

definition ConnectionAutomatic :: string where "ConnectionAutomatic = ''automatic''"
definition ConnectionClassic :: string where "ConnectionClassic = ''classic''"
definition ConnectionPassive :: string where "ConnectionPassive = ''passive''"
definition HistoryForever :: string where "HistoryForever = ''forever''"
definition History30Days :: string where "History30Days = ''30_days''"
definition HistoryNone :: string where "HistoryNone = ''none''"

record Settings =
  sEnabled :: bool
  sDownloadDirectory :: string
  sHistoryRetention :: string
  sConnectionMode :: string
  sAdvertisedAddress :: string
  sPortMin :: int
  sPortMax :: int

record Transfer =
  tID :: string
  tNetworkID :: int
  tNetworkName :: string
  tPeer :: string
  tDirection :: Direction
  tFilename :: string
  tLocalPath :: string
  tPartialPath :: string
  tTotalBytes :: int
  tTransferredBytes :: int
  tStatus :: Status
  tError :: string
  tAddress :: string
  tPort :: int
  tToken :: string
  tResumeOffset :: int
  tCreatedAt :: int
  tUpdatedAt :: int
  tCompletedAt :: "int option"
  tSpeedBPS :: int
  tETASeconds :: int
  tFileAvailable :: bool
  tResumable :: bool

record View =
  vID :: string
  vNetworkID :: int
  vNetworkName :: string
  vPeer :: string
  vDirection :: Direction
  vFilename :: string
  vTotalBytes :: int
  vTransferredBytes :: int
  vStatus :: Status
  vError :: string
  vCreatedAt :: int
  vUpdatedAt :: int
  vCompletedAt :: "int option"
  vSpeedBPS :: int
  vETASeconds :: int
  vFileAvailable :: bool
  vResumable :: bool

definition view :: "Transfer \<Rightarrow> View" where
  "view t = \<lparr>vID = tID t, vNetworkID = tNetworkID t, vNetworkName = tNetworkName t,
     vPeer = tPeer t, vDirection = tDirection t, vFilename = tFilename t,
     vTotalBytes = tTotalBytes t, vTransferredBytes = tTransferredBytes t,
     vStatus = tStatus t, vError = tError t, vCreatedAt = tCreatedAt t,
     vUpdatedAt = tUpdatedAt t, vCompletedAt = tCompletedAt t,
     vSpeedBPS = tSpeedBPS t, vETASeconds = tETASeconds t,
     vFileAvailable = tFileAvailable t, vResumable = tResumable t\<rparr>"

datatype Event = Upsert View | Remove string

text \<open>The error classes \<open>userError\<close> tells apart.\<close>

datatype goerr = DeadlineExceeded | PathError string | LinkError string | NetOpError string
  | OtherError string

datatype worker = AcceptSend nat | AwaitPassive nat | DialSend nat string int
  | DialReceive nat string int | AcceptReceive nat

datatype effect = Persist Transfer | Emit Event | SendControl int string string
  | Spawn string worker | CloseListener | RemoveFile string | RemoveRow string

datatype fstat = StatOk bool int | NotExist | StatError

record Env =
  eNow :: int
  eNewID :: "nat \<Rightarrow> string"
  eLstat :: "string \<Rightarrow> fstat"
  eStat :: "string \<Rightarrow> fstat"
  eMkdirAll :: "string \<Rightarrow> bool"
  eDisk :: "string \<Rightarrow> int option"
  eRemoveFile :: "string \<Rightarrow> bool"
  eListen :: "int \<Rightarrow> int option"
  eSend :: "int \<Rightarrow> string \<Rightarrow> string \<Rightarrow> goerr option"
  eToken :: "string \<Rightarrow> string"
  eRemoveRow :: "string \<Rightarrow> string option"

record Manager =
  mSettings :: Settings
  mItems :: "string \<rightharpoonup> Transfer"
  mCancels :: "string \<rightharpoonup> nat"
  mOffers :: "string \<rightharpoonup> Offer"
  mQueue :: "string list"
  mActive :: string
  mLastEmit :: "string \<rightharpoonup> int"
  mLastPersist :: "string \<rightharpoonup> int"
  mNextCtx :: nat
  mDone :: "nat set"
  mClosed :: bool
  mOut :: "effect list"

datatype mgr_error = Rejected string | Protocol dcc_error | Go goerr

section \<open>Settings\<close>

definition ValidateSettings :: "Settings \<Rightarrow> mgr_error option" where
  "ValidateSettings s =
     (if sConnectionMode s \<noteq> ConnectionAutomatic \<and> sConnectionMode s \<noteq> ConnectionClassic
          \<and> sConnectionMode s \<noteq> ConnectionPassive then Some (Rejected ''invalid connection mode'')
      else if sHistoryRetention s \<noteq> HistoryForever \<and> sHistoryRetention s \<noteq> History30Days
          \<and> sHistoryRetention s \<noteq> HistoryNone then Some (Rejected ''invalid history retention'')
      else if sDownloadDirectory s = [] then Some (Rejected ''download directory is required'')
      else if (sPortMin s = 0) \<noteq> (sPortMax s = 0) \<or> sPortMin s < 0 \<or> sPortMax s < 0
          \<or> sPortMin s > 65535 \<or> sPortMax s > 65535 \<or> sPortMin s > sPortMax s
        then Some (Rejected ''invalid port range'')
      else if sAdvertisedAddress s \<noteq> [] then
        (case ParseIP (trim_space (sAdvertisedAddress s)) of
           None \<Rightarrow> Some (Rejected ''invalid advertised address'')
         | Some a \<Rightarrow> if is_ok (validateRemoteIP a) then None
             else Some (Rejected ''unsafe advertised address''))
      else None)"

definition NewManager :: "Settings \<Rightarrow> mgr_error + Manager" where
  "NewManager s = (case ValidateSettings s of Some e \<Rightarrow> Err e | None \<Rightarrow>
     Ok \<lparr>mSettings = s, mItems = Map.empty, mCancels = Map.empty, mOffers = Map.empty, mQueue = [],
         mActive = [], mLastEmit = Map.empty, mLastPersist = Map.empty, mNextCtx = 0, mDone = {},
         mClosed = False, mOut = []\<rparr>)"

section \<open>Shared steps\<close>

definition emit_out :: "effect list \<Rightarrow> Manager \<Rightarrow> Manager" where
  "emit_out os m = m\<lparr>mOut := mOut m @ os\<rparr>"

definition changed :: "Transfer \<Rightarrow> Manager \<Rightarrow> Manager" where
  "changed t = emit_out [Persist t, Emit (Upsert (view t))]"

definition put :: "string \<Rightarrow> Transfer \<Rightarrow> Manager \<Rightarrow> Manager" where
  "put tid t m = m\<lparr>mItems := (mItems m)(tid \<mapsto> t)\<rparr>"

definition newCtx :: "Manager \<Rightarrow> nat \<times> Manager" where
  "newCtx m = (mNextCtx m, m\<lparr>mNextCtx := Suc (mNextCtx m)\<rparr>)"

definition call_cancel :: "nat option \<Rightarrow> Manager \<Rightarrow> Manager" where
  "call_cancel c m = (case c of None \<Rightarrow> m | Some c \<Rightarrow> m\<lparr>mDone := insert c (mDone m)\<rparr>)"

definition setCancel :: "string \<Rightarrow> nat \<Rightarrow> Manager \<Rightarrow> Manager" where
  "setCancel tid c m = (let m = call_cancel (mCancels m tid) m in m\<lparr>mCancels := (mCancels m)(tid \<mapsto> c)\<rparr>)"

definition cancelWorker :: "string \<Rightarrow> Manager \<Rightarrow> Manager" where
  "cancelWorker tid m = call_cancel (mCancels m tid) (m\<lparr>mCancels := (mCancels m)(tid := None)\<rparr>)"

definition clearWorkerLocked :: "string \<Rightarrow> Manager \<Rightarrow> Manager" where
  "clearWorkerLocked tid m = m\<lparr>mCancels := (mCancels m)(tid := None),
     mLastEmit := (mLastEmit m)(tid := None), mLastPersist := (mLastPersist m)(tid := None)\<rparr>"

text \<open>The context of a worker is cancelled by its own cancel function or by \<open>Close\<close>.\<close>

definition ctx_canceled :: "Manager \<Rightarrow> nat option \<Rightarrow> bool" where
  "ctx_canceled m ctx = (case ctx of None \<Rightarrow> False | Some c \<Rightarrow> c \<in> mDone m \<or> mClosed m)"

fun userError :: "goerr \<Rightarrow> string" where
  "userError DeadlineExceeded = ''The connection timed out''"
| "userError (PathError _) = ''A local file could not be read or written''"
| "userError (LinkError _) = ''The received file could not be saved''"
| "userError (NetOpError _) = ''The direct connection failed''"
| "userError (OtherError s) = s"

fun find_port :: "Env \<Rightarrow> int list \<Rightarrow> int option" where
  "find_port env [] = None"
| "find_port env (p # ps) = (case eListen env p of Some q \<Rightarrow> Some q | None \<Rightarrow> find_port env ps)"

definition listen :: "Env \<Rightarrow> Settings \<Rightarrow> goerr + int" where
  "listen env s =
     (if sPortMin s = 0 then
        (case eListen env 0 of Some q \<Rightarrow> Ok q | None \<Rightarrow> Err (NetOpError ''listen''))
      else (case find_port env [sPortMin s..sPortMax s] of Some q \<Rightarrow> Ok q
            | None \<Rightarrow> Err (OtherError ''no available port in the configured range'')))"

definition Get :: "Manager \<Rightarrow> string \<Rightarrow> Transfer option" where "Get m tid = mItems m tid"

section \<open>Finishing a transfer with an error\<close>

text \<open>The record after \<open>finishWithError\<close>, before the callbacks run.\<close>

definition failed_transfer :: "Env \<Rightarrow> bool \<Rightarrow> goerr \<Rightarrow> Transfer \<Rightarrow> Transfer" where
  "failed_transfer env canceled err t =
     (let t = (if canceled then t\<lparr>tStatus := StatusCanceled, tError := []\<rparr>
               else t\<lparr>tStatus := StatusFailed, tError := userError err\<rparr>);
          t = (if tDirection t = DirectionIncoming \<and> tPartialPath t \<noteq> [] \<and> tTransferredBytes t > 0
                  \<and> (case eStat env (tPartialPath t) of StatOk _ _ \<Rightarrow> True | _ \<Rightarrow> False)
               then t\<lparr>tStatus := StatusResumable, tResumable := True\<rparr> else t);
          t = t\<lparr>tUpdatedAt := eNow env, tSpeedBPS := 0, tETASeconds := 0\<rparr>
      in if tStatus t \<noteq> StatusResumable then t\<lparr>tCompletedAt := Some (eNow env)\<rparr> else t)"

definition cleanup_partial :: "Transfer \<Rightarrow> effect list" where
  "cleanup_partial t =
     (if tDirection t = DirectionIncoming \<and> \<not> tResumable t \<and> tPartialPath t \<noteq> []
      then [RemoveFile (tPartialPath t)] else [])"

text \<open>Everything \<open>finishWithError\<close> does up to its last call, \<open>advanceOutgoing\<close>.\<close>

definition finish_core :: "Env \<Rightarrow> string \<Rightarrow> nat option \<Rightarrow> goerr \<Rightarrow> Transfer \<Rightarrow> Manager \<Rightarrow> Manager" where
  "finish_core env tid ctx err t m =
     (let t' = failed_transfer env (ctx_canceled m ctx) err t;
          cancel = mCancels m tid;
          m = call_cancel cancel (clearWorkerLocked tid (put tid t' m))
      in changed t' (emit_out (cleanup_partial t') m))"

definition clear_active :: "string \<Rightarrow> Manager \<Rightarrow> Manager" where
  "clear_active tid m = (if mActive m = tid then m\<lparr>mActive := []\<rparr> else m)"

section \<open>The outgoing queue\<close>

text \<open>
  \<open>beginClassicOutgoing\<close> and \<open>beginPassiveOutgoing\<close>: their last action on an error is a call of
  \<open>m.fail\<close>; the error it passes is the result, and \<open>startNextOutgoing\<close> makes the call.
\<close>

definition send_control :: "Env \<Rightarrow> int \<Rightarrow> string \<Rightarrow> string \<Rightarrow> Manager \<Rightarrow> goerr option \<times> Manager" where
  "send_control env nid peer payload m =
     (eSend env nid peer payload, emit_out [SendControl nid peer payload] m)"

definition beginClassicOutgoing :: "Env \<Rightarrow> string \<Rightarrow> Manager \<Rightarrow> goerr option \<times> Manager" where
  "beginClassicOutgoing env tid m = (case mItems m tid of None \<Rightarrow> (None, m) | Some t \<Rightarrow>
     let s = mSettings m in
     if tStatus t \<noteq> StatusNegotiating then (None, m)
     else if sAdvertisedAddress s = [] then
       (Some (OtherError ''Set an advertised address or use Automatic compatibility mode''), m)
     else (case listen env s of Inl e \<Rightarrow> (Some e, m) | Inr port \<Rightarrow>
       if \<not> sEnabled s then (None, emit_out [CloseListener] m)
       else (case FormatAddress (sAdvertisedAddress s) of
         Inl e \<Rightarrow> (Some (OtherError ''invalid advertised address''), emit_out [CloseListener] m)
       | Inr address \<Rightarrow>
         let m = put tid (t\<lparr>tPort := port, tAddress := address, tStatus := StatusNegotiating,
                   tUpdatedAt := eNow env\<rparr>) m
         in (case send_control env (tNetworkID t) (tPeer t)
                 (FormatSend (tFilename t) address port (tTotalBytes t) []) m of
               (Some e, m) \<Rightarrow> (Some e, emit_out [CloseListener] m)
             | (None, m) \<Rightarrow>
                 let (c, m) = newCtx m
                 in (None, emit_out [Spawn tid (AcceptSend c)] (setCancel tid c m))))))"

definition beginPassiveOutgoing :: "Env \<Rightarrow> string \<Rightarrow> Manager \<Rightarrow> goerr option \<times> Manager" where
  "beginPassiveOutgoing env tid m = (case mItems m tid of None \<Rightarrow> (None, m) | Some t \<Rightarrow>
     if tStatus t \<noteq> StatusNegotiating then (None, m)
     else let t = t\<lparr>tToken := eToken env tid, tPort := 0, tAddress := ''0'',
                tStatus := StatusNegotiating, tUpdatedAt := eNow env\<rparr>;
              m = put tid t m
       in (case send_control env (tNetworkID t) (tPeer t)
               (FormatSend (tFilename t) ''0'' 0 (tTotalBytes t) (tToken t)) m of
             (Some e, m) \<Rightarrow> (Some e, m)
           | (None, m) \<Rightarrow>
               let (c, m) = newCtx (changed t m)
               in (None, emit_out [Spawn tid (AwaitPassive c)] (setCancel tid c m))))"

definition effective_mode :: "Settings \<Rightarrow> string" where
  "effective_mode s = (if sConnectionMode s = ConnectionAutomatic
     then (if sAdvertisedAddress s = [] then ConnectionPassive else ConnectionClassic)
     else sConnectionMode s)"

definition begin_outgoing :: "Env \<Rightarrow> string \<Rightarrow> Manager \<Rightarrow> goerr option \<times> Manager" where
  "begin_outgoing env tid m =
     (if effective_mode (mSettings m) = ConnectionPassive then beginPassiveOutgoing env tid m
      else beginClassicOutgoing env tid m)"

text \<open>
  A transfer taken off the queue becomes the active one. \<open>fail\<close> on it is \<open>finish_core\<close> and
  \<open>advanceOutgoing\<close>, whose call of \<open>startNextOutgoing\<close> is the recursive one here
  (lemma \<open>startNextOutgoing_fail\<close> below).
\<close>

definition negotiate :: "Env \<Rightarrow> string \<Rightarrow> Transfer \<Rightarrow> Manager \<Rightarrow> Manager" where
  "negotiate env tid t m =
     (let t' = t\<lparr>tStatus := StatusNegotiating, tUpdatedAt := eNow env\<rparr>
      in changed t' (put tid t' (m\<lparr>mActive := tid\<rparr>)))"

definition fail_core :: "Env \<Rightarrow> string \<Rightarrow> nat option \<Rightarrow> goerr \<Rightarrow> Manager \<Rightarrow> Manager" where
  "fail_core env tid ctx err m = (case mItems m tid of None \<Rightarrow> m
     | Some t \<Rightarrow> clear_active tid (finish_core env tid ctx err t m))"

named_theorems mgr_defs \<open>the straight-line steps of the manager\<close>

lemmas [mgr_defs] = emit_out_def changed_def put_def newCtx_def call_cancel_def setCancel_def
  cancelWorker_def clearWorkerLocked_def clear_active_def finish_core_def fail_core_def
  send_control_def negotiate_def Let_def

text \<open>Negotiating and failing leave the queue, the settings and the other transfers alone.\<close>

definition same_but_peer :: "Transfer \<Rightarrow> Transfer \<Rightarrow> bool" where
  "same_but_peer t t' \<longleftrightarrow> t'\<lparr>tPort := tPort t, tAddress := tAddress t, tToken := tToken t,
     tUpdatedAt := tUpdatedAt t\<rparr> = t"

definition begin_frame :: "string \<Rightarrow> Manager \<Rightarrow> Manager \<Rightarrow> bool" where
  "begin_frame tid m m' \<longleftrightarrow> mQueue m' = mQueue m \<and> mActive m' = mActive m \<and> mSettings m' = mSettings m
     \<and> mClosed m' = mClosed m \<and> mOffers m' = mOffers m \<and> mDone m \<subseteq> mDone m'
     \<and> (\<forall>j. j \<noteq> tid \<longrightarrow> mItems m' j = mItems m j \<and> mCancels m' j = mCancels m j)
     \<and> rel_option same_but_peer (mItems m tid) (mItems m' tid)"

lemma same_but_peer_refl [simp]: "same_but_peer t t"
  by (simp add: same_but_peer_def)

lemma begin_frame_refl: "begin_frame tid m m"
  by (cases "mItems m tid") (simp_all add: begin_frame_def)

lemma begin_frame_emit: "begin_frame tid m m' \<Longrightarrow> begin_frame tid m (emit_out os m')"
  by (simp add: begin_frame_def emit_out_def)

lemma begin_frame_worker:
  "begin_frame tid m m' \<Longrightarrow> begin_frame tid m (setCancel tid c (m'\<lparr>mNextCtx := n\<rparr>))"
  by (auto simp: begin_frame_def setCancel_def call_cancel_def Let_def split: option.split)

lemma begin_frame_put:
  "mItems m tid = Some t \<Longrightarrow> same_but_peer t t' \<Longrightarrow> begin_frame tid m (put tid t' m)"
  by (simp add: begin_frame_def put_def)

lemma classic_frame:
  assumes "beginClassicOutgoing env tid m = (r, m')" shows "begin_frame tid m m'"
proof (cases "mItems m tid")
  case (Some t)
  show ?thesis
  proof (cases "tStatus t = StatusNegotiating")
    case True
    then have "same_but_peer t (t\<lparr>tPort := p, tAddress := a, tStatus := StatusNegotiating, tUpdatedAt := u\<rparr>)"
      for p a u by (simp add: same_but_peer_def)
    from begin_frame_put [of m, OF Some this]
    have put: "begin_frame tid m (put tid (t\<lparr>tPort := p, tAddress := a, tStatus := StatusNegotiating, tUpdatedAt := u\<rparr>) m)"
      for p a u .
    show ?thesis
      using assms Some True
      by (auto simp: beginClassicOutgoing_def Let_def send_control_def newCtx_def
          intro!: put begin_frame_refl begin_frame_emit begin_frame_worker
          split: if_splits sum.splits option.splits prod.splits)
  qed (use assms Some in \<open>auto simp: beginClassicOutgoing_def begin_frame_refl\<close>)
qed (use assms in \<open>auto simp: beginClassicOutgoing_def begin_frame_refl\<close>)

lemma passive_frame:
  assumes "beginPassiveOutgoing env tid m = (r, m')" shows "begin_frame tid m m'"
proof (cases "mItems m tid")
  case (Some t)
  show ?thesis
  proof (cases "tStatus t = StatusNegotiating")
    case True
    then have "same_but_peer t (t\<lparr>tToken := k, tPort := p, tAddress := a, tStatus := StatusNegotiating, tUpdatedAt := u\<rparr>)"
      for k p a u by (simp add: same_but_peer_def)
    from begin_frame_put [of m, OF Some this]
    have put: "begin_frame tid m (put tid (t\<lparr>tToken := k, tPort := p, tAddress := a, tStatus := StatusNegotiating, tUpdatedAt := u\<rparr>) m)"
      for k p a u .
    show ?thesis
      using assms Some True
      by (auto simp: beginPassiveOutgoing_def Let_def send_control_def changed_def newCtx_def
          intro!: put begin_frame_refl begin_frame_emit begin_frame_worker
          split: if_splits option.splits prod.splits)
  qed (use assms Some in \<open>auto simp: beginPassiveOutgoing_def begin_frame_refl\<close>)
qed (use assms in \<open>auto simp: beginPassiveOutgoing_def begin_frame_refl\<close>)

lemma begin_outgoing_frame: "begin_outgoing env tid m = (r, m') \<Longrightarrow> begin_frame tid m m'"
  by (auto simp: begin_outgoing_def dest: classic_frame passive_frame split: if_splits)

lemma fail_core_frame:
  "mQueue (fail_core env tid ctx err m) = mQueue m"
  "mSettings (fail_core env tid ctx err m) = mSettings m"
  "mClosed (fail_core env tid ctx err m) = mClosed m"
  "mOffers (fail_core env tid ctx err m) = mOffers m"
  "j \<noteq> tid \<Longrightarrow> mItems (fail_core env tid ctx err m) j = mItems m j"
  by (auto simp: mgr_defs split: option.splits)

lemma negotiate_frame:
  "mQueue (negotiate env tid t m) = mQueue m"
  "mSettings (negotiate env tid t m) = mSettings m"
  "mActive (negotiate env tid t m) = tid"
  "mItems (negotiate env tid t m) = (mItems m)(tid \<mapsto> t\<lparr>tStatus := StatusNegotiating, tUpdatedAt := eNow env\<rparr>)"
  by (simp_all add: mgr_defs)

lemma begin_negotiate_queue:
  "(r, m2) = begin_outgoing env tid (negotiate env tid t m1) \<Longrightarrow> mQueue m2 = mQueue m1"
  using begin_outgoing_frame [of env tid "negotiate env tid t m1" r m2]
  by (simp add: begin_frame_def negotiate_frame)

function startNextOutgoing :: "Env \<Rightarrow> Manager \<Rightarrow> Manager" where
  "startNextOutgoing env m =
     (if mActive m \<noteq> [] \<or> mQueue m = [] \<or> \<not> sEnabled (mSettings m) then m
      else let tid = hd (mQueue m); m1 = m\<lparr>mQueue := tl (mQueue m)\<rparr> in
        case mItems m1 tid of
          None \<Rightarrow> startNextOutgoing env m1
        | Some t \<Rightarrow>
            if tStatus t \<noteq> StatusQueued then startNextOutgoing env m1
            else (case begin_outgoing env tid (negotiate env tid t m1) of
                (None, m2) \<Rightarrow> m2
              | (Some e, m2) \<Rightarrow> startNextOutgoing env (fail_core env tid None e m2)))"
  by pat_completeness auto
termination
  apply (relation "measure (\<lambda>(env, m). length (mQueue m))")
  by (auto simp: fail_core_frame dest!: begin_negotiate_queue)
declare startNextOutgoing.simps [simp del]

definition advanceOutgoing :: "Env \<Rightarrow> string \<Rightarrow> Manager \<Rightarrow> Manager" where
  "advanceOutgoing env tid m = startNextOutgoing env (clear_active tid m)"

definition finishWithError :: "Env \<Rightarrow> string \<Rightarrow> nat option \<Rightarrow> goerr \<Rightarrow> Manager \<Rightarrow> Manager" where
  "finishWithError env tid ctx err m = (case mItems m tid of None \<Rightarrow> m
     | Some t \<Rightarrow> advanceOutgoing env tid (finish_core env tid ctx err t m))"

text \<open>\<open>fail\<close> finishes with the background context, which is never cancelled.\<close>

definition fail :: "Env \<Rightarrow> string \<Rightarrow> goerr \<Rightarrow> Manager \<Rightarrow> Manager" where
  "fail env tid err m = finishWithError env tid None err m"

section \<open>The exported operations\<close>

definition restored :: "Env \<Rightarrow> Transfer \<Rightarrow> Transfer" where
  "restored env t =
     (if Active (tStatus t) then
        (if tDirection t = DirectionIncoming \<and> tPartialPath t \<noteq> [] \<and> tTransferredBytes t > 0
         then t\<lparr>tStatus := StatusResumable, tResumable := True, tUpdatedAt := eNow env\<rparr>
         else t\<lparr>tStatus := StatusFailed, tError := ''Cascade closed before the transfer finished'',
                 tCompletedAt := Some (eNow env), tUpdatedAt := eNow env\<rparr>)
      else t)"

definition Restore :: "Env \<Rightarrow> Transfer list \<Rightarrow> Manager \<Rightarrow> Manager" where
  "Restore env ts m =
     (let m = foldl (\<lambda>m t. put (tID t) (restored env t) m) m ts
      in foldl (\<lambda>m t. changed t m) m (map (restored env) (filter (\<lambda>t. Active (tStatus t)) ts)))"

text \<open>The items a \<open>for range m.items\<close> loop visits in the order \<open>ord\<close>.\<close>

definition visit :: "Manager \<Rightarrow> string list \<Rightarrow> (string \<times> Transfer) list" where
  "visit m ord = List.map_filter (\<lambda>i. map_option (Pair i) (mItems m i)) ord"

definition snapshot_views :: "bool \<Rightarrow> Manager \<Rightarrow> string list \<Rightarrow> View list" where
  "snapshot_views activeOnly m ord =
     map (\<lambda>(i, t). view t) (filter (\<lambda>(i, t). \<not> (activeOnly \<and> \<not> Active (tStatus t)
        \<and> tStatus t \<noteq> StatusResumable \<and> tStatus t \<noteq> StatusFailed)) (visit m ord))"

text \<open>\<open>sort.Slice\<close> by the update time, newest first (equal times keep the visit order here).\<close>

definition Snapshot :: "bool \<Rightarrow> Manager \<Rightarrow> string list \<Rightarrow> View list" where
  "Snapshot activeOnly m ord = sort_key (\<lambda>v. - vUpdatedAt v) (snapshot_views activeOnly m ord)"

text \<open>\<open>Cancel\<close>.\<close>

definition canceled_transfer :: "Env \<Rightarrow> Transfer \<Rightarrow> Transfer" where
  "canceled_transfer env t =
     (let t = t\<lparr>tStatus := StatusCanceled, tUpdatedAt := eNow env\<rparr>
      in if tDirection t = DirectionIncoming \<and> tPartialPath t \<noteq> [] \<and> tTransferredBytes t > 0
         then t\<lparr>tStatus := StatusResumable, tResumable := True\<rparr>
         else t\<lparr>tCompletedAt := Some (eNow env)\<rparr>)"

definition cancel_core :: "Env \<Rightarrow> string \<Rightarrow> Transfer \<Rightarrow> Manager \<Rightarrow> Manager" where
  "cancel_core env tid t m =
     (let m = m\<lparr>mQueue := remove1 tid (mQueue m)\<rparr>;
          cancel = mCancels m tid;
          t' = canceled_transfer env t;
          m = call_cancel cancel (clearWorkerLocked tid (put tid t' m))
      in changed t' (emit_out (cleanup_partial t') m))"

definition Cancel :: "Env \<Rightarrow> string \<Rightarrow> Manager \<Rightarrow> mgr_error option \<times> Manager" where
  "Cancel env tid m = (case mItems m tid of
     None \<Rightarrow> (Some (Rejected ''active transfer was not found''), m)
   | Some t \<Rightarrow>
       if \<not> Active (tStatus t) \<and> tStatus t \<noteq> StatusResumable
       then (Some (Rejected ''active transfer was not found''), m)
       else (None, advanceOutgoing env tid (cancel_core env tid t m)))"

definition CancelAll :: "Env \<Rightarrow> string list \<Rightarrow> Manager \<Rightarrow> Manager" where
  "CancelAll env ord m =
     (let ids = map fst (filter (\<lambda>(i, t). Active (tStatus t)) (visit m ord))
      in foldl (\<lambda>m i. snd (Cancel env i m)) m ids)"

definition some_active :: "Manager \<Rightarrow> string list \<Rightarrow> bool" where
  "some_active m ord \<longleftrightarrow> mCancels m \<noteq> Map.empty \<or> mActive m \<noteq> [] \<or> mQueue m \<noteq> []
     \<or> (\<exists>(i, t) \<in> set (visit m ord). Active (tStatus t))"

definition UpdateSettings ::
    "Env \<Rightarrow> string list \<Rightarrow> Settings \<Rightarrow> bool \<Rightarrow> Manager \<Rightarrow> mgr_error option \<times> Manager" where
  "UpdateSettings env ord s cancelActive m =
     (case ValidateSettings s of Some e \<Rightarrow> (Some e, m) | None \<Rightarrow>
        if \<not> sEnabled s \<and> some_active m ord \<and> \<not> cancelActive
        then (Some (Rejected ''file transfers are still active''), m)
        else if \<not> sEnabled s \<and> cancelActive
        then (None, CancelAll env ord (m\<lparr>mSettings := s\<rparr>))
        else (None, m\<lparr>mSettings := s\<rparr>))"

definition Close :: "Env \<Rightarrow> string list \<Rightarrow> Manager \<Rightarrow> Manager" where
  "Close env ord m = CancelAll env ord
     (m\<lparr>mSettings := (mSettings m)\<lparr>sEnabled := False\<rparr>, mClosed := True\<rparr>)"

definition Decline :: "Env \<Rightarrow> string \<Rightarrow> Manager \<Rightarrow> mgr_error option \<times> Manager" where
  "Decline env tid m = (case mItems m tid of
     None \<Rightarrow> (Some (Rejected ''transfer offer was not found''), m)
   | Some t \<Rightarrow> if tStatus t \<noteq> StatusOffered then (Some (Rejected ''transfer offer was not found''), m)
       else let t' = t\<lparr>tStatus := StatusDeclined, tUpdatedAt := eNow env, tCompletedAt := Some (eNow env)\<rparr>
         in (None, changed t' (put tid t' m)))"

definition regular :: "fstat \<Rightarrow> int option" where
  "regular st = (case st of StatOk True n \<Rightarrow> Some n | _ \<Rightarrow> None)"

definition Retry :: "Env \<Rightarrow> string \<Rightarrow> Manager \<Rightarrow> mgr_error option \<times> Manager" where
  "Retry env tid m =
     (if \<not> sEnabled (mSettings m) then (Some (Rejected ''file transfers are turned off''), m)
      else case mItems m tid of
        None \<Rightarrow> (Some (Rejected ''transfer cannot be retried''), m)
      | Some t \<Rightarrow>
          if tDirection t \<noteq> DirectionOutgoing \<or> (tStatus t \<noteq> StatusFailed \<and> tStatus t \<noteq> StatusCanceled)
          then (Some (Rejected ''transfer cannot be retried''), m)
          else if regular (eLstat env (tLocalPath t)) = None
          then (Some (Rejected ''source file is unavailable''), m)
          else let t' = t\<lparr>tStatus := StatusQueued, tError := [], tTransferredBytes := 0,
                     tResumeOffset := 0, tUpdatedAt := eNow env, tCompletedAt := None, tResumable := False\<rparr>
            in (None, startNextOutgoing env (changed t' (put tid t' (m\<lparr>mQueue := mQueue m @ [tid]\<rparr>)))))"

definition DiscardPartial :: "Env \<Rightarrow> string \<Rightarrow> Manager \<Rightarrow> mgr_error option \<times> Manager" where
  "DiscardPartial env tid m = (case mItems m tid of
     None \<Rightarrow> (Some (Rejected ''partial transfer was not found''), m)
   | Some t \<Rightarrow>
       if \<not> tResumable t \<or> tPartialPath t = []
       then (Some (Rejected ''partial transfer was not found''), m)
       else let m = m\<lparr>mItems := (mItems m)(tid := None), mOffers := (mOffers m)(tid := None)\<rparr>;
                m = emit_out [RemoveFile (tPartialPath t)] m
         in if \<not> eRemoveFile env (tPartialPath t) then (Some (Go (PathError ''remove'')), m)
            else (None, emit_out [RemoveRow tid, Emit (Remove tid)] m))"

definition RemoveHistory :: "Env \<Rightarrow> string \<Rightarrow> Manager \<Rightarrow> mgr_error option \<times> Manager" where
  "RemoveHistory env tid m =
     (let err = Rejected ''active or resumable transfers cannot be removed from history'' in
      case mItems m tid of None \<Rightarrow> (Some err, m)
      | Some t \<Rightarrow>
          if Active (tStatus t) \<or> tResumable t then (Some err, m)
          else let m = emit_out [RemoveRow tid] (m\<lparr>mItems := (mItems m)(tid := None)\<rparr>)
            in (case eRemoveRow env tid of Some e \<Rightarrow> (Some (Go (OtherError e)), m)
                | None \<Rightarrow> (None, emit_out [Emit (Remove tid)] m)))"

definition ClearHistory :: "string list \<Rightarrow> Manager \<Rightarrow> Manager" where
  "ClearHistory ord m =
     (let removed = map fst (filter (\<lambda>(i, t). \<not> Active (tStatus t) \<and> \<not> tResumable t) (visit m ord));
          m = foldl (\<lambda>m i. m\<lparr>mItems := (mItems m)(i := None)\<rparr>) m removed
      in emit_out (map (\<lambda>i. Emit (Remove i)) removed) m)"

definition Locate :: "Env \<Rightarrow> string \<Rightarrow> string \<Rightarrow> Manager \<Rightarrow> mgr_error option \<times> Manager" where
  "Locate env tid path m = (case regular (eStat env path) of
     None \<Rightarrow> (Some (Rejected ''selected file is unavailable''), m)
   | Some n \<Rightarrow> (case mItems m tid of
       None \<Rightarrow> (Some (Rejected ''transfer history entry was not found''), m)
     | Some t \<Rightarrow>
         if Active (tStatus t) \<or> tResumable t
         then (Some (Rejected ''transfer history entry was not found''), m)
         else if tTotalBytes t \<ge> 0 \<and> n \<noteq> tTotalBytes t
         then (Some (Rejected ''selected file does not match the transferred size''), m)
         else let t' = t\<lparr>tLocalPath := path, tFileAvailable := True, tUpdatedAt := eNow env\<rparr>
           in (None, changed t' (put tid t' m))))"

section \<open>Offers and control messages\<close>

text \<open>The first visited transfer that satisfies a predicate.\<close>

definition find_item :: "Manager \<Rightarrow> string list \<Rightarrow> (Transfer \<Rightarrow> bool) \<Rightarrow> (string \<times> Transfer) option" where
  "find_item m ord P = List.find (\<lambda>(i, t). P t) (visit m ord)"

definition new_transfer :: "string \<Rightarrow> int \<Rightarrow> string \<Rightarrow> string \<Rightarrow> Direction \<Rightarrow> string \<Rightarrow> int \<Rightarrow> Status \<Rightarrow> int \<Rightarrow> Transfer" where
  "new_transfer tid nid nname peer dir fname totalBytes st now =
     \<lparr>tID = tid, tNetworkID = nid, tNetworkName = nname, tPeer = peer, tDirection = dir,
      tFilename = fname, tLocalPath = [], tPartialPath = [], tTotalBytes = totalBytes,
      tTransferredBytes = 0, tStatus = st, tError = [], tAddress = [], tPort = 0, tToken = [],
      tResumeOffset = 0, tCreatedAt = now, tUpdatedAt = now, tCompletedAt = None, tSpeedBPS = 0,
      tETASeconds = 0, tFileAvailable = False, tResumable = False\<rparr>"

definition matches_resumable :: "int \<Rightarrow> string \<Rightarrow> Offer \<Rightarrow> Transfer \<Rightarrow> bool" where
  "matches_resumable nid peer off t \<longleftrightarrow> tDirection t = DirectionIncoming
     \<and> tStatus t = StatusResumable \<and> tNetworkID t = nid \<and> equal_fold (tPeer t) peer
     \<and> tFilename t = ofFilename off \<and> tTotalBytes t = ofSize off"

definition addIncomingOffer ::
    "Env \<Rightarrow> string list \<Rightarrow> int \<Rightarrow> string \<Rightarrow> string \<Rightarrow> Offer \<Rightarrow> Manager \<Rightarrow> Manager" where
  "addIncomingOffer env ord nid nname peer off m =
     (case find_item m ord (matches_resumable nid peer off) of
        Some (i, t) \<Rightarrow>
          let t' = t\<lparr>tAddress := ofAddress off, tPort := ofPort off, tToken := ofToken off,
                     tStatus := StatusOffered, tError := [], tUpdatedAt := eNow env\<rparr>
          in changed t' ((put i t' m)\<lparr>mOffers := (mOffers m)(tID t \<mapsto> off)\<rparr>)
      | None \<Rightarrow>
          let i = eNewID env 0;
              t = (new_transfer i nid nname peer DirectionIncoming (ofFilename off) (ofSize off)
                     StatusOffered (eNow env))
                  \<lparr>tAddress := ofAddress off, tPort := ofPort off, tToken := ofToken off\<rparr>
          in changed t ((put i t m)\<lparr>mOffers := (mOffers m)(i \<mapsto> off)\<rparr>))"

definition matches_passive :: "int \<Rightarrow> string \<Rightarrow> Offer \<Rightarrow> Transfer \<Rightarrow> bool" where
  "matches_passive nid peer off t \<longleftrightarrow> tDirection t = DirectionOutgoing \<and> tNetworkID t = nid
     \<and> equal_fold (tPeer t) peer \<and> tToken t = ofToken off \<and> tFilename t = ofFilename off
     \<and> tStatus t = StatusNegotiating"

definition handlePassiveResponse ::
    "string list \<Rightarrow> int \<Rightarrow> string \<Rightarrow> Offer \<Rightarrow> Manager \<Rightarrow> bool \<times> Manager" where
  "handlePassiveResponse ord nid peer off m =
     (if \<not> sEnabled (mSettings m) then (False, m)
      else case find_item m ord (matches_passive nid peer off) of None \<Rightarrow> (False, m)
      | Some (i, t) \<Rightarrow>
          let m = put i (t\<lparr>tAddress := ofAddress off, tPort := ofPort off\<rparr>) m;
              (c, m) = newCtx (cancelWorker i m)
          in (True, emit_out [Spawn i (DialSend c (ofAddress off) (ofPort off))] (setCancel i c m)))"

definition matches_resume_request :: "int \<Rightarrow> string \<Rightarrow> Offer \<Rightarrow> Transfer \<Rightarrow> bool" where
  "matches_resume_request nid peer off t \<longleftrightarrow> tDirection t = DirectionOutgoing \<and> tNetworkID t = nid
     \<and> equal_fold (tPeer t) peer \<and> tFilename t = ofFilename off
     \<and> (tPort t = ofPort off \<or> (ofToken off \<noteq> [] \<and> tToken t = ofToken off))"

definition handleResumeRequest ::
    "Env \<Rightarrow> string list \<Rightarrow> int \<Rightarrow> string \<Rightarrow> Offer \<Rightarrow> Manager \<Rightarrow> mgr_error option \<times> Manager" where
  "handleResumeRequest env ord nid peer off m =
     (case find_item m ord (matches_resume_request nid peer off) of
        None \<Rightarrow> (Some (Rejected ''no matching outgoing transfer''), m)
      | Some (i, t) \<Rightarrow>
          if ofPosition off > tTotalBytes t
          then (Some (Rejected ''resume position exceeds file size''), m)
          else let t' = t\<lparr>tResumeOffset := ofPosition off, tTransferredBytes := ofPosition off\<rparr>;
                   (r, m) = send_control env nid peer (FormatResume CommandAccept (tFilename t)
                     (ofPort off) (ofPosition off) (ofToken off)) (put i t' m)
            in (map_option Go r, m))"

section \<open>Receiving\<close>

text \<open>The zero \<open>Offer\<close>, which a Go map read of an absent key gives.\<close>

definition zero_offer :: Offer where
  "zero_offer = \<lparr>ofCommand = CommandChat, ofFilename = [], ofAddress = [], ofPort = 0, ofSize = 0,
     ofPosition = 0, ofToken = [], ofPassive = False\<rparr>"

definition offer_of :: "Manager \<Rightarrow> string \<Rightarrow> Offer" where
  "offer_of m tid = (case mOffers m tid of Some off \<Rightarrow> off | None \<Rightarrow> zero_offer)"

definition beginPassiveReceive ::
    "Env \<Rightarrow> nat \<Rightarrow> string \<Rightarrow> Transfer \<Rightarrow> Offer \<Rightarrow> Manager \<Rightarrow> goerr option \<times> Manager" where
  "beginPassiveReceive env c tid t off m =
     (let s = mSettings m in
      if sAdvertisedAddress s = []
      then (Some (OtherError ''an advertised address is required to accept this passive transfer''), m)
      else (case listen env s of Inl e \<Rightarrow> (Some e, m) | Inr port \<Rightarrow>
        (case FormatAddress (sAdvertisedAddress s) of
           Inl e \<Rightarrow> (Some (OtherError ''invalid advertised address''), emit_out [CloseListener] m)
         | Inr address \<Rightarrow>
             (case send_control env (tNetworkID t) (tPeer t)
                 (FormatSend (tFilename t) address port (tTotalBytes t) (ofToken off)) m of
                (Some e, m) \<Rightarrow> (Some e, emit_out [CloseListener] m)
              | (None, m) \<Rightarrow> (None, emit_out [Spawn tid (AcceptReceive c)] m)))))"

definition beginReceive ::
    "Env \<Rightarrow> string \<Rightarrow> Transfer \<Rightarrow> Offer \<Rightarrow> Manager \<Rightarrow> goerr option \<times> Manager" where
  "beginReceive env tid t off m =
     (let (c, m) = newCtx m; m = setCancel tid c m
      in if ofPassive off then beginPassiveReceive env c tid t off m
         else (None, emit_out [Spawn tid (DialReceive c (ofAddress off) (ofPort off))] m))"

text \<open>Starting the receive, and failing the transfer when that does not work.\<close>

definition receive_or_fail ::
    "Env \<Rightarrow> string \<Rightarrow> Transfer \<Rightarrow> Offer \<Rightarrow> Manager \<Rightarrow> mgr_error option \<times> Manager" where
  "receive_or_fail env tid t off m = (case beginReceive env tid t off m of
     (None, m) \<Rightarrow> (None, m)
   | (Some e, m) \<Rightarrow> (Some (Go e), fail env tid e m))"

definition matches_resume_accept :: "int \<Rightarrow> string \<Rightarrow> Offer \<Rightarrow> Transfer \<Rightarrow> bool" where
  "matches_resume_accept nid peer off t \<longleftrightarrow> tDirection t = DirectionIncoming \<and> tNetworkID t = nid
     \<and> equal_fold (tPeer t) peer \<and> tFilename t = ofFilename off
     \<and> tResumeOffset t = ofPosition off \<and> tStatus t = StatusConnecting"

definition handleResumeAccept ::
    "Env \<Rightarrow> string list \<Rightarrow> int \<Rightarrow> string \<Rightarrow> Offer \<Rightarrow> Manager \<Rightarrow> mgr_error option \<times> Manager" where
  "handleResumeAccept env ord nid peer off m =
     (case find_item m ord (matches_resume_accept nid peer off) of
        None \<Rightarrow> (Some (Rejected ''no matching incoming transfer''), m)
      | Some (i, t) \<Rightarrow> receive_or_fail env i t (offer_of m i) m)"

text \<open>\<open>HandleControl\<close>.\<close>

definition HandleControl ::
    "Env \<Rightarrow> string list \<Rightarrow> int \<Rightarrow> string \<Rightarrow> string \<Rightarrow> string \<Rightarrow> Manager \<Rightarrow> mgr_error option \<times> Manager" where
  "HandleControl env ord nid nname peer payload m =
     (if \<not> sEnabled (mSettings m) then (None, m)
      else case Parse payload of Inl e \<Rightarrow> (Some (Protocol e), m) | Inr off \<Rightarrow>
        (case ofCommand off of
           CommandSend \<Rightarrow>
             (let (handled, m') = (if ofToken off \<noteq> [] \<and> ofPort off > 0
                  then handlePassiveResponse ord nid peer off m else (False, m))
              in if handled then (None, m')
                 else (None, addIncomingOffer env ord nid nname peer off m'))
         | CommandResume \<Rightarrow> handleResumeRequest env ord nid peer off m
         | CommandAccept \<Rightarrow> handleResumeAccept env ord nid peer off m
         | CommandChat \<Rightarrow> (None, m)))"

text \<open>
  \<open>Accept\<close>. The local and partial paths are stored before the later checks, so the result on
  each branch is a transfer: an error keeps what was written up to there.
\<close>

definition accept_paths :: "Env \<Rightarrow> string \<Rightarrow> Transfer \<Rightarrow> mgr_error + Transfer" where
  "accept_paths env destination t =
     (if tPartialPath t \<noteq> [] then Ok t
      else (case eLstat env destination of
          StatOk _ _ \<Rightarrow> Err (Rejected ''a file already exists at that location'')
        | StatError \<Rightarrow> Err (Rejected ''cannot use that destination'')
        | NotExist \<Rightarrow>
            if \<not> eMkdirAll env destination
            then Err (Rejected ''create destination directory'')
            else Ok (t\<lparr>tLocalPath := destination,
                      tPartialPath := destination @ ''.cascade-part-'' @ take 8 (tID t)\<rparr>)))"

definition accept_offset :: "Env \<Rightarrow> Transfer \<Rightarrow> mgr_error + int" where
  "accept_offset env t = (case eStat env (tPartialPath t) of
     StatOk _ n \<Rightarrow>
       (if regular (eLstat env (tPartialPath t)) = None
        then Err (Rejected ''partial file is not a regular file'')
        else if n > tTotalBytes t
        then Err (Rejected ''partial file is larger than the offered file'')
        else Ok n)
   | _ \<Rightarrow> Ok 0)"

definition accept_space :: "Env \<Rightarrow> Transfer \<Rightarrow> int \<Rightarrow> mgr_error option" where
  "accept_space env t offset = (case eDisk env (tPartialPath t) of
     None \<Rightarrow> Some (Rejected ''could not verify available disk space'')
   | Some avail \<Rightarrow> if avail < tTotalBytes t - offset
       then Some (Rejected ''not enough free space to receive this file'') else None)"

definition Accept :: "Env \<Rightarrow> string \<Rightarrow> string \<Rightarrow> Manager \<Rightarrow> mgr_error option \<times> Manager" where
  "Accept env tid destination m =
     (if \<not> sEnabled (mSettings m) then (Some (Rejected ''file transfers are turned off''), m)
      else case mItems m tid of
        None \<Rightarrow> (Some (Rejected ''transfer is not available to accept''), m)
      | Some t0 \<Rightarrow>
          if tDirection t0 \<noteq> DirectionIncoming \<or> (tStatus t0 \<noteq> StatusOffered \<and> tStatus t0 \<noteq> StatusResumable)
          then (Some (Rejected ''transfer is not available to accept''), m)
          else if destination = [] then (Some (Rejected ''destination is required''), m)
          else case accept_paths env destination t0 of Inl e \<Rightarrow> (Some e, m) | Inr t1 \<Rightarrow>
            case accept_offset env t1 of Inl e \<Rightarrow> (Some e, put tid t1 m) | Inr offset \<Rightarrow>
            case accept_space env t1 offset of Some e \<Rightarrow> (Some e, put tid t1 m) | None \<Rightarrow>
              let off = offer_of m tid;
                  t = t1\<lparr>tResumeOffset := offset, tTransferredBytes := offset,
                         tStatus := StatusConnecting, tError := [], tUpdatedAt := eNow env\<rparr>;
                  m = changed t (put tid t m)
              in if offset > 0
                 then (case send_control env (tNetworkID t) (tPeer t)
                         (FormatResume CommandResume (tFilename t) (ofPort off) offset (ofToken off)) m of
                        (Some e, m) \<Rightarrow> (Some (Go e), fail env tid e m)
                      | (None, m) \<Rightarrow> (None, m))
                 else receive_or_fail env tid t off m)"

section \<open>Sending\<close>

definition select_file :: "Env \<Rightarrow> string \<Rightarrow> mgr_error + string \<times> string \<times> int" where
  "select_file env path = (case regular (eLstat env path) of
     None \<Rightarrow> Err (Rejected ''selected file is unavailable'')
   | Some n \<Rightarrow> (case safeFilename (filepath_base path) of
       Inl e \<Rightarrow> Err (Rejected ''selected filename is not compatible with file transfers'')
     | Inr name \<Rightarrow> Ok (path, name, n)))"

fun select_files :: "Env \<Rightarrow> string list \<Rightarrow> mgr_error + (string \<times> string \<times> int) list" where
  "select_files env [] = Ok []"
| "select_files env (p # ps) = (case select_file env p of Inl e \<Rightarrow> Err e
     | Inr f \<Rightarrow> map_sum id (Cons f) (select_files env ps))"

fun enqueue :: "Env \<Rightarrow> int \<Rightarrow> string \<Rightarrow> string \<Rightarrow> nat \<Rightarrow> (string \<times> string \<times> int) list \<Rightarrow> Manager
    \<Rightarrow> Transfer list \<times> Manager" where
  "enqueue env nid nname peer k [] m = ([], m)"
| "enqueue env nid nname peer k ((path, name, n) # fs) m =
     (let i = eNewID env k;
          t = (new_transfer i nid nname peer DirectionOutgoing name n StatusQueued (eNow env))
              \<lparr>tLocalPath := path, tFileAvailable := True\<rparr>;
          m = (put i t m)\<lparr>mQueue := mQueue m @ [i]\<rparr>;
          (ts, m) = enqueue env nid nname peer (Suc k) fs m
      in (t # ts, m))"

definition QueueOutgoing ::
    "Env \<Rightarrow> int \<Rightarrow> string \<Rightarrow> string \<Rightarrow> string list \<Rightarrow> Manager \<Rightarrow> (mgr_error + View list) \<times> Manager" where
  "QueueOutgoing env nid nname peer paths m =
     (if \<not> sEnabled (mSettings m) then (Err (Rejected ''file transfers are turned off''), m)
      else if paths = [] then (Ok [], m)
      else case select_files env paths of Inl e \<Rightarrow> (Err e, m) | Inr fs \<Rightarrow>
        let (ts, m) = enqueue env nid nname peer 0 fs m;
            m = foldl (\<lambda>m t. case Get m (tID t) of Some t' \<Rightarrow> changed t' m | None \<Rightarrow> m) m ts
        in (Ok (map view ts), startNextOutgoing env m))"

section \<open>Workers\<close>

definition markTransferring :: "Env \<Rightarrow> string \<Rightarrow> Manager \<Rightarrow> bool \<times> Manager" where
  "markTransferring env tid m = (case mItems m tid of None \<Rightarrow> (False, m)
     | Some t \<Rightarrow>
         if tStatus t = StatusNegotiating \<or> tStatus t = StatusConnecting
         then let t' = t\<lparr>tStatus := StatusTransferring, tError := [], tUpdatedAt := eNow env\<rparr>
           in (True, changed t' (put tid t' m))
         else (False, m))"

definition speed_update :: "int \<Rightarrow> int \<Rightarrow> Transfer \<Rightarrow> Transfer" where
  "speed_update transferred now t =
     (let deltaBytes = transferred - tTransferredBytes t; deltaTime = now - tUpdatedAt t in
      if deltaTime > 0 \<and> deltaBytes \<ge> 0 then
        let t = t\<lparr>tSpeedBPS := deltaBytes * 1000000000 div deltaTime\<rparr>
        in if tSpeedBPS t > 0 \<and> tTotalBytes t \<ge> transferred
           then t\<lparr>tETASeconds := (tTotalBytes t - transferred) div tSpeedBPS t\<rparr> else t
      else t)"

text \<open>An absent entry is the zero time: the interval has always passed.\<close>

definition elapsed :: "int \<Rightarrow> int option \<Rightarrow> int \<Rightarrow> bool" where
  "elapsed now prev d = (case prev of None \<Rightarrow> True | Some l \<Rightarrow> now - l \<ge> d)"

definition progress :: "Env \<Rightarrow> string \<Rightarrow> int \<Rightarrow> Manager \<Rightarrow> Manager" where
  "progress env tid transferred m = (case mItems m tid of None \<Rightarrow> m
     | Some t \<Rightarrow>
         if tStatus t \<noteq> StatusTransferring then m
         else
           let now = eNow env;
               t' = (speed_update transferred now t)\<lparr>tTransferredBytes := transferred, tUpdatedAt := now\<rparr>;
               force = elapsed now (mLastEmit m tid) 250000000;
               checkpoint = elapsed now (mLastPersist m tid) 1000000000;
               m = put tid t' m;
               m = (if force then m\<lparr>mLastEmit := (mLastEmit m)(tid \<mapsto> now)\<rparr> else m);
               m = (if checkpoint then m\<lparr>mLastPersist := (mLastPersist m)(tid \<mapsto> now)\<rparr> else m)
           in emit_out ((if checkpoint then [Persist t'] else [])
                        @ (if force then [Emit (Upsert (view t'))] else [])) m)"

definition completed_transfer :: "Env \<Rightarrow> Transfer \<Rightarrow> Transfer" where
  "completed_transfer env t =
     (let t = t\<lparr>tStatus := StatusCompleted, tError := [], tUpdatedAt := eNow env,
                tCompletedAt := Some (eNow env), tTransferredBytes := tTotalBytes t, tSpeedBPS := 0,
                tETASeconds := 0, tResumable := False\<rparr>
      in if tDirection t = DirectionIncoming then t\<lparr>tFileAvailable := True\<rparr> else t)"

definition complete_core :: "Env \<Rightarrow> string \<Rightarrow> Transfer \<Rightarrow> Manager \<Rightarrow> Manager" where
  "complete_core env tid t m =
     (let t' = completed_transfer env t; cancel = mCancels m tid
      in changed t' (call_cancel cancel (clearWorkerLocked tid (put tid t' m))))"

definition complete :: "Env \<Rightarrow> string \<Rightarrow> Manager \<Rightarrow> Manager" where
  "complete env tid m = (case mItems m tid of None \<Rightarrow> m
     | Some t \<Rightarrow> if tStatus t \<noteq> StatusTransferring then m
         else advanceOutgoing env tid (complete_core env tid t m))"

text \<open>How \<open>runSend\<close> and \<open>runReceive\<close> start: they act only when the transfer could be marked.\<close>

definition run_start :: "Env \<Rightarrow> string \<Rightarrow> Manager \<Rightarrow> Transfer option \<times> Manager" where
  "run_start env tid m = (case Get m tid of None \<Rightarrow> (None, m)
     | Some t \<Rightarrow> (case markTransferring env tid m of
         (ok, m) \<Rightarrow> (if ok then Some t else None, m)))"

text \<open>
  The inlined call of \<open>fail\<close> in \<open>startNextOutgoing\<close> is the function \<open>fail\<close>.
\<close>

lemma startNextOutgoing_fail:
  "mItems m tid \<noteq> None \<Longrightarrow> startNextOutgoing env (fail_core env tid None e m) = fail env tid e m"
  by (auto simp: fail_core_def fail_def finishWithError_def advanceOutgoing_def)

end
