(* ===== verification/Dcc_Invariants.thy ===== *)
theory Dcc_Invariants
  imports Dcc_Manager
begin

text \<open>
  The invariants of the transfer manager: what holds of every record, the sequential outgoing
  slot, the queue, and what a disabled manager holds. They are stated on the items, the active
  slot and the queue, proved for the six ways an operation changes these, and then for every
  operation and worker callback, which gives them for every reachable manager.
\<close>

section \<open>The invariants\<close>

definition in_flight :: "Transfer \<Rightarrow> bool" where
  "in_flight t \<longleftrightarrow> tDirection t = DirectionOutgoing
     \<and> (tStatus t = StatusNegotiating \<or> tStatus t = StatusTransferring)"

definition wf_transfer :: "Transfer \<Rightarrow> bool" where
  "wf_transfer t \<longleftrightarrow> 0 \<le> tTransferredBytes t \<and> tTransferredBytes t \<le> tTotalBytes t
     \<and> 0 \<le> tResumeOffset t \<and> tResumeOffset t \<le> tTotalBytes t
     \<and> (tStatus t = StatusResumable \<longrightarrow> tResumable t)
     \<and> (case tDirection t of
          DirectionOutgoing \<Rightarrow> \<not> tResumable t
            \<and> tStatus t \<notin> {StatusOffered, StatusConnecting, StatusDeclined, StatusResumable}
        | DirectionIncoming \<Rightarrow> tStatus t \<notin> {StatusQueued, StatusNegotiating})"

definition item_ok :: "string \<Rightarrow> string list \<Rightarrow> string \<Rightarrow> Transfer \<Rightarrow> bool" where
  "item_ok a q i t \<longleftrightarrow> i \<noteq> [] \<and> tID t = i \<and> wf_transfer t
     \<and> (in_flight t \<longrightarrow> a = i) \<and> (tStatus t = StatusQueued \<longrightarrow> i \<in> set q)"

definition inv :: "(string \<rightharpoonup> Transfer) \<Rightarrow> string \<Rightarrow> string list \<Rightarrow> bool" where
  "inv items a q \<longleftrightarrow> (\<forall>i t. items i = Some t \<longrightarrow> item_ok a q i t)
     \<and> (a \<noteq> [] \<longrightarrow> (\<exists>t. items a = Some t \<and> in_flight t))"

abbreviation minv :: "Manager \<Rightarrow> bool" where "minv m \<equiv> inv (mItems m) (mActive m) (mQueue m)"

definition active_ids :: "Manager \<Rightarrow> string set" where
  "active_ids m = {i. \<exists>t. mItems m i = Some t \<and> Active (tStatus t)}"

definition none_queued :: "Manager \<Rightarrow> bool" where
  "none_queued m \<longleftrightarrow> (\<forall>i t. mItems m i = Some t \<longrightarrow> tStatus t \<noteq> StatusQueued)"

definition enabled :: "Manager \<Rightarrow> bool" where "enabled m = sEnabled (mSettings m)"

definition mgr_inv :: "Manager \<Rightarrow> bool" where
  "mgr_inv m \<longleftrightarrow> minv m \<and> (mActive m \<noteq> [] \<or> none_queued m)
     \<and> (\<not> enabled m \<longrightarrow> active_ids m = {})"

section \<open>The ways to change the items\<close>

lemma inv_item: "inv it a q \<Longrightarrow> it i = Some t \<Longrightarrow> i \<noteq> [] \<and> tID t = i \<and> wf_transfer t"
  by (auto simp: inv_def item_ok_def)

lemma item_okD: "inv it a q \<Longrightarrow> it i = Some t \<Longrightarrow> item_ok a q i t"
  by (simp add: inv_def)

lemma item_ok_mono:
  "item_ok a q i t \<Longrightarrow> (in_flight t \<Longrightarrow> a = i \<Longrightarrow> a' = i)
     \<Longrightarrow> (tStatus t = StatusQueued \<Longrightarrow> i \<in> set q \<Longrightarrow> i \<in> set q') \<Longrightarrow> item_ok a' q' i t"
  by (simp add: item_ok_def)

text \<open>One item changes and the slot and the queue with it.\<close>

lemma inv_changeI:
  assumes "inv it a q" "item_ok a' q' i t'"
    and "\<And>j t. j \<noteq> i \<Longrightarrow> it j = Some t \<Longrightarrow> in_flight t \<Longrightarrow> a = j \<Longrightarrow> a' = j"
    and "\<And>j t. j \<noteq> i \<Longrightarrow> it j = Some t \<Longrightarrow> tStatus t = StatusQueued \<Longrightarrow> j \<in> set q \<Longrightarrow> j \<in> set q'"
    and "a' \<noteq> [] \<Longrightarrow> (a' = i \<and> in_flight t') \<or> (a' \<noteq> i \<and> a' = a)"
  shows "inv (it(i \<mapsto> t')) a' q'"
  unfolding inv_def
proof (intro conjI allI impI)
  fix j t assume j: "(it(i \<mapsto> t')) j = Some t"
  show "item_ok a' q' j t"
  proof (cases "j = i")
    case True with j assms(2) show ?thesis by simp
  next
    case False
    with j have "it j = Some t" by simp
    then show ?thesis using item_ok_mono [OF item_okD [OF assms(1)], of j t a' q'] assms(3,4) False by blast
  qed
next
  assume "a' \<noteq> []"
  with assms(1,5) show "\<exists>t. (it(i \<mapsto> t')) a' = Some t \<and> in_flight t"
    by (auto simp: inv_def)
qed

text \<open>A transfer leaves the active states: the slot is free again if it held it.\<close>

definition settled :: "Transfer \<Rightarrow> bool" where
  "settled t \<longleftrightarrow> wf_transfer t \<and> \<not> in_flight t \<and> tStatus t \<noteq> StatusQueued"

lemma inv_settle:
  assumes "inv it a q" "i \<noteq> []" "settled t'" "tID t' = i" "set q - {i} \<subseteq> set q'"
  shows "inv (it(i \<mapsto> t')) (if a = i then [] else a) q'"
  by (rule inv_changeI [OF assms(1)]) (use assms in \<open>auto simp: settled_def item_ok_def\<close>)

text \<open>A record changes within its phase.\<close>

lemma inv_update:
  assumes "inv it a q" "it i = Some t" "wf_transfer t'" "tID t' = tID t"
    and "in_flight t' = in_flight t" "tStatus t' = StatusQueued \<Longrightarrow> tStatus t = StatusQueued"
  shows "inv (it(i \<mapsto> t')) a q"
proof (rule inv_changeI [OF assms(1)])
  show "item_ok a q i t'" using item_okD [OF assms(1,2)] assms(3-6) by (simp add: item_ok_def)
  assume "a \<noteq> []"
  with assms(1) obtain t0 where "it a = Some t0" "in_flight t0" by (auto simp: inv_def)
  then show "a = i \<and> in_flight t' \<or> a \<noteq> i \<and> a = a" using assms(2,5) by auto
qed

lemma inv_new:
  assumes "inv it a q" "it i = None" "i \<noteq> []" "wf_transfer t'" "tID t' = i" "\<not> in_flight t'"
    and "set q \<subseteq> set q'" "tStatus t' = StatusQueued \<Longrightarrow> i \<in> set q'"
  shows "inv (it(i \<mapsto> t')) a q'"
proof (rule inv_changeI [OF assms(1)])
  show "item_ok a q' i t'" using assms by (simp add: item_ok_def)
  assume "a \<noteq> []"
  with assms(1,2) show "a = i \<and> in_flight t' \<or> a \<noteq> i \<and> a = a" by (auto simp: inv_def)
qed (use assms in auto)

lemma inv_queue:
  assumes "inv it a q" "it i = Some t" "wf_transfer t'" "tID t' = tID t" "\<not> in_flight t" "\<not> in_flight t'"
  shows "inv (it(i \<mapsto> t')) a (q @ [i])"
proof (rule inv_changeI [OF assms(1)])
  show "item_ok a (q @ [i]) i t'" using item_okD [OF assms(1,2)] assms(3-6) by (simp add: item_ok_def)
  assume "a \<noteq> []"
  with assms(1,2,5) show "a = i \<and> in_flight t' \<or> a \<noteq> i \<and> a = a" by (auto simp: inv_def)
qed auto

lemma inv_delete:
  assumes "inv it a q" "it i = Some t" "\<not> in_flight t"
  shows "inv (it(i := None)) a q"
  using assms(1) unfolding inv_def
proof (intro conjI allI impI)
  assume "a \<noteq> []"
  with assms show "\<exists>t. (it(i := None)) a = Some t \<and> in_flight t" by (auto simp: inv_def)
qed (auto split: if_splits)

text \<open>The head of the queue takes the free slot, or is dropped when it is stale.\<close>

lemma inv_start:
  assumes "inv it [] (i # q)" "it i = Some t" "tStatus t = StatusQueued"
  shows "inv (it(i \<mapsto> t\<lparr>tStatus := StatusNegotiating, tUpdatedAt := u\<rparr>)) i q"
proof (rule inv_changeI [OF assms(1)])
  have "item_ok [] (i # q) i t" using item_okD [OF assms(1,2)] .
  then show "item_ok i q i (t\<lparr>tStatus := StatusNegotiating, tUpdatedAt := u\<rparr>)"
    and "i = i \<and> in_flight (t\<lparr>tStatus := StatusNegotiating, tUpdatedAt := u\<rparr>) \<or> i \<noteq> i \<and> i = []"
    using assms(3) by (auto simp: item_ok_def wf_transfer_def in_flight_def split: Direction.splits)
  fix j t assume "it j = Some t" "[] = j"
  with assms(1) show "i = j" by (auto dest: inv_item)
qed auto

lemma inv_drop:
  assumes "inv it a (i # q)" "\<And>t. it i = Some t \<Longrightarrow> tStatus t \<noteq> StatusQueued"
  shows "inv it a q"
  unfolding inv_def
proof (intro conjI allI impI)
  fix j t assume "it j = Some t"
  then show "item_ok a q j t"
    using item_ok_mono [OF item_okD [OF assms(1)], of j t a q] assms(2) by auto
qed (use assms(1) in \<open>simp add: inv_def\<close>)

section \<open>Records\<close>

lemma failed_settled:
  "wf_transfer t \<Longrightarrow> settled (failed_transfer env c e t) \<and> tID (failed_transfer env c e t) = tID t
     \<and> \<not> Active (tStatus (failed_transfer env c e t))"
  by (auto simp: failed_transfer_def settled_def wf_transfer_def in_flight_def Let_def split: Direction.splits)

lemma canceled_settled:
  "wf_transfer t \<Longrightarrow> settled (canceled_transfer env t) \<and> tID (canceled_transfer env t) = tID t
     \<and> \<not> Active (tStatus (canceled_transfer env t))"
  by (auto simp: canceled_transfer_def settled_def wf_transfer_def in_flight_def Let_def split: Direction.splits)

lemma completed_settled:
  "wf_transfer t \<Longrightarrow> settled (completed_transfer env t) \<and> tID (completed_transfer env t) = tID t
     \<and> \<not> Active (tStatus (completed_transfer env t))"
  by (auto simp: completed_transfer_def settled_def wf_transfer_def in_flight_def Let_def split: Direction.splits)

text \<open>What the three ends of a transfer have in common.\<close>

definition ends :: "string \<Rightarrow> Manager \<Rightarrow> Manager \<Rightarrow> bool" where
  "ends tid m m' \<longleftrightarrow> (\<exists>t'. mItems m' = (mItems m)(tid \<mapsto> t') \<and> settled t' \<and> tID t' = tid
        \<and> \<not> Active (tStatus t'))
     \<and> mActive m' = mActive m \<and> set (mQueue m) - {tid} \<subseteq> set (mQueue m')
     \<and> mSettings m' = mSettings m \<and> mClosed m' = mClosed m"

lemma finish_core_ends:
  "minv m \<Longrightarrow> mItems m tid = Some t \<Longrightarrow> ends tid m (finish_core env tid ctx e t m)"
  using inv_item [of "mItems m" "mActive m" "mQueue m" tid t] failed_settled [of t]
  by (auto simp: ends_def mgr_defs split: option.split)

lemma set_remove1_keeps: "set xs - {x} \<subseteq> set (remove1 x xs)"
  using in_set_remove1 [of _ x xs] by fast

lemma cancel_core_ends:
  assumes "minv m" "mItems m tid = Some t" shows "ends tid m (cancel_core env tid t m)"
proof -
  have "mItems (cancel_core env tid t m) = (mItems m)(tid \<mapsto> canceled_transfer env t)"
    "mActive (cancel_core env tid t m) = mActive m"
    "mQueue (cancel_core env tid t m) = remove1 tid (mQueue m)"
    "mSettings (cancel_core env tid t m) = mSettings m" "mClosed (cancel_core env tid t m) = mClosed m"
    by (auto simp: cancel_core_def mgr_defs split: option.split)
  then show ?thesis
    using inv_item [OF assms] canceled_settled [of t env] set_remove1_keeps [of "mQueue m" tid]
    unfolding ends_def by (intro conjI exI [of _ "canceled_transfer env t"]) simp_all
qed

lemma complete_core_ends:
  "minv m \<Longrightarrow> mItems m tid = Some t \<Longrightarrow> ends tid m (complete_core env tid t m)"
  using inv_item [of "mItems m" "mActive m" "mQueue m" tid t] completed_settled [of t]
  by (auto simp: ends_def complete_core_def mgr_defs split: option.split)

lemma ends_inv:
  assumes "minv m" "mItems m tid = Some t" "ends tid m m'"
  shows "minv (clear_active tid m')" "active_ids (clear_active tid m') = active_ids m - {tid}"
    "none_queued m \<Longrightarrow> none_queued (clear_active tid m')"
    "mSettings (clear_active tid m') = mSettings m"
proof -
  have id: "tid \<noteq> []" using assms inv_item by blast
  obtain t' where t': "mItems m' = (mItems m)(tid \<mapsto> t')" "settled t'" "tID t' = tid"
      "\<not> Active (tStatus t')" "mActive m' = mActive m" "set (mQueue m) - {tid} \<subseteq> set (mQueue m')"
      "mSettings m' = mSettings m"
    using assms(3) by (auto simp: ends_def)
  show "minv (clear_active tid m')"
    using inv_settle [OF assms(1) id t'(2,3,6)] t' by (simp add: clear_active_def split: if_splits)
  show "active_ids (clear_active tid m') = active_ids m - {tid}"
    using t' by (auto simp: active_ids_def clear_active_def)
  show "none_queued m \<Longrightarrow> none_queued (clear_active tid m')"
    using t' by (auto simp: none_queued_def clear_active_def settled_def)
  show "mSettings (clear_active tid m') = mSettings m"
    using t' by (simp add: clear_active_def)
qed

section \<open>Starting the next outgoing transfer\<close>

lemma fail_core_eq:
  "mItems m tid = Some t \<Longrightarrow> fail_core env tid ctx e m = clear_active tid (finish_core env tid ctx e t m)"
  by (simp add: fail_core_def)

lemma fail_core_inv:
  assumes "minv m"
  shows "minv (fail_core env tid ctx e m)" "active_ids (fail_core env tid ctx e m) \<subseteq> active_ids m"
    "none_queued m \<Longrightarrow> none_queued (fail_core env tid ctx e m)"
    "mSettings (fail_core env tid ctx e m) = mSettings m"
proof -
  have "minv (fail_core env tid ctx e m) \<and> active_ids (fail_core env tid ctx e m) \<subseteq> active_ids m
    \<and> (none_queued m \<longrightarrow> none_queued (fail_core env tid ctx e m))
    \<and> mSettings (fail_core env tid ctx e m) = mSettings m"
  proof (cases "mItems m tid")
    case (Some t)
    note e = ends_inv [OF assms Some finish_core_ends [OF assms Some]]
    show ?thesis unfolding fail_core_eq [OF Some] using e by auto
  qed (simp add: fail_core_def assms)
  then show "minv (fail_core env tid ctx e m)" "active_ids (fail_core env tid ctx e m) \<subseteq> active_ids m"
    "none_queued m \<Longrightarrow> none_queued (fail_core env tid ctx e m)"
    "mSettings (fail_core env tid ctx e m) = mSettings m"
    by simp_all
qed

text \<open>Negotiating changes the address fields of the transfer only.\<close>

lemma same_but_peer_fields:
  assumes "same_but_peer t t'"
  shows "tStatus t' = tStatus t" "tID t' = tID t" "in_flight t' = in_flight t" "wf_transfer t' = wf_transfer t"
proof -
  note eq = assms [unfolded same_but_peer_def]
  note fields = arg_cong [OF eq, of tStatus] arg_cong [OF eq, of tID] arg_cong [OF eq, of tDirection]
    arg_cong [OF eq, of tTransferredBytes] arg_cong [OF eq, of tTotalBytes]
    arg_cong [OF eq, of tResumeOffset] arg_cong [OF eq, of tResumable]
  show "tStatus t' = tStatus t" "tID t' = tID t" using fields by simp_all
  show "in_flight t' = in_flight t" "wf_transfer t' = wf_transfer t"
    using fields by (simp_all add: in_flight_def wf_transfer_def split: Direction.split)
qed

lemma begin_frame_items:
  assumes "begin_frame tid m m'"
  shows "\<exists>f. mItems m' = (\<lambda>i. map_option (f i) (mItems m i))
    \<and> (\<forall>i t. mItems m i = Some t \<longrightarrow> same_but_peer t (f i t))"
proof (intro exI conjI allI impI)
  let ?f = "\<lambda>i t. the (mItems m' i)"
  have eq: "rel_option same_but_peer (mItems m i) (mItems m' i)" for i
    using assms by (cases "i = tid") (auto simp: begin_frame_def option.rel_refl)
  show "mItems m' = (\<lambda>i. map_option (?f i) (mItems m i))"
  proof
    fix i show "mItems m' i = map_option (?f i) (mItems m i)"
      using eq [of i] by (cases "mItems m i"; cases "mItems m' i") auto
  qed
  fix i t assume "mItems m i = Some t"
  then show "same_but_peer t (?f i t)" using eq [of i] by (cases "mItems m' i") auto
qed

lemma begin_inv:
  assumes "begin_frame tid m m'" "minv m"
  shows "minv m'" "active_ids m' = active_ids m" "none_queued m' = none_queued m"
    "mSettings m' = mSettings m" "mActive m' = mActive m"
proof -
  obtain f where f: "mItems m' = (\<lambda>i. map_option (f i) (mItems m i))"
      "\<And>i t. mItems m i = Some t \<Longrightarrow> same_but_peer t (f i t)"
    using begin_frame_items [OF assms(1)] by blast
  note same = same_but_peer_fields [OF f(2)]
  show q: "mSettings m' = mSettings m" "mActive m' = mActive m"
    using assms(1) by (simp_all add: begin_frame_def)
  have "mQueue m' = mQueue m" using assms(1) by (simp add: begin_frame_def)
  have item: "\<exists>t0. mItems m i = Some t0 \<and> t = f i t0 \<and> same_but_peer t0 t" if "mItems m' i = Some t" for i t
    using that f by auto
  show "minv m'"
    unfolding inv_def q(2) \<open>mQueue m' = mQueue m\<close>
  proof (intro conjI allI impI)
    fix i t assume "mItems m' i = Some t"
    from item [OF this] obtain t0 where t0: "mItems m i = Some t0" "same_but_peer t0 t" by blast
    from item_okD [OF assms(2) t0(1)] show "item_ok (mActive m) (mQueue m) i t"
      by (simp add: item_ok_def same_but_peer_fields [OF t0(2)])
  next
    assume "mActive m \<noteq> []"
    then obtain t0 where t0: "mItems m (mActive m) = Some t0" "in_flight t0"
      using assms(2) by (auto simp: inv_def)
    then show "\<exists>t. mItems m' (mActive m) = Some t \<and> in_flight t"
      using same [OF t0(1)] by (simp add: f(1))
  qed
  show "active_ids m' = active_ids m" "none_queued m' = none_queued m"
    using same(1) by (auto simp: active_ids_def none_queued_def f(1)) (metis same(1))
qed

lemma negotiate_inv:
  fixes env :: Env
  assumes "minv m" "mActive m = []" "mQueue m = tid # q" "mItems m tid = Some t" "tStatus t = StatusQueued"
  defines "m' \<equiv> negotiate env tid t (m\<lparr>mQueue := q\<rparr>)"
  shows "minv m'" "active_ids m' = active_ids m" "mActive m' = tid"
proof -
  show "minv m'"
    using inv_start [of "mItems m" tid q t "eNow env"] assms(1-5) unfolding m'_def
    by (simp add: negotiate_frame)
  show "active_ids m' = active_ids m"
    using assms(4,5) unfolding m'_def by (auto simp: active_ids_def negotiate_frame)
qed (simp add: m'_def negotiate_frame)

text \<open>The recursion of \<open>startNextOutgoing\<close>, as a rule for properties of the manager.\<close>

lemma startNextOutgoing_rule:
  assumes stop: "\<And>m. P m \<Longrightarrow> mActive m \<noteq> [] \<or> mQueue m = [] \<or> \<not> enabled m \<Longrightarrow> Q m"
    and drop: "\<And>m i q. P m \<Longrightarrow> mActive m = [] \<Longrightarrow> mQueue m = i # q \<Longrightarrow>
        (\<And>t. mItems m i = Some t \<Longrightarrow> tStatus t \<noteq> StatusQueued) \<Longrightarrow> P (m\<lparr>mQueue := q\<rparr>)"
    and start: "\<And>m i q t m2. P m \<Longrightarrow> mActive m = [] \<Longrightarrow> mQueue m = i # q \<Longrightarrow> enabled m \<Longrightarrow>
        mItems m i = Some t \<Longrightarrow> tStatus t = StatusQueued \<Longrightarrow>
        begin_frame i (negotiate env i t (m\<lparr>mQueue := q\<rparr>)) m2 \<Longrightarrow>
        Q m2 \<and> (\<forall>e. P (fail_core env i None e m2))"
    and "P m"
  shows "Q (startNextOutgoing env m)"
  using \<open>P m\<close>
proof (induction "length (mQueue m)" arbitrary: m rule: less_induct)
  case less
  show ?case
  proof (cases "mActive m \<noteq> [] \<or> mQueue m = [] \<or> \<not> enabled m")
    case True
    then have "startNextOutgoing env m = m"
      by (subst startNextOutgoing.simps) (auto simp: enabled_def)
    with stop [OF less(2) True] show ?thesis by simp
  next
    case False
    then obtain i q where q: "mQueue m = i # q" and a: "mActive m = []" and en: "enabled m"
      by (cases "mQueue m") auto
    let ?m1 = "m\<lparr>mQueue := q\<rparr>"
    show ?thesis
    proof (cases "\<exists>t. mItems m i = Some t \<and> tStatus t = StatusQueued")
      case False
      then have "startNextOutgoing env m = startNextOutgoing env ?m1"
        using a q en by (subst startNextOutgoing.simps) (auto simp: enabled_def Let_def split: option.split)
      moreover have "P ?m1" using drop [OF less(2) a q] False by blast
      ultimately show ?thesis using less(1) [of ?m1] q by simp
    next
      case True
      then obtain t where t: "mItems m i = Some t" "tStatus t = StatusQueued" by blast
      obtain r m2 where b: "begin_outgoing env i (negotiate env i t ?m1) = (r, m2)" by fastforce
      note fr = begin_outgoing_frame [OF b]
      from start [OF less(2) a q en t fr] have Q: "Q m2" and P: "\<And>e. P (fail_core env i None e m2)"
        by auto
      have eq: "startNextOutgoing env m = (case r of None \<Rightarrow> m2
          | Some e \<Rightarrow> startNextOutgoing env (fail_core env i None e m2))"
        using a q en t b by (subst startNextOutgoing.simps) (simp add: enabled_def Let_def)
      have "length (mQueue (fail_core env i None e m2)) < length (mQueue m)" for e
        using fr q by (simp add: fail_core_frame begin_frame_def negotiate_frame)
      then show ?thesis unfolding eq using Q P less(1) by (cases r) auto
    qed
  qed
qed

lemma startNextOutgoing_inv:
  assumes "minv m" "enabled m \<or> none_queued m"
  shows "minv (startNextOutgoing env m)" "active_ids (startNextOutgoing env m) \<subseteq> active_ids m"
    "mSettings (startNextOutgoing env m) = mSettings m"
    "mActive (startNextOutgoing env m) \<noteq> [] \<or> none_queued (startNextOutgoing env m)"
proof -
  let ?P = "\<lambda>m'. minv m' \<and> active_ids m' \<subseteq> active_ids m \<and> mSettings m' = mSettings m
    \<and> (enabled m' \<or> none_queued m')"
  let ?Q = "\<lambda>m'. minv m' \<and> active_ids m' \<subseteq> active_ids m \<and> mSettings m' = mSettings m
    \<and> (mActive m' \<noteq> [] \<or> none_queued m')"
  have "?Q (startNextOutgoing env m)"
  proof (rule startNextOutgoing_rule [where P = ?P])
    fix m' assume "?P m'" "mActive m' \<noteq> [] \<or> mQueue m' = [] \<or> \<not> enabled m'"
    then show "?Q m'" by (auto simp: none_queued_def inv_def item_ok_def)
  next
    fix m' i q assume a: "?P m'" "mActive m' = []" "mQueue m' = i # q"
      "\<And>t. mItems m' i = Some t \<Longrightarrow> tStatus t \<noteq> StatusQueued"
    then have "minv (m'\<lparr>mQueue := q\<rparr>)" using inv_drop by auto
    then show "?P (m'\<lparr>mQueue := q\<rparr>)"
      using a(1) by (auto simp: active_ids_def none_queued_def enabled_def)
  next
    fix m' i q t m2
    assume a: "?P m'" "mActive m' = []" "mQueue m' = i # q" "enabled m'" "mItems m' i = Some t"
      "tStatus t = StatusQueued" "begin_frame i (negotiate env i t (m'\<lparr>mQueue := q\<rparr>)) m2"
    have "minv m'" using a(1) by simp
    note n = negotiate_inv [OF this a(2,3,5,6), of env]
    note b = begin_inv [OF a(7) n(1)]
    note f = fail_core_inv [OF b(1)]
    have i: "i \<noteq> []" using inv_item [of "mItems m'"] \<open>minv m'\<close> a(5) by blast
    have se: "mSettings m2 = mSettings m" using b(4) a(1) by (simp add: negotiate_frame)
    have ac: "active_ids m2 \<subseteq> active_ids m" using b(2) n(2) a(1) by simp
    have "\<forall>e. ?P (fail_core env i None e m2)"
      using f(1,4) subset_trans [OF f(2) ac] se a(1,4) by (simp add: enabled_def)
    moreover have "?Q m2" using b(1,5) n(3) i se ac by simp
    ultimately show "?Q m2 \<and> (\<forall>e. ?P (fail_core env i None e m2))" by blast
  qed (use assms in simp)
  then show "minv (startNextOutgoing env m)" "active_ids (startNextOutgoing env m) \<subseteq> active_ids m"
    "mSettings (startNextOutgoing env m) = mSettings m"
    "mActive (startNextOutgoing env m) \<noteq> [] \<or> none_queued (startNextOutgoing env m)"
    by simp_all
qed

section \<open>Every operation preserves the invariant\<close>

lemma none_queuedI: "active_ids m = {} \<Longrightarrow> none_queued m"
  unfolding active_ids_def none_queued_def using Active.simps(2) by (metis (mono_tags, lifting) emptyE mem_Collect_eq)

lemma mgr_invD:
  assumes "mgr_inv m" shows "minv m" "enabled m \<or> none_queued m"
  using assms none_queuedI by (auto simp: mgr_inv_def)

text \<open>A record changes in place, a new one appears, one goes away.\<close>

lemma mgr_inv_update:
  assumes "mgr_inv m" "mItems m i = Some t"
    and "wf_transfer t'" "tID t' = tID t" "in_flight t' = in_flight t"
    and "tStatus t' = StatusQueued \<longleftrightarrow> tStatus t = StatusQueued"
    and "Active (tStatus t') \<Longrightarrow> Active (tStatus t) \<or> enabled m"
    and m': "mItems m' = (mItems m)(i \<mapsto> t')" "mActive m' = mActive m" "mQueue m' = mQueue m"
      "mSettings m' = mSettings m"
  shows "mgr_inv m'"
  unfolding mgr_inv_def
proof (intro conjI impI)
  show "minv m'" using inv_update [OF mgr_invD(1) [OF assms(1)] assms(2-5)] assms(6) m' by simp
  have "none_queued m' = none_queued m"
    using assms(2,6) m'(1) by (auto simp: none_queued_def split: if_splits)
  then show "mActive m' \<noteq> [] \<or> none_queued m'" using assms(1) m'(2) by (auto simp: mgr_inv_def)
  assume "\<not> enabled m'"
  then have "\<not> enabled m" using m'(4) by (simp add: enabled_def)
  then have e: "active_ids m = {}" using assms(1) by (simp add: mgr_inv_def)
  then have "\<not> Active (tStatus t)" using assms(2) by (auto simp: active_ids_def)
  then show "active_ids m' = {}" using e assms(7) \<open>\<not> enabled m\<close> m'(1)
    by (auto simp: active_ids_def split: if_splits)
qed

lemma mgr_inv_new:
  assumes "mgr_inv m" "mItems m i = None" "i \<noteq> []" "wf_transfer t'" "tID t' = i" "\<not> in_flight t'"
    and "tStatus t' \<noteq> StatusQueued" "enabled m"
    and m': "mItems m' = (mItems m)(i \<mapsto> t')" "mActive m' = mActive m" "mQueue m' = mQueue m"
      "mSettings m' = mSettings m"
  shows "mgr_inv m'"
  unfolding mgr_inv_def
proof (intro conjI impI)
  show "minv m'" using inv_new [OF mgr_invD(1) [OF assms(1)] assms(2-6)] assms(7) m' by simp
  have "none_queued m' = none_queued m"
    using assms(2,7) m'(1) unfolding none_queued_def
    by (metis fun_upd_apply option.inject option.distinct(1))
  then show "mActive m' \<noteq> [] \<or> none_queued m'" using assms(1) m'(2) by (auto simp: mgr_inv_def)
qed (use assms(8) m'(4) in \<open>simp add: enabled_def\<close>)

lemma mgr_inv_delete:
  assumes "mgr_inv m" "mItems m i = Some t" "\<not> in_flight t"
    and m': "mItems m' = (mItems m)(i := None)" "mActive m' = mActive m" "mQueue m' = mQueue m"
      "mSettings m' = mSettings m"
  shows "mgr_inv m'"
  unfolding mgr_inv_def
proof (intro conjI impI)
  show "minv m'" using inv_delete [OF mgr_invD(1) [OF assms(1)] assms(2,3)] m' by simp
  have "none_queued m \<Longrightarrow> none_queued m'" using m'(1) by (auto simp: none_queued_def)
  then show "mActive m' \<noteq> [] \<or> none_queued m'" using assms(1) m'(2) by (auto simp: mgr_inv_def)
  have "active_ids m' \<subseteq> active_ids m" using m'(1) by (auto simp: active_ids_def)
  then show "\<not> enabled m' \<Longrightarrow> active_ids m' = {}"
    using assms(1) m'(4) by (auto simp: mgr_inv_def enabled_def)
qed

lemma mgr_inv_frame:
  assumes "mgr_inv m" "mItems m' = mItems m" "mActive m' = mActive m" "mQueue m' = mQueue m"
    "mSettings m' = mSettings m"
  shows "mgr_inv m'"
  using assms by (simp add: mgr_inv_def active_ids_def none_queued_def enabled_def)

lemma startNextOutgoing_mgr_inv:
  assumes "minv m" "enabled m \<or> none_queued m" "\<not> enabled m \<longrightarrow> active_ids m = {}"
  shows "mgr_inv (startNextOutgoing env m)"
  using startNextOutgoing_inv [OF assms(1,2), of env] assms(3)
  by (auto simp: mgr_inv_def enabled_def)

text \<open>The end of a transfer: the slot is freed and the next one starts.\<close>

lemma advance_mgr_inv:
  assumes "mgr_inv m" "mItems m tid = Some t" "ends tid m m'"
  shows "mgr_inv (advanceOutgoing env tid m')"
    and "active_ids (advanceOutgoing env tid m') \<subseteq> active_ids m - {tid}"
proof -
  note e = ends_inv [OF mgr_invD(1) [OF assms(1)] assms(2,3)]
  have en: "enabled (clear_active tid m') = enabled m" using e(4) by (simp add: enabled_def)
  have c: "enabled (clear_active tid m') \<or> none_queued (clear_active tid m')"
    using mgr_invD(2) [OF assms(1)] e(3) en by blast
  show "mgr_inv (advanceOutgoing env tid m')" unfolding advanceOutgoing_def
    by (rule startNextOutgoing_mgr_inv [OF e(1) c]) (use assms(1) en e(2) in \<open>auto simp: mgr_inv_def\<close>)
  show "active_ids (advanceOutgoing env tid m') \<subseteq> active_ids m - {tid}"
    using startNextOutgoing_inv(2) [OF e(1) c, of env] e(2) by (simp add: advanceOutgoing_def)
qed

lemma finishWithError_inv [inv_intros]: "mgr_inv m \<Longrightarrow> mgr_inv (finishWithError env tid ctx e m)"
  using advance_mgr_inv(1) [OF _ _ finish_core_ends] mgr_invD(1)
  by (auto simp: finishWithError_def split: option.split)

lemma fail_inv [inv_intros]: "mgr_inv m \<Longrightarrow> mgr_inv (fail env tid e m)"
  by (simp add: fail_def finishWithError_inv)

lemma complete_inv [inv_intros]: "mgr_inv m \<Longrightarrow> mgr_inv (complete env tid m)"
  using advance_mgr_inv(1) [OF _ _ complete_core_ends] mgr_invD(1)
  by (auto simp: complete_def split: option.split)

lemma Cancel_inv [inv_intros]: "mgr_inv m \<Longrightarrow> mgr_inv (snd (Cancel env tid m))"
  using advance_mgr_inv(1) [OF _ _ cancel_core_ends] mgr_invD(1)
  by (auto simp: Cancel_def split: option.split)

lemma mgr_item: "mgr_inv m \<Longrightarrow> mItems m i = Some t \<Longrightarrow> wf_transfer t \<and> tID t = i \<and> i \<noteq> []"
  using inv_item mgr_invD(1) by blast

lemma Decline_inv [inv_intros]:
  assumes "mgr_inv m" shows "mgr_inv (snd (Decline env tid m))"
proof (cases "mItems m tid")
  case (Some t)
  show ?thesis
  proof (cases "tStatus t = StatusOffered")
    case True
    let ?t = "t\<lparr>tStatus := StatusDeclined, tUpdatedAt := eNow env, tCompletedAt := Some (eNow env)\<rparr>"
    have "mgr_inv (changed ?t (put tid ?t m))"
      by (rule mgr_inv_update [OF assms Some])
        (use mgr_item [OF assms Some] True in
          \<open>auto simp: wf_transfer_def in_flight_def mgr_defs split: Direction.splits\<close>)
    then show ?thesis using Some True by (simp add: Decline_def Let_def)
  qed (simp add: Decline_def Some assms)
qed (simp add: Decline_def assms)

lemma Locate_inv [inv_intros]:
  assumes "mgr_inv m" shows "mgr_inv (snd (Locate env tid path m))"
proof (cases "mItems m tid")
  case (Some t)
  let ?t = "t\<lparr>tLocalPath := path, tFileAvailable := True, tUpdatedAt := eNow env\<rparr>"
  have "mgr_inv (changed ?t (put tid ?t m))"
    by (rule mgr_inv_update [OF assms Some])
      (use mgr_item [OF assms Some] in
        \<open>auto simp: wf_transfer_def in_flight_def mgr_defs split: Direction.splits\<close>)
  then show ?thesis using Some assms by (simp add: Locate_def Let_def split: option.split)
qed (simp add: Locate_def assms split: option.split)

lemma not_in_flightI: "wf_transfer t \<Longrightarrow> tResumable t \<or> \<not> Active (tStatus t) \<Longrightarrow> \<not> in_flight t"
  by (auto simp: wf_transfer_def in_flight_def)

lemma DiscardPartial_inv [inv_intros]:
  assumes "mgr_inv m" shows "mgr_inv (snd (DiscardPartial env tid m))"
proof (cases "mItems m tid")
  case (Some t)
  show ?thesis
  proof (cases "tResumable t")
    case True
    then have nf: "\<not> in_flight t" using not_in_flightI mgr_item [OF assms Some] by blast
    have del: "mgr_inv m'" if "mItems m' = (mItems m)(tid := None)" "mActive m' = mActive m"
        "mQueue m' = mQueue m" "mSettings m' = mSettings m" for m'
      using mgr_inv_delete [OF assms Some nf that] .
    show ?thesis
      unfolding DiscardPartial_def using Some assms True by (auto simp: mgr_defs intro!: del)
  qed (simp add: DiscardPartial_def Some assms)
qed (simp add: DiscardPartial_def assms)

lemma RemoveHistory_inv [inv_intros]:
  assumes "mgr_inv m" shows "mgr_inv (snd (RemoveHistory env tid m))"
proof (cases "mItems m tid")
  case (Some t)
  show ?thesis
  proof (cases "Active (tStatus t) \<or> tResumable t")
    case False
    then have nf: "\<not> in_flight t" using not_in_flightI mgr_item [OF assms Some] by blast
    have del: "mgr_inv m'" if "mItems m' = (mItems m)(tid := None)" "mActive m' = mActive m"
        "mQueue m' = mQueue m" "mSettings m' = mSettings m" for m'
      using mgr_inv_delete [OF assms Some nf that] .
    show ?thesis
      unfolding RemoveHistory_def using Some assms False
      by (auto simp: mgr_defs intro!: del split: option.split)
  qed (auto simp: RemoveHistory_def Some assms)
qed (simp add: RemoveHistory_def assms)

lemma visit_set: "(i, t) \<in> set (visit m ord) \<longleftrightarrow> i \<in> set ord \<and> mItems m i = Some t"
  by (auto simp: visit_def List.map_filter_def intro!: image_eqI [of _ _ i])

lemma find_itemD: "find_item m ord P = Some (i, t) \<Longrightarrow> mItems m i = Some t \<and> P t"
  by (auto simp: find_item_def visit_set dest!: find_SomeD)

lemma ClearHistory_fold:
  assumes "mgr_inv m" "\<forall>i \<in> set is. \<forall>t. mItems m i = Some t \<longrightarrow> \<not> Active (tStatus t)"
  shows "mgr_inv (foldl (\<lambda>m i. m\<lparr>mItems := (mItems m)(i := None)\<rparr>) m is)"
  using assms
proof (induction "is" arbitrary: m)
  case (Cons i "is")
  let ?m = "m\<lparr>mItems := (mItems m)(i := None)\<rparr>"
  have "mgr_inv ?m"
  proof (cases "mItems m i")
    case None
    then have "(mItems m)(i := None) = mItems m" by (intro ext) simp
    then show ?thesis using Cons.prems(1) mgr_inv_frame by simp
  next
    case (Some t)
    then have "\<not> in_flight t" using not_in_flightI mgr_item [OF Cons.prems(1) Some] Cons.prems(2) by auto
    then show ?thesis using mgr_inv_delete [OF Cons.prems(1) Some] by simp
  qed
  then show ?case unfolding foldl.simps by (rule Cons.IH) (use Cons.prems in auto)
qed simp

lemma ClearHistory_inv [inv_intros]:
  assumes "mgr_inv m" shows "mgr_inv (ClearHistory ord m)"
proof -
  let ?r = "map fst (filter (\<lambda>(i, t). \<not> Active (tStatus t) \<and> \<not> tResumable t) (visit m ord))"
  have "\<forall>i \<in> set ?r. \<forall>t. mItems m i = Some t \<longrightarrow> \<not> Active (tStatus t)" by (auto simp: visit_set)
  from ClearHistory_fold [OF assms this] show ?thesis
    unfolding ClearHistory_def Let_def emit_out_def by (rule mgr_inv_frame) simp_all
qed

section \<open>Cancelling everything\<close>

text \<open>
  A disabled manager does not start the next transfer, so \<open>Cancel\<close> only takes the transfer out
  of the active ones; an enabled one may start another, but none that was not active before.
\<close>

lemma Cancel_active:
  assumes "minv m" "enabled m \<longrightarrow> mgr_inv m"
  shows "minv (snd (Cancel env tid m)) \<and> active_ids (snd (Cancel env tid m)) \<subseteq> active_ids m - {tid}
     \<and> mSettings (snd (Cancel env tid m)) = mSettings m
     \<and> (enabled (snd (Cancel env tid m)) \<longrightarrow> mgr_inv (snd (Cancel env tid m)))"
proof (cases "\<exists>t. mItems m tid = Some t \<and> (Active (tStatus t) \<or> tStatus t = StatusResumable)")
  case False
  then have "snd (Cancel env tid m) = m" by (auto simp: Cancel_def split: option.split)
  moreover have "active_ids m \<subseteq> active_ids m - {tid}" using False by (auto simp: active_ids_def)
  ultimately show ?thesis using assms by simp
next
  case True
  then obtain t where t: "mItems m tid = Some t" "Active (tStatus t) \<or> tStatus t = StatusResumable" by blast
  then have eq: "snd (Cancel env tid m) = advanceOutgoing env tid (cancel_core env tid t m)"
    by (auto simp: Cancel_def)
  note c = cancel_core_ends [OF assms(1) t(1), of env]
  note e = ends_inv [OF assms(1) t(1) c]
  show ?thesis
  proof (cases "enabled m")
    case True
    with assms have inv: "mgr_inv m" by simp
    have en: "enabled (clear_active tid (cancel_core env tid t m))" using True e(4) by (simp add: enabled_def)
    show ?thesis unfolding eq
      using advance_mgr_inv [OF inv t(1) c] startNextOutgoing_inv(3) [OF e(1), of env] en e(4)
      by (auto simp: advanceOutgoing_def mgr_invD)
  next
    case False
    then have "advanceOutgoing env tid (cancel_core env tid t m) = clear_active tid (cancel_core env tid t m)"
      unfolding advanceOutgoing_def using e(4) by (subst startNextOutgoing.simps) (simp add: enabled_def)
    then show ?thesis unfolding eq using e False by (auto simp: enabled_def)
  qed
qed

lemma CancelAll_fold:
  assumes "minv m" "enabled m \<longrightarrow> mgr_inv m"
  shows "minv (foldl (\<lambda>m i. snd (Cancel env i m)) m ids)
    \<and> active_ids (foldl (\<lambda>m i. snd (Cancel env i m)) m ids) \<subseteq> active_ids m - set ids
    \<and> mSettings (foldl (\<lambda>m i. snd (Cancel env i m)) m ids) = mSettings m
    \<and> (enabled (foldl (\<lambda>m i. snd (Cancel env i m)) m ids) \<longrightarrow> mgr_inv (foldl (\<lambda>m i. snd (Cancel env i m)) m ids))"
  using assms
proof (induction ids arbitrary: m)
  case (Cons i ids)
  note c = Cancel_active [OF Cons.prems, of env i]
  have "minv (snd (Cancel env i m))" "enabled (snd (Cancel env i m)) \<longrightarrow> mgr_inv (snd (Cancel env i m))"
    using c by simp_all
  from Cons.IH [OF this] c show ?case by auto
qed simp

definition enumerates :: "string list \<Rightarrow> Manager \<Rightarrow> bool" where
  "enumerates ord m \<longleftrightarrow> set ord = dom (mItems m)"

lemma CancelAll_active:
  assumes "minv m" "enabled m \<longrightarrow> mgr_inv m" "enumerates ord m"
  shows "mgr_inv (CancelAll env ord m)" "active_ids (CancelAll env ord m) = {}"
    "mSettings (CancelAll env ord m) = mSettings m"
proof -
  have ids: "set (map fst (filter (\<lambda>(i, t). Active (tStatus t)) (visit m ord))) = active_ids m"
    using assms(3) by (force simp: enumerates_def active_ids_def visit_set image_iff)
  note f = CancelAll_fold [OF assms(1,2), of env "map fst (filter (\<lambda>(i, t). Active (tStatus t)) (visit m ord))"]
  then show e: "active_ids (CancelAll env ord m) = {}" and "mSettings (CancelAll env ord m) = mSettings m"
    using ids by (auto simp: CancelAll_def Let_def)
  show "mgr_inv (CancelAll env ord m)"
    using f e none_queuedI [OF e] by (simp add: mgr_inv_def CancelAll_def Let_def)
qed

lemma CancelAll_inv [inv_intros]: "mgr_inv m \<Longrightarrow> enumerates ord m \<Longrightarrow> mgr_inv (CancelAll env ord m)"
  using CancelAll_active(1) mgr_invD(1) by blast

lemma Close_inv [inv_intros]:
  assumes "mgr_inv m" "enumerates ord m" shows "mgr_inv (Close env ord m)"
  unfolding Close_def
  by (rule CancelAll_active(1)) (use mgr_invD(1) [OF assms(1)] assms(2) in \<open>simp_all add: enabled_def enumerates_def\<close>)

lemma some_active_ids: "enumerates ord m \<Longrightarrow> \<not> some_active m ord \<Longrightarrow> active_ids m = {} \<and> mActive m = []"
  by (force simp: some_active_def visit_set active_ids_def enumerates_def)

lemma UpdateSettings_inv [inv_intros]:
  assumes "mgr_inv m" "enumerates ord m" shows "mgr_inv (snd (UpdateSettings env ord s cancelActive m))"
proof -
  have set: "mgr_inv (m\<lparr>mSettings := s\<rparr>)" if "sEnabled s \<or> active_ids m = {}"
    using assms(1) that by (auto simp: mgr_inv_def active_ids_def none_queued_def enabled_def)
  have all: "mgr_inv (CancelAll env ord (m\<lparr>mSettings := s\<rparr>))" if "\<not> sEnabled s"
    by (rule CancelAll_active(1))
      (use mgr_invD(1) [OF assms(1)] assms(2) that in \<open>simp_all add: enabled_def enumerates_def\<close>)
  show ?thesis
    using assms set all some_active_ids [OF assms(2)]
    by (auto simp: UpdateSettings_def split: option.split)
qed

section \<open>Offers, receiving, sending\<close>

text \<open>What the environment promises: fresh distinct ids, sizes that are no negative numbers.\<close>

definition env_ok :: "Env \<Rightarrow> Manager \<Rightarrow> bool" where
  "env_ok env m \<longleftrightarrow> (\<forall>k. eNewID env k \<noteq> [] \<and> mItems m (eNewID env k) = None) \<and> inj (eNewID env)
     \<and> (\<forall>p b n. eLstat env p = StatOk b n \<or> eStat env p = StatOk b n \<longrightarrow> 0 \<le> n)"

lemma wf_new_transfer:
  "0 \<le> n \<Longrightarrow> (dir = DirectionIncoming \<longleftrightarrow> st = StatusOffered) \<Longrightarrow> st = StatusOffered \<or> st = StatusQueued \<Longrightarrow>
     wf_transfer (new_transfer i nid nn peer dir f n st now)"
  by (cases dir) (auto simp: wf_transfer_def new_transfer_def)

lemma addIncomingOffer_inv [inv_intros]:
  assumes "mgr_inv m" "env_ok env m" "0 \<le> ofSize off" "enabled m"
  shows "mgr_inv (addIncomingOffer env ord nid nname peer off m)"
proof (cases "find_item m ord (matches_resumable nid peer off)")
  case (Some p)
  obtain i t where p: "p = (i, t)" by (cases p)
  with Some have t: "mItems m i = Some t" and mt: "matches_resumable nid peer off t"
    using find_itemD [of m ord "matches_resumable nid peer off" i t] by simp_all
  show ?thesis
    unfolding addIncomingOffer_def Some p option.case prod.case Let_def
    by (rule mgr_inv_update [OF assms(1) t])
      (use mgr_item [OF assms(1) t] mt assms(4) in
        \<open>auto simp: matches_resumable_def wf_transfer_def in_flight_def mgr_defs\<close>)
next
  case None
  show ?thesis
    unfolding addIncomingOffer_def None option.case Let_def
    by (rule mgr_inv_new [OF assms(1), of "eNewID env 0"])
      (use assms in \<open>auto simp: env_ok_def new_transfer_def wf_transfer_def in_flight_def mgr_defs\<close>)
qed

lemma handlePassiveResponse_inv [inv_intros]:
  assumes "mgr_inv m" shows "mgr_inv (snd (handlePassiveResponse ord nid peer off m))"
proof (cases "find_item m ord (matches_passive nid peer off)")
  case (Some p)
  obtain i t where p: "p = (i, t)" by (cases p)
  with Some have t: "mItems m i = Some t" using find_itemD by auto
  have "mgr_inv m'" if "mItems m' = (mItems m)(i \<mapsto> t\<lparr>tAddress := ofAddress off, tPort := ofPort off\<rparr>)"
      "mActive m' = mActive m" "mQueue m' = mQueue m" "mSettings m' = mSettings m" for m'
    by (rule mgr_inv_update [OF assms t _ _ _ _ _ that])
      (use mgr_item [OF assms t] in \<open>auto simp: wf_transfer_def in_flight_def split: Direction.splits\<close>)
  then show ?thesis
    using assms Some p by (auto simp: handlePassiveResponse_def mgr_defs split: option.split)
qed (simp add: handlePassiveResponse_def assms)

lemma handleResumeRequest_inv [inv_intros]:
  assumes "mgr_inv m" "0 \<le> ofPosition off"
  shows "mgr_inv (snd (handleResumeRequest env ord nid peer off m))"
proof (cases "find_item m ord (matches_resume_request nid peer off)")
  case (Some p)
  obtain i t where p: "p = (i, t)" by (cases p)
  with Some have t: "mItems m i = Some t" using find_itemD by auto
  have "mgr_inv m'" if "\<not> ofPosition off > tTotalBytes t" and "mItems m' = (mItems m)(i \<mapsto>
        t\<lparr>tResumeOffset := ofPosition off, tTransferredBytes := ofPosition off\<rparr>)"
      "mActive m' = mActive m" "mQueue m' = mQueue m" "mSettings m' = mSettings m" for m'
    by (rule mgr_inv_update [OF assms(1) t _ _ _ _ _ that(2-)])
      (use mgr_item [OF assms(1) t] that(1) assms(2) in
        \<open>auto simp: wf_transfer_def in_flight_def split: Direction.splits\<close>)
  then show ?thesis
    using assms Some p by (auto simp: handleResumeRequest_def mgr_defs)
qed (simp add: handleResumeRequest_def assms)

text \<open>Starting to receive changes no item; failing is \<open>fail\<close>.\<close>

lemma beginReceive_frame:
  assumes "beginReceive env tid t off m = (r, m')"
  shows "mItems m' = mItems m \<and> mActive m' = mActive m \<and> mQueue m' = mQueue m \<and> mSettings m' = mSettings m
     \<and> mOffers m' = mOffers m"
  using assms
  by (auto simp: beginReceive_def beginPassiveReceive_def mgr_defs split: if_splits sum.splits option.splits)

lemma receive_or_fail_inv [inv_intros]:
  assumes "mgr_inv m" shows "mgr_inv (snd (receive_or_fail env tid t off m))"
proof -
  obtain r m' where b: "beginReceive env tid t off m = (r, m')" by fastforce
  have "mgr_inv m'" using beginReceive_frame [OF b] assms mgr_inv_frame by blast
  then show ?thesis using fail_inv by (cases r) (auto simp: receive_or_fail_def b)
qed

lemma handleResumeAccept_inv [inv_intros]:
  "mgr_inv m \<Longrightarrow> mgr_inv (snd (handleResumeAccept env ord nid peer off m))"
  by (auto simp: handleResumeAccept_def intro: receive_or_fail_inv split: option.split)

lemma HandleControl_inv [inv_intros]:
  assumes "mgr_inv m" "env_ok env m"
  shows "mgr_inv (snd (HandleControl env ord nid nname peer payload m))"
proof (cases "sEnabled (mSettings m)")
  case True
  show ?thesis
  proof (cases "Parse payload")
    case (Inr off)
    note ok = Parse_ok [OF Inr]
    have sz: "ofCommand off = CommandSend \<Longrightarrow> 0 \<le> ofSize off"
      and pos: "ofCommand off = CommandResume \<Longrightarrow> 0 \<le> ofPosition off"
      using ok by (auto simp: send_ok_def resume_ok_def)
    obtain h m' where h: "(if ofToken off \<noteq> [] \<and> ofPort off > 0
        then handlePassiveResponse ord nid peer off m else (False, m)) = (h, m')" by fastforce
    have m': "mgr_inv m'" using h assms(1) handlePassiveResponse_inv [of m ord nid peer off]
      by (auto split: if_splits)
    have un: "m' = m" if "\<not> h" using h that
      by (auto simp: handlePassiveResponse_def Let_def newCtx_def split: if_splits option.splits prod.splits)
    have "mgr_inv (snd (case (h, m') of (handled, m') \<Rightarrow> if handled then (None, m')
        else (None, addIncomingOffer env ord nid nname peer off m')))" if "ofCommand off = CommandSend"
      using m' un addIncomingOffer_inv [OF assms sz [OF that]] True by (auto simp: enabled_def)
    then show ?thesis
      using True Inr h handleResumeRequest_inv [OF assms(1) pos] handleResumeAccept_inv [OF assms(1)] assms(1)
      by (auto simp: HandleControl_def split: Command.split)
  qed (simp add: HandleControl_def True assms)
qed (simp add: HandleControl_def assms)

text \<open>The record an accepted offer becomes.\<close>

lemma accept_paths_wf:
  "accept_paths env d t = Ok t' \<Longrightarrow> wf_transfer t' = wf_transfer t \<and> tID t' = tID t
     \<and> tDirection t' = tDirection t \<and> tStatus t' = tStatus t \<and> tTotalBytes t' = tTotalBytes t
     \<and> in_flight t' = in_flight t"
  by (auto simp: accept_paths_def wf_transfer_def in_flight_def split: if_splits fstat.splits Direction.splits)

lemma accept_offset_le:
  assumes "accept_offset env t = Ok n" "env_ok env m" "0 \<le> tTotalBytes t"
  shows "0 \<le> n" "n \<le> tTotalBytes t"
proof -
  have "0 \<le> k" if "eStat env p = StatOk b k" for p b k using assms(2) that unfolding env_ok_def by blast
  then show "0 \<le> n" "n \<le> tTotalBytes t"
    using assms(1,3) by (auto simp: accept_offset_def split: fstat.splits if_splits)
qed

lemma Accept_inv [inv_intros]:
  assumes "mgr_inv m" "env_ok env m"
  shows "mgr_inv (snd (Accept env tid destination m))"
proof (cases "sEnabled (mSettings m) \<and> destination \<noteq> []
    \<and> (\<exists>t. mItems m tid = Some t \<and> tDirection t = DirectionIncoming
         \<and> (tStatus t = StatusOffered \<or> tStatus t = StatusResumable))")
  case False
  then show ?thesis using assms by (auto simp: Accept_def split: option.split)
next
  case True
  then obtain t0 where t0: "mItems m tid = Some t0" "tDirection t0 = DirectionIncoming"
      "tStatus t0 = StatusOffered \<or> tStatus t0 = StatusResumable"
    and en: "enabled m" "destination \<noteq> []" by (auto simp: enabled_def)
  note w0 = mgr_item [OF assms(1) t0(1)]
  show ?thesis
  proof (cases "accept_paths env destination t0")
    case (Inl e) then show ?thesis using t0 en assms by (auto simp: Accept_def)
  next
    case (Inr t1)
    note p = accept_paths_wf [OF Inr]
    have w1: "wf_transfer t1" "tID t1 = tID t0" "tDirection t1 = DirectionIncoming"
        "0 \<le> tTotalBytes t1" using p w0 t0 by (auto simp: wf_transfer_def)
    have m1: "mgr_inv (put tid t1 m)"
      by (rule mgr_inv_update [OF assms(1) t0(1)]) (use p w0 in \<open>auto simp: put_def\<close>)
    show ?thesis
    proof (cases "accept_offset env t1")
      case (Inl e) then show ?thesis
        using t0 en \<open>accept_paths env destination t0 = Ok t1\<close> m1
        by (auto simp: Accept_def enabled_def)
    next
      case (Inr n)
      note n = accept_offset_le [OF Inr assms(2) w1(4)]
      let ?t = "t1\<lparr>tResumeOffset := n, tTransferredBytes := n, tStatus := StatusConnecting,
        tError := [], tUpdatedAt := eNow env\<rparr>"
      have m2: "mgr_inv (changed ?t (put tid ?t m))"
        by (rule mgr_inv_update [OF assms(1) t0(1)])
          (use w0 w1 n t0 en in \<open>auto simp: mgr_defs wf_transfer_def in_flight_def\<close>)
      then have m3: "mgr_inv (emit_out os (changed ?t (put tid ?t m)))" for os
        by (rule mgr_inv_frame) (simp_all add: emit_out_def)
      show ?thesis
        using t0 en \<open>accept_paths env destination t0 = Ok t1\<close> Inr m1 m2 m3
          receive_or_fail_inv [OF m2] fail_inv [OF m3]
        by (auto simp: Accept_def enabled_def Let_def send_control_def split: option.split)
    qed
  qed
qed

text \<open>Queueing: the new records are queued one by one, then the slot is filled.\<close>

lemma select_files_sizes:
  "select_files env ps = Ok fs \<Longrightarrow> env_ok env m \<Longrightarrow> (p, name, n) \<in> set fs \<Longrightarrow> 0 \<le> n"
proof (induction ps arbitrary: fs)
  case (Cons q ps)
  have lstat: "0 \<le> k" if "eLstat env x = StatOk b k" for x b k
    using Cons.prems(2) that unfolding env_ok_def by blast
  from Cons.prems(1) obtain f fs' where f: "select_file env q = Ok f" "select_files env ps = Ok fs'" "fs = f # fs'"
    by (cases "select_file env q"; cases "select_files env ps") auto
  have "0 \<le> snd (snd f)"
    using f(1) lstat by (auto simp: select_file_def regular_def split: sum.splits option.splits fstat.splits bool.splits)
  then show ?case using Cons.IH [OF f(2) Cons.prems(2)] Cons.prems(3) f(3) by auto
qed simp

lemma enqueue_minv:
  assumes "enqueue env nid nname peer k fs m = (ts, m')" "minv m"
    and "\<forall>(p, name, n) \<in> set fs. 0 \<le> n" "inj (eNewID env)"
    and "\<forall>j \<ge> k. eNewID env j \<noteq> [] \<and> mItems m (eNewID env j) = None"
  shows "minv m' \<and> mSettings m' = mSettings m"
  using assms
proof (induction fs arbitrary: k m ts m')
  case (Cons f fs)
  obtain p name n where f: "f = (p, name, n)" by (cases f) auto
  let ?i = "eNewID env k"
  let ?t = "(new_transfer ?i nid nname peer DirectionOutgoing name n StatusQueued (eNow env))
    \<lparr>tLocalPath := p, tFileAvailable := True\<rparr>"
  let ?m = "(put ?i ?t m)\<lparr>mQueue := mQueue m @ [?i]\<rparr>"
  have t: "wf_transfer ?t" "tID ?t = ?i" "\<not> in_flight ?t"
    using Cons.prems(3) f by (auto simp: new_transfer_def wf_transfer_def in_flight_def)
  have "minv ?m"
    using inv_new [OF Cons.prems(2), of ?i ?t "mQueue m @ [?i]"] Cons.prems(5) t
    by (simp add: put_def subset_insertI)
  moreover obtain ts' where "enqueue env nid nname peer (Suc k) fs ?m = (ts', m')"
    using Cons.prems(1) unfolding f by (auto simp: Let_def split: prod.splits)
  moreover have "\<forall>j \<ge> Suc k. eNewID env j \<noteq> [] \<and> mItems ?m (eNewID env j) = None"
    using Cons.prems(4,5) by (auto simp: put_def dest: injD)
  ultimately have "minv m' \<and> mSettings m' = mSettings ?m"
    using Cons.IH [of "Suc k" ?m ts' m'] Cons.prems(3,4) by simp
  then show ?case by (simp add: put_def)
qed simp

lemma announce_frame:
  "mItems (foldl (\<lambda>m t. case Get m (tID t) of Some t' \<Rightarrow> changed t' m | None \<Rightarrow> m) m ts) = mItems m
   \<and> mActive (foldl (\<lambda>m t. case Get m (tID t) of Some t' \<Rightarrow> changed t' m | None \<Rightarrow> m) m ts) = mActive m
   \<and> mQueue (foldl (\<lambda>m t. case Get m (tID t) of Some t' \<Rightarrow> changed t' m | None \<Rightarrow> m) m ts) = mQueue m
   \<and> mSettings (foldl (\<lambda>m t. case Get m (tID t) of Some t' \<Rightarrow> changed t' m | None \<Rightarrow> m) m ts) = mSettings m"
  by (induction ts arbitrary: m) (simp_all add: mgr_defs split: option.split)

lemma QueueOutgoing_inv [inv_intros]:
  assumes "mgr_inv m" "env_ok env m"
  shows "mgr_inv (snd (QueueOutgoing env nid nname peer paths m))"
proof (cases "sEnabled (mSettings m) \<and> paths \<noteq> [] \<and> (\<exists>fs. select_files env paths = Ok fs)")
  case False
  then show ?thesis using assms by (cases "select_files env paths") (auto simp: QueueOutgoing_def)
next
  case True
  then obtain fs where fs: "select_files env paths = Ok fs" by blast
  obtain ts m1 where e: "enqueue env nid nname peer 0 fs m = (ts, m1)" by fastforce
  have "minv m1 \<and> mSettings m1 = mSettings m"
    by (rule enqueue_minv [OF e mgr_invD(1) [OF assms(1)]])
      (use assms(2) select_files_sizes [OF fs assms(2)] in \<open>auto simp: env_ok_def\<close>)
  then have "mgr_inv (startNextOutgoing env
      (foldl (\<lambda>m t. case Get m (tID t) of Some t' \<Rightarrow> changed t' m | None \<Rightarrow> m) m1 ts))"
    using True by (intro startNextOutgoing_mgr_inv) (simp_all add: announce_frame enabled_def)
  then show ?thesis using True fs e by (simp add: QueueOutgoing_def)
qed

lemma Retry_inv [inv_intros]:
  assumes "mgr_inv m" shows "mgr_inv (snd (Retry env tid m))"
proof (cases "sEnabled (mSettings m) \<and> (\<exists>t. mItems m tid = Some t \<and> tDirection t = DirectionOutgoing
    \<and> (tStatus t = StatusFailed \<or> tStatus t = StatusCanceled) \<and> regular (eLstat env (tLocalPath t)) \<noteq> None)")
  case False
  then show ?thesis using assms by (auto simp: Retry_def split: option.split)
next
  case True
  then obtain t n where t: "mItems m tid = Some t" "tDirection t = DirectionOutgoing"
      "tStatus t = StatusFailed \<or> tStatus t = StatusCanceled" "regular (eLstat env (tLocalPath t)) = Some n"
    and en: "sEnabled (mSettings m)" by auto
  let ?t = "t\<lparr>tStatus := StatusQueued, tError := [], tTransferredBytes := 0, tResumeOffset := 0,
    tUpdatedAt := eNow env, tCompletedAt := None, tResumable := False\<rparr>"
  have "inv ((mItems m)(tid \<mapsto> ?t)) (mActive m) (mQueue m @ [tid])"
    by (rule inv_queue [OF mgr_invD(1) [OF assms] t(1)])
      (use mgr_item [OF assms t(1)] t in \<open>auto simp: wf_transfer_def in_flight_def\<close>)
  then have "mgr_inv (startNextOutgoing env (changed ?t (put tid ?t (m\<lparr>mQueue := mQueue m @ [tid]\<rparr>))))"
    using en by (intro startNextOutgoing_mgr_inv) (simp_all add: mgr_defs enabled_def)
  then show ?thesis using t en by (auto simp: Retry_def Let_def)
qed

section \<open>Worker callbacks\<close>

lemma run_start_inv [inv_intros]:
  assumes "mgr_inv m" shows "mgr_inv (snd (run_start env tid m))"
proof (cases "\<exists>t. mItems m tid = Some t \<and> (tStatus t = StatusNegotiating \<or> tStatus t = StatusConnecting)")
  case False
  then show ?thesis using assms by (auto simp: run_start_def Get_def markTransferring_def split: option.split)
next
  case True
  then obtain t where t: "mItems m tid = Some t" "tStatus t = StatusNegotiating \<or> tStatus t = StatusConnecting"
    by blast
  let ?t = "t\<lparr>tStatus := StatusTransferring, tError := [], tUpdatedAt := eNow env\<rparr>"
  have "mgr_inv (changed ?t (put tid ?t m))"
    by (rule mgr_inv_update [OF assms t(1)])
      (use mgr_item [OF assms t(1)] t(2) in \<open>auto simp: mgr_defs wf_transfer_def in_flight_def split: Direction.splits\<close>)
  then show ?thesis using t by (simp add: run_start_def Get_def markTransferring_def Let_def)
qed

lemma speed_update_fields [simp]:
  "tStatus (speed_update n now t) = tStatus t" "tID (speed_update n now t) = tID t"
  "tDirection (speed_update n now t) = tDirection t" "tTotalBytes (speed_update n now t) = tTotalBytes t"
  "tResumeOffset (speed_update n now t) = tResumeOffset t" "tResumable (speed_update n now t) = tResumable t"
  by (simp_all add: speed_update_def Let_def)

lemma progress_inv [inv_intros]:
  assumes "mgr_inv m" "\<And>t. mItems m tid = Some t \<Longrightarrow> 0 \<le> n \<and> n \<le> tTotalBytes t"
  shows "mgr_inv (progress env tid n m)"
proof (cases "\<exists>t. mItems m tid = Some t \<and> tStatus t = StatusTransferring")
  case False
  then show ?thesis using assms by (auto simp: progress_def split: option.split)
next
  case True
  then obtain t where t: "mItems m tid = Some t" "tStatus t = StatusTransferring" by blast
  let ?t = "(speed_update n (eNow env) t)\<lparr>tTransferredBytes := n, tUpdatedAt := eNow env\<rparr>"
  show ?thesis
    by (rule mgr_inv_update [OF assms(1) t(1), of ?t])
      (use mgr_item [OF assms(1) t(1)] assms(2) [OF t(1)] t in
        \<open>auto simp: progress_def mgr_defs wf_transfer_def in_flight_def split: Direction.splits\<close>)
qed

end
