(* ===== verification/Dcc_Properties.thy ===== *)
theory Dcc_Properties
  imports Dcc_Invariants
begin

text \<open>
  The runs of the transfer manager and what holds in them. A run starts with \<open>NewManager\<close> and
  \<open>Restore\<close> and then makes calls of the exported methods and callbacks of workers in any order;
  each runs to its end before the next one starts. Worker callbacks are not tied to a
  live worker, so a late callback of a worker that was cancelled is covered.
\<close>

section \<open>Runs\<close>

definition rows_ok :: "Transfer list \<Rightarrow> bool" where
  "rows_ok ts \<longleftrightarrow> (\<forall>t \<in> set ts. tID t \<noteq> [] \<and> wf_transfer t)"

inductive mgr_step :: "Manager \<Rightarrow> Manager \<Rightarrow> bool" where
  control: "env_ok env m \<Longrightarrow> mgr_step m (snd (HandleControl env ord nid nname peer payload m))"
| queue: "env_ok env m \<Longrightarrow> mgr_step m (snd (QueueOutgoing env nid nname peer paths m))"
| accept: "env_ok env m \<Longrightarrow> mgr_step m (snd (Accept env tid destination m))"
| decline: "mgr_step m (snd (Decline env tid m))"
| cancel: "mgr_step m (snd (Cancel env tid m))"
| cancel_all: "enumerates ord m \<Longrightarrow> mgr_step m (CancelAll env ord m)"
| retry: "mgr_step m (snd (Retry env tid m))"
| discard: "mgr_step m (snd (DiscardPartial env tid m))"
| remove_history: "mgr_step m (snd (RemoveHistory env tid m))"
| clear_history: "mgr_step m (ClearHistory ord m)"
| locate: "mgr_step m (snd (Locate env tid path m))"
| settings: "enumerates ord m \<Longrightarrow> mgr_step m (snd (UpdateSettings env ord s cancelActive m))"
| close: "enumerates ord m \<Longrightarrow> mgr_step m (Close env ord m)"
| worker_start: "mgr_step m (snd (run_start env tid m))"
| worker_progress: "(\<And>t. mItems m tid = Some t \<Longrightarrow> 0 \<le> n \<and> n \<le> tTotalBytes t)
    \<Longrightarrow> mgr_step m (progress env tid n m)"
| worker_complete: "mgr_step m (complete env tid m)"
| worker_error: "mgr_step m (finishWithError env tid ctx e m)"

inductive mgr_run :: "Manager \<Rightarrow> bool" where
  start: "NewManager s = Ok m \<Longrightarrow> rows_ok ts \<Longrightarrow> mgr_run (Restore env ts m)"
| step: "mgr_run m \<Longrightarrow> mgr_step m m' \<Longrightarrow> mgr_run m'"

lemma mgr_step_inv: "mgr_step m m' \<Longrightarrow> mgr_inv m \<Longrightarrow> mgr_inv m'"
  by (induction rule: mgr_step.induct) (simp_all add: inv_intros)

text \<open>Restoring stores one record per row, none of them active.\<close>

lemma restored_settled:
  "wf_transfer t \<Longrightarrow> settled (restored env t) \<and> tID (restored env t) = tID t
     \<and> \<not> Active (tStatus (restored env t))"
  by (cases "tStatus t")
    (auto simp: restored_def settled_def wf_transfer_def in_flight_def split: Direction.splits)

lemma Restore_fields:
  "mItems (Restore env ts m) = mItems (foldl (\<lambda>m t. put (tID t) (restored env t) m) m ts)
   \<and> mActive (Restore env ts m) = mActive m \<and> mQueue (Restore env ts m) = mQueue m
   \<and> mSettings (Restore env ts m) = mSettings m"
proof -
  have a: "mItems (foldl (\<lambda>m t. changed t m) m us) = mItems m
      \<and> mActive (foldl (\<lambda>m t. changed t m) m us) = mActive m
      \<and> mQueue (foldl (\<lambda>m t. changed t m) m us) = mQueue m
      \<and> mSettings (foldl (\<lambda>m t. changed t m) m us) = mSettings m" for us m
    by (induction us arbitrary: m) (simp_all add: mgr_defs)
  have b: "mActive (foldl (\<lambda>m t. put (tID t) (restored env t) m) m us) = mActive m
      \<and> mQueue (foldl (\<lambda>m t. put (tID t) (restored env t) m) m us) = mQueue m
      \<and> mSettings (foldl (\<lambda>m t. put (tID t) (restored env t) m) m us) = mSettings m" for us m
    by (induction us arbitrary: m) (simp_all add: put_def)
  show ?thesis using a b by (simp add: Restore_def Let_def)
qed

lemma Restore_items:
  assumes "inv (mItems m) [] q" "active_ids m = {}" "rows_ok ts"
  shows "inv (mItems (foldl (\<lambda>m t. put (tID t) (restored env t) m) m ts)) [] q
    \<and> active_ids (foldl (\<lambda>m t. put (tID t) (restored env t) m) m ts) = {}"
  using assms
proof (induction ts arbitrary: m)
  case (Cons t ts)
  have t: "tID t \<noteq> []" "wf_transfer t" using Cons.prems(3) by (auto simp: rows_ok_def)
  note r = restored_settled [OF t(2)]
  have "inv (mItems (put (tID t) (restored env t) m)) [] q"
    using inv_settle [OF Cons.prems(1) t(1)] r [of env] by (simp add: put_def)
  moreover have "active_ids (put (tID t) (restored env t) m) = {}"
    using Cons.prems(2) r [of env] by (auto simp: active_ids_def put_def)
  ultimately show ?case using Cons.IH [of "put (tID t) (restored env t) m"] Cons.prems(3)
    by (simp add: rows_ok_def)
qed simp

lemma NewManager_fields:
  "NewManager s = Ok m \<Longrightarrow> mItems m = Map.empty \<and> mActive m = [] \<and> mQueue m = [] \<and> mSettings m = s"
  by (auto simp: NewManager_def split: option.splits)

lemma start_inv: "NewManager s = Ok m \<Longrightarrow> rows_ok ts \<Longrightarrow> mgr_inv (Restore env ts m) \<and> active_ids (Restore env ts m) = {}"
proof -
  assume a: "NewManager s = Ok m" "rows_ok ts"
  note f = NewManager_fields [OF a(1)]
  have "inv (mItems m) [] []" "active_ids m = {}" using f by (simp_all add: inv_def active_ids_def)
  from Restore_items [OF this a(2), of env]
  have "minv (Restore env ts m)" "active_ids (Restore env ts m) = {}"
    using Restore_fields [of env ts m] f by (simp_all add: active_ids_def)
  then show ?thesis using none_queuedI by (simp add: mgr_inv_def)
qed

lemma mgr_run_inv: "mgr_run m \<Longrightarrow> mgr_inv m"
  by (induction rule: mgr_run.induct) (simp_all add: start_inv mgr_step_inv)

section \<open>Example runs\<close>

text \<open>A manager in automatic mode with no advertised address, and two queued files.\<close>

definition example_settings :: Settings where
  "example_settings = \<lparr>sEnabled = True, sDownloadDirectory = ''/d'', sHistoryRetention = HistoryForever,
     sConnectionMode = ConnectionAutomatic, sAdvertisedAddress = [], sPortMin = 0, sPortMax = 0\<rparr>"

definition example_env :: Env where
  "example_env = \<lparr>eNow = 7, eNewID = (\<lambda>k. replicate (Suc k) (CHR ''a'')), eLstat = (\<lambda>_. StatOk True 5),
     eStat = (\<lambda>_. StatOk True 5), eMkdirAll = (\<lambda>_. True), eDisk = (\<lambda>_. Some 100),
     eRemoveFile = (\<lambda>_. True), eListen = (\<lambda>p. Some p), eSend = (\<lambda>_ _ _. None),
     eToken = (\<lambda>_. ''42''), eRemoveRow = (\<lambda>_. None)\<rparr>"

definition empty_manager :: "Settings \<Rightarrow> Manager" where
  "empty_manager s = \<lparr>mSettings = s, mItems = Map.empty, mCancels = Map.empty, mOffers = Map.empty,
     mQueue = [], mActive = [], mLastEmit = Map.empty, mLastPersist = Map.empty, mNextCtx = 0,
     mDone = {}, mClosed = False, mOut = []\<rparr>"

definition two_queued :: Manager where
  "two_queued = snd (QueueOutgoing example_env 1 ''net'' ''bob'' [''/f'', ''/g''] (empty_manager example_settings))"

lemma empty_manager_run: "mgr_run (empty_manager example_settings)"
proof -
  have "NewManager example_settings = Ok (empty_manager example_settings)"
    by (simp add: NewManager_def ValidateSettings_def example_settings_def empty_manager_def
        ConnectionAutomatic_def HistoryForever_def)
  from mgr_run.start [OF this, of "[]" example_env] show ?thesis
    by (simp add: Restore_def rows_ok_def)
qed

lemma example_env_ok: "env_ok example_env (empty_manager s)"
  by (auto simp: env_ok_def example_env_def empty_manager_def inj_def)

lemma two_queued_run: "mgr_run two_queued"
  unfolding two_queued_def by (intro mgr_run.step [OF empty_manager_run] mgr_step.queue example_env_ok)

definition example_transfer :: "string \<Rightarrow> string \<Rightarrow> string \<Rightarrow> Status \<Rightarrow> Transfer" where
  "example_transfer i name path st =
     (new_transfer i 1 ''net'' ''bob'' DirectionOutgoing name 5 st 7)\<lparr>tLocalPath := path, tFileAvailable := True\<rparr>"

lemma two_queued_items:
  "mItems two_queued ''a'' = Some ((example_transfer ''a'' ''f'' ''/f'' StatusNegotiating)\<lparr>tToken := ''42'', tAddress := ''0''\<rparr>)"
  "mItems two_queued ''aa'' = Some (example_transfer ''aa'' ''g'' ''/g'' StatusQueued)"
  "mActive two_queued = ''a''" "mQueue two_queued = [''aa'']" "mCancels two_queued = [''a'' \<mapsto> 0]"
  "mSettings two_queued = example_settings" "j \<noteq> ''a'' \<Longrightarrow> j \<noteq> ''aa'' \<Longrightarrow> mItems two_queued j = None"
proof -
  have sf: "select_files example_env [''/f'', ''/g''] = Ok [(''/f'', ''f'', 5), (''/g'', ''g'', 5)]"
    by (simp add: select_file_def regular_def example_env_def filepath_base_def
        safe_name_safeFilename safe_name_def is_control_def)
  show "mItems two_queued ''a'' = Some ((example_transfer ''a'' ''f'' ''/f'' StatusNegotiating)\<lparr>tToken := ''42'', tAddress := ''0''\<rparr>)"
    "mItems two_queued ''aa'' = Some (example_transfer ''aa'' ''g'' ''/g'' StatusQueued)"
    "mActive two_queued = ''a''" "mQueue two_queued = [''aa'']" "mCancels two_queued = [''a'' \<mapsto> 0]"
    "mSettings two_queued = example_settings" "j \<noteq> ''a'' \<Longrightarrow> j \<noteq> ''aa'' \<Longrightarrow> mItems two_queued j = None"
    unfolding two_queued_def QueueOutgoing_def using sf
    by (simp_all add: empty_manager_def example_settings_def example_env_def startNextOutgoing.simps
        begin_outgoing_def effective_mode_def beginPassiveOutgoing_def mgr_defs Get_def
        ConnectionAutomatic_def ConnectionPassive_def ConnectionClassic_def example_transfer_def new_transfer_def)
qed

section \<open>What holds in every run\<close>





lemma two_queued_enumerates: "enumerates [''a'', ''aa''] two_queued"
proof -
  have "mItems two_queued j \<noteq> None \<longleftrightarrow> j = ''a'' \<or> j = ''aa''" for j
    by (cases "j = ''a''"; cases "j = ''aa''") (simp_all only: two_queued_items simp_thms option.distinct)
  then show ?thesis unfolding enumerates_def dom_def by (simp only: list.set) blast
qed

text \<open>
  Turning file transfers off leaves nothing running: in every reachable state of a disabled
  manager no transfer is offered, queued, negotiating, connecting or transferring.
\<close>

theorem disabled_has_no_active:
  assumes "mgr_run m" "\<not> enabled m" "mItems m i = Some t"
  shows "\<not> Active (tStatus t)"
  using mgr_run_inv [OF assms(1)] assms(2,3) by (auto simp: mgr_inv_def active_ids_def)

definition two_closed :: Manager where
  "two_closed = Close example_env [''a'', ''aa''] two_queued"

theorem disabled_has_no_active_witness:
  "\<exists>t. mItems two_closed ''aa'' = Some t \<and> \<not> Active (tStatus t)"
proof -
  note e = two_queued_enumerates
  have run: "mgr_run two_closed" unfolding two_closed_def
    by (intro mgr_run.step [OF two_queued_run] mgr_step.close e)
  have "mSettings two_closed = (mSettings two_queued)\<lparr>sEnabled := False\<rparr>"
    unfolding two_closed_def Close_def
    by (subst CancelAll_active(3))
      (use mgr_invD(1) [OF mgr_run_inv [OF two_queued_run]] e in \<open>simp_all add: enabled_def enumerates_def\<close>)
  then have "\<not> enabled two_closed" by (simp add: enabled_def)
  moreover have "mItems two_closed ''aa'' \<noteq> None"
    unfolding two_closed_def Close_def CancelAll_def using two_queued_items
    by (simp add: visit_def List.map_filter_def Cancel_def cancel_core_def mgr_defs advanceOutgoing_def
        startNextOutgoing.simps example_transfer_def new_transfer_def canceled_transfer_def)
  ultimately show ?thesis using disabled_has_no_active [OF run] by blast
qed

text \<open>
  Whatever the peers and the workers do, the byte counts stay in bounds, the records keep their ids
  and the status of a record fits its direction.
\<close>

theorem transfer_bounds:
  assumes "mgr_run m" "mItems m i = Some t"
  shows "tID t = i \<and> 0 \<le> tTransferredBytes t \<and> tTransferredBytes t \<le> tTotalBytes t
    \<and> 0 \<le> tResumeOffset t \<and> tResumeOffset t \<le> tTotalBytes t
    \<and> (tDirection t = DirectionOutgoing \<longrightarrow> \<not> tResumable t
        \<and> tStatus t \<notin> {StatusOffered, StatusConnecting, StatusDeclined, StatusResumable})
    \<and> (tDirection t = DirectionIncoming \<longrightarrow> tStatus t \<notin> {StatusQueued, StatusNegotiating}
        \<and> (tStatus t = StatusResumable \<longrightarrow> tResumable t))"
  using mgr_item [OF mgr_run_inv [OF assms(1)] assms(2)] by (cases "tDirection t") (auto simp: wf_transfer_def)

theorem transfer_bounds_witness:
  "\<exists>t. mItems two_queued ''a'' = Some t \<and> tTransferredBytes t \<le> tTotalBytes t \<and> tTotalBytes t = 5"
  using transfer_bounds [OF two_queued_run two_queued_items(1)] two_queued_items(1)
  by (simp add: example_transfer_def new_transfer_def)

section \<open>Ending a transfer\<close>

text \<open>Starting the next transfer leaves every transfer that is not queued alone.\<close>

lemma fail_core_other:
  "j \<noteq> i \<Longrightarrow> mItems (fail_core env i c e m) j = mItems m j
     \<and> mCancels (fail_core env i c e m) j = mCancels m j \<and> mDone m \<subseteq> mDone (fail_core env i c e m)"
  by (auto simp: mgr_defs split: option.split)

lemma startNextOutgoing_other:
  assumes "mItems m j = Some t" "tStatus t \<noteq> StatusQueued"
  shows "mItems (startNextOutgoing env m) j = Some t
    \<and> mCancels (startNextOutgoing env m) j = mCancels m j \<and> mDone m \<subseteq> mDone (startNextOutgoing env m)"
proof (rule startNextOutgoing_rule [where P = "\<lambda>m'. mItems m' j = Some t \<and> mCancels m' j = mCancels m j
      \<and> mDone m \<subseteq> mDone m'"])
  fix m' i q u m2
  assume a: "mItems m' j = Some t \<and> mCancels m' j = mCancels m j \<and> mDone m \<subseteq> mDone m'"
    "mItems m' i = Some u" "tStatus u = StatusQueued"
    "begin_frame i (negotiate env i u (m'\<lparr>mQueue := q\<rparr>)) m2"
  have ij: "j \<noteq> i" using a(1-3) assms(2) by auto
  have "mItems m2 j = Some t \<and> mCancels m2 j = mCancels m j \<and> mDone m \<subseteq> mDone m2"
    using a(1,4) ij by (auto simp: begin_frame_def mgr_defs)
  then show "(mItems m2 j = Some t \<and> mCancels m2 j = mCancels m j \<and> mDone m \<subseteq> mDone m2)
    \<and> (\<forall>e. mItems (fail_core env i None e m2) j = Some t \<and> mCancels (fail_core env i None e m2) j = mCancels m j
        \<and> mDone m \<subseteq> mDone (fail_core env i None e m2))"
    using fail_core_other [OF ij, of env None _ m2] by (metis subset_trans)
qed (use assms in auto)

lemma advanceOutgoing_other:
  assumes "mItems m j = Some t" "tStatus t \<noteq> StatusQueued"
  shows "mItems (advanceOutgoing env i m) j = Some t
    \<and> mCancels (advanceOutgoing env i m) j = mCancels m j \<and> mDone m \<subseteq> mDone (advanceOutgoing env i m)"
  using startNextOutgoing_other [of "clear_active i m" j t env] assms
  by (auto simp: advanceOutgoing_def clear_active_def)

text \<open>
  A successful \<open>Cancel\<close> ends the transfer for good: its worker's context is cancelled and
  forgotten, and the record is cancelled, or resumable exactly when it is an incoming transfer with
  partial data; an incoming one that is not resumable has its partial file removed. Starting the next
  queued transfer, which \<open>Cancel\<close> does at its end, does not touch the record again.
\<close>

theorem Cancel_ends_transfer:
  assumes "mgr_run m" "Cancel env tid m = (None, m')" "mItems m tid = Some t"
  shows "mItems m' tid = Some (canceled_transfer env t)
    \<and> tStatus (canceled_transfer env t) = (if tDirection t = DirectionIncoming
         \<and> tPartialPath t \<noteq> [] \<and> tTransferredBytes t > 0 then StatusResumable else StatusCanceled)
    \<and> mCancels m' tid = None \<and> (\<forall>c. mCancels m tid = Some c \<longrightarrow> c \<in> mDone m')
    \<and> cleanup_partial (canceled_transfer env t) =
        (if tDirection t = DirectionIncoming \<and> tPartialPath t \<noteq> [] \<and> tTransferredBytes t = 0
            \<and> \<not> tResumable t then [RemoveFile (tPartialPath t)] else [])"
proof -
  have m': "m' = advanceOutgoing env tid (cancel_core env tid t m)"
    using assms(2,3) by (auto simp: Cancel_def split: if_splits)
  have c: "mItems (cancel_core env tid t m) tid = Some (canceled_transfer env t)"
    "mCancels (cancel_core env tid t m) tid = None"
    "\<forall>c. mCancels m tid = Some c \<longrightarrow> c \<in> mDone (cancel_core env tid t m)"
    by (auto simp: cancel_core_def mgr_defs split: option.split)
  have st: "tStatus (canceled_transfer env t) = (if tDirection t = DirectionIncoming
       \<and> tPartialPath t \<noteq> [] \<and> tTransferredBytes t > 0 then StatusResumable else StatusCanceled)"
    by (simp add: canceled_transfer_def Let_def)
  then have "tStatus (canceled_transfer env t) \<noteq> StatusQueued" by simp
  from advanceOutgoing_other [OF c(1) this, of env tid] c st m'
  have "mItems m' tid = Some (canceled_transfer env t) \<and> mCancels m' tid = None
    \<and> (\<forall>c. mCancels m tid = Some c \<longrightarrow> c \<in> mDone m')" by auto
  moreover have "wf_transfer t" using mgr_item [OF mgr_run_inv [OF assms(1)] assms(3)] by simp
  then have "cleanup_partial (canceled_transfer env t) =
        (if tDirection t = DirectionIncoming \<and> tPartialPath t \<noteq> [] \<and> tTransferredBytes t = 0
            \<and> \<not> tResumable t then [RemoveFile (tPartialPath t)] else [])"
    by (auto simp: cleanup_partial_def canceled_transfer_def Let_def wf_transfer_def)
  ultimately show ?thesis using st by blast
qed

theorem Cancel_ends_transfer_witness:
  "fst (Cancel example_env ''a'' two_queued) = None
   \<and> 0 \<in> mDone (snd (Cancel example_env ''a'' two_queued))
   \<and> (\<exists>t. mItems (snd (Cancel example_env ''a'' two_queued)) ''a'' = Some t \<and> tStatus t = StatusCanceled)"
proof -
  have "fst (Cancel example_env ''a'' two_queued) = None"
    using two_queued_items(1) by (simp add: Cancel_def example_transfer_def new_transfer_def)
  then have "Cancel example_env ''a'' two_queued = (None, snd (Cancel example_env ''a'' two_queued))"
    by (metis prod.collapse)
  from Cancel_ends_transfer [OF two_queued_run this two_queued_items(1)]
  show ?thesis using \<open>fst _ = None\<close> two_queued_items(5)
    by (simp add: example_transfer_def new_transfer_def)
qed

text \<open>
  Turning the feature off: with \<open>cancelActive\<close> it always succeeds and nothing is active
  afterwards; without it, it is refused while anything is active or queued (then nothing
  changes) and otherwise takes effect on an idle manager.
\<close>

theorem UpdateSettings_disable:
  assumes "mgr_run m" "enumerates ord m" "ValidateSettings s = None" "\<not> sEnabled s"
  shows "fst (UpdateSettings env ord s True m) = None
    \<and> active_ids (snd (UpdateSettings env ord s True m)) = {}
    \<and> mSettings (snd (UpdateSettings env ord s True m)) = s
    \<and> UpdateSettings env ord s False m =
      (if mCancels m \<noteq> Map.empty \<or> mActive m \<noteq> [] \<or> mQueue m \<noteq> [] \<or> active_ids m \<noteq> {}
       then (Some (Rejected ''file transfers are still active''), m)
       else (None, m\<lparr>mSettings := s\<rparr>))"
proof -
  let ?m = "m\<lparr>mSettings := s\<rparr>"
  have "minv ?m" "enabled ?m \<longrightarrow> mgr_inv ?m" "enumerates ord ?m"
    using mgr_invD(1) [OF mgr_run_inv [OF assms(1)]] assms(2,4) by (simp_all add: enabled_def enumerates_def)
  note c = CancelAll_active [OF this, of env]
  then have "fst (UpdateSettings env ord s True m) = None"
    "active_ids (snd (UpdateSettings env ord s True m)) = {}"
    "mSettings (snd (UpdateSettings env ord s True m)) = s"
    using assms(3,4) by (simp_all add: UpdateSettings_def)
  moreover have "(\<exists>(i, t) \<in> set (visit m ord). Active (tStatus t)) \<longleftrightarrow> active_ids m \<noteq> {}"
    using assms(2) by (force simp: visit_set active_ids_def enumerates_def)
  then have "UpdateSettings env ord s False m =
      (if mCancels m \<noteq> Map.empty \<or> mActive m \<noteq> [] \<or> mQueue m \<noteq> [] \<or> active_ids m \<noteq> {}
       then (Some (Rejected ''file transfers are still active''), m)
       else (None, m\<lparr>mSettings := s\<rparr>))"
    using assms(3,4) by (simp add: UpdateSettings_def some_active_def)
  ultimately show ?thesis by blast
qed

theorem UpdateSettings_disable_witness:
  "active_ids (snd (UpdateSettings example_env [''a'', ''aa''] (example_settings\<lparr>sEnabled := False\<rparr>) True two_queued)) = {}
   \<and> UpdateSettings example_env [''a'', ''aa''] (example_settings\<lparr>sEnabled := False\<rparr>) False two_queued
     = (Some (Rejected ''file transfers are still active''), two_queued)"
proof -
  have v: "ValidateSettings (example_settings\<lparr>sEnabled := False\<rparr>) = None"
    by (simp add: ValidateSettings_def example_settings_def ConnectionAutomatic_def HistoryForever_def)
  have "\<not> sEnabled (example_settings\<lparr>sEnabled := False\<rparr>)" by simp
  note u = UpdateSettings_disable [OF two_queued_run two_queued_enumerates v this, of example_env]
  show ?thesis using u two_queued_items(3) by simp
qed

section \<open>Corner cases the code leaves open\<close>

text \<open>
  A peer can rewind a finished upload. \<open>handleResumeRequest\<close> does not look at the status: a
  RESUME that matches a completed outgoing transfer resets its byte count and is answered with
  ACCEPT, and no event is emitted for the changed record.
\<close>

theorem resume_rewinds_completed:
  assumes "find_item m ord (matches_resume_request nid peer off) = Some (i, t)"
    and "tStatus t = StatusCompleted" "ofPosition off \<le> tTotalBytes t"
  shows "mItems (snd (handleResumeRequest env ord nid peer off m)) i
      = Some (t\<lparr>tResumeOffset := ofPosition off, tTransferredBytes := ofPosition off\<rparr>)
    \<and> mOut (snd (handleResumeRequest env ord nid peer off m)) = mOut m @
        [SendControl nid peer (FormatResume CommandAccept (tFilename t) (ofPort off) (ofPosition off) (ofToken off))]"
  using assms by (simp add: handleResumeRequest_def mgr_defs)

definition completed_upload :: Manager where
  "completed_upload = put ''x'' ((example_transfer ''x'' ''f'' ''/f'' StatusCompleted)
     \<lparr>tTransferredBytes := 5, tPort := 4000\<rparr>) (empty_manager example_settings)"

definition resume_offer :: Offer where
  "resume_offer = \<lparr>ofCommand = CommandResume, ofFilename = ''f'', ofAddress = [], ofPort = 4000,
     ofSize = 0, ofPosition = 1, ofToken = [], ofPassive = False\<rparr>"

theorem resume_rewinds_completed_witness:
  "\<exists>t. mItems (snd (handleResumeRequest example_env [''x''] 1 ''BOB'' resume_offer completed_upload)) ''x'' = Some t
     \<and> tStatus t = StatusCompleted \<and> tTransferredBytes t = 1 \<and> tTotalBytes t = 5"
proof -
  let ?t = "(example_transfer ''x'' ''f'' ''/f'' StatusCompleted)\<lparr>tTransferredBytes := 5, tPort := 4000\<rparr>"
  have f: "find_item completed_upload [''x''] (matches_resume_request 1 ''BOB'' resume_offer) = Some (''x'', ?t)"
    by (simp add: find_item_def visit_def List.map_filter_def completed_upload_def put_def
        matches_resume_request_def resume_offer_def example_transfer_def new_transfer_def
        equal_fold_def fold_rune_def)
  show ?thesis
    using resume_rewinds_completed [OF f, of example_env]
    by (simp add: resume_offer_def example_transfer_def new_transfer_def)
qed

text \<open>
  A late worker kills a retried transfer. \<open>finishWithError\<close> has no status guard: after
  \<open>Cancel\<close> and \<open>Retry\<close> of a transfer, the error report of its first, cancelled worker marks the new
  attempt as cancelled and cancels the new worker's context.
\<close>

definition retried :: Manager where
  "retried = snd (Retry example_env ''a'' (snd (Cancel example_env ''a'' (snd (QueueOutgoing example_env 1 ''net'' ''bob''
     [''/f''] (empty_manager example_settings))))))"

theorem late_worker_kills_retry:
  "mgr_run retried
   \<and> (\<exists>t. mItems retried ''a'' = Some t \<and> tStatus t = StatusNegotiating)
   \<and> mCancels retried ''a'' = Some 1 \<and> 1 \<notin> mDone retried \<and> 0 \<in> mDone retried
   \<and> (let m = finishWithError example_env ''a'' (Some 0) (NetOpError ''read'') retried in
       (\<exists>t. mItems m ''a'' = Some t \<and> tStatus t = StatusCanceled) \<and> 1 \<in> mDone m)"
proof -
  have sf: "select_files example_env [''/f''] = Ok [(''/f'', ''f'', 5)]"
    by (simp add: select_file_def regular_def example_env_def filepath_base_def
        safe_name_safeFilename safe_name_def is_control_def)
  have run: "mgr_run retried" unfolding retried_def
    by (rule mgr_run.step [OF mgr_run.step [OF mgr_run.step [OF empty_manager_run mgr_step.queue]
        mgr_step.cancel] mgr_step.retry]) (rule example_env_ok)
  note ev = empty_manager_def example_settings_def example_env_def startNextOutgoing.simps
    begin_outgoing_def effective_mode_def beginPassiveOutgoing_def mgr_defs Get_def
    ConnectionAutomatic_def ConnectionPassive_def ConnectionClassic_def new_transfer_def
    Retry_def Cancel_def cancel_core_def canceled_transfer_def advanceOutgoing_def regular_def
  have r: "\<exists>t. mItems retried ''a'' = Some t \<and> tStatus t = StatusNegotiating \<and> tDirection t = DirectionOutgoing"
    "mCancels retried ''a'' = Some 1" "mDone retried = {0}" "mClosed retried = False"
    unfolding retried_def QueueOutgoing_def using sf by (simp_all add: ev)
  then obtain t where t: "mItems retried ''a'' = Some t" "tStatus t = StatusNegotiating"
    "tDirection t = DirectionOutgoing" by blast
  let ?c = "finish_core example_env ''a'' (Some 0) (NetOpError ''read'') t retried"
  have c: "mItems ?c ''a'' = Some (failed_transfer example_env True (NetOpError ''read'') t)" "1 \<in> mDone ?c"
    using r t by (simp_all add: mgr_defs ctx_canceled_def)
  have st: "tStatus (failed_transfer example_env True (NetOpError ''read'') t) = StatusCanceled"
    using t by (simp add: failed_transfer_def Let_def)
  then show ?thesis
    using run r t advanceOutgoing_other [OF c(1), of example_env "''a''"] c(2)
    by (auto simp: finishWithError_def Let_def)
qed

text \<open>
  The first destination sticks. When \<open>Accept\<close> fails after the paths were chosen, for lack of space
  say, the record keeps them, and a second \<open>Accept\<close> ignores the destination it is given.
\<close>

theorem Accept_keeps_first_destination:
  assumes "mItems m tid = Some t" "tDirection t = DirectionIncoming" "tStatus t = StatusOffered"
    and "tPartialPath t = []" "enabled m" "d1 \<noteq> []" "d2 \<noteq> []"
    and "eLstat env d1 = NotExist" "eMkdirAll env d1"
    and "eStat env (d1 @ ''.cascade-part-'' @ take 8 (tID t)) = NotExist"
    and "eDisk env (d1 @ ''.cascade-part-'' @ take 8 (tID t)) = Some avail" "avail < tTotalBytes t"
    and "eStat env' (d1 @ ''.cascade-part-'' @ take 8 (tID t)) = NotExist"
    and "eDisk env' (d1 @ ''.cascade-part-'' @ take 8 (tID t)) = Some avail'" "tTotalBytes t \<le> avail'"
    and "\<not> ofPassive (offer_of m tid)"
  defines "m1 \<equiv> snd (Accept env tid d1 m)"
  shows "fst (Accept env tid d1 m) = Some (Rejected ''not enough free space to receive this file'')
    \<and> fst (Accept env' tid d2 m1) = None
    \<and> (\<exists>u. mItems (snd (Accept env' tid d2 m1)) tid = Some u \<and> tLocalPath u = d1 \<and> tStatus u = StatusConnecting)"
proof -
  let ?t1 = "t\<lparr>tLocalPath := d1, tPartialPath := d1 @ ''.cascade-part-'' @ take 8 (tID t)\<rparr>"
  have a1: "Accept env tid d1 m = (Some (Rejected ''not enough free space to receive this file''), put tid ?t1 m)"
    using assms(1-12) by (simp add: Accept_def accept_paths_def accept_offset_def accept_space_def enabled_def)
  have m1: "m1 = put tid ?t1 m" by (simp add: m1_def a1)
  let ?t2 = "?t1\<lparr>tResumeOffset := 0, tTransferredBytes := 0, tStatus := StatusConnecting, tError := [],
    tUpdatedAt := eNow env'\<rparr>"
  have "Accept env' tid d2 m1 = receive_or_fail env' tid ?t2 (offer_of m1 tid) (changed ?t2 (put tid ?t2 m1))"
    using assms(1-7,13-15) unfolding m1
    by (simp add: Accept_def accept_paths_def accept_offset_def accept_space_def enabled_def put_def Let_def)
  moreover have "offer_of m1 tid = offer_of m tid" by (simp add: m1 offer_of_def put_def)
  ultimately show ?thesis
    using assms(16) a1 by (simp add: receive_or_fail_def beginReceive_def mgr_defs split: option.split)
qed

theorem Accept_keeps_first_destination_witness:
  "\<exists>env env' m u. fst (Accept env ''x'' ''/one'' m) \<noteq> None
     \<and> fst (Accept env' ''x'' ''/two'' (snd (Accept env ''x'' ''/one'' m))) = None
     \<and> mItems (snd (Accept env' ''x'' ''/two'' (snd (Accept env ''x'' ''/one'' m)))) ''x'' = Some u
     \<and> tLocalPath u = ''/one''"
proof -
  let ?env = "\<lambda>n. example_env\<lparr>eLstat := (\<lambda>_. NotExist), eStat := (\<lambda>_. NotExist), eDisk := (\<lambda>_. Some n)\<rparr>"
  let ?m = "put ''x'' (new_transfer ''x'' 1 ''net'' ''bob'' DirectionIncoming ''f'' 5 StatusOffered 7)
    (empty_manager example_settings)"
  have "fst (Accept (?env 1) ''x'' ''/one'' ?m) = Some (Rejected ''not enough free space to receive this file'')
    \<and> fst (Accept (?env 9) ''x'' ''/two'' (snd (Accept (?env 1) ''x'' ''/one'' ?m))) = None
    \<and> (\<exists>u. mItems (snd (Accept (?env 9) ''x'' ''/two'' (snd (Accept (?env 1) ''x'' ''/one'' ?m)))) ''x'' = Some u
        \<and> tLocalPath u = ''/one'' \<and> tStatus u = StatusConnecting)"
    by (rule Accept_keeps_first_destination [where avail = 1 and avail' = 9
          and t = "new_transfer ''x'' 1 ''net'' ''bob'' DirectionIncoming ''f'' 5 StatusOffered 7"])
      (simp_all add: put_def new_transfer_def empty_manager_def example_settings_def example_env_def
        enabled_def offer_of_def zero_offer_def)
  then show ?thesis by (metis option.distinct(1))
qed

text \<open>
  Discarding the partial file of a running transfer leaks its worker. A resumable transfer that was
  offered again keeps its \<open>Resumable\<close> flag while it transfers; \<open>DiscardPartial\<close> then removes the record
  but not the worker's entry, nothing removes it later, and turning the feature off without
  cancelling is refused although no transfer is left.
\<close>

theorem DiscardPartial_leaks_worker:
  assumes "mItems m tid = Some t" "tResumable t" "tPartialPath t \<noteq> []" "tStatus t = StatusTransferring"
    and "mCancels m tid = Some c" "eRemoveFile env (tPartialPath t)"
    and "ValidateSettings s = None" "\<not> sEnabled s"
  defines "m' \<equiv> snd (DiscardPartial env tid m)"
  shows "fst (DiscardPartial env tid m) = None \<and> mItems m' tid = None \<and> mCancels m' tid = Some c
    \<and> complete env tid m' = m' \<and> finishWithError env tid ctx e m' = m'
    \<and> fst (UpdateSettings env ord s False m') = Some (Rejected ''file transfers are still active'')"
proof -
  have d: "fst (DiscardPartial env tid m) = None" "mItems m' tid = None" "mCancels m' tid = Some c"
    using assms(1-6) by (simp_all add: m'_def DiscardPartial_def mgr_defs)
  then have "some_active m' ord" by (auto simp: some_active_def)
  then show ?thesis
    using d assms(7,8) by (simp add: complete_def finishWithError_def UpdateSettings_def)
qed

theorem DiscardPartial_leaks_worker_witness:
  "\<exists>m. fst (UpdateSettings example_env [] (example_settings\<lparr>sEnabled := False\<rparr>) False
     (snd (DiscardPartial example_env ''x'' m))) \<noteq> None \<and> mItems (snd (DiscardPartial example_env ''x'' m)) ''x'' = None"
proof -
  let ?t = "(new_transfer ''x'' 1 ''net'' ''bob'' DirectionIncoming ''f'' 5 StatusTransferring 7)
    \<lparr>tResumable := True, tPartialPath := ''/p''\<rparr>"
  let ?m = "setCancel ''x'' 3 (put ''x'' ?t (empty_manager example_settings))"
  have v: "ValidateSettings (example_settings\<lparr>sEnabled := False\<rparr>) = None"
    by (simp add: ValidateSettings_def example_settings_def ConnectionAutomatic_def HistoryForever_def)
  have "mItems ?m ''x'' = Some ?t" "mCancels ?m ''x'' = Some 3"
    by (simp_all add: mgr_defs empty_manager_def)
  from DiscardPartial_leaks_worker [OF this(1) _ _ _ this(2) _ v, of example_env ctx e "[]"]
  show ?thesis by (auto simp: new_transfer_def example_env_def intro!: exI [of _ ?m])
qed

end
