(* ===== verification/Dcc_Transport.thy ===== *)
theory Dcc_Transport
  imports Dcc_Manager
begin

text \<open>
  The byte streams of \<open>internal/dcc/transport.go\<close>. What the outside does in one round of a loop is a
  record: whether the context was found cancelled, what the read returned, whether the
  writes worked. A loop runs over the list of rounds; when the list ends before the loop does,
  it is still waiting (\<open>Blocked\<close>). A read never returns more than the buffer holds.
\<close>

unbundle bit_operations_syntax

datatype read_error = EOF | ReadErr goerr

record round =
  rCanceled :: bool
  rData :: string
  rError :: "read_error option"
  rWriteOk :: bool
  rAckOk :: bool

datatype outcome = Finished | Blocked | Failed goerr

record stream =
  sCount :: int            \<comment> \<open>the variable \<open>received\<close> or \<open>written\<close>\<close>
  sData :: string          \<comment> \<open>the bytes written to the file or the connection\<close>
  sAcks :: "32 word list"
  sProgress :: "int list"

definition chunk :: "int \<Rightarrow> string \<Rightarrow> string" where
  "chunk remaining d = take (nat (min 65536 remaining)) d"

definition legacyAcknowledgement :: "int \<Rightarrow> 32 word" where
  "legacyAcknowledgement received = ucast ((word_of_int received :: 64 word) AND 0xffffffff)"

section \<open>Receiving\<close>

fun receive_loop :: "int \<Rightarrow> round list \<Rightarrow> stream \<Rightarrow> outcome \<times> stream" where
  "receive_loop totalBytes rs s =
     (if sCount s \<ge> totalBytes then (Finished, s)
      else case rs of [] \<Rightarrow> (Blocked, s)
      | r # rs' \<Rightarrow>
          if rCanceled r then (Failed (OtherError ''context canceled''), s)
          else let d = chunk (totalBytes - sCount s) (rData r) in
            if d \<noteq> [] \<and> \<not> rWriteOk r then (Failed (PathError ''write partial file''), s)
            else let s1 = (if d = [] then s else s\<lparr>sCount := sCount s + int (length d), sData := sData s @ d\<rparr>)
              in if d \<noteq> [] \<and> \<not> rAckOk r then (Failed (NetOpError ''acknowledge transfer''), s1)
              else let s2 = (if d = [] then s1 else s1\<lparr>sAcks := sAcks s1 @ [legacyAcknowledgement (sCount s1)],
                                sProgress := sProgress s1 @ [sCount s1]\<rparr>)
                in case rError r of
                     Some EOF \<Rightarrow> (Failed (OtherError ''sender closed the connection before the file was complete''), s2)
                   | Some (ReadErr e) \<Rightarrow> (Failed e, s2)
                   | None \<Rightarrow> receive_loop totalBytes rs' s2)"

declare receive_loop.simps [simp del]

text \<open>
  \<open>receiveFile\<close>: the partial file must not exist for a fresh transfer, and must have the
  agreed size for a resumed one; writing starts at its end.
\<close>

definition receiveFile ::
    "string option \<Rightarrow> bool \<Rightarrow> int \<Rightarrow> int \<Rightarrow> round list \<Rightarrow> bool \<Rightarrow> outcome \<times> string option \<times> stream" where
  "receiveFile partialFile canceled offset totalBytes rs canceledAfter =
     (let zero = \<lparr>sCount = offset, sData = [], sAcks = [], sProgress = []\<rparr>;
          existing = (case partialFile of None \<Rightarrow> [] | Some c \<Rightarrow> c) in
      if offset = 0 \<and> partialFile \<noteq> None then (Failed (PathError ''create partial file''), partialFile, zero)
      else if canceled then (Failed (OtherError ''context canceled''), Some existing, zero)
      else if offset > 0 \<and> int (length existing) \<noteq> offset
      then (Failed (OtherError ''partial file changed before resume''), Some existing, zero)
      else case receive_loop totalBytes rs zero of
        (Finished, s) \<Rightarrow>
          (if canceledAfter then Failed (OtherError ''context canceled'') else Finished,
           Some (existing @ sData s), s)
      | (r, s) \<Rightarrow> (r, Some (existing @ sData s), s))"

section \<open>Sending\<close>

text \<open>The rounds of the send loop read the open file, which is \<open>content\<close> at that moment.\<close>

record send_round =
  sdCanceled :: bool
  sdCount :: nat
  sdContent :: string
  sdError :: "read_error option"
  sdWriteOk :: bool

fun send_loop :: "int \<Rightarrow> send_round list \<Rightarrow> stream \<Rightarrow> outcome \<times> stream" where
  "send_loop totalBytes rs s =
     (if sCount s \<ge> totalBytes then (Finished, s)
      else case rs of [] \<Rightarrow> (Blocked, s)
      | r # rs' \<Rightarrow>
          if sdCanceled r then (Failed (OtherError ''context canceled''), s)
          else let d = chunk (totalBytes - sCount s) (take (sdCount r) (drop (nat (sCount s)) (sdContent r))) in
            if d \<noteq> [] \<and> \<not> sdWriteOk r then (Failed (NetOpError ''send file''), s)
            else let s1 = (if d = [] then s else s\<lparr>sCount := sCount s + int (length d), sData := sData s @ d,
                             sProgress := sProgress s @ [sCount s + int (length d)]\<rparr>)
              in case sdError r of
                   Some EOF \<Rightarrow> (Failed (OtherError ''source file became shorter during transfer''), s1)
                 | Some (ReadErr e) \<Rightarrow> (Failed e, s1)
                 | None \<Rightarrow> send_loop totalBytes rs' s1)"

declare send_loop.simps [simp del]

definition sendFile :: "string option \<Rightarrow> int \<Rightarrow> int \<Rightarrow> send_round list \<Rightarrow> outcome \<times> stream" where
  "sendFile f offset totalBytes rs =
     (let zero = \<lparr>sCount = offset, sData = [], sAcks = [], sProgress = []\<rparr> in
      case f of None \<Rightarrow> (Failed (PathError ''open source file''), zero)
      | Some content \<Rightarrow>
          if offset < 0 \<or> offset > int (length content)
          then (Failed (OtherError ''invalid resume position''), zero)
          else if int (length content) \<noteq> totalBytes
          then (Failed (OtherError ''source file changed after it was queued''), zero)
          else send_loop totalBytes rs zero)"

text \<open>\<open>writeAll\<close>: the writer takes some bytes each time; \<open>None\<close> when the list of results ends first.\<close>

fun writeAll :: "(nat \<times> goerr option) list \<Rightarrow> string \<Rightarrow> (goerr option \<times> string) option" where
  "writeAll ws b = (if b = [] then Some (None, []) else case ws of
     [] \<Rightarrow> None
   | (n, Some e) # _ \<Rightarrow> Some (Some e, take n b)
   | (n, None) # ws' \<Rightarrow> map_option (\<lambda>(r, out). (r, take n b @ out)) (writeAll ws' (drop n b)))"

declare writeAll.simps [simp del]

section \<open>The finished file\<close>

text \<open>
  \<open>finalizePartial\<close> on a file system that others may change between the check and the link:
  \<open>seen\<close> is what \<open>Lstat\<close> sees, \<open>fs\<close> what \<open>Link\<close> sees.
\<close>

definition link_file :: "string \<Rightarrow> string \<Rightarrow> (string \<rightharpoonup> string) \<Rightarrow> (string \<rightharpoonup> string) option" where
  "link_file src dst fs = (case (fs src, fs dst) of
     (Some c, None) \<Rightarrow> Some (fs(dst \<mapsto> c)) | _ \<Rightarrow> None)"

definition finalizePartial ::
    "(string \<rightharpoonup> string) \<Rightarrow> bool \<Rightarrow> string \<Rightarrow> string \<Rightarrow> (string \<rightharpoonup> string) \<Rightarrow> goerr option \<times> (string \<rightharpoonup> string)" where
  "finalizePartial seen removeOk partialPath destination fs =
     (if seen destination \<noteq> None
      then (Some (OtherError ''a file already exists at the chosen destination''), fs)
      else case link_file partialPath destination fs of
        None \<Rightarrow> (Some (LinkError ''finish received file''), fs)
      | Some fs' \<Rightarrow>
          if \<not> removeOk then (Some (PathError ''remove completed partial file''), fs')
          else (None, fs'(partialPath := None)))"

section \<open>Properties\<close>

lemma chunk_length: "0 \<le> n \<Longrightarrow> int (length (chunk n d)) \<le> n \<and> length (chunk n d) \<le> 65536"
  by (auto simp: chunk_def min_def nat_le_iff)

text \<open>What one run of a loop adds to a stream.\<close>

definition extends :: "int \<Rightarrow> stream \<Rightarrow> stream \<Rightarrow> bool" where
  "extends totalBytes s s' \<longleftrightarrow> (\<exists>d ps. sData s' = sData s @ d \<and> sCount s' = sCount s + int (length d)
     \<and> sProgress s' = sProgress s @ ps \<and> sorted_wrt (<) ps
     \<and> (\<forall>p \<in> set ps. sCount s < p \<and> p \<le> totalBytes \<and> p \<le> sCount s')
     \<and> sCount s' \<le> max (sCount s) totalBytes)"

lemma extends_refl: "extends n s s"
  by (auto simp: extends_def)

lemma extends_trans:
  assumes "extends n s s1" "extends n s1 s2" shows "extends n s s2"
proof -
  obtain d1 ps1 where a: "sData s1 = sData s @ d1" "sCount s1 = sCount s + int (length d1)"
      "sProgress s1 = sProgress s @ ps1" "sorted_wrt (<) ps1"
      "\<forall>p \<in> set ps1. sCount s < p \<and> p \<le> n \<and> p \<le> sCount s1" "sCount s1 \<le> max (sCount s) n"
    using assms(1) unfolding extends_def by blast
  obtain d2 ps2 where b: "sData s2 = sData s1 @ d2" "sCount s2 = sCount s1 + int (length d2)"
      "sProgress s2 = sProgress s1 @ ps2" "sorted_wrt (<) ps2"
      "\<forall>p \<in> set ps2. sCount s1 < p \<and> p \<le> n \<and> p \<le> sCount s2" "sCount s2 \<le> max (sCount s1) n"
    using assms(2) unfolding extends_def by blast
  show ?thesis unfolding extends_def
    by (rule exI [of _ "d1 @ d2"], rule exI [of _ "ps1 @ ps2"])
      (use a b in \<open>auto simp: sorted_wrt_append; fastforce\<close>)
qed

lemma extends_step:
  assumes "d = chunk (n - sCount s) x" "sCount s < n" "d \<noteq> []"
  shows "extends n s (s\<lparr>sCount := sCount s + int (length d), sData := sData s @ d\<rparr>)"
    and "extends n s (s\<lparr>sCount := sCount s + int (length d), sData := sData s @ d, sAcks := as,
           sProgress := sProgress s @ [sCount s + int (length d)]\<rparr>)"
proof -
  have "int (length d) \<le> n - sCount s" "0 < length d"
    using chunk_length [of "n - sCount s" x] assms by auto
  then show "extends n s (s\<lparr>sCount := sCount s + int (length d), sData := sData s @ d\<rparr>)"
    and "extends n s (s\<lparr>sCount := sCount s + int (length d), sData := sData s @ d, sAcks := as,
           sProgress := sProgress s @ [sCount s + int (length d)]\<rparr>)"
    by (auto simp: extends_def)
qed

text \<open>The acknowledgement is the count modulo \<open>2 ^ 32\<close>: it wraps for files of 4 GiB and more.\<close>

lemma legacyAcknowledgement_mod:
  assumes "0 \<le> n" "n < 2 ^ 63" shows "uint (legacyAcknowledgement n) = n mod 2 ^ 32"
proof -
  have m: "(0xffffffff :: int) = mask 32" by (simp add: mask_eq_exp_minus_1)
  have "uint ((word_of_int n :: 64 word) AND 0xffffffff) = take_bit 64 n AND 0xffffffff"
    by (simp add: unsigned_and_eq uint_word_of_int_eq)
  also have "\<dots> = n mod 2 ^ 32"
    unfolding m take_bit_eq_mask [symmetric] by (simp add: take_bit_eq_mod mod_mod_cancel)
  finally show ?thesis
    unfolding legacyAcknowledgement_def by (simp add: unsigned_ucast_eq take_bit_eq_mod)
qed

lemma receive_loop_extends: "receive_loop totalBytes rs s = (r, s') \<Longrightarrow> extends totalBytes s s'"
proof (induction rs arbitrary: s)
  case Nil
  then show ?case by (subst (asm) receive_loop.simps) (auto simp: extends_refl split: if_splits)
next
  case (Cons x rs)
  show ?case
  proof (cases "sCount s < totalBytes \<and> \<not> rCanceled x")
    case False
    then show ?thesis using Cons.prems
      by (subst (asm) receive_loop.simps) (auto simp: extends_refl split: if_splits)
  next
    case True
    define d where "d = chunk (totalBytes - sCount s) (rData x)"
    show ?thesis
    proof (cases "d = []")
      case True
      then show ?thesis using Cons.prems Cons.IH [of s] \<open>sCount s < totalBytes \<and> \<not> rCanceled x\<close>
        by (subst (asm) receive_loop.simps)
          (auto simp: extends_refl Let_def d_def [symmetric] split: option.splits read_error.splits)
    next
      case False
      note e = extends_step [OF d_def _ False]
      let ?s1 = "s\<lparr>sCount := sCount s + int (length d), sData := sData s @ d\<rparr>"
      let ?s2 = "?s1\<lparr>sAcks := sAcks s @ [legacyAcknowledgement (sCount s + int (length d))],
        sProgress := sProgress s @ [sCount s + int (length d)]\<rparr>"
      have "s' = s \<or> s' = ?s1 \<or> s' = ?s2 \<or> receive_loop totalBytes rs ?s2 = (r, s')"
        using Cons.prems True False
        by (subst (asm) receive_loop.simps)
          (auto simp: Let_def d_def [symmetric] split: option.splits read_error.splits if_splits)
      moreover have "extends totalBytes s ?s1" "extends totalBytes s ?s2"
        using e True by simp_all
      moreover have "receive_loop totalBytes rs ?s2 = (r, s') \<Longrightarrow> extends totalBytes ?s2 s'"
        by (rule Cons.IH)
      ultimately show ?thesis
        using extends_refl [of totalBytes s] extends_trans [of totalBytes s ?s2 s'] by blast
    qed
  qed
qed

lemma receive_loop_acks:
  "receive_loop totalBytes rs s = (r, s') \<Longrightarrow>
     sAcks s = map legacyAcknowledgement (sProgress s) \<Longrightarrow> sAcks s' = map legacyAcknowledgement (sProgress s')"
proof (induction rs arbitrary: s)
  case Nil
  then show ?case by (subst (asm) receive_loop.simps) (auto split: if_splits)
next
  case (Cons x rs)
  let ?d = "chunk (totalBytes - sCount s) (rData x)"
  show ?case using Cons.prems Cons.IH
    by (subst (asm) receive_loop.simps)
      (force simp: Let_def split: option.splits read_error.splits if_splits)
qed

lemma receive_loop_finished:
  "receive_loop totalBytes rs s = (Finished, s') \<Longrightarrow> sCount s' \<ge> totalBytes"
proof (induction rs arbitrary: s)
  case Nil
  then show ?case by (subst (asm) receive_loop.simps) (auto split: if_splits)
next
  case (Cons x rs)
  show ?case using Cons.prems Cons.IH
    by (subst (asm) receive_loop.simps)
      (auto simp: Let_def split: option.splits read_error.splits if_splits)
qed

text \<open>
  C13: Whatever the sender and the disk do, receiving only appends to the partial file, never beyond
  the offered size; the reported progress rises strictly within the size, one acknowledgement,
  the count modulo \<open>2 ^ 32\<close>, goes out per report; and the transfer finishes only with a file of
  exactly the offered size.
\<close>

theorem receiveFile_sound:
  assumes "receiveFile partialFile canceled offset totalBytes rs canceledAfter = (r, f', s)"
    and "0 \<le> offset" "offset \<le> totalBytes"
  shows "sorted_wrt (<) (sProgress s) \<and> (\<forall>p \<in> set (sProgress s). offset < p \<and> p \<le> totalBytes)
    \<and> sAcks s = map legacyAcknowledgement (sProgress s)
    \<and> (\<forall>c. f' = Some c \<longrightarrow> (\<exists>d. c = (case partialFile of None \<Rightarrow> [] | Some c0 \<Rightarrow> c0) @ d \<and> int (length d) \<le> totalBytes - offset))
    \<and> (r = Finished \<longrightarrow> (\<exists>c. f' = Some c \<and> int (length c) = totalBytes))"
proof -
  let ?old = "case partialFile of None \<Rightarrow> [] | Some c0 \<Rightarrow> c0"
  let ?zero = "\<lparr>sCount = offset, sData = [], sAcks = [], sProgress = []\<rparr>"
  consider (early) "s = ?zero" "r \<noteq> Finished" "f' = partialFile \<or> f' = Some ?old"
    | (loop) q where "receive_loop totalBytes rs ?zero = (q, s)" "f' = Some (?old @ sData s)"
        "r = Finished \<Longrightarrow> q = Finished" "int (length ?old) = offset"
    using assms(1,2) unfolding receiveFile_def
    by (auto simp: Let_def split: if_splits option.splits prod.splits outcome.splits)
  then show ?thesis
  proof cases
    case early
    then show ?thesis using assms(2,3) by (auto split: option.splits)
  next
    case loop
    from receive_loop_extends [OF loop(1)] obtain d ps where e: "sData s = d"
        "sCount s = offset + int (length d)" "sProgress s = ps" "sorted_wrt (<) ps"
        "\<forall>p \<in> set ps. offset < p \<and> p \<le> totalBytes" "sCount s \<le> max offset totalBytes"
      by (auto simp: extends_def)
    have "sAcks s = map legacyAcknowledgement (sProgress s)"
      using receive_loop_acks [OF loop(1)] by simp
    moreover have "r = Finished \<Longrightarrow> sCount s \<ge> totalBytes" using receive_loop_finished loop(1,3) by blast
    ultimately show ?thesis using e loop(2,4) assms(3) by auto
  qed
qed

text \<open>Two rounds of a four-byte file, the second one cut to what is missing.\<close>

definition example_round :: "string \<Rightarrow> round" where
  "example_round d = \<lparr>rCanceled = False, rData = d, rError = None, rWriteOk = True, rAckOk = True\<rparr>"

theorem receiveFile_sound_witness:
  "fst (receiveFile None False 0 4 [example_round ''abc'', example_round ''de''] False) = Finished
   \<and> (\<exists>c. fst (snd (receiveFile None False 0 4 [example_round ''abc'', example_round ''de''] False)) = Some c
          \<and> int (length c) = 4)"
proof -
  obtain r f s where e: "receiveFile None False 0 4 [example_round ''abc'', example_round ''de''] False = (r, f, s)"
    by (metis prod_cases3)
  have "r = Finished" using e
    by (simp add: receiveFile_def receive_loop.simps example_round_def chunk_def Let_def)
  then show ?thesis using receiveFile_sound [OF e] e by simp
qed

text \<open>
  Receiving finishes: when no round fails and each brings at least one byte, as many rounds as
  bytes are missing are enough.
\<close>

lemma receive_loop_progresses:
  assumes "nat (totalBytes - sCount s) \<le> length rs"
    and "\<forall>r \<in> set rs. \<not> rCanceled r \<and> rData r \<noteq> [] \<and> rWriteOk r \<and> rAckOk r \<and> rError r = None"
  shows "fst (receive_loop totalBytes rs s) = Finished"
  using assms
proof (induction rs arbitrary: s)
  case Nil
  then show ?case by (subst receive_loop.simps) simp
next
  case (Cons x rs)
  show ?case
  proof (cases "sCount s < totalBytes")
    case True
    define d where "d = chunk (totalBytes - sCount s) (rData x)"
    have d: "d \<noteq> []" using True Cons.prems(2) by (auto simp: d_def chunk_def)
    let ?s2 = "s\<lparr>sCount := sCount s + int (length d), sData := sData s @ d,
      sAcks := sAcks s @ [legacyAcknowledgement (sCount s + int (length d))],
      sProgress := sProgress s @ [sCount s + int (length d)]\<rparr>"
    have "receive_loop totalBytes (x # rs) s = receive_loop totalBytes rs ?s2"
      using True Cons.prems(2) d by (subst receive_loop.simps) (simp add: Let_def d_def [symmetric])
    moreover have "0 < length d" using d by simp
    then have "nat (totalBytes - sCount ?s2) \<le> length rs"
      using Cons.prems(1) unfolding nat_le_iff by (simp del: length_greater_0_conv)
    ultimately show ?thesis using Cons.IH [of ?s2] Cons.prems(2) by simp
  qed (subst receive_loop.simps, simp)
qed

theorem receiveFile_finishes:
  assumes "case partialFile of None \<Rightarrow> offset = 0 | Some c \<Rightarrow> 0 < offset \<and> int (length c) = offset"
    and "nat (totalBytes - offset) \<le> length rs"
    and "\<forall>r \<in> set rs. \<not> rCanceled r \<and> rData r \<noteq> [] \<and> rWriteOk r \<and> rAckOk r \<and> rError r = None"
  shows "fst (receiveFile partialFile False offset totalBytes rs False) = Finished"
proof -
  have "fst (receive_loop totalBytes rs \<lparr>sCount = offset, sData = [], sAcks = [], sProgress = []\<rparr>) = Finished"
    by (rule receive_loop_progresses) (use assms in simp_all)
  then show ?thesis using assms(1)
    by (auto simp: receiveFile_def Let_def split: option.splits prod.splits)
qed

theorem receiveFile_finishes_witness:
  "fst (receiveFile (Some ''x'') False 1 3 [example_round ''y'', example_round ''z''] False) = Finished"
  by (rule receiveFile_finishes) (simp_all add: example_round_def)

section \<open>End to end\<close>

lemma send_loop_data:
  assumes "send_loop totalBytes rs s = (r, s')" "\<forall>x \<in> set rs. sdContent x = content"
    and "0 \<le> offset" "offset \<le> totalBytes" "totalBytes = int (length content)"
    and "sCount s = offset + int (length (sData s))" "prefix (sData s) (drop (nat offset) content)"
    and "sCount s \<le> totalBytes"
  shows "prefix (sData s') (drop (nat offset) content)
    \<and> sCount s' = offset + int (length (sData s')) \<and> sCount s' \<le> totalBytes
    \<and> (r = Finished \<longrightarrow> sCount s' = totalBytes)"
  using assms(1,2,6-8)
proof (induction rs arbitrary: s)
  case Nil
  then show ?case by (subst (asm) send_loop.simps) (auto split: if_splits)
next
  case (Cons x rs)
  show ?case
  proof (cases "sCount s < totalBytes \<and> \<not> sdCanceled x")
    case False
    then show ?thesis using Cons.prems
      by (subst (asm) send_loop.simps) (auto split: if_splits)
  next
    case True
    define d where "d = chunk (totalBytes - sCount s) (take (sdCount x) (drop (nat (sCount s)) (sdContent x)))"
    let ?s2 = "s\<lparr>sCount := sCount s + int (length d), sData := sData s @ d,
      sProgress := sProgress s @ [sCount s + int (length d)]\<rparr>"
    have nat: "nat (sCount s) = nat offset + length (sData s)" using Cons.prems(3) assms(3) by simp
    define k where "k = min (nat (min 65536 (totalBytes - sCount s))) (sdCount x)"
    have d: "d = take k (drop (length (sData s)) (drop (nat offset) content))"
      using Cons.prems(2) by (simp add: d_def chunk_def nat k_def add.commute)
    have data: "prefix (sData s @ d) (drop (nat offset) content)"
    proof -
      obtain zs where zs: "drop (nat offset) content = sData s @ zs"
        using Cons.prems(4) by (auto elim: prefixE)
      then have "d = take k zs" unfolding d by (simp del: drop_drop)
      then show ?thesis unfolding zs by (simp add: take_is_prefix)
    qed
    have len: "sCount s + int (length d) \<le> totalBytes"
      using chunk_length [of "totalBytes - sCount s" "take (sdCount x) (drop (nat (sCount s)) (sdContent x))"] True
      by (simp add: d_def)
    have IH: "send_loop totalBytes rs ?s2 = (r, s') \<Longrightarrow> ?thesis"
      by (rule Cons.IH [of ?s2]) (use Cons.prems(2,3) data len in auto)
    have IH0: "send_loop totalBytes rs s = (r, s') \<Longrightarrow> ?thesis"
      by (rule Cons.IH [of s]) (use Cons.prems(2-) in auto)
    have "(r \<noteq> Finished \<and> (s' = s \<or> s' = ?s2)) \<or> send_loop totalBytes rs ?s2 = (r, s') \<or> send_loop totalBytes rs s = (r, s')"
      using Cons.prems(1) True
      by (subst (asm) send_loop.simps)
        (auto simp: Let_def d_def [symmetric] split: option.splits read_error.splits if_splits)
    then show ?thesis using IH IH0 Cons.prems(3-5) data len by auto
  qed
qed

lemma receive_loop_data:
  assumes "receive_loop totalBytes rs s = (r, s')" "\<forall>x \<in> set rs. length (rData x) \<le> 65536"
    and "sCount s + int (length (concat (map rData rs))) \<le> totalBytes"
  shows "\<exists>d. sData s' = sData s @ d \<and> prefix d (concat (map rData rs))"
  using assms
proof (induction rs arbitrary: s)
  case Nil
  then show ?case by (subst (asm) receive_loop.simps) (auto split: if_splits)
next
  case (Cons x rs)
  show ?case
  proof (cases "sCount s < totalBytes \<and> \<not> rCanceled x")
    case False
    then show ?thesis using Cons.prems
      by (subst (asm) receive_loop.simps) (auto split: if_splits)
  next
    case True
    have ch: "chunk (totalBytes - sCount s) (rData x) = rData x"
      using Cons.prems(2,3) True by (simp add: chunk_def min_def nat_le_iff le_nat_iff)
    let ?s1 = "s\<lparr>sCount := sCount s + int (length (rData x)), sData := sData s @ rData x\<rparr>"
    let ?s2 = "?s1\<lparr>sAcks := sAcks s @ [legacyAcknowledgement (sCount s + int (length (rData x)))],
      sProgress := sProgress s @ [sCount s + int (length (rData x))]\<rparr>"
    have IH: "\<exists>d. sData s' = sData s @ rData x @ d \<and> prefix d (concat (map rData rs))"
      if "receive_loop totalBytes rs ?s2 = (r, s')"
      using Cons.IH [OF that] Cons.prems(2,3) by auto
    have IH0: "\<exists>d. sData s' = sData s @ d \<and> prefix d (concat (map rData rs))"
      if "rData x = []" "receive_loop totalBytes rs s = (r, s')"
      using Cons.IH [OF that(2)] Cons.prems(2,3) that(1) by auto
    have "s' = s \<or> s' = ?s1 \<or> s' = ?s2 \<or> receive_loop totalBytes rs ?s2 = (r, s')
        \<or> (rData x = [] \<and> receive_loop totalBytes rs s = (r, s'))"
      using Cons.prems(1) True
      by (subst (asm) receive_loop.simps)
        (auto simp: Let_def ch split: option.splits read_error.splits if_splits)
    then show ?thesis using IH IH0 by (auto 4 3)
  qed
qed

text \<open>
  C14: A completed transfer delivers the file: when the sender's loop ends on an unchanged file, and
  the receiver, which holds the first \<open>offset\<close> bytes, reads the sent bytes in any portions and
  finishes, its partial file is the sender's file.
\<close>

theorem transfer_delivers_file:
  assumes "sendFile (Some content) offset (int (length content)) srs = (Finished, s)"
    and "\<forall>x \<in> set srs. sdContent x = content"
    and "receiveFile (if offset = 0 then None else Some (take (nat offset) content)) c offset (int (length content)) rrs ca
           = (Finished, f', s')"
    and "concat (map rData rrs) = sData s" "\<forall>x \<in> set rrs. length (rData x) \<le> 65536"
  shows "f' = Some content"
proof -
  let ?zero = "\<lparr>sCount = offset, sData = [], sAcks = [], sProgress = []\<rparr>"
  have off: "0 \<le> offset" "offset \<le> int (length content)"
    and l: "send_loop (int (length content)) srs ?zero = (Finished, s)"
    using assms(1) by (auto simp: sendFile_def Let_def split: if_splits)
  from send_loop_data [OF l assms(2) off]
  have sd: "prefix (sData s) (drop (nat offset) content)"
    "offset + int (length (sData s)) = int (length content)" using off by simp_all
  then have "length (drop (nat offset) content) = length (sData s)" using off(1) by auto
  moreover obtain zs where "drop (nat offset) content = sData s @ zs" using sd(1) by (auto elim: prefixE)
  ultimately have "sData s = drop (nat offset) content" by (simp del: length_drop)
  then have sent: "concat (map rData rrs) = drop (nat offset) content" using assms(4) by simp
  have loop: "receive_loop (int (length content)) rrs ?zero = (Finished, s')"
    and f': "f' = Some ((if offset = 0 then [] else take (nat offset) content) @ sData s')"
    using assms(3) by (auto simp: receiveFile_def Let_def split: if_splits prod.splits outcome.splits)
  obtain d where d: "sData s' = d" "prefix d (drop (nat offset) content)"
    using receive_loop_data [OF loop assms(5)] sent off by auto
  have "offset + int (length d) \<ge> int (length content)"
    using receive_loop_finished [OF loop] receive_loop_extends [OF loop] d(1) by (auto simp: extends_def)
  then have "length d \<ge> length (drop (nat offset) content)" using off by simp
  then have "d = drop (nat offset) content" using d(2) by (metis not_equal_is_parallel parallelE
      prefix_length_le prefix_order.antisym le_antisym prefix_def append_eq_conv_conj take_all)
  then show ?thesis using f' d(1) off by (cases "offset = 0") simp_all
qed

theorem transfer_delivers_file_witness:
  "fst (snd (receiveFile (Some ''a'') False 1 3 [example_round ''b'', example_round ''c''] False)) = Some ''abc''"
proof -
  let ?sr = "\<lparr>sdCanceled = False, sdCount = 9, sdContent = ''abc'', sdError = None, sdWriteOk = True\<rparr>"
  let ?s = "\<lparr>sCount = 3, sData = ''bc'', sAcks = [], sProgress = [3]\<rparr>"
  have s: "sendFile (Some ''abc'') 1 (int (length ''abc'')) [?sr] = (Finished, ?s)"
    by (simp add: sendFile_def send_loop.simps chunk_def)
  obtain r f' s' where e: "receiveFile (Some ''a'') False 1 3 [example_round ''b'', example_round ''c''] False = (r, f', s')"
    by (metis prod_cases3)
  have "r = Finished" using e
    by (simp add: receiveFile_def receive_loop.simps example_round_def chunk_def Let_def)
  then have "f' = Some ''abc''"
    using transfer_delivers_file [OF s, of False "[example_round ''b'', example_round ''c'']" False f' s'] e
    by (simp add: example_round_def)
  then show ?thesis using e by simp
qed

text \<open>
  The completed file never overwrites another: whatever appears at the destination between the
  check and the link is still there afterwards; on success the destination holds the received bytes
  and the partial name is gone, and no other path changes.
\<close>

theorem finalizePartial_exclusive:
  assumes "partialPath \<noteq> destination"
  shows "(case finalizePartial seen ok partialPath destination fs of
      (Some e, fs') \<Rightarrow> fs' partialPath = fs partialPath \<and> (fs destination \<noteq> None \<longrightarrow> fs' = fs)
    | (None, fs') \<Rightarrow> seen destination = None \<and> fs destination = None \<and> fs partialPath \<noteq> None
        \<and> fs' destination = fs partialPath \<and> fs' partialPath = None
        \<and> (\<forall>p. p \<noteq> destination \<and> p \<noteq> partialPath \<longrightarrow> fs' p = fs p))"
  using assms by (auto simp: finalizePartial_def link_file_def split: option.split)

theorem finalizePartial_exclusive_witness:
  "snd (finalizePartial Map.empty True ''p'' ''d'' [''p'' \<mapsto> ''x'', ''d'' \<mapsto> ''y'']) = [''p'' \<mapsto> ''x'', ''d'' \<mapsto> ''y'']
   \<and> (\<exists>fs'. finalizePartial Map.empty True ''p'' ''d'' [''p'' \<mapsto> ''x''] = (None, fs') \<and> fs' ''d'' = Some ''x'' \<and> fs' ''p'' = None)"
proof -
  have ne: "''p'' \<noteq> ''d''" by simp
  have e: "fst (finalizePartial Map.empty True ''p'' ''d'' [''p'' \<mapsto> ''x'']) = None"
    "fst (finalizePartial Map.empty True ''p'' ''d'' [''p'' \<mapsto> ''x'', ''d'' \<mapsto> ''y'']) \<noteq> None"
    by (simp_all add: finalizePartial_def link_file_def)
  show ?thesis
    using finalizePartial_exclusive [OF ne, where seen = Map.empty and ok = True and fs = "[''p'' \<mapsto> ''x'', ''d'' \<mapsto> ''y'']"]
      finalizePartial_exclusive [OF ne, where seen = Map.empty and ok = True and fs = "[''p'' \<mapsto> ''x'']"] e
    by (auto split: prod.splits option.splits)
qed

end
