(* ===== verification/Fifo.thy ===== *)
theory Fifo
  imports Prelude
begin

text \<open>
  The interface of a worker's queue: what is accepted, in order, is what is taken, in order, followed by what
  still waits. The event bus, the callback dispatcher and the outbound request dispatcher each provide it.
  A client is a sequence of operations; \<open>drive\<close> runs it and collects what was accepted and taken.
\<close>

datatype 'a queue_op = Put 'a | Take

fun drive :: "('a \<Rightarrow> 's \<Rightarrow> 's option) \<Rightarrow> ('s \<Rightarrow> ('a \<times> 's) option) \<Rightarrow> 'a queue_op list \<Rightarrow> 's
    \<Rightarrow> 'a list \<times> 'a list \<times> 's" where
  "drive enq deq [] s = ([], [], s)"
| "drive enq deq (Put x # ops) s = (case enq x s of
     None \<Rightarrow> drive enq deq ops s
   | Some s' \<Rightarrow> (case drive enq deq ops s' of (a, t, s'') \<Rightarrow> (x # a, t, s'')))"
| "drive enq deq (Take # ops) s = (case deq s of
     None \<Rightarrow> drive enq deq ops s
   | Some (x, s') \<Rightarrow> (case drive enq deq ops s' of (a, t, s'') \<Rightarrow> (a, x # t, s'')))"

locale fifo_queue =
  fixes enq :: "'a \<Rightarrow> 's \<Rightarrow> 's option" and deq :: "'s \<Rightarrow> ('a \<times> 's) option"
    and pending :: "'s \<Rightarrow> 'a list"
  assumes enq_pending: "enq x s = Some s' \<Longrightarrow> pending s' = pending s @ [x]"
    and deq_pending: "deq s = Some (x, s') \<Longrightarrow> pending s = x # pending s'"
begin

lemma drive_fifo: "drive enq deq ops s = (a, t, s') \<Longrightarrow> pending s @ a = t @ pending s'"
proof (induction ops arbitrary: s a t)
  case (Cons op ops)
  then show ?case
    by (cases op) (fastforce split: option.splits prod.splits dest: enq_pending deq_pending)+
qed simp

lemma taken_prefix: "drive enq deq ops s = (a, t, s') \<Longrightarrow> prefix t (pending s @ a)"
  using drive_fifo by fastforce

end

text \<open>A queue that takes whenever something waits drains in as many steps as items wait.\<close>

locale draining_queue = fifo_queue +
  assumes deq_progress: "pending s \<noteq> [] \<Longrightarrow> deq s \<noteq> None"
begin

lemma drains: "drive enq deq (replicate (length (pending s)) Take) s = (a, t, s') \<Longrightarrow> t = pending s \<and> pending s' = []"
proof (induction "length (pending s)" arbitrary: s a t s')
  case 0
  then show ?case by simp
next
  case (Suc n)
  then have "pending s \<noteq> []" by auto
  then obtain x s1 where d: "deq s = Some (x, s1)" using deq_progress by fastforce
  then have p: "pending s = x # pending s1" by (rule deq_pending)
  obtain a1 t1 s2 where r: "drive enq deq (replicate (length (pending s1)) Take) s1 = (a1, t1, s2)"
    by (metis prod_cases3)
  have "n = length (pending s1)" using Suc.hyps(2) p by simp
  from Suc.hyps(1) [OF this r] have "t1 = pending s1 \<and> pending s2 = []" .
  then show ?case using Suc.prems d p r by auto
qed

end

end
