(* ===== verification/Event_Bus.thy ===== *)
theory Event_Bus
  imports Fifo
begin

text \<open>
  The event bus of \<open>internal/events/bus.go\<close>: an ordered lane with a bounded queue, a lane of coalesced
  snapshots, and one dispatcher goroutine that serves both. The dispatcher's position is part
  of the state: it first polls the ordered lane, and waits on both when that was empty. \<open>bOut\<close> is
  the calls of \<open>OnEvent\<close>. Subscribers are a type parameter, and so is what the bus carries without
  reading it: \<open>eData\<close> stands for the fields \<open>Data\<close>, \<open>Timestamp\<close> and \<open>Source\<close>.
\<close>

record 'd Event =
  eType :: string
  eData :: 'd

datatype bus_pc = Polling | Waiting | Stopped

record ('d, 's) EventBus =
  bSubs :: "string \<Rightarrow> 's list"
  bQueue :: "'d Event list"
  bLatest :: "string \<rightharpoonup> 'd Event"
  bOrder :: "string list"
  bReady :: bool
  bClosed :: bool
  bPc :: bus_pc
  bOut :: "('s \<times> 'd Event) list"

definition eventQueueSize :: nat where "eventQueueSize = 1024"

definition NewEventBus :: "('d, 's) EventBus" where
  "NewEventBus = \<lparr>bSubs = (\<lambda>_. []), bQueue = [], bLatest = Map.empty, bOrder = [], bReady = False,
     bClosed = False, bPc = Polling, bOut = []\<rparr>"

section \<open>Subscribers\<close>

definition Subscribe :: "string \<Rightarrow> 's \<Rightarrow> ('d, 's) EventBus \<Rightarrow> ('d, 's) EventBus" where
  "Subscribe ty sub b = b\<lparr>bSubs := (bSubs b)(ty := bSubs b ty @ [sub])\<rparr>"

definition Unsubscribe :: "string \<Rightarrow> 's \<Rightarrow> ('d, 's) EventBus \<Rightarrow> ('d, 's) EventBus" where
  "Unsubscribe ty sub b = b\<lparr>bSubs := (bSubs b)(ty := remove1 sub (bSubs b ty))\<rparr>"

definition deliver :: "'d Event \<Rightarrow> ('d, 's) EventBus \<Rightarrow> ('d, 's) EventBus" where
  "deliver e b = b\<lparr>bOut := bOut b @ map (\<lambda>s. (s, e)) (bSubs b (eType e) @ bSubs b ''*'')\<rparr>"

section \<open>Publishing\<close>

text \<open>\<open>Emit\<close>: \<open>None\<close> when it has to wait for room. A closed bus drops the event.\<close>

definition enqueue_event :: "'d Event \<Rightarrow> ('d, 's) EventBus \<Rightarrow> ('d, 's) EventBus option" where
  "enqueue_event e b = (if length (bQueue b) < eventQueueSize then Some (b\<lparr>bQueue := bQueue b @ [e]\<rparr>) else None)"

definition Emit :: "'d Event \<Rightarrow> ('d, 's) EventBus \<Rightarrow> ('d, 's) EventBus option" where
  "Emit e b = (if bClosed b then Some b else enqueue_event e b)"

definition EmitLatest :: "string \<Rightarrow> 'd Event \<Rightarrow> ('d, 's) EventBus \<Rightarrow> ('d, 's) EventBus" where
  "EmitLatest key e b =
     (if key = [] \<or> bClosed b then b
      else let order = (if bLatest b key = None then bOrder b @ [key] else bOrder b)
        in b\<lparr>bOrder := order, bLatest := (bLatest b)(key \<mapsto> e), bReady := True\<rparr>)"

definition EmitSync :: "'d Event \<Rightarrow> ('d, 's) EventBus \<Rightarrow> ('d, 's) EventBus" where
  "EmitSync e b = (if bClosed b then b else deliver e b)"

definition Close :: "('d, 's) EventBus \<Rightarrow> ('d, 's) EventBus" where
  "Close b = b\<lparr>bClosed := True\<rparr>"

section \<open>The dispatcher\<close>

definition popLatest :: "('d, 's) EventBus \<Rightarrow> ((string \<times> 'd Event) option) \<times> ('d, 's) EventBus" where
  "popLatest b = (case bOrder b of [] \<Rightarrow> (None, b)
     | key # rest \<Rightarrow>
         (map_option (Pair key) (bLatest b key),
          b\<lparr>bOrder := rest, bLatest := (bLatest b)(key := None), bReady := bReady b \<or> rest \<noteq> []\<rparr>))"

definition dequeue_event :: "('d, 's) EventBus \<Rightarrow> ('d Event \<times> ('d, 's) EventBus) option" where
  "dequeue_event b = (case bQueue b of [] \<Rightarrow> None | e # q \<Rightarrow> Some (e, b\<lparr>bQueue := q\<rparr>))"

text \<open>
  The steps of \<open>dispatchLoop\<close>. The labels name what a step published or delivered.
\<close>

datatype 'd label = Ordered "'d Event" | Snapshot string "'d Event" | Published "'d Event"
  | Written string "'d Event" | Silent

inductive dispatch :: "('d, 's) EventBus \<Rightarrow> 'd label \<Rightarrow> ('d, 's) EventBus \<Rightarrow> bool" where
  poll_event: "bPc b = Polling \<Longrightarrow> dequeue_event b = Some (e, b') \<Longrightarrow> dispatch b (Ordered e) (deliver e b')"
| poll_empty: "bPc b = Polling \<Longrightarrow> bQueue b = [] \<Longrightarrow> dispatch b Silent (b\<lparr>bPc := Waiting\<rparr>)"
| wait_event: "bPc b = Waiting \<Longrightarrow> dequeue_event b = Some (e, b') \<Longrightarrow>
    dispatch b (Ordered e) (deliver e (b'\<lparr>bPc := Polling\<rparr>))"
| wait_latest: "bPc b = Waiting \<Longrightarrow> bReady b \<Longrightarrow> popLatest (b\<lparr>bReady := False\<rparr>) = (Some (k, e), b') \<Longrightarrow>
    dispatch b (Snapshot k e) (deliver e (b'\<lparr>bPc := Polling\<rparr>))"
| wait_spurious: "bPc b = Waiting \<Longrightarrow> bReady b \<Longrightarrow> popLatest (b\<lparr>bReady := False\<rparr>) = (None, b') \<Longrightarrow>
    dispatch b Silent (b'\<lparr>bPc := Polling\<rparr>)"
| wait_done: "bPc b = Waiting \<Longrightarrow> bClosed b \<Longrightarrow> dispatch b Silent (b\<lparr>bPc := Stopped\<rparr>)"

text \<open>
  The steps of the bus: publishers, subscribers and the dispatcher interleave. An emitter that
  saw the bus open may still get its event in after \<open>Close\<close> (\<open>emit_race\<close>).
\<close>

inductive bus_step :: "('d, 's) EventBus \<Rightarrow> 'd label \<Rightarrow> ('d, 's) EventBus \<Rightarrow> bool" where
  emit: "\<not> bClosed b \<Longrightarrow> Emit e b = Some b' \<Longrightarrow> bus_step b (Published e) b'"
| emit_closed: "bClosed b \<Longrightarrow> Emit e b = Some b' \<Longrightarrow> bus_step b Silent b'"
| emit_race: "bClosed b \<Longrightarrow> enqueue_event e b = Some b' \<Longrightarrow> bus_step b (Published e) b'"
| emit_latest: "k \<noteq> [] \<Longrightarrow> \<not> bClosed b \<Longrightarrow> bus_step b (Written k e) (EmitLatest k e b)"
| emit_latest_dropped: "k = [] \<or> bClosed b \<Longrightarrow> bus_step b Silent (EmitLatest k e b)"
| emit_sync: "bus_step b Silent (EmitSync e b)"
| subscribe: "bus_step b Silent (Subscribe ty s b)"
| unsubscribe: "bus_step b Silent (Unsubscribe ty s b)"
| close: "bus_step b Silent (Close b)"
| dispatch: "dispatch b l b' \<Longrightarrow> bus_step b l b'"

inductive_cases dispatch_cases: "dispatch b l b'"

inductive bus_run :: "'d label list \<Rightarrow> ('d, 's) EventBus \<Rightarrow> bool" where
  init: "bus_run [] NewEventBus"
| step: "bus_run ls b \<Longrightarrow> bus_step b l b' \<Longrightarrow> bus_run (ls @ [l]) b'"

section \<open>The ordered lane\<close>

definition published :: "'d label list \<Rightarrow> 'd Event list" where
  "published = List.map_filter (\<lambda>l. case l of Published e \<Rightarrow> Some e | _ \<Rightarrow> None)"

definition ordered :: "'d label list \<Rightarrow> 'd Event list" where
  "ordered = List.map_filter (\<lambda>l. case l of Ordered e \<Rightarrow> Some e | _ \<Rightarrow> None)"

definition written :: "string \<Rightarrow> 'd label list \<Rightarrow> 'd Event list" where
  "written k = List.map_filter (\<lambda>l. case l of Written k' e \<Rightarrow> if k' = k then Some e else None | _ \<Rightarrow> None)"

definition snapshots :: "string \<Rightarrow> 'd label list \<Rightarrow> 'd Event list" where
  "snapshots k = List.map_filter (\<lambda>l. case l of Snapshot k' e \<Rightarrow> if k' = k then Some e else None | _ \<Rightarrow> None)"

lemma labels_snoc [simp]:
  "published (ls @ [l]) = published ls @ (case l of Published e \<Rightarrow> [e] | _ \<Rightarrow> [])"
  "ordered (ls @ [l]) = ordered ls @ (case l of Ordered e \<Rightarrow> [e] | _ \<Rightarrow> [])"
  "written k (ls @ [l]) = written k ls @ (case l of Written k' e \<Rightarrow> if k' = k then [e] else [] | _ \<Rightarrow> [])"
  "snapshots k (ls @ [l]) = snapshots k ls @ (case l of Snapshot k' e \<Rightarrow> if k' = k then [e] else [] | _ \<Rightarrow> [])"
  by (auto simp: published_def ordered_def written_def snapshots_def List.map_filter_def split: label.split)

lemma labels_Nil [simp]: "published [] = []" "ordered [] = []" "written k [] = []" "snapshots k [] = []"
  by (simp_all add: published_def ordered_def written_def snapshots_def)

named_theorems bus_defs \<open>the operations of the event bus\<close>
lemmas [bus_defs] = Emit_def enqueue_event_def dequeue_event_def EmitLatest_def EmitSync_def Subscribe_def
  Unsubscribe_def Close_def deliver_def popLatest_def

interpretation ordered_lane: draining_queue enqueue_event dequeue_event bQueue
  by unfold_locales (auto simp: bus_defs split: if_splits list.splits)

definition lanes_inv :: "('d, 's) EventBus \<Rightarrow> bool" where
  "lanes_inv b \<longleftrightarrow> length (bQueue b) \<le> eventQueueSize \<and> distinct (bOrder b)
     \<and> (\<forall>k. k \<in> set (bOrder b) \<longleftrightarrow> bLatest b k \<noteq> None)
     \<and> [] \<notin> set (bOrder b) \<and> (bOrder b \<noteq> [] \<longrightarrow> bReady b)"

text \<open>What a dispatcher step does to the two lanes.\<close>

definition lanes_step :: "('d, 's) EventBus \<Rightarrow> 'd label \<Rightarrow> ('d, 's) EventBus \<Rightarrow> bool" where
  "lanes_step b l b' \<longleftrightarrow> (case l of
     Ordered e \<Rightarrow> bQueue b = e # bQueue b' \<and> bOrder b' = bOrder b \<and> bLatest b' = bLatest b \<and> bReady b' = bReady b
   | Snapshot k e \<Rightarrow> bQueue b' = bQueue b \<and> bOrder b = k # bOrder b' \<and> bLatest b k = Some e
       \<and> bLatest b' = (bLatest b)(k := None) \<and> (bOrder b' \<noteq> [] \<longrightarrow> bReady b')
   | Silent \<Rightarrow> bQueue b' = bQueue b \<and> bOrder b' = bOrder b \<and> bLatest b' = bLatest b
       \<and> (bReady b' = bReady b \<or> bOrder b = [])
   | _ \<Rightarrow> False)"

lemma dispatch_lanes:
  assumes "dispatch b l b'" "lanes_inv b" shows "lanes_step b l b'"
  using assms(1)
proof cases
  case (wait_latest k e b')
  then show ?thesis
    by (cases "bOrder b") (auto simp: bus_defs lanes_step_def)
next
  case (wait_spurious b2)
  then have "bOrder b = []"
    using assms(2) spec [of "\<lambda>k. k \<in> set (bOrder b) \<longleftrightarrow> bLatest b k \<noteq> None" "hd (bOrder b)"]
    by (cases "bOrder b") (auto simp: bus_defs lanes_inv_def)
  then show ?thesis using wait_spurious by (auto simp: bus_defs lanes_step_def)
qed (auto simp: bus_defs lanes_step_def split: list.splits)

lemma lanes_inv_dispatch:
  assumes "lanes_inv b" "dispatch b l b'" shows "lanes_inv b'"
proof (cases l)
  case (Snapshot k e)
  then show ?thesis
    using dispatch_lanes [OF assms(2,1)] assms(1) by (auto simp: lanes_step_def lanes_inv_def)
qed (use dispatch_lanes [OF assms(2,1)] assms(1) in \<open>auto simp: lanes_step_def lanes_inv_def\<close>)

lemma lanes_inv_step: "bus_step b l b' \<Longrightarrow> lanes_inv b \<Longrightarrow> lanes_inv b'"
proof (induction rule: bus_step.induct)
  case (emit_latest k b e)
  then show ?case by (auto simp: lanes_inv_def bus_defs Let_def)
next
  case (dispatch b l b')
  then show ?case using lanes_inv_dispatch by blast
qed (auto simp: lanes_inv_def bus_defs split: if_splits)

lemma lanes_inv_run: "bus_run ls b \<Longrightarrow> lanes_inv b"
proof (induction rule: bus_run.induct)
  case init
  show ?case by (simp add: NewEventBus_def lanes_inv_def)
qed (rule lanes_inv_step)

text \<open>
  C15: The ordered lane is a bounded FIFO: in every run the events delivered from it, followed by
  those still queued, are the events published, in that order, and at most 1024 wait.
\<close>

theorem ordered_lane_fifo:
  assumes "bus_run ls b"
  shows "published ls = ordered ls @ bQueue b \<and> length (bQueue b) \<le> 1024"
proof
  show "published ls = ordered ls @ bQueue b"
    using assms
  proof (induction rule: bus_run.induct)
    case init
    show ?case by (simp add: NewEventBus_def)
  next
    case (step ls b l b')
    note inv = lanes_inv_run [OF step(1)]
    from step(2) show ?case
    proof cases
      case (emit e)
      then show ?thesis using step.IH by (auto simp: Emit_def dest!: ordered_lane.enq_pending)
    next
      case (emit_race e)
      then show ?thesis using step.IH by (auto dest!: ordered_lane.enq_pending)
    next
      case dispatch
      from dispatch_lanes [OF dispatch inv] show ?thesis using step.IH
        by (cases l) (auto simp: lanes_step_def)
    qed (use step.IH in \<open>auto simp: bus_defs\<close>)
  qed
  show "length (bQueue b) \<le> 1024" using lanes_inv_run [OF assms] by (simp add: lanes_inv_def eventQueueSize_def)
qed

section \<open>The snapshot lane\<close>

lemma latest_step:
  assumes "bus_step b l b'" "lanes_inv b"
  shows "bLatest b' k = (case l of
      Written k' e \<Rightarrow> if k' = k then Some e else bLatest b k
    | Snapshot k' e \<Rightarrow> if k' = k then None else bLatest b k
    | _ \<Rightarrow> bLatest b k)
    \<and> (\<forall>e. l = Snapshot k e \<longrightarrow> bLatest b k = Some e)"
  using assms(1)
proof cases
  case dispatch
  from dispatch_lanes [OF dispatch assms(2)] show ?thesis by (cases l) (auto simp: lanes_step_def)
qed (auto simp: bus_defs Let_def split: if_splits)

text \<open>
  The snapshot lane coalesces and loses nothing that matters: the snapshots delivered for a key
  are a subsequence of those written; a pending one is the last one written and the dispatcher
  has been signalled; and when none is pending the last one delivered is the last one written.
\<close>

theorem latest_wins:
  assumes "bus_run ls b"
  shows "subseq (snapshots k ls) (written k ls)
    \<and> (case bLatest b k of
         Some e \<Rightarrow> written k ls \<noteq> [] \<and> last (written k ls) = e \<and> k \<in> set (bOrder b) \<and> bReady b
       | None \<Rightarrow> written k ls = [] \<or> (snapshots k ls \<noteq> [] \<and> last (snapshots k ls) = last (written k ls)))"
proof -
  have "(case bLatest b k of
         Some e \<Rightarrow> (\<exists>w. written k ls = w @ [e] \<and> subseq (snapshots k ls) w)
       | None \<Rightarrow> subseq (snapshots k ls) (written k ls)
           \<and> (written k ls = [] \<or> (snapshots k ls \<noteq> [] \<and> last (snapshots k ls) = last (written k ls))))"
    using assms
  proof (induction rule: bus_run.induct)
    case init
    show ?case by (simp add: NewEventBus_def)
  next
    case (step ls b l b')
    note inv = lanes_inv_run [OF step(1)]
    note l = latest_step [OF step(2) inv, of k]
    show ?case
    proof (cases "(\<exists>e. l = Written k e) \<or> (\<exists>e. l = Snapshot k e)")
      case True
      then show ?thesis
      proof
        assume "\<exists>e. l = Written k e"
        then show ?thesis using l step.IH by (auto split: option.splits)
      next
        assume "\<exists>e. l = Snapshot k e"
        then show ?thesis using l step.IH by (auto split: option.splits)
      qed
    next
      case False
      then show ?thesis using l step.IH by (cases l; cases "bLatest b k") auto
    qed
  qed
  moreover have "bLatest b k = Some e \<Longrightarrow> k \<in> set (bOrder b) \<and> bReady b" for e
    using lanes_inv_run [OF assms] by (fastforce simp: lanes_inv_def)
  ultimately show ?thesis by (auto split: option.splits)
qed

text \<open>
  Control events win: a dispatcher that comes back to its loop delivers the head of the
  ordered lane before any snapshot, and only an empty poll lets it wait on both lanes.
\<close>

theorem control_events_first:
  assumes "bPc b = Polling" "dispatch b l b'"
  shows "(case bQueue b of
      e # q \<Rightarrow> l = Ordered e \<and> bQueue b' = q \<and> bPc b' = Polling
        \<and> bOut b' = bOut b @ map (\<lambda>s. (s, e)) (bSubs b (eType e) @ bSubs b ''*'')
    | [] \<Rightarrow> l = Silent \<and> bPc b' = Waiting \<and> bOut b' = bOut b)"
  using assms(2) by (cases rule: dispatch_cases) (use assms(1) in \<open>auto simp: bus_defs split: list.splits\<close>)

section \<open>An example run\<close>

text \<open>Two control events and two writes of one snapshot; the dispatcher polls one event.\<close>

definition ev :: "nat \<Rightarrow> nat Event" where "ev n = \<lparr>eType = ''t'', eData = n\<rparr>"

definition example_labels :: "nat label list" where
  "example_labels = [Published (ev 1), Published (ev 2), Written ''k'' (ev 3), Written ''k'' (ev 4), Ordered (ev 1)]"

definition before_poll :: "(nat, nat) EventBus" where
  "before_poll = NewEventBus\<lparr>bQueue := [ev 1, ev 2], bOrder := [''k''], bLatest := [''k'' \<mapsto> ev 4], bReady := True\<rparr>"

lemma example_run: "bus_run example_labels (before_poll\<lparr>bQueue := [ev 2]\<rparr>)"
proof -
  let ?b0 = "NewEventBus :: (nat, nat) EventBus"
  let ?b1 = "?b0\<lparr>bQueue := [ev 1]\<rparr>"
  let ?b2 = "?b0\<lparr>bQueue := [ev 1, ev 2]\<rparr>"
  let ?b3 = "EmitLatest ''k'' (ev 3) ?b2"
  have "bus_step ?b0 (Published (ev 1)) ?b1" "bus_step ?b1 (Published (ev 2)) ?b2"
    by (rule bus_step.emit; simp add: bus_defs NewEventBus_def eventQueueSize_def)+
  moreover have "bus_step ?b2 (Written ''k'' (ev 3)) ?b3"
    by (rule bus_step.emit_latest) (simp_all add: NewEventBus_def)
  moreover have "EmitLatest ''k'' (ev 4) ?b3 = before_poll"
    by (simp add: bus_defs before_poll_def NewEventBus_def)
  then have "bus_step ?b3 (Written ''k'' (ev 4)) before_poll"
    using bus_step.emit_latest [of "''k''" ?b3 "ev 4"] by (simp add: bus_defs NewEventBus_def)
  moreover have "dispatch before_poll (Ordered (ev 1)) (deliver (ev 1) (before_poll\<lparr>bQueue := [ev 2]\<rparr>))"
    by (rule dispatch.poll_event) (simp_all add: before_poll_def NewEventBus_def dequeue_event_def)
  then have "bus_step before_poll (Ordered (ev 1)) (before_poll\<lparr>bQueue := [ev 2]\<rparr>)"
    by (intro bus_step.dispatch) (simp add: bus_defs before_poll_def NewEventBus_def)
  ultimately show ?thesis unfolding example_labels_def
    using bus_run.step [OF bus_run.step [OF bus_run.step [OF bus_run.step [OF bus_run.step [OF bus_run.init]]]]]
    by fastforce
qed

theorem ordered_lane_fifo_witness:
  "published example_labels = ordered example_labels @ [ev 2]"
  using ordered_lane_fifo [OF example_run] by simp

theorem latest_wins_witness:
  "last (written ''k'' example_labels) = ev 4 \<and> subseq (snapshots ''k'' example_labels) (written ''k'' example_labels)"
  using latest_wins [OF example_run, of "''k''"] by (simp add: before_poll_def)

theorem control_events_first_witness:
  "\<exists>l b'. dispatch before_poll l b' \<and> l = Ordered (ev 1) \<and> bQueue b' = [ev 2]"
proof -
  have d: "dispatch before_poll (Ordered (ev 1)) (deliver (ev 1) (before_poll\<lparr>bQueue := [ev 2]\<rparr>))"
    by (rule dispatch.poll_event) (simp_all add: before_poll_def NewEventBus_def dequeue_event_def)
  have "bPc before_poll = Polling" by (simp add: before_poll_def NewEventBus_def)
  from control_events_first [OF this d] d show ?thesis by (auto simp: before_poll_def)
qed

end
