(* ===== verification/Dispatchers.thy ===== *)
theory Dispatchers
  imports Fifo
begin

text \<open>
  The two worker queues of \<open>internal/irc\<close>, \<open>callback_dispatcher.go\<close> and
  \<open>outbound_request_dispatcher.go\<close>, and the token bucket of \<open>ratelimit.go\<close> that paces the
  second one. A dispatcher is its queue, the \<open>stopping\<close> flag and the position of its one worker;
  the work items are a type parameter. Producers, the stop call and the worker interleave.
\<close>

section \<open>The callback dispatcher\<close>

datatype 'a cb_pc = CbIdle | CbRunning 'a | CbDone

record 'a callbackDispatcher =
  cbQueue :: "'a list"
  cbStopping :: bool
  cbPc :: "'a cb_pc"

definition newCallbackDispatcher :: "'a callbackDispatcher" where
  "newCallbackDispatcher = \<lparr>cbQueue = [], cbStopping = False, cbPc = CbIdle\<rparr>"

text \<open>\<open>enqueue\<close>: \<open>None\<close> is the result \<open>false\<close>.\<close>

definition cb_enqueue :: "'a \<Rightarrow> 'a callbackDispatcher \<Rightarrow> 'a callbackDispatcher option" where
  "cb_enqueue w d = (if cbStopping d then None else Some (d\<lparr>cbQueue := cbQueue d @ [w]\<rparr>))"

definition stopAfterDrain :: "'a callbackDispatcher \<Rightarrow> 'a callbackDispatcher" where
  "stopAfterDrain d = d\<lparr>cbStopping := True\<rparr>"

definition cb_take :: "'a callbackDispatcher \<Rightarrow> ('a \<times> 'a callbackDispatcher) option" where
  "cb_take d = (case cbQueue d of [] \<Rightarrow> None | w # ws \<Rightarrow> Some (w, d\<lparr>cbQueue := ws\<rparr>))"

datatype 'a work_label = Accepted 'a | Refused 'a | Executed 'a | Internal

text \<open>
  A run of the dispatcher. A callback that panics is recovered, so \<open>cb_finish\<close> is how every callback
  ends.
\<close>

inductive cb_step :: "'a callbackDispatcher \<Rightarrow> 'a work_label \<Rightarrow> 'a callbackDispatcher \<Rightarrow> bool" where
  cb_accept: "cb_enqueue w d = Some d' \<Longrightarrow> cb_step d (Accepted w) d'"
| cb_refuse: "cb_enqueue w d = None \<Longrightarrow> cb_step d (Refused w) d"
| cb_stop: "cb_step d Internal (stopAfterDrain d)"
| cb_start: "cbPc d = CbIdle \<Longrightarrow> cb_take d = Some (w, d') \<Longrightarrow> cb_step d (Executed w) (d'\<lparr>cbPc := CbRunning w\<rparr>)"
| cb_finish: "cbPc d = CbRunning w \<Longrightarrow> cb_step d Internal (d\<lparr>cbPc := CbIdle\<rparr>)"
| cb_exit: "cbPc d = CbIdle \<Longrightarrow> cbQueue d = [] \<Longrightarrow> cbStopping d \<Longrightarrow> cb_step d Internal (d\<lparr>cbPc := CbDone\<rparr>)"

inductive cb_run :: "'a work_label list \<Rightarrow> 'a callbackDispatcher \<Rightarrow> bool" where
  cb_init: "cb_run [] newCallbackDispatcher"
| cb_next: "cb_run ls d \<Longrightarrow> cb_step d l d' \<Longrightarrow> cb_run (ls @ [l]) d'"

definition accepted :: "'a work_label list \<Rightarrow> 'a list" where
  "accepted = List.map_filter (\<lambda>l. case l of Accepted w \<Rightarrow> Some w | _ \<Rightarrow> None)"

definition executed :: "'a work_label list \<Rightarrow> 'a list" where
  "executed = List.map_filter (\<lambda>l. case l of Executed w \<Rightarrow> Some w | _ \<Rightarrow> None)"

lemma work_labels [simp]:
  "accepted [] = []" "executed [] = []"
  "accepted (ls @ [l]) = accepted ls @ (case l of Accepted w \<Rightarrow> [w] | _ \<Rightarrow> [])"
  "executed (ls @ [l]) = executed ls @ (case l of Executed w \<Rightarrow> [w] | _ \<Rightarrow> [])"
  "accepted (l # ls) = (case l of Accepted w \<Rightarrow> [w] | _ \<Rightarrow> []) @ accepted ls"
  "executed (l # ls) = (case l of Executed w \<Rightarrow> [w] | _ \<Rightarrow> []) @ executed ls"
  by (auto simp: accepted_def executed_def List.map_filter_def split: work_label.split)

named_theorems work_defs \<open>the operations of the dispatchers\<close>
lemmas [work_defs] = cb_enqueue_def stopAfterDrain_def cb_take_def

interpretation callbacks: draining_queue cb_enqueue cb_take cbQueue
  by unfold_locales (auto simp: work_defs split: if_splits list.splits)

text \<open>
  C16: Server lines are handled in wire order and none is dropped: the executed callbacks followed by
  the queued ones are the accepted ones; once the worker has exited, which it does only after
  \<open>stopAfterDrain\<close>, every accepted callback has run.
\<close>

theorem callbacks_in_order_and_drained:
  assumes "cb_run ls d"
  shows "accepted ls = executed ls @ cbQueue d
    \<and> (cbPc d = CbDone \<longrightarrow> cbStopping d \<and> cbQueue d = [] \<and> executed ls = accepted ls)"
proof -
  have "accepted ls = executed ls @ cbQueue d \<and> (cbPc d = CbDone \<longrightarrow> cbStopping d \<and> cbQueue d = [])"
    using assms
  proof (induction rule: cb_run.induct)
    case (cb_next ls d l d')
    from cb_next(2) show ?case
    proof cases
      case (cb_accept w)
      then show ?thesis using cb_next.IH callbacks.enq_pending [OF cb_accept(2)]
        by (auto simp: work_defs split: if_splits)
    next
      case (cb_start w d1)
      then show ?thesis using cb_next.IH callbacks.deq_pending [OF cb_start(4)] by auto
    qed (use cb_next.IH in \<open>auto simp: work_defs\<close>)
  qed (simp add: newCallbackDispatcher_def)
  then show ?thesis by simp
qed

theorem callbacks_in_order_and_drained_witness:
  "\<exists>ls d. cb_run ls d \<and> accepted ls = [1::nat] \<and> cbPc d = CbDone \<and> executed ls = [1]"
proof -
  let ?d = "\<lambda>q s p. \<lparr>cbQueue = q, cbStopping = s, cbPc = p\<rparr> :: nat callbackDispatcher"
  have r0: "cb_run [] (?d [] False CbIdle)" using cb_run.cb_init by (simp add: newCallbackDispatcher_def)
  have "cb_step (?d [] False CbIdle) (Accepted 1) (?d [1] False CbIdle)" by (rule cb_accept) (simp add: work_defs)
  note r1 = cb_run.cb_next [OF r0 this]
  have "cb_step (?d [1] False CbIdle) Internal (?d [1] True CbIdle)"
    using cb_stop [of "?d [1] False CbIdle"] by (simp add: work_defs)
  note r2 = cb_run.cb_next [OF r1 this]
  have "cb_step (?d [1] True CbIdle) (Executed 1) (?d [] True (CbRunning 1))"
    using cb_start [of "?d [1] True CbIdle" 1] by (simp add: work_defs)
  note r3 = cb_run.cb_next [OF r2 this]
  have "cb_step (?d [] True (CbRunning 1)) Internal (?d [] True CbIdle)"
    using cb_finish [of "?d [] True (CbRunning 1)" 1] by simp
  note r4 = cb_run.cb_next [OF r3 this]
  have "cb_step (?d [] True CbIdle) Internal (?d [] True CbDone)"
    using cb_exit [of "?d [] True CbIdle"] by simp
  from cb_run.cb_next [OF r4 this]
  have r: "cb_run [Accepted 1, Internal, Executed 1, Internal, Internal] (?d [] True CbDone)" by simp
  show ?thesis
    by (rule exI [of _ "[Accepted 1, Internal, Executed 1, Internal, Internal]"],
        rule exI [of _ "?d [] True CbDone"])
      (use r callbacks_in_order_and_drained [OF r] in simp)
qed

section \<open>The outbound request dispatcher\<close>

datatype 'a ob_pc = ObIdle | ObPacing 'a | ObRunning 'a | ObDone

record 'a outboundRequestDispatcher =
  obQueue :: "'a list"
  obStopping :: bool
  obPc :: "'a ob_pc"

definition newOutboundRequestDispatcher :: "'a outboundRequestDispatcher" where
  "newOutboundRequestDispatcher = \<lparr>obQueue = [], obStopping = False, obPc = ObIdle\<rparr>"

definition ob_enqueue :: "'a \<Rightarrow> 'a outboundRequestDispatcher \<Rightarrow> 'a outboundRequestDispatcher option" where
  "ob_enqueue w d = (if obStopping d then None else Some (d\<lparr>obQueue := obQueue d @ [w]\<rparr>))"

definition stopNow :: "'a outboundRequestDispatcher \<Rightarrow> 'a outboundRequestDispatcher" where
  "stopNow d = d\<lparr>obStopping := True, obQueue := []\<rparr>"

definition ob_take :: "'a outboundRequestDispatcher \<Rightarrow> ('a \<times> 'a outboundRequestDispatcher) option" where
  "ob_take d = (case obQueue d of [] \<Rightarrow> None | w # ws \<Rightarrow> Some (w, d\<lparr>obQueue := ws\<rparr>))"

lemmas [work_defs] = ob_enqueue_def stopNow_def ob_take_def

interpretation requests: draining_queue ob_enqueue ob_take obQueue
  by unfold_locales (auto simp: work_defs split: if_splits list.splits)

text \<open>
  The worker takes a request, waits for the rate limiter, and looks at the flag again before it sends.
\<close>

inductive ob_step :: "'a outboundRequestDispatcher \<Rightarrow> 'a work_label \<Rightarrow> 'a outboundRequestDispatcher \<Rightarrow> bool" where
  ob_accept: "ob_enqueue w d = Some d' \<Longrightarrow> ob_step d (Accepted w) d'"
| ob_refuse: "ob_enqueue w d = None \<Longrightarrow> ob_step d (Refused w) d"
| ob_stop: "ob_step d Internal (stopNow d)"
| ob_start: "obPc d = ObIdle \<Longrightarrow> \<not> obStopping d \<Longrightarrow> ob_take d = Some (w, d') \<Longrightarrow>
    ob_step d Internal (d'\<lparr>obPc := ObPacing w\<rparr>)"
| ob_exit: "obPc d = ObIdle \<Longrightarrow> obStopping d \<Longrightarrow> ob_step d Internal (d\<lparr>obPc := ObDone\<rparr>)"
| ob_recheck: "obPc d = ObPacing w \<Longrightarrow> \<not> obStopping d \<Longrightarrow> ob_step d Internal (d\<lparr>obPc := ObRunning w\<rparr>)"
| ob_abandon: "obPc d = ObPacing w \<Longrightarrow> obStopping d \<Longrightarrow> ob_step d Internal (d\<lparr>obPc := ObDone\<rparr>)"
| ob_send: "obPc d = ObRunning w \<Longrightarrow> ob_step d (Executed w) (d\<lparr>obPc := ObIdle\<rparr>)"

inductive ob_run :: "'a outboundRequestDispatcher \<Rightarrow> 'a work_label list \<Rightarrow> 'a outboundRequestDispatcher \<Rightarrow> bool" where
  ob_init: "ob_run d [] d"
| ob_next: "ob_run d ls d' \<Longrightarrow> ob_step d' l d'' \<Longrightarrow> ob_run d (ls @ [l]) d''"

definition in_hand :: "'a outboundRequestDispatcher \<Rightarrow> 'a list" where
  "in_hand d = (case obPc d of ObPacing w \<Rightarrow> [w] | ObRunning w \<Rightarrow> [w] | _ \<Rightarrow> [])"

text \<open>
  Automatic requests go out in order, and none from a dead connection: the requests sent are a
  prefix of those accepted, without gaps while the connection lives; after \<open>stopNow\<close> at most
  the one request that had passed its last check is still sent, and no request is accepted.
\<close>

theorem requests_in_order_until_stopped:
  assumes "ob_run newOutboundRequestDispatcher ls d"
  shows "prefix (executed ls) (accepted ls)
    \<and> (\<not> obStopping d \<longrightarrow> accepted ls = executed ls @ in_hand d @ obQueue d)
    \<and> (\<forall>ls' d'. obStopping d \<and> ob_run d ls' d' \<longrightarrow> accepted ls' = [] \<and> length (executed ls') \<le> 1)"
proof -
  have order: "prefix (executed ls @ in_hand d @ obQueue d) (accepted ls)
      \<and> (\<not> obStopping d \<longrightarrow> accepted ls = executed ls @ in_hand d @ obQueue d)
      \<and> (obStopping d \<longrightarrow> obQueue d = [])"
    if "ob_run d0 ls d" "d0 = newOutboundRequestDispatcher" for d0 ls d
    using that
  proof (induction rule: ob_run.induct)
    case (ob_next d0 ls d l d')
    note IH = ob_next.IH [OF ob_next.prems]
    from ob_next(2) show ?case
    proof cases
      case (ob_accept w)
      then show ?thesis using IH by (auto simp: work_defs in_hand_def split: if_splits)
    next
      case (ob_start w d1)
      have "obStopping d1 = obStopping d" using ob_start(5) by (auto simp: work_defs split: list.splits)
      then show ?thesis using ob_start IH requests.deq_pending [OF ob_start(5)]
        by (auto simp: in_hand_def work_defs split: list.splits)
    next
      case ob_stop
      then show ?thesis using IH by (auto simp: work_defs in_hand_def prefix_def split: ob_pc.splits)
    next
      case (ob_abandon w)
      then show ?thesis using IH by (auto simp: in_hand_def prefix_def)
    qed (use IH in \<open>auto simp: in_hand_def\<close>)
  qed (simp add: newOutboundRequestDispatcher_def in_hand_def)
  have late: "accepted ls = [] \<and> obStopping d
      \<and> length (executed ls) + (case obPc d of ObRunning w \<Rightarrow> 1 | _ \<Rightarrow> 0) \<le> 1"
    if "ob_run d0 ls d" "obStopping d0" for d0 ls d
    using that
  proof (induction rule: ob_run.induct)
    case (ob_init d)
    then show ?case by (simp split: ob_pc.split)
  next
    case (ob_next d0 ls d l d')
    note IH = ob_next.IH [OF ob_next.prems]
    from ob_next(2) show ?case
      by cases (use IH in \<open>auto simp: work_defs split: ob_pc.splits if_splits\<close>)
  qed
  have "length (executed ls') \<le> 1 \<and> accepted ls' = []" if "obStopping d" "ob_run d ls' d'" for ls' d'
    using late [OF that(2,1)] by simp
  then show ?thesis using order [OF assms refl] by (auto dest: append_prefixD)
qed

theorem requests_in_order_until_stopped_witness:
  "\<exists>ls d. ob_run newOutboundRequestDispatcher ls d \<and> \<not> obStopping d \<and> accepted ls = [7::nat]
     \<and> executed ls @ in_hand d @ obQueue d = [7]"
proof -
  let ?d = "\<lparr>obQueue = [7], obStopping = False, obPc = ObIdle\<rparr> :: nat outboundRequestDispatcher"
  have "ob_step newOutboundRequestDispatcher (Accepted 7) ?d"
    by (rule ob_accept) (simp add: work_defs newOutboundRequestDispatcher_def)
  from ob_run.ob_next [OF ob_run.ob_init this]
  have r: "ob_run newOutboundRequestDispatcher [Accepted 7] ?d" by simp
  show ?thesis
    by (rule exI [of _ "[Accepted 7]"], rule exI [of _ ?d])
      (use r requests_in_order_until_stopped [OF r] in simp)
qed

section \<open>The rate limiter\<close>

text \<open>Times are nanoseconds. \<open>try_take\<close> is one round of the loop of \<open>Wait\<close>, at time \<open>now\<close>.\<close>

record RateLimiter =
  rlTokens :: int
  rlMaxBurst :: int
  rlInterval :: int
  rlLastAdd :: int

definition NewRateLimiter :: "int \<Rightarrow> int \<Rightarrow> int \<Rightarrow> RateLimiter" where
  "NewRateLimiter maxBurst window now =
     \<lparr>rlTokens = maxBurst, rlMaxBurst = maxBurst, rlInterval = window div maxBurst, rlLastAdd = now\<rparr>"

definition refill :: "int \<Rightarrow> RateLimiter \<Rightarrow> RateLimiter" where
  "refill now r =
     (let elapsed = now - rlLastAdd r in
      if elapsed \<ge> rlInterval r
      then r\<lparr>rlTokens := min (rlMaxBurst r) (rlTokens r + elapsed div rlInterval r), rlLastAdd := now\<rparr>
      else r)"

definition try_take :: "int \<Rightarrow> RateLimiter \<Rightarrow> bool \<times> RateLimiter" where
  "try_take now r =
     (let r = refill now r in
      if rlTokens r > 0 then (True, r\<lparr>rlTokens := rlTokens r - 1\<rparr>) else (False, r))"

text \<open>How long a caller that got no token sleeps.\<close>

definition sleep_time :: "int \<Rightarrow> RateLimiter \<Rightarrow> int" where
  "sleep_time now r = (let wait = max 0 (rlInterval r - (now - rlLastAdd r)) in
     if wait > 0 then wait else 10000000)"

fun takes :: "int list \<Rightarrow> RateLimiter \<Rightarrow> nat \<times> RateLimiter" where
  "takes [] r = (0, r)"
| "takes (t # ts) r = (case try_take t r of (ok, r) \<Rightarrow>
     (case takes ts r of (n, r) \<Rightarrow> ((if ok then Suc n else n), r)))"

definition rl_ok :: "RateLimiter \<Rightarrow> bool" where
  "rl_ok r \<longleftrightarrow> 0 < rlInterval r \<and> 0 \<le> rlTokens r \<and> rlTokens r \<le> rlMaxBurst r \<and> 0 < rlMaxBurst r"

lemma try_take_ok:
  assumes "rl_ok r" "rlLastAdd r \<le> now" "try_take now r = (ok, r')"
  shows "rl_ok r' \<and> rlInterval r' = rlInterval r \<and> rlMaxBurst r' = rlMaxBurst r
    \<and> rlLastAdd r \<le> rlLastAdd r' \<and> rlLastAdd r' \<le> now
    \<and> (if ok then 1 else 0) + rlTokens r' \<le> rlTokens r + (rlLastAdd r' - rlLastAdd r) div rlInterval r"
proof -
  have "0 \<le> (now - rlLastAdd r) div rlInterval r" using assms(1,2) by (simp add: rl_ok_def div_int_pos_iff)
  then show ?thesis
    using assms by (auto simp: try_take_def refill_def rl_ok_def Let_def split: if_splits)
qed

lemma takes_bound:
  assumes "rl_ok r" "\<forall>t \<in> set ts. rlLastAdd r \<le> t \<and> t \<le> stop" "sorted ts" "takes ts r = (n, r')" "rlLastAdd r \<le> stop"
  shows "int n \<le> rlTokens r + (stop - rlLastAdd r) div rlInterval r"
  using assms
proof (induction ts arbitrary: r n r')
  case Nil
  then show ?case by (simp add: rl_ok_def div_int_pos_iff)
next
  case (Cons t ts)
  obtain ok r1 where t: "try_take t r = (ok, r1)" by fastforce
  obtain k r2 where k: "takes ts r1 = (k, r2)" by fastforce
  have st: "rlLastAdd r \<le> t" "t \<le> stop" using Cons.prems(2) by auto
  note s = try_take_ok [OF Cons.prems(1) st(1) t]
  have "\<forall>u \<in> set ts. rlLastAdd r1 \<le> u \<and> u \<le> stop" using Cons.prems(2,3) s by fastforce
  from Cons.IH [OF _ this _ k] s Cons.prems(3) st
  have "int k \<le> rlTokens r1 + (stop - rlLastAdd r1) div rlInterval r" by auto
  moreover have "(rlLastAdd r1 - rlLastAdd r) div rlInterval r + (stop - rlLastAdd r1) div rlInterval r
      \<le> (stop - rlLastAdd r) div rlInterval r"
  proof -
    have i: "0 < rlInterval r" using Cons.prems(1) by (simp add: rl_ok_def)
    let ?a = "rlLastAdd r1 - rlLastAdd r" and ?b = "stop - rlLastAdd r1"
    have "0 \<le> (?a mod rlInterval r + ?b mod rlInterval r) div rlInterval r"
      using i by (simp add: div_int_pos_iff)
    then show ?thesis using div_add1_eq [of ?a ?b "rlInterval r"] by simp
  qed
  ultimately show ?case using Cons.prems(4) t k s by (auto split: if_splits)
qed

text \<open>
  The limiter caps the rate: over attempts at any times up to \<open>stop\<close>, at most the saved tokens
  (never more than the burst) plus one per full interval get through.
\<close>

theorem rate_limit:
  assumes "0 < maxBurst" "maxBurst \<le> window" "sorted ts" "\<forall>t \<in> set ts. start \<le> t \<and> t \<le> stop" "start \<le> stop"
  shows "int (fst (takes ts (NewRateLimiter maxBurst window start)))
    \<le> maxBurst + (stop - start) div (window div maxBurst)"
proof -
  let ?r = "NewRateLimiter maxBurst window start"
  have "0 < window div maxBurst" using assms(1,2) by (simp add: pos_imp_zdiv_pos_iff)
  then have "rl_ok ?r" using assms(1) by (simp add: rl_ok_def NewRateLimiter_def)
  moreover obtain n r' where "takes ts ?r = (n, r')" by fastforce
  ultimately show ?thesis
    using takes_bound [of ?r ts stop n r'] assms(3-5) by (simp add: NewRateLimiter_def)
qed

theorem rate_limit_witness:
  "fst (takes [0, 0, 0, 0, 0, 6] (NewRateLimiter 4 20 0)) \<le> 5"
  using rate_limit [of 4 20 "[0, 0, 0, 0, 0, 6]" 0 6] by simp

text \<open>
  Nobody waits for ever: after sleeping as long as the limiter says, a caller that tries before
  anyone else did gets a token.
\<close>

theorem wait_returns:
  assumes "rl_ok r" "rlLastAdd r \<le> now" "try_take now r = (False, r')"
  shows "fst (try_take (now + sleep_time now r') r')"
proof -
  have r: "rl_ok r'" using try_take_ok [OF assms] by simp
  have "0 \<le> (now - rlLastAdd r) div rlInterval r" using assms(1,2) by (simp add: rl_ok_def div_int_pos_iff)
  then have t: "rlTokens r' = 0" "rlInterval r' - (now - rlLastAdd r') > 0"
    using assms by (auto simp: try_take_def refill_def rl_ok_def Let_def min_def split: if_splits)
  let ?e = "now + sleep_time now r' - rlLastAdd r'"
  have e: "?e = rlInterval r'" using t(2) by (simp add: sleep_time_def Let_def)
  have "min (rlMaxBurst r') (rlTokens r' + ?e div rlInterval r') > 0"
    using r t(1) unfolding e by (simp add: rl_ok_def)
  then show ?thesis using e by (simp add: try_take_def refill_def Let_def)
qed

theorem wait_returns_witness:
  "fst (try_take (3 + sleep_time 3 \<lparr>rlTokens = 0, rlMaxBurst = 4, rlInterval = 5, rlLastAdd = 0\<rparr>)
     \<lparr>rlTokens = 0, rlMaxBurst = 4, rlInterval = 5, rlLastAdd = 0\<rparr>)"
  by (rule wait_returns [of "\<lparr>rlTokens = 0, rlMaxBurst = 4, rlInterval = 5, rlLastAdd = 0\<rparr>"])
    (simp_all add: rl_ok_def try_take_def refill_def)

end
