(* ===== verification/Extensions.thy ===== *)
theory Extensions
  imports Prelude
begin

text \<open>
  The runtime-agnostic extension core: the registry and the router of \<open>internal/extension\<close>, and
  the parts of \<open>internal/script\<close> that bound a script, \<open>watchdog.go\<close> and the timer registry of
  \<open>scheduler.go\<close>. Hosts and events are type parameters; what a host answers to a delivery is
  an argument.
\<close>

section \<open>Registry\<close>

datatype ext_kind = KindScript | KindPlugin
datatype ext_status = StatusLoaded | StatusDisabled | StatusError | StatusRunaway

record Extension =
  xID :: string
  xName :: string
  xDescription :: string
  xKind :: ext_kind
  xEnabled :: bool
  xStatus :: ext_status
  xPerms :: "string list"
  xErr :: string

record 'h entry =
  enExt :: Extension
  enHost :: 'h
  enEvents :: "string set"

type_synonym 'h Registry = "string \<rightharpoonup> 'h entry"

definition Register :: "Extension \<Rightarrow> 'h \<Rightarrow> string list \<Rightarrow> 'h Registry \<Rightarrow> 'h Registry" where
  "Register x h types r = r(xID x \<mapsto> \<lparr>enExt = x, enHost = h, enEvents = set types\<rparr>)"

definition reg_get :: "'h Registry \<Rightarrow> string \<Rightarrow> Extension option" where
  "reg_get r i = map_option enExt (r i)"

definition update_ext :: "string \<Rightarrow> (Extension \<Rightarrow> Extension) \<Rightarrow> 'h Registry \<Rightarrow> 'h Registry" where
  "update_ext i f r = (case r i of None \<Rightarrow> r | Some e \<Rightarrow> r(i \<mapsto> e\<lparr>enExt := f (enExt e)\<rparr>))"

definition SetEnabled :: "string \<Rightarrow> bool \<Rightarrow> 'h Registry \<Rightarrow> 'h Registry" where
  "SetEnabled i en = update_ext i (\<lambda>x.
     let x = x\<lparr>xEnabled := en\<rparr> in
     if en then (if xStatus x = StatusDisabled then x\<lparr>xStatus := StatusLoaded\<rparr> else x)
     else x\<lparr>xStatus := StatusDisabled\<rparr>)"

definition SetStatus :: "string \<Rightarrow> ext_status \<Rightarrow> string \<Rightarrow> 'h Registry \<Rightarrow> 'h Registry" where
  "SetStatus i st err = update_ext i (\<lambda>x. x\<lparr>xStatus := st, xErr := err\<rparr>)"

definition DisableAsRunaway :: "string \<Rightarrow> string \<Rightarrow> 'h Registry \<Rightarrow> 'h Registry" where
  "DisableAsRunaway i reason = update_ext i (\<lambda>x. x\<lparr>xEnabled := False, xStatus := StatusRunaway, xErr := reason\<rparr>)"

definition reg_remove :: "string \<Rightarrow> 'h Registry \<Rightarrow> 'h Registry" where
  "reg_remove i r = r(i := None)"

text \<open>\<open>recipients\<close> in the order \<open>ord\<close> in which the map is walked.\<close>

definition recipients :: "'h Registry \<Rightarrow> string list \<Rightarrow> string \<Rightarrow> (string \<times> 'h) list" where
  "recipients r ord ty = List.map_filter (\<lambda>i. case r i of None \<Rightarrow> None
     | Some e \<Rightarrow> if xEnabled (enExt e) \<and> ty \<in> enEvents e then Some (i, enHost e) else None) ord"

section \<open>Router\<close>

text \<open>
  \<open>OnEvent\<close>: each recipient gets the event; an error marks it. \<open>answer i h\<close> is what \<open>Deliver\<close> returns,
  the list the deliveries made.
\<close>

fun deliver_all :: "(string \<Rightarrow> 'h \<Rightarrow> string option) \<Rightarrow> (string \<times> 'h) list \<Rightarrow> 'h Registry
    \<Rightarrow> (string \<times> 'h) list \<times> 'h Registry" where
  "deliver_all answer [] r = ([], r)"
| "deliver_all answer ((i, h) # ds) r =
     (let r = (case answer i h of None \<Rightarrow> r | Some err \<Rightarrow> SetStatus i StatusError err r);
          (log, r) = deliver_all answer ds r
      in ((i, h) # log, r))"

definition OnEvent :: "(string \<Rightarrow> 'h \<Rightarrow> string option) \<Rightarrow> string list \<Rightarrow> string \<Rightarrow> 'h Registry
    \<Rightarrow> (string \<times> 'h) list \<times> 'h Registry" where
  "OnEvent answer ord ty r = deliver_all answer (recipients r ord ty) r"

section \<open>Watchdog\<close>

text \<open>
  A dispatch ends with an error, without one, or not before the deadline. \<open>run\<close> gives the new
  strike counts and, when it disables the script, its id and the number of strikes.
\<close>

datatype dispatch_end = DispatchOk | DispatchErr string | Overrun

datatype disable_reason = Deadline | Strikes nat string

definition wd_record :: "nat \<Rightarrow> string \<Rightarrow> string option \<Rightarrow> (string \<rightharpoonup> nat) \<Rightarrow> disable_reason option \<times> (string \<rightharpoonup> nat)" where
  "wd_record maxStrikes i err strikes = (case err of
     None \<Rightarrow> (None, strikes(i := None))
   | Some e \<Rightarrow>
       let n = Suc (case strikes i of None \<Rightarrow> 0 | Some k \<Rightarrow> k) in
       if n \<ge> maxStrikes then (Some (Strikes n e), strikes(i := None)) else (None, strikes(i \<mapsto> n)))"

definition wd_run :: "nat \<Rightarrow> string \<Rightarrow> dispatch_end \<Rightarrow> (string \<rightharpoonup> nat) \<Rightarrow> disable_reason option \<times> (string \<rightharpoonup> nat)" where
  "wd_run maxStrikes i d strikes = (case d of
     DispatchOk \<Rightarrow> wd_record maxStrikes i None strikes
   | DispatchErr e \<Rightarrow> wd_record maxStrikes i (Some e) strikes
   | Overrun \<Rightarrow> (Some Deadline, strikes))"

definition clearStrikes :: "string \<Rightarrow> (string \<rightharpoonup> nat) \<Rightarrow> (string \<rightharpoonup> nat)" where
  "clearStrikes i strikes = strikes(i := None)"

text \<open>A history of dispatches of all scripts; the result lists who was disabled by which of them.\<close>

fun wd_runs :: "nat \<Rightarrow> (string \<times> dispatch_end) list \<Rightarrow> (string \<rightharpoonup> nat) \<Rightarrow> (string \<times> disable_reason) list \<times> (string \<rightharpoonup> nat)" where
  "wd_runs k [] strikes = ([], strikes)"
| "wd_runs k ((i, d) # ds) strikes = (case wd_run k i d strikes of (r, strikes) \<Rightarrow>
     (case wd_runs k ds strikes of (log, strikes) \<Rightarrow>
       ((case r of None \<Rightarrow> log | Some why \<Rightarrow> (i, why) # log), strikes)))"

section \<open>Timers\<close>

text \<open>The registry maps a script to its timers, numbered; a stopped timer does not fire or re-arm.\<close>

record scheduler =
  scTimers :: "string \<rightharpoonup> nat list"
  scStopped :: "nat set"
  scNext :: nat

definition addTimer :: "string \<Rightarrow> scheduler \<Rightarrow> nat \<times> scheduler" where
  "addTimer i s = (scNext s, s\<lparr>scTimers := (scTimers s)(i \<mapsto> (case scTimers s i of None \<Rightarrow> [] | Some ts \<Rightarrow> ts) @ [scNext s]),
     scNext := Suc (scNext s)\<rparr>)"

definition stopTimers :: "string \<Rightarrow> scheduler \<Rightarrow> scheduler" where
  "stopTimers i s = s\<lparr>scStopped := scStopped s \<union> set (case scTimers s i of None \<Rightarrow> [] | Some ts \<Rightarrow> ts),
     scTimers := (scTimers s)(i := None)\<rparr>"

definition stopAll :: "scheduler \<Rightarrow> scheduler" where
  "stopAll s = s\<lparr>scStopped := scStopped s \<union> {n. \<exists>ts \<in> ran (scTimers s). n \<in> set ts}, scTimers := Map.empty\<rparr>"

section \<open>Properties\<close>

lemma recipients_mem:
  "(i, h) \<in> set (recipients r ord ty) \<longleftrightarrow>
     i \<in> set ord \<and> (\<exists>e. r i = Some e \<and> h = enHost e \<and> xEnabled (enExt e) \<and> ty \<in> enEvents e)"
  unfolding recipients_def List.map_filter_def
  by (auto simp: image_iff split: option.splits if_splits intro!: bexI [of _ i])

lemma recipients_distinct: "distinct ord \<Longrightarrow> distinct (map fst (recipients r ord ty))"
proof (induction ord)
  case (Cons i ord)
  moreover have "i \<notin> fst ` set (recipients r ord ty)" if "i \<notin> set ord"
    using that recipients_mem [of i _ r ord ty] by fastforce
  ultimately show ?case
    by (auto simp: recipients_def List.map_filter_def split: option.splits)
qed (simp add: recipients_def List.map_filter_def)

lemma SetStatus_apply:
  "SetStatus i st err r j = (if j = i then map_option (\<lambda>e. e\<lparr>enExt := (enExt e)\<lparr>xStatus := st, xErr := err\<rparr>\<rparr>) (r i) else r j)"
  by (simp add: SetStatus_def update_ext_def split: option.split)

lemma deliver_all_result:
  "distinct (map fst ds) \<Longrightarrow> deliver_all answer ds r = (log, r') \<Longrightarrow> log = ds
    \<and> r' j = (case map_of ds j of None \<Rightarrow> r j | Some h \<Rightarrow>
        (case answer j h of None \<Rightarrow> r j
         | Some err \<Rightarrow> map_option (\<lambda>e. e\<lparr>enExt := (enExt e)\<lparr>xStatus := StatusError, xErr := err\<rparr>\<rparr>) (r j)))"
proof (induction ds arbitrary: r log r')
  case (Cons d ds)
  obtain i h where d: "d = (i, h)" by (cases d)
  let ?r = "case answer i h of None \<Rightarrow> r | Some err \<Rightarrow> SetStatus i StatusError err r"
  obtain log1 r1 where r1: "deliver_all answer ds ?r = (log1, r1)" by fastforce
  have "i \<notin> fst ` set ds" using Cons.prems(1) d by simp
  then have "map_of ds i = None" by (simp add: map_of_eq_None_iff)
  moreover have "?r j = (if j = i then (case answer i h of None \<Rightarrow> r i
      | Some err \<Rightarrow> map_option (\<lambda>e. e\<lparr>enExt := (enExt e)\<lparr>xStatus := StatusError, xErr := err\<rparr>\<rparr>) (r i)) else r j)"
    by (simp add: SetStatus_apply split: option.split)
  ultimately show ?case
    using Cons.IH [OF _ r1] Cons.prems d r1 by (cases "j = i") (auto cong: option.case_cong)
qed simp

text \<open>
  One event reaches exactly the enabled extensions subscribed to its type, each once, whatever
  the others answer; afterwards those that failed are marked with their error and every
  other registration is as it was.
\<close>

theorem router_isolates_failures:
  assumes "distinct ord" "set ord = dom r" "OnEvent answer ord ty r = (log, r')"
  shows "distinct (map fst log)
    \<and> (\<forall>i h. (i, h) \<in> set log \<longleftrightarrow> (\<exists>e. r i = Some e \<and> h = enHost e \<and> xEnabled (enExt e) \<and> ty \<in> enEvents e))
    \<and> (\<forall>i e. r i = Some e \<longrightarrow> r' i = Some
        (if xEnabled (enExt e) \<and> ty \<in> enEvents e \<and> answer i (enHost e) \<noteq> None
         then e\<lparr>enExt := (enExt e)\<lparr>xStatus := StatusError, xErr := the (answer i (enHost e))\<rparr>\<rparr> else e))
    \<and> dom r' = dom r"
proof -
  let ?ds = "recipients r ord ty"
  note d = recipients_distinct [OF assms(1), of r ty]
  have res: "log = ?ds \<and> r' j = (case map_of ?ds j of None \<Rightarrow> r j | Some h \<Rightarrow>
        (case answer j h of None \<Rightarrow> r j
         | Some err \<Rightarrow> map_option (\<lambda>e. e\<lparr>enExt := (enExt e)\<lparr>xStatus := StatusError, xErr := err\<rparr>\<rparr>) (r j)))" for j
    using deliver_all_result [OF d] assms(3) unfolding OnEvent_def by blast
  have mem: "(i, h) \<in> set ?ds \<longleftrightarrow> (\<exists>e. r i = Some e \<and> h = enHost e \<and> xEnabled (enExt e) \<and> ty \<in> enEvents e)" for i h
    using recipients_mem [of i h r ord ty] assms(2) by (auto simp: dom_def)
  have mo: "map_of ?ds i = (case r i of None \<Rightarrow> None | Some e \<Rightarrow>
      if xEnabled (enExt e) \<and> ty \<in> enEvents e then Some (enHost e) else None)" for i
  proof -
    have "map_of ?ds i = Some h \<longleftrightarrow> (\<exists>e. r i = Some e \<and> h = enHost e \<and> xEnabled (enExt e) \<and> ty \<in> enEvents e)" for h
      using mem map_of_eq_Some_iff [OF d, of i] by simp
    then show ?thesis by (cases "r i"; cases "map_of ?ds i") auto
  qed
  have upd: "\<forall>i e. r i = Some e \<longrightarrow> r' i = Some
        (if xEnabled (enExt e) \<and> ty \<in> enEvents e \<and> answer i (enHost e) \<noteq> None
         then e\<lparr>enExt := (enExt e)\<lparr>xStatus := StatusError, xErr := the (answer i (enHost e))\<rparr>\<rparr> else e)"
    using res mo by (auto split: option.split)
  moreover have "r i = None \<Longrightarrow> r' i = None" for i using res [of i] mo [of i] by simp
  then have "dom r' = dom r" using upd by (auto simp: dom_def) (metis not_None_eq)
  ultimately show ?thesis using res mem d by auto
qed

definition example_registry :: "nat Registry" where
  "example_registry = (\<lambda>i. if i = ''a'' \<or> i = ''b'' then Some \<lparr>enExt = \<lparr>xID = i, xName = i, xDescription = [],
      xKind = KindScript, xEnabled = True, xStatus = StatusLoaded, xPerms = [], xErr = []\<rparr>, enHost = 0,
      enEvents = {''t''}\<rparr> else None)"

theorem router_isolates_failures_witness:
  "\<exists>log r'. OnEvent (\<lambda>i h. if i = ''a'' then Some ''boom'' else None) [''a'', ''b''] ''t'' example_registry = (log, r')
     \<and> (''b'', 0) \<in> set log \<and> map_option (xStatus \<circ> enExt) (r' ''a'') = Some StatusError
     \<and> r' ''b'' = example_registry ''b''"
proof -
  obtain log r' where e: "OnEvent (\<lambda>i h. if i = ''a'' then Some ''boom'' else None) [''a'', ''b''] ''t'' example_registry = (log, r')"
    by fastforce
  have "set [''a'', ''b''] = dom example_registry" by (auto simp: example_registry_def split: if_splits)
  note t = router_isolates_failures [OF _ this e]
  have "example_registry ''a'' \<noteq> None" "example_registry ''b'' \<noteq> None" by (simp_all add: example_registry_def)
  then show ?thesis using t e by (auto simp: example_registry_def)
qed

text \<open>
  A script switched off as a runaway gets no event of any type until it is enabled or registered
  again, whatever else happens to the registry.
\<close>

datatype 'h reg_op = RegRegister Extension 'h "string list" | RegEnable string bool | RegStatus string ext_status string
  | RegRunaway string string | RegRemove string

fun reg_apply :: "'h reg_op \<Rightarrow> 'h Registry \<Rightarrow> 'h Registry" where
  "reg_apply (RegRegister x h ts) r = Register x h ts r"
| "reg_apply (RegEnable i b) r = SetEnabled i b r"
| "reg_apply (RegStatus i st e) r = SetStatus i st e r"
| "reg_apply (RegRunaway i why) r = DisableAsRunaway i why r"
| "reg_apply (RegRemove i) r = reg_remove i r"

definition not_enabled :: "string \<Rightarrow> 'h Registry \<Rightarrow> bool" where
  "not_enabled i r \<longleftrightarrow> (\<forall>e. r i = Some e \<longrightarrow> \<not> xEnabled (enExt e))"

theorem runaway_stays_silent:
  assumes "\<forall>x h ts. RegRegister x h ts \<in> set ops \<longrightarrow> xID x \<noteq> i" "RegEnable i True \<notin> set ops"
  shows "(i, h) \<notin> set (recipients (foldl (\<lambda>r op. reg_apply op r) (DisableAsRunaway i why r) ops) ord ty)"
proof -
  have "not_enabled i (foldl (\<lambda>r op. reg_apply op r) r ops)" if "not_enabled i r" for r
    using that assms
  proof (induction ops arbitrary: r)
    case (Cons op ops)
    have "not_enabled i (reg_apply op r)"
      using Cons.prems
      by (cases op) (auto simp: not_enabled_def Register_def SetEnabled_def SetStatus_def
          DisableAsRunaway_def reg_remove_def update_ext_def Let_def split: option.splits if_splits)
    from Cons.IH [OF this] Cons.prems(2,3) show ?case by auto
  qed simp
  moreover have "not_enabled i (DisableAsRunaway i why r)"
    by (simp add: not_enabled_def DisableAsRunaway_def update_ext_def split: option.split)
  ultimately have n: "not_enabled i (foldl (\<lambda>r op. reg_apply op r) (DisableAsRunaway i why r) ops)" by blast
  then show ?thesis by (auto simp: recipients_mem not_enabled_def)
qed

theorem runaway_stays_silent_witness:
  "(''a'', 0) \<notin> set (recipients (SetStatus ''a'' StatusLoaded [] (DisableAsRunaway ''a'' ''looped'' example_registry)) [''a'', ''b''] ''t'')"
  using runaway_stays_silent [of "[RegStatus ''a'' StatusLoaded []]" "''a''" 0 "''looped''" example_registry "[''a'', ''b'']" "''t''"]
  by simp

text \<open>
  The watchdog disables a script at the first overrun, and for errors exactly at the
  \<open>maxStrikes\<close>-th consecutive one: a success or another script's dispatches in between do not count
  towards it, and after a disabling the count starts anew.
\<close>

fun streak :: "string \<Rightarrow> (string \<times> dispatch_end) list \<Rightarrow> nat \<Rightarrow> nat" where
  "streak i [] n = n"
| "streak i ((j, d) # ds) n = streak i ds (if j \<noteq> i then n else
     (case d of DispatchOk \<Rightarrow> 0 | DispatchErr e \<Rightarrow> Suc n | Overrun \<Rightarrow> n))"

lemma wd_runs_strikes:
  assumes "i \<notin> fst ` set (fst (wd_runs k ds strikes))"
    and "(case strikes i of None \<Rightarrow> 0 | Some n \<Rightarrow> n) = n" "0 < k"
  shows "(case snd (wd_runs k ds strikes) i of None \<Rightarrow> 0 | Some n \<Rightarrow> n) = streak i ds n"
  using assms
proof (induction ds arbitrary: strikes n)
  case (Cons d ds)
  obtain j e where d: "d = (j, e)" by (cases d)
  obtain r s1 where s1: "wd_run k j e strikes = (r, s1)" by fastforce
  obtain log s2 where s2: "wd_runs k ds s1 = (log, s2)" by fastforce
  have i: "i \<notin> fst ` set log" "r \<noteq> None \<longrightarrow> j \<noteq> i"
    using Cons.prems(1) d s1 s2 by (auto split: option.splits)
  have "(case s1 i of None \<Rightarrow> 0 | Some n \<Rightarrow> n) = (if j \<noteq> i then n else
     (case e of DispatchOk \<Rightarrow> 0 | DispatchErr x \<Rightarrow> Suc n | Overrun \<Rightarrow> n))"
    using s1 i(2) Cons.prems(2)
    by (auto simp: wd_run_def wd_record_def Let_def split: dispatch_end.splits if_splits option.splits)
  with Cons.IH [of s1] i s2 Cons.prems(3) show ?case by (simp add: d s1)
qed simp

theorem watchdog_policy:
  assumes "0 < k" "i \<notin> fst ` set (fst (wd_runs k ds Map.empty))"
  shows "fst (wd_run k i d (snd (wd_runs k ds Map.empty))) =
    (case d of Overrun \<Rightarrow> Some Deadline | DispatchOk \<Rightarrow> None
     | DispatchErr e \<Rightarrow> if Suc (streak i ds 0) \<ge> k then Some (Strikes (Suc (streak i ds 0)) e) else None)"
  using wd_runs_strikes [OF assms(2) _ assms(1), of 0]
  by (auto simp: wd_run_def wd_record_def Let_def split: dispatch_end.split)

theorem watchdog_policy_witness:
  "fst (wd_run 3 ''s'' (DispatchErr ''e'') (snd (wd_runs 3 [(''s'', DispatchErr ''a''), (''s'', DispatchOk),
      (''s'', DispatchErr ''b''), (''t'', DispatchErr ''x''), (''s'', DispatchErr ''c'')] Map.empty)))
   = Some (Strikes 3 ''e'')"
  using watchdog_policy [of 3 "''s''" "[(''s'', DispatchErr ''a''), (''s'', DispatchOk),
      (''s'', DispatchErr ''b''), (''t'', DispatchErr ''x''), (''s'', DispatchErr ''c'')]" "DispatchErr ''e''"]
  by (simp add: wd_run_def wd_record_def)

text \<open>Stopping a script's timers, or all, stops every timer registered for it and forgets them.\<close>

lemma stopTimers_stops:
  "scTimers s i = Some ts \<Longrightarrow> set ts \<subseteq> scStopped (stopTimers i s) \<and> scTimers (stopTimers i s) i = None
    \<and> (j \<noteq> i \<longrightarrow> scTimers (stopTimers i s) j = scTimers s j)"
  by (simp add: stopTimers_def)

lemma stopAll_stops:
  "scTimers s i = Some ts \<Longrightarrow> set ts \<subseteq> scStopped (stopAll s)" "scTimers (stopAll s) = Map.empty"
  by (auto simp: stopAll_def ran_def)

end
