(* ===== verification/Split_Msg.thy ===== *)
theory Split_Msg
  imports Go_Text
begin

text \<open>
  Outbound messages, \<open>internal/irc/splitmsg.go\<close>, the send paths of \<open>internal/irc/client.go\<close> that
  use it and the client tags of \<open>internal/irc/tags.go\<close>: a message becomes lines that fit the wire,
  are cut at a space where there is one and never inside a UTF-8 sequence, and carry the reply
  tag once. Byte budgets are Go \<open>int\<close>s.
\<close>

section \<open>The splitter\<close>

definition defaultLineLen :: int where "defaultLineLen = 512"
definition fallbackUserHostLen :: int where "fallbackUserHostLen = 11 + 1 + 63"
definition minMessageChunk :: int where "minMessageChunk = 64"
definition UTFMax :: int where "UTFMax = 4"

text \<open>\<open>utf8.RuneStart\<close>, \<open>strings.LastIndexByte\<close> and the trims by a space.\<close>

definition rune_start :: "char \<Rightarrow> bool" where
  "rune_start c \<longleftrightarrow> \<not> cont (byte c)"

fun last_index_byte :: "string \<Rightarrow> char \<Rightarrow> nat option" where
  "last_index_byte [] c = None"
| "last_index_byte (x # xs) c = (case last_index_byte xs c of
     Some i \<Rightarrow> Some (Suc i) | None \<Rightarrow> if x = c then Some 0 else None)"

abbreviation space :: char where "space \<equiv> CHR '' ''"

definition trim_left :: "string \<Rightarrow> string" where
  "trim_left s = dropWhile (\<lambda>c. c = space) s"

definition trim_right :: "string \<Rightarrow> string" where
  "trim_right s = rev (dropWhile (\<lambda>c. c = space) (rev s))"

text \<open>The loop of \<open>lastRuneBoundary\<close>, from \<open>i\<close> down; \<open>k\<close> positions are left to try.\<close>

fun boundary_loop :: "string \<Rightarrow> nat \<Rightarrow> nat \<Rightarrow> nat \<Rightarrow> nat" where
  "boundary_loop s n 0 i = n"
| "boundary_loop s n (Suc k) i =
     (if i = 0 then n else if rune_start (s ! i) then i else boundary_loop s n k (i - 1))"

definition lastRuneBoundary :: "string \<Rightarrow> nat \<Rightarrow> nat" where
  "lastRuneBoundary s n = boundary_loop s n (nat UTFMax) n"

lemma boundary_loop_range: "0 < n \<Longrightarrow> i \<le> n \<Longrightarrow> 0 < boundary_loop s n k i \<and> boundary_loop s n k i \<le> n"
  by (induction k arbitrary: i) auto

lemma lastRuneBoundary_range: "0 < n \<Longrightarrow> 0 < lastRuneBoundary s n \<and> lastRuneBoundary s n \<le> n"
  by (simp add: lastRuneBoundary_def boundary_loop_range)

lemma last_index_byte_Some:
  "last_index_byte s c = Some i \<Longrightarrow> i < length s \<and> s ! i = c"
  by (induction s arbitrary: i) (auto split: option.splits if_splits)

lemma last_index_byte_None: "last_index_byte s c = None \<longleftrightarrow> c \<notin> set s"
  by (induction s) (auto split: option.splits)

lemma length_trim_left: "length (trim_left s) \<le> length s"
  by (simp add: trim_left_def length_dropWhile_le)

text \<open>One round of \<open>splitLine\<close>: the chunk it emits and the rest of the line.\<close>

definition split_round :: "nat \<Rightarrow> string \<Rightarrow> string \<times> string" where
  "split_round n line =
     (let cut = lastRuneBoundary line n in
      case last_index_byte (take cut line) space of
        Some sp \<Rightarrow> if sp > 0 then (trim_right (take sp line), trim_left (drop (Suc sp) line))
                   else (take cut line, drop cut line)
      | None \<Rightarrow> (take cut line, drop cut line))"

lemma split_round_less:
  assumes "0 < n" "n < length line" shows "length (snd (split_round n line)) < length line"
proof -
  have "length (trim_left (drop (Suc sp) line)) < length line" for sp
    using length_trim_left [of "drop (Suc sp) line"] assms(2) by simp
  moreover have "0 < lastRuneBoundary line n" using lastRuneBoundary_range assms(1) by blast
  ultimately show ?thesis
    using assms by (auto simp: split_round_def Let_def split: option.split)
qed

function split_loop :: "nat \<Rightarrow> string \<Rightarrow> string list" where
  "split_loop n line =
     (if n = 0 \<or> length line \<le> n then (if line = [] then [] else [line])
      else fst (split_round n line) # split_loop n (snd (split_round n line)))"
  by pat_completeness auto
termination
  by (relation "measure (\<lambda>(n, line). length line)") (auto intro: split_round_less)

declare split_loop.simps [simp del]

definition line_budget :: "int \<Rightarrow> nat" where
  "line_budget maxBytes = nat (if maxBytes < UTFMax then UTFMax else maxBytes)"

definition splitLine :: "string \<Rightarrow> int \<Rightarrow> string list" where
  "splitLine line maxBytes = split_loop (line_budget maxBytes) line"

definition newlines :: "string \<Rightarrow> string" where
  "newlines message = replace_byte (CHR 13) [CHR 10] (replace_crlf message)"

definition message_lines :: "string \<Rightarrow> string list" where
  "message_lines message = filter (\<lambda>l. l \<noteq> []) (split_byte (CHR 10) (newlines message))"

definition splitOutboundMessage :: "string \<Rightarrow> int \<Rightarrow> string list" where
  "splitOutboundMessage message maxBytes = concat (map (\<lambda>l. splitLine l maxBytes) (message_lines message))"

lemma line_budget_4: "4 \<le> line_budget maxBytes"
  by (auto simp: line_budget_def UTFMax_def)

section \<open>Budget and content of a line\<close>

text \<open>The chunks, joined again with some spaces between them, are the line.\<close>

fun rejoins :: "string list \<Rightarrow> string \<Rightarrow> bool" where
  "rejoins [] s \<longleftrightarrow> s = []"
| "rejoins (c # cs) s \<longleftrightarrow> (\<exists>k rest. s = c @ replicate k space @ rest \<and> rejoins cs rest)"

lemma trim_left_spaces: "\<exists>k. s = replicate k space @ trim_left s"
proof -
  have "takeWhile (\<lambda>c. c = space) s = replicate (length (takeWhile (\<lambda>c. c = space) s)) space"
    by (rule replicate_eqI) (auto dest: set_takeWhileD)
  then show ?thesis unfolding trim_left_def by (metis takeWhile_dropWhile_id)
qed

lemma trim_right_spaces: "\<exists>k. s = trim_right s @ replicate k space"
proof -
  obtain k where "rev s = replicate k space @ trim_left (rev s)" using trim_left_spaces by blast
  then have "s = rev (replicate k space @ trim_left (rev s))" by (metis rev_rev_ident)
  then have "s = trim_right s @ replicate k space" by (simp add: trim_right_def trim_left_def)
  then show ?thesis by blast
qed

lemma split_round_shape:
  assumes "0 < n" "n < length line" "split_round n line = (c, rest)"
  shows "(\<exists>k > 0. line = c @ replicate k space @ rest \<and> length c \<le> n)
    \<or> (c = take (lastRuneBoundary line n) line \<and> rest = drop (lastRuneBoundary line n) line)"
proof -
  let ?cut = "lastRuneBoundary line n"
  have cut: "0 < ?cut" "?cut \<le> n" using lastRuneBoundary_range [OF assms(1)] by simp_all
  show ?thesis
  proof (cases "\<exists>sp. last_index_byte (take ?cut line) space = Some sp \<and> sp > 0")
    case True
    then obtain sp where sp: "last_index_byte (take ?cut line) space = Some sp" "sp > 0" by blast
    then have i: "sp < ?cut" "line ! sp = space" "sp < length line"
      using last_index_byte_Some [OF sp(1)] by auto
    have cr: "c = trim_right (take sp line)" "rest = trim_left (drop (Suc sp) line)"
      using assms(3) sp by (auto simp: split_round_def Let_def)
    obtain a b where a: "take sp line = c @ replicate a space"
      and b: "drop (Suc sp) line = replicate b space @ rest"
      using trim_right_spaces trim_left_spaces cr by metis
    have "line = take sp line @ space # drop (Suc sp) line"
      using id_take_nth_drop [OF i(3)] i(2) by simp
    also have "\<dots> = c @ replicate (a + Suc b) space @ rest"
      unfolding a b by (simp add: replicate_add replicate_append_same)
    finally have "line = c @ replicate (a + Suc b) space @ rest" .
    moreover have "length c \<le> n" using arg_cong [OF a, of length] i(1) cut(2) by simp
    ultimately show ?thesis by blast
  next
    case False
    then have "c = take ?cut line" "rest = drop ?cut line"
      using assms(3) by (auto simp: split_round_def Let_def split: option.splits)
    then show ?thesis by blast
  qed
qed

lemma split_round_line:
  assumes "0 < n" "n < length line" "split_round n line = (c, rest)"
  shows "\<exists>k. line = c @ replicate k space @ rest" "length c \<le> n"
proof -
  have "(\<exists>k. line = c @ replicate k space @ rest) \<and> length c \<le> n"
    using split_round_shape [OF assms] lastRuneBoundary_range [OF assms(1), of line] assms(2)
    by (auto intro: exI [of _ 0])
  then show "\<exists>k. line = c @ replicate k space @ rest" "length c \<le> n" by simp_all
qed

lemma split_loop_rejoins: "rejoins (split_loop n line) line"
proof (induction n line rule: split_loop.induct)
  case (1 n line)
  show ?case
  proof (cases "n = 0 \<or> length line \<le> n")
    case True
    then show ?thesis by (auto simp: split_loop.simps [of n line])
  next
    case False
    obtain c rest where r: "split_round n line = (c, rest)" by fastforce
    then have "rejoins (split_loop n rest) rest" using 1 [OF False] by simp
    moreover obtain k where "line = c @ replicate k space @ rest"
      using split_round_line(1) [OF _ _ r] False by auto
    ultimately have "rejoins (c # split_loop n rest) line" by auto
    then show ?thesis using False r by (simp add: split_loop.simps [of n line])
  qed
qed

lemma split_loop_length: "0 < n \<Longrightarrow> c \<in> set (split_loop n line) \<Longrightarrow> length c \<le> n"
proof (induction n line rule: split_loop.induct)
  case (1 n line)
  show ?case
  proof (cases "length line \<le> n")
    case True
    then show ?thesis using 1(3) by (auto simp: split_loop.simps [of n line] split: if_splits)
  next
    case False
    then have nz: "\<not> (n = 0 \<or> length line \<le> n)" using 1(2) by simp
    have "split_loop n line = fst (split_round n line) # split_loop n (snd (split_round n line))"
      using nz by (simp add: split_loop.simps [of n line])
    then have "c = fst (split_round n line) \<or> c \<in> set (split_loop n (snd (split_round n line)))"
      using 1(3) by simp
    then show ?thesis
      using 1(1) [OF nz 1(2)] split_round_line(2) [of n line c "snd (split_round n line)"] False 1(2)
      by (metis not_le prod.collapse)
  qed
qed

lemma rejoins_subset: "rejoins cs s \<Longrightarrow> c \<in> set cs \<Longrightarrow> set c \<subseteq> set s"
proof (induction cs arbitrary: s)
  case (Cons a cs)
  then obtain k rest where s: "s = a @ replicate k space @ rest" "rejoins cs rest" by auto
  have "set rest \<subseteq> set s" using s(1) by auto
  then show ?case using Cons.IH [OF s(2)] Cons.prems(2) s(1) by auto
qed simp

section \<open>UTF-8 sequences stay whole\<close>

lemma mod_64 [simp]: "r mod 64 \<le> (63 :: nat)"
  using mod_less_divisor [of 64 r] by linarith

lemma encode_rune_shape:
  assumes "valid_rune r"
  shows "rune_start (hd (encode_rune r)) \<and> (\<forall>c \<in> set (tl (encode_rune r)). \<not> rune_start c)
    \<and> length (encode_rune r) \<le> 4"
proof -
  consider "r < 0x80" | "0x80 \<le> r" "r < 0x800" | "0x800 \<le> r" "r < 0x10000" | "0x10000 \<le> r"
    by linarith
  then show ?thesis
  proof cases
    case 1
    then show ?thesis by (simp add: rune_start_def cont_def)
  next
    case 2
    then have "r div 64 < 32" by (simp add: div_less_iff_less_mult)
    with 2 show ?thesis by (simp add: encode_rune_def rune_start_def) (simp add: cont_def)
  next
    case 3
    then have "r div 4096 < 16" by (simp add: div_less_iff_less_mult)
    with 3 assms show ?thesis by (simp add: encode_rune_def rune_start_def) (simp add: cont_def)
  next
    case 4
    then have "r div 262144 < 5" using assms by (simp add: div_less_iff_less_mult valid_rune_def)
    with 4 assms show ?thesis by (simp add: encode_rune_def rune_start_def) (simp add: cont_def)
  qed
qed

lemma valid_utf8_iff: "valid_utf8 s \<longleftrightarrow> (\<exists>rs. (\<forall>r \<in> set rs. valid_rune r) \<and> s = unrunes rs)"
proof
  assume "valid_utf8 s"
  then show "\<exists>rs. (\<forall>r \<in> set rs. valid_rune r) \<and> s = unrunes rs"
    unfolding valid_utf8_def using runes_valid by (intro exI [of _ "runes s"]) simp
next
  assume "\<exists>rs. (\<forall>r \<in> set rs. valid_rune r) \<and> s = unrunes rs"
  then obtain rs where rs: "\<forall>r \<in> set rs. valid_rune r" "s = unrunes rs" by blast
  show "valid_utf8 s" using runes_unrunes_append [OF rs(1), of "[]"] rs(2) by (simp add: valid_utf8_def)
qed

lemma valid_utf8_append: "valid_utf8 s \<Longrightarrow> valid_utf8 t \<Longrightarrow> valid_utf8 (s @ t)"
  by (simp add: valid_utf8_def runes_append_valid)

text \<open>A valid string may be cut wherever a sequence starts.\<close>

lemma unrunes_cut:
  assumes "\<forall>r \<in> set rs. valid_rune r" "i < length (unrunes rs)" "rune_start (unrunes rs ! i)"
  shows "valid_utf8 (take i (unrunes rs)) \<and> valid_utf8 (drop i (unrunes rs))"
  using assms
proof (induction rs arbitrary: i)
  case (Cons r rs)
  let ?e = "encode_rune r"
  have v: "valid_rune r" "\<forall>r \<in> set rs. valid_rune r" using Cons.prems(1) by simp_all
  have ve: "valid_utf8 ?e" using v(1) by (auto simp: valid_utf8_iff intro!: exI [of _ "[r]"])
  have vs: "valid_utf8 (?e @ unrunes rs)"
    using Cons.prems(1) by (auto simp: valid_utf8_iff intro!: exI [of _ "r # rs"])
  show ?case
  proof (cases "i < length ?e")
    case True
    have "i = 0"
    proof (rule ccontr)
      assume "i \<noteq> 0"
      then have "?e ! i = tl ?e ! (i - 1)" "i - 1 < length (tl ?e)" using True by (simp_all add: nth_tl)
      then have "?e ! i \<in> set (tl ?e)" using nth_mem by metis
      then show False using encode_rune_shape [OF v(1)] Cons.prems(3) True by (simp add: nth_append)
    qed
    then show ?thesis using vs by (simp add: valid_utf8_def)
  next
    case False
    then obtain j where j: "i = length ?e + j" using le_Suc_ex by (metis not_less)
    have "valid_utf8 (take j (unrunes rs)) \<and> valid_utf8 (drop j (unrunes rs))"
      by (rule Cons.IH [OF v(2)]) (use Cons.prems j in \<open>simp_all add: nth_append\<close>)
    then show ?thesis using j valid_utf8_append [OF ve] by simp
  qed
qed simp

lemma utf8_cut:
  assumes "valid_utf8 s" "i = length s \<or> i < length s \<and> rune_start (s ! i)"
  shows "valid_utf8 (take i s) \<and> valid_utf8 (drop i s)"
proof (cases "i = length s")
  case True
  then show ?thesis using assms(1) by (simp add: valid_utf8_def)
next
  case False
  then show ?thesis using assms valid_utf8_iff unrunes_cut by metis
qed

text \<open>One of any four neighbouring bytes starts a sequence.\<close>

lemma unrunes_start_near:
  assumes "\<forall>r \<in> set rs. valid_rune r" "i < length (unrunes rs)"
  shows "\<exists>j \<le> i. i - j < 4 \<and> rune_start (unrunes rs ! j)"
  using assms
proof (induction rs arbitrary: i)
  case (Cons r rs)
  let ?e = "encode_rune r"
  have sh: "rune_start (?e ! 0)" "length ?e \<le> 4"
    using encode_rune_shape [of r] Cons.prems(1) by (simp_all add: hd_conv_nth)
  show ?case
  proof (cases "i < length ?e")
    case True
    then show ?thesis using sh by (intro exI [of _ 0]) (auto simp: nth_append)
  next
    case False
    then obtain k where k: "i = length ?e + k" using le_Suc_ex by (metis not_less)
    then obtain j where "j \<le> k" "k - j < 4" "rune_start (unrunes rs ! j)"
      using Cons.IH [of k] Cons.prems by auto
    then show ?thesis using k by (intro exI [of _ "length ?e + j"]) (auto simp: nth_append)
  qed
qed simp

lemma boundary_loop_start:
  assumes "0 < j" "j \<le> i" "i - j < k" "rune_start (s ! j)"
  shows "rune_start (s ! boundary_loop s n k i)"
  using assms
proof (induction k arbitrary: i)
  case (Suc k)
  show ?case
  proof (cases "rune_start (s ! i)")
    case False
    then have "j < i" using Suc.prems by (metis le_neq_implies_less)
    then show ?thesis using False Suc by auto
  qed (use Suc.prems in simp)
qed simp

lemma lastRuneBoundary_start:
  assumes "valid_utf8 s" "4 \<le> n" "n < length s"
  shows "rune_start (s ! lastRuneBoundary s n)"
proof -
  obtain j where j: "j \<le> n" "n - j < 4" "rune_start (s ! j)"
    using assms valid_utf8_iff unrunes_start_near by metis
  then show ?thesis
    unfolding lastRuneBoundary_def UTFMax_def
    using boundary_loop_start [of j n 4 s n] assms(2) by simp
qed

lemma space_start [simp]: "rune_start space"
  by (simp add: rune_start_def cont_def)

lemma utf8_tail_space:
  assumes "valid_utf8 (s @ replicate k space @ t)" "0 < k" shows "valid_utf8 s" "valid_utf8 t"
proof -
  have k: "replicate k space @ t = space # replicate (k - 1) space @ t" using assms(2) by (cases k) auto
  have c: "valid_utf8 s \<and> valid_utf8 (replicate k space @ t)"
    using utf8_cut [OF assms(1), of "length s"] k by simp
  then show "valid_utf8 s" by simp
  have "runes (replicate k space @ t) = replicate k 32 @ runes t" for k
    by (induction k) auto
  moreover have "unrunes (replicate k 32) = replicate k space" by (induction k) (auto simp: char_eval)
  ultimately show "valid_utf8 t" using c by (simp add: valid_utf8_def)
qed

lemma split_round_utf8:
  assumes "valid_utf8 line" "4 \<le> n" "n < length line" "split_round n line = (c, rest)"
  shows "valid_utf8 c \<and> valid_utf8 rest"
proof -
  have n: "0 < n" using assms(2) by simp
  from split_round_shape [OF n assms(3,4)] show ?thesis
  proof
    assume "\<exists>k > 0. line = c @ replicate k space @ rest \<and> length c \<le> n"
    then show ?thesis using utf8_tail_space assms(1) by blast
  next
    assume "c = take (lastRuneBoundary line n) line \<and> rest = drop (lastRuneBoundary line n) line"
    moreover have "lastRuneBoundary line n < length line"
      using lastRuneBoundary_range [OF n, of line] assms(3) by simp
    ultimately show ?thesis
      using utf8_cut [OF assms(1)] lastRuneBoundary_start [OF assms(1-3)] by simp
  qed
qed

lemma split_loop_utf8:
  "4 \<le> n \<Longrightarrow> valid_utf8 line \<Longrightarrow> c \<in> set (split_loop n line) \<Longrightarrow> valid_utf8 c"
proof (induction n line rule: split_loop.induct)
  case (1 n line)
  show ?case
  proof (cases "length line \<le> n")
    case True
    then show ?thesis using 1(3,4) by (auto simp: split_loop.simps [of n line] split: if_splits)
  next
    case False
    then have nz: "\<not> (n = 0 \<or> length line \<le> n)" using 1(2) by simp
    obtain d rest where r: "split_round n line = (d, rest)" by fastforce
    then have v: "valid_utf8 d \<and> valid_utf8 rest" using split_round_utf8 [OF 1(3,2) _ r] False by linarith
    have "c = d \<or> c \<in> set (split_loop n rest)"
      using 1(4) nz r by (simp add: split_loop.simps [of n line])
    then show ?thesis using 1(1) [OF nz 1(2)] v r by auto
  qed
qed

section \<open>Whole messages\<close>

lemma newlines_no_cr: "CHR 13 \<notin> set (newlines s)"
  by (auto simp: newlines_def replace_byte_def split: if_splits)

lemma split_byte_subset: "w \<in> set (split_byte c s) \<Longrightarrow> set w \<subseteq> set s"
proof (induction s arbitrary: w)
  case (Cons x xs)
  obtain v vs where v: "split_byte c xs = v # vs" by (cases "split_byte c xs") auto
  then have "w = [] \<or> w \<in> set (split_byte c xs) \<or> w = x # v"
    using Cons.prems by (auto split: if_splits)
  then show ?case using Cons.IH [of w] Cons.IH [of v] v by auto
qed simp

lemma message_lines_clean:
  assumes "l \<in> set (message_lines s)" shows "l \<noteq> [] \<and> CHR 10 \<notin> set l \<and> CHR 13 \<notin> set l"
proof -
  have l: "l \<noteq> []" "l \<in> set (split_byte (CHR 10) (newlines s))"
    using assms by (simp_all add: message_lines_def)
  then show ?thesis using split_byte_elem split_byte_subset newlines_no_cr by blast
qed

lemma splitLine_subset: "c \<in> set (splitLine l b) \<Longrightarrow> set c \<subseteq> set l"
  unfolding splitLine_def using rejoins_subset [OF split_loop_rejoins] by blast

lemma chunk_line:
  assumes "c \<in> set (splitOutboundMessage s b)"
  obtains l where "l \<in> set (message_lines s)" "c \<in> set (splitLine l b)"
  using assms by (auto simp: splitOutboundMessage_def)

lemma chunk_bound:
  assumes "c \<in> set (splitOutboundMessage message maxBytes)" shows "int (length c) \<le> max 4 maxBytes"
proof -
  from assms obtain l where "c \<in> set (splitLine l maxBytes)" by (rule chunk_line)
  then have "length c \<le> line_budget maxBytes"
    using line_budget_4 [of maxBytes] split_loop_length [of "line_budget maxBytes" c l]
    by (simp add: splitLine_def)
  then show ?thesis by (auto simp: line_budget_def UTFMax_def split: if_splits)
qed

text \<open>
  C17: What leaves the splitter is safe to put on the wire whatever the user typed: every chunk is at
  most the budget (never below four bytes) long, and holds no carriage return and no line feed, so
  no text can smuggle in a second command.
\<close>

theorem chunks_fit_the_wire:
  assumes "c \<in> set (splitOutboundMessage message maxBytes)"
  shows "int (length c) \<le> max 4 maxBytes \<and> CHR 10 \<notin> set c \<and> CHR 13 \<notin> set c"
proof -
  from assms obtain l where l: "l \<in> set (message_lines message)" "c \<in> set (splitLine l maxBytes)"
    by (rule chunk_line)
  then show ?thesis using chunk_bound [OF assms] message_lines_clean [OF l(1)] splitLine_subset [OF l(2)] by blast
qed

lemmas split_eval = splitOutboundMessage_def message_lines_def newlines_def splitLine_def line_budget_def
  split_loop.simps split_round_def lastRuneBoundary_def UTFMax_def rune_start_def cont_def
  trim_left_def trim_right_def numeral_eq_Suc

theorem chunks_fit_the_wire_witness:
  "''ab'' \<in> set (splitOutboundMessage ''ab cdef'' 4)
    \<and> int (length ''ab'') \<le> max 4 4 \<and> CHR 10 \<notin> set ''ab'' \<and> CHR 13 \<notin> set ''ab''"
proof -
  have m: "''ab'' \<in> set (splitOutboundMessage ''ab cdef'' 4)" by (simp add: split_eval)
  show ?thesis using chunks_fit_the_wire [OF m] m by simp
qed

text \<open>
  Nothing is lost: the chunks fall into one group per non-empty line of the message, in order, and
  the chunks of a line joined again with the spaces at the seams give back that line.
\<close>

theorem chunks_rejoin:
  "\<exists>groups. concat groups = splitOutboundMessage message maxBytes
    \<and> list_all2 rejoins groups (message_lines message)"
  unfolding splitOutboundMessage_def
  by (rule exI [of _ "map (\<lambda>l. splitLine l maxBytes) (message_lines message)"])
    (simp add: list.rel_map list.rel_refl split_loop_rejoins splitLine_def)

section \<open>Valid messages give valid chunks\<close>

lemma replace_crlf_skip: "CHR 13 \<notin> set s \<Longrightarrow> replace_crlf (s @ t) = s @ replace_crlf t"
proof (induction s)
  case (Cons x s)
  then have "replace_crlf (x # (s @ t)) = x # replace_crlf (s @ t)" by (cases "s @ t") auto
  then show ?case using Cons by simp
qed simp

lemma utf8_Cons: "byte c < 0x80 \<Longrightarrow> valid_utf8 (c # s) \<longleftrightarrow> valid_utf8 s"
  by (simp add: valid_utf8_def)

lemma utf8_encode: "valid_rune r \<Longrightarrow> valid_utf8 (encode_rune r @ s) \<longleftrightarrow> valid_utf8 s"
  by (simp add: valid_utf8_def)

lemma utf8_replace_crlf:
  "(\<forall>r \<in> set rs. valid_rune r) \<Longrightarrow> valid_utf8 (replace_crlf (unrunes rs))
     \<and> (case unrunes rs of [] \<Rightarrow> True | c # t \<Rightarrow> byte c < 0x80 \<longrightarrow> valid_utf8 (replace_crlf t))"
proof (induction rs)
  case (Cons r rs)
  have v: "valid_rune r" and IH: "valid_utf8 (replace_crlf (unrunes rs))"
    and IH2: "case unrunes rs of [] \<Rightarrow> True | c # t \<Rightarrow> byte c < 0x80 \<longrightarrow> valid_utf8 (replace_crlf t)"
    using Cons by simp_all
  from v show ?case
  proof (cases rule: encode_rune_cases)
    case (1 c)
    have lf: "char_of (10 :: nat) = CHR 10" by (simp add: char_eval)
    from 1 show ?thesis
      using IH IH2 by (cases "unrunes rs") (auto simp: utf8_Cons valid_utf8_def lf)
  next
    case 2
    then have n: "CHR 13 \<notin> set (encode_rune r)" by auto
    obtain x xs where e: "encode_rune r = x # xs" by (cases "encode_rune r") auto
    then have "\<not> byte x < 0x80" using 2 by simp
    then show ?thesis
      using replace_crlf_skip [OF n, of "unrunes rs"] IH utf8_encode [OF v] by (simp add: e)
  qed
qed (simp add: valid_utf8_def)

lemma utf8_replace_byte:
  assumes "\<forall>r \<in> set rs. valid_rune r" "byte c < 0x80" "byte d < 0x80"
  shows "valid_utf8 (replace_byte c [d] (unrunes rs))"
  using assms(1)
proof (induction rs)
  case (Cons r rs)
  then have v: "valid_rune r" and IH: "valid_utf8 (replace_byte c [d] (unrunes rs))" by simp_all
  from v show ?case
  proof (cases rule: encode_rune_cases)
    case (1 x)
    then show ?thesis using IH assms(3) by (simp add: utf8_Cons)
  next
    case 2
    then have "c \<notin> set (encode_rune r)" using assms(2) by auto
    then show ?thesis using IH v by (simp add: replace_byte_append replace_byte_notin utf8_encode)
  qed
qed (simp add: valid_utf8_def)

lemma utf8_newlines:
  assumes "valid_utf8 s" shows "valid_utf8 (newlines s)"
proof -
  obtain rs where "\<forall>r \<in> set rs. valid_rune r" "s = unrunes rs" using assms valid_utf8_iff by blast
  then have "valid_utf8 (replace_crlf s)" using utf8_replace_crlf by blast
  then obtain rs' where rs': "\<forall>r \<in> set rs'. valid_rune r" "replace_crlf s = unrunes rs'"
    using valid_utf8_iff by blast
  show ?thesis unfolding newlines_def rs'(2) by (rule utf8_replace_byte [OF rs'(1)]) simp_all
qed

lemma utf8_split_byte:
  assumes "valid_utf8 s" "byte c < 0x80" "w \<in> set (split_byte c s)" shows "valid_utf8 w"
  using assms(1,3)
proof (induction "length s" arbitrary: s w rule: less_induct)
  case less
  show ?case
  proof (cases "c \<in> set s")
    case False
    then show ?thesis using less.prems by (simp add: split_byte_notin)
  next
    case True
    then obtain a b where s: "s = a @ c # b" "c \<notin> set a" by (meson split_list_first)
    have c: "rune_start c" using assms(2) by (simp add: rune_start_def cont_def)
    have v: "valid_utf8 a" "valid_utf8 b"
      using utf8_cut [OF less.prems(1), of "length a"] c assms(2) s(1) by (simp_all add: utf8_Cons)
    have "w = a \<or> w \<in> set (split_byte c b)" using less.prems(2) s by (simp add: split_byte_sep)
    then show ?thesis using v less.hyps [of b w] s(1) by auto
  qed
qed

text \<open>
  No character is torn apart: the chunks of a valid UTF-8 message are valid UTF-8 each.
\<close>

theorem chunks_valid_utf8:
  assumes "valid_utf8 message" "c \<in> set (splitOutboundMessage message maxBytes)"
  shows "valid_utf8 c"
proof -
  from assms(2) obtain l where l: "l \<in> set (message_lines message)" "c \<in> set (splitLine l maxBytes)"
    by (rule chunk_line)
  have "valid_utf8 l"
    using l(1) utf8_split_byte [OF utf8_newlines [OF assms(1)], of "CHR 10" l]
    by (simp add: message_lines_def)
  then show ?thesis using split_loop_utf8 [OF line_budget_4] l(2) by (simp add: splitLine_def)
qed

theorem chunks_valid_utf8_witness:
  "valid_utf8 (''a'' @ encode_rune 0x1F600 @ ''b'')
    \<and> encode_rune 0x1F600 \<in> set (splitOutboundMessage (''a'' @ encode_rune 0x1F600 @ ''b'') 4)
    \<and> valid_utf8 (encode_rune 0x1F600)"
proof -
  let ?m = "''a'' @ encode_rune 0x1F600 @ ''b''"
  have e: "encode_rune 0x1F600 = [CHR 0xF0, CHR 0x9F, CHR 0x98, CHR 0x80]"
    by (simp add: encode_rune_def valid_rune_def char_eval)
  have v: "valid_utf8 ?m"
    by (auto simp: valid_utf8_iff char_eval valid_rune_def intro!: exI [of _ "[97, 0x1F600, 98]"])
  have m: "encode_rune 0x1F600 \<in> set (splitOutboundMessage ?m 4)"
    unfolding e by (simp add: split_eval)
  show ?thesis using chunks_valid_utf8 [OF v m] v m by simp
qed

lemma last_index_byte_append:
  "c \<notin> set t \<Longrightarrow> last_index_byte (s @ t) c = last_index_byte s c"
proof (induction s)
  case Nil
  then show ?case using last_index_byte_None by simp
qed simp

lemma split_round_indented:
  assumes "\<forall>c \<in> set w. byte c < 0x80 \<and> c \<noteq> space" "4 \<le> n" "n \<le> Suc (length w)"
  shows "split_round n (space # space # w) = ([], w)"
proof -
  let ?l = "space # space # w"
  have "rune_start (?l ! n)"
  proof -
    have "n - 2 < length w" "?l ! n = w ! (n - 2)" using assms(2,3) by (auto simp: nth_Cons' numeral_2_eq_2)
    then have "byte (?l ! n) < 0x80" using assms(1) nth_mem by metis
    then show ?thesis by (simp add: rune_start_def cont_def)
  qed
  then have cut: "lastRuneBoundary ?l n = n"
    using assms(2) by (simp add: lastRuneBoundary_def UTFMax_def numeral_eq_Suc)
  have "take n ?l = [space, space] @ take (n - 2) w"
    using assms(2) by (auto simp: take_Cons' numeral_eq_Suc)
  moreover have "space \<notin> set (take (n - 2) w)" using assms(1) by (auto dest: in_set_takeD)
  ultimately have "last_index_byte (take n ?l) space = Some 1"
    using last_index_byte_append [of space "take (n - 2) w" "[space, space]"] by simp
  moreover have "trim_left w = w" using assms(1) by (cases w) (auto simp: trim_left_def)
  ultimately show ?thesis by (simp add: split_round_def cut trim_right_def trim_left_def)
qed

lemma no_newline_line:
  assumes "s \<noteq> []" "CHR 10 \<notin> set s" "CHR 13 \<notin> set s" shows "message_lines s = [s]"
proof -
  have "newlines s = s" using replace_crlf_skip [OF assms(3), of "[]"] replace_byte_notin [OF assms(3)]
    by (simp add: newlines_def)
  then show ?thesis using assms(1,2) by (simp add: message_lines_def split_byte_notin)
qed

text \<open>
  The splitter can emit an empty chunk, which the server rejects (ERR_NOTEXTTOSEND): a line that
  starts with two spaces followed by one long word yields the empty message first, and the reply tag
  goes with it.
\<close>

theorem indented_word_sends_empty_message:
  assumes "\<forall>c \<in> set w. 0x20 < byte c \<and> byte c < 0x80" "4 \<le> maxBytes" "maxBytes \<le> 1 + int (length w)"
  shows "splitOutboundMessage (''  '' @ w) maxBytes = [] # splitLine w maxBytes"
proof -
  have w: "\<forall>c \<in> set w. byte c < 0x80 \<and> c \<noteq> space" using assms(1) by auto
  have nl: "CHR 10 \<notin> set (''  '' @ w)" "CHR 13 \<notin> set (''  '' @ w)" using assms(1) by auto
  let ?n = "line_budget maxBytes"
  have n: "4 \<le> ?n" "?n \<le> Suc (length w)"
    using assms(2,3) by (auto simp: line_budget_def UTFMax_def)
  have "split_loop ?n (space # space # w) = [] # split_loop ?n w"
    using split_round_indented [OF w n] n by (simp add: split_loop.simps [of ?n "space # space # w"])
  then show ?thesis
    using no_newline_line [OF _ nl] by (simp add: splitOutboundMessage_def splitLine_def)
qed

theorem indented_word_sends_empty_message_witness:
  "splitOutboundMessage (''  '' @ ''abcdef'') 5 = [] # splitLine ''abcdef'' 5"
  by (rule indented_word_sends_empty_message) auto

section \<open>Sending\<close>

text \<open>
  \<open>maxMessageChunk\<close>: \<open>lineLen\<close> is \<open>LineLen\<close> of the server capabilities (\<open>None\<close> without any),
  \<open>userHost\<close> the \<open>Host\<close> of our own metadata (\<open>None\<close> when there is no entry).
\<close>

definition effective_line_len :: "int option \<Rightarrow> int" where
  "effective_line_len caps = (case caps of Some n \<Rightarrow> if n > 0 then n else defaultLineLen | None \<Rightarrow> defaultLineLen)"

definition user_host_len :: "string option \<Rightarrow> int" where
  "user_host_len userHost = (case userHost of
     Some h \<Rightarrow> if h \<noteq> [] then int (length h) else fallbackUserHostLen | None \<Rightarrow> fallbackUserHostLen)"

definition maxMessageChunk :: "int option \<Rightarrow> string \<Rightarrow> string option \<Rightarrow> string \<Rightarrow> int" where
  "maxMessageChunk caps nick userHost target =
     (let overhead = 1 + int (length nick) + 1 + user_host_len userHost + 1 + int (length ''PRIVMSG '')
            + int (length target) + int (length '' :'') + 2;
          budget = effective_line_len caps - overhead
      in if budget < minMessageChunk then minMessageChunk else budget)"

definition tagReplyDraft :: string where "tagReplyDraft = ''+draft/reply''"
definition tagReply :: string where "tagReply = ''+reply''"
definition tagChannelContextDraft :: string where "tagChannelContextDraft = ''+draft/channel-context''"
definition tagChannelContext :: string where "tagChannelContext = ''+channel-context''"

text \<open>The nil map of \<open>buildSendTags\<close> is \<open>None\<close>.\<close>

definition buildSendTags :: "string \<Rightarrow> string \<Rightarrow> (string \<times> string) list option" where
  "buildSendTags replyMsgID channelContext =
     (if replyMsgID = [] \<and> channelContext = [] then None
      else Some ((if replyMsgID \<noteq> [] then [(tagReplyDraft, replyMsgID)] else [])
        @ (if channelContext \<noteq> [] then [(tagChannelContextDraft, channelContext)] else [])))"

record frame =
  fTags :: "(string \<times> string) list option"
  fCommand :: string
  fParams :: "string list"

datatype send_err = NotConnected | SendFailed string

text \<open>
  The loops of \<open>sendMessage\<close>, \<open>SendNotice\<close> and \<open>SendAction\<close>: the frames handed to the
  connection, up to and including the first one it refuses. \<open>refuse\<close> is the connection's answer.
\<close>

fun send_frames :: "(frame \<Rightarrow> string option) \<Rightarrow> frame list \<Rightarrow> (send_err + unit) \<times> frame list" where
  "send_frames refuse [] = (Ok (), [])"
| "send_frames refuse (f # fs) = (case refuse f of
     Some e \<Rightarrow> (Err (SendFailed e), [f])
   | None \<Rightarrow> (case send_frames refuse fs of (r, sent) \<Rightarrow> (r, f # sent)))"

fun reply_frames :: "string \<Rightarrow> string \<Rightarrow> string \<Rightarrow> string list \<Rightarrow> frame list" where
  "reply_frames target reply ctx [] = []"
| "reply_frames target reply ctx (c # cs) =
     \<lparr>fTags = buildSendTags reply ctx, fCommand = ''PRIVMSG'', fParams = [target, c]\<rparr>
     # reply_frames target [] ctx cs"

definition sendMessage :: "(frame \<Rightarrow> string option) \<Rightarrow> bool \<Rightarrow> int \<Rightarrow> string \<Rightarrow> string \<Rightarrow> string \<Rightarrow> string
    \<Rightarrow> (send_err + unit) \<times> frame list" where
  "sendMessage refuse connected budget target message reply ctx =
     (if \<not> connected then (Err NotConnected, [])
      else send_frames refuse (reply_frames target reply ctx (splitOutboundMessage message budget)))"

definition SendNotice :: "(frame \<Rightarrow> string option) \<Rightarrow> bool \<Rightarrow> int \<Rightarrow> string \<Rightarrow> string
    \<Rightarrow> (send_err + unit) \<times> frame list" where
  "SendNotice refuse connected budget target message =
     (if \<not> connected then (Err NotConnected, [])
      else send_frames refuse (map (\<lambda>c. \<lparr>fTags = None, fCommand = ''NOTICE'', fParams = [target, c]\<rparr>)
        (splitOutboundMessage message budget)))"

definition action_prefix :: string where "action_prefix = CHR 0x01 # ''ACTION ''"

definition SendAction :: "(frame \<Rightarrow> string option) \<Rightarrow> bool \<Rightarrow> int \<Rightarrow> string \<Rightarrow> string
    \<Rightarrow> (send_err + unit) \<times> frame list" where
  "SendAction refuse connected budget target message =
     (if \<not> connected then (Err NotConnected, [])
      else send_frames refuse
        (map (\<lambda>c. \<lparr>fTags = None, fCommand = ''PRIVMSG'', fParams = [target, action_prefix @ c @ [CHR 0x01]]\<rparr>)
          (splitOutboundMessage message (budget - int (length (action_prefix @ [CHR 0x01]))))))"

text \<open>The line other clients see, as the server relays it.\<close>

definition relayed :: "string \<Rightarrow> string \<Rightarrow> frame \<Rightarrow> string" where
  "relayed nick userhost f = '':'' @ nick @ ''!'' @ userhost @ '' '' @ fCommand f @ '' '' @ fParams f ! 0 @ '' :''
     @ fParams f ! 1 @ [CHR 13, CHR 10]"

lemma send_frames_prefix: "prefix (snd (send_frames refuse fs)) fs"
  by (induction fs) (auto split: option.splits prod.splits)

lemma send_frames_subset: "f \<in> set (snd (send_frames refuse fs)) \<Longrightarrow> f \<in> set fs"
  using set_mono_prefix [OF send_frames_prefix] by blast

lemma reply_frames_body:
  "f \<in> set (reply_frames target reply ctx cs) \<Longrightarrow>
     \<exists>c \<in> set cs. fCommand f = ''PRIVMSG'' \<and> fParams f = [target, c]"
  by (induction cs arbitrary: reply) auto

text \<open>
  The budget is right: unless the line cap leaves fewer than 64 bytes for text, every frame that
  \<open>sendMessage\<close>, \<open>SendNotice\<close> or \<open>SendAction\<close> hands to the connection is, relayed with our own
  source prefix, at most the server's line length, provided our user and host is the known one, or
  is no longer than the assumed worst case when none is known.
\<close>

theorem relayed_lines_fit:
  assumes "f \<in> set (snd (sendMessage refuse connected budget target message reply ctx))
      \<or> f \<in> set (snd (SendNotice refuse connected budget target message))
      \<or> f \<in> set (snd (SendAction refuse connected budget target message))"
    and "budget = maxMessageChunk caps nick known target" "minMessageChunk < budget"
    and "int (length userhost) \<le> user_host_len known"
  shows "int (length (relayed nick userhost f)) \<le> effective_line_len caps"
proof -
  have b: "int (length nick) + user_host_len known + int (length target) + budget + 15 = effective_line_len caps"
    using assms(2,3) by (simp add: maxMessageChunk_def Let_def split: if_splits)
  have n: "minMessageChunk = 64" by (simp add: minMessageChunk_def)
  let ?fits = "\<lambda>f. fParams f ! 0 = target \<and> int (length (fCommand f)) \<le> 7 \<and> int (length (fParams f ! 1)) \<le> budget"
  from assms(1) have "?fits f"
  proof (elim disjE)
    assume "f \<in> set (snd (sendMessage refuse connected budget target message reply ctx))"
    then obtain c where "c \<in> set (splitOutboundMessage message budget)" "fCommand f = ''PRIVMSG''"
      "fParams f = [target, c]"
      using send_frames_subset reply_frames_body by (fastforce simp: sendMessage_def split: if_splits)
    then show ?thesis using chunk_bound assms(3) n by fastforce
  next
    assume "f \<in> set (snd (SendNotice refuse connected budget target message))"
    then obtain c where "c \<in> set (splitOutboundMessage message budget)" "fCommand f = ''NOTICE''"
      "fParams f = [target, c]"
      using send_frames_subset by (fastforce simp: SendNotice_def split: if_splits)
    then show ?thesis using chunk_bound assms(3) n by fastforce
  next
    assume "f \<in> set (snd (SendAction refuse connected budget target message))"
    then obtain c where "c \<in> set (splitOutboundMessage message (budget - 9))" "fCommand f = ''PRIVMSG''"
      "fParams f = [target, action_prefix @ c @ [CHR 0x01]]"
      using send_frames_subset by (fastforce simp: SendAction_def action_prefix_def split: if_splits)
    then show ?thesis using chunk_bound [of c message "budget - 9"] assms(3) n by (auto simp: action_prefix_def)
  qed
  then show ?thesis using b assms(4) by (simp add: relayed_def)
qed

theorem relayed_lines_fit_witness:
  "int (length (relayed ''me'' ''me@host'' \<lparr>fTags = None, fCommand = ''PRIVMSG'', fParams = [''bob'', ''hi'']\<rparr>)) \<le> 512"
proof -
  let ?f = "\<lparr>fTags = None, fCommand = ''PRIVMSG'', fParams = [''bob'', ''hi'']\<rparr>"
  let ?b = "maxMessageChunk (Some 512) ''me'' None ''bob''"
  have b: "?b = 417"
    by (simp add: maxMessageChunk_def effective_line_len_def user_host_len_def fallbackUserHostLen_def
      minMessageChunk_def)
  have "splitOutboundMessage ''hi'' ?b = [''hi'']"
    unfolding b by (simp add: splitOutboundMessage_def message_lines_def newlines_def splitLine_def
      line_budget_def UTFMax_def split_loop.simps)
  then have f: "?f \<in> set (snd (sendMessage (\<lambda>_. None) True ?b ''bob'' ''hi'' [] []))"
    by (simp add: sendMessage_def buildSendTags_def)
  show ?thesis
    using relayed_lines_fit [OF disjI1 [OF f] refl, of "''me@host''"] b
    by (simp add: minMessageChunk_def user_host_len_def fallbackUserHostLen_def effective_line_len_def)
qed

text \<open>
  A message sent in several chunks is one reply: every frame goes to the target, in chunk order,
  the reply tag is on the first frame only, and the channel context is on each.
\<close>

theorem reply_tag_once:
  "fst (sendMessage (\<lambda>_. None) True budget target message reply ctx) = Ok ()
    \<and> map fParams (snd (sendMessage (\<lambda>_. None) True budget target message reply ctx))
        = map (\<lambda>c. [target, c]) (splitOutboundMessage message budget)
    \<and> map fTags (snd (sendMessage (\<lambda>_. None) True budget target message reply ctx))
        = (case splitOutboundMessage message budget of [] \<Rightarrow> []
           | c # cs \<Rightarrow> buildSendTags reply ctx # replicate (length cs) (buildSendTags [] ctx))"
proof -
  have all: "send_frames (\<lambda>_. None) fs = (Ok (), fs)" for fs by (induction fs) auto
  have p: "map fParams (reply_frames target reply ctx cs) = map (\<lambda>c. [target, c]) cs" for reply cs
    by (induction cs arbitrary: reply) auto
  have t: "map fTags (reply_frames target [] ctx cs) = replicate (length cs) (buildSendTags [] ctx)" for cs
    by (induction cs) auto
  show ?thesis by (cases "splitOutboundMessage message budget") (auto simp: sendMessage_def all p t)
qed

end
