(* ===== verification/Irc_Names.thy ===== *)
theory Irc_Names
  imports Go_Text
begin

text \<open>
  Inbound messages and the pure helpers on names: \<open>internal/irc/spec.go\<close>, \<open>tags.go\<close>,
  \<open>serverinfo.go\<close>, \<open>sts.go\<close>, and of \<open>client.go\<close> the CAP tokens, the service nicks and the
  routing of prefixes. A message is what the line parser delivers; \<open>Nick\<close> follows its
  \<open>ParseNUH\<close>.
\<close>

section \<open>Messages\<close>

record message =
  mTags :: "(string \<times> string) list"
  mSource :: string
  mCommand :: string
  mParams :: "string list"
  mRaw :: string

definition GetTag :: "message \<Rightarrow> string \<Rightarrow> string option" where
  "GetTag e name = (if name = [] then None else map_of (mTags e) name)"

definition Nick :: "message \<Rightarrow> string" where
  "Nick e = fst (cut_byte (CHR ''!'') (fst (cut_byte (CHR ''@'') (mSource e))))"

definition firstTag :: "message \<Rightarrow> string list \<Rightarrow> string" where
  "firstTag e names = (case List.find (\<lambda>n. GetTag e n \<noteq> None \<and> GetTag e n \<noteq> Some []) names of
     None \<Rightarrow> [] | Some n \<Rightarrow> the (GetTag e n))"

definition getReplyTag :: "message \<Rightarrow> string" where
  "getReplyTag e = firstTag e [''+draft/reply'', ''+reply'']"

definition getMsgID :: "message \<Rightarrow> string" where
  "getMsgID e = (case GetTag e ''msgid'' of Some v \<Rightarrow> v | None \<Rightarrow> [])"

section \<open>Case folding and channel names\<close>

definition defaultChanTypes :: string where "defaultChanTypes = ''#&''"

text \<open>The two flags of \<open>casefold\<close>, by the name of the mapping, and the fold of one byte.\<close>

definition fold_flags :: "string \<Rightarrow> bool \<times> bool" where
  "fold_flags mapping = (let m = to_lower mapping in
     if m = ''ascii'' then (False, False)
     else if m = ''rfc1459-strict'' \<or> m = ''strict-rfc1459'' then (True, False)
     else if m = ''rfc1459'' \<or> m = [] then (True, True)
     else (False, False))"

definition fold_byte :: "bool \<Rightarrow> bool \<Rightarrow> char \<Rightarrow> char" where
  "fold_byte foldBrackets foldTilde c =
     (if 65 \<le> byte c \<and> byte c \<le> 90 then char_of (byte c + 32)
      else if foldBrackets \<and> c = CHR ''['' then CHR ''{''
      else if foldBrackets \<and> c = CHR '']'' then CHR ''}''
      else if foldBrackets \<and> c = CHR 0x5C then CHR ''|''
      else if foldTilde \<and> c = CHR ''~'' then CHR ''^''
      else c)"

definition casefold :: "string \<Rightarrow> string \<Rightarrow> string" where
  "casefold mapping s = (case fold_flags mapping of (b, t) \<Rightarrow> map (fold_byte b t) s)"

definition channelNameMatches :: "string \<Rightarrow> string \<Rightarrow> bool" where
  "channelNameMatches name chantypes =
     (let chantypes = (if chantypes = [] then defaultChanTypes else chantypes)
      in case name of [] \<Rightarrow> False | c # _ \<Rightarrow> c \<in> set chantypes)"

definition formatTopicWhoTime :: "(int \<Rightarrow> string) \<Rightarrow> string \<Rightarrow> int \<Rightarrow> string" where
  "formatTopicWhoTime fmt setter when =
     (if setter = [] then ''Topic set on '' @ fmt when else ''Topic set by '' @ setter @ '' on '' @ fmt when)"

definition formatWhoReply :: "string \<Rightarrow> string \<Rightarrow> string \<Rightarrow> string \<Rightarrow> string \<Rightarrow> string \<Rightarrow> string \<Rightarrow> string" where
  "formatWhoReply channel user host server nick flags realname =
     nick @ '' ('' @ flags @ '') '' @ user @ ''@'' @ host @ '' on '' @ channel @ '' '' @ encode_rune 0x2014 @ '' '' @ realname"

definition formatServerNumeric :: "string list \<Rightarrow> string" where
  "formatServerNumeric params =
     (if length params < 2 then []
      else let description = last params; subjects = butlast (tl params) in
        if subjects = [] then description else join '' '' subjects @ '': '' @ description)"

text \<open>A fold is idempotent, so folded keys are canonical.\<close>

lemma fold_byte_lower: "97 \<le> byte c \<Longrightarrow> byte c \<le> 122 \<Longrightarrow> fold_byte b t c = c"
  by (auto simp: fold_byte_def)

lemma fold_byte_idem: "fold_byte b t (fold_byte b t c) = fold_byte b t c"
proof (cases "65 \<le> byte c \<and> byte c \<le> 90")
  case True
  then have "fold_byte b t (char_of (byte c + 32)) = char_of (byte c + 32)"
    by (intro fold_byte_lower) simp_all
  then show ?thesis using True by (simp add: fold_byte_def)
qed (auto simp: fold_byte_def)

lemma casefold_idem [simp]: "casefold m (casefold m s) = casefold m s"
  by (simp add: casefold_def fold_byte_idem split: prod.split)

lemma casefold_Nil [simp]: "casefold m s = [] \<longleftrightarrow> s = []" "casefold m [] = []"
  by (simp_all add: casefold_def split: prod.split)

lemma casefold_length [simp]: "length (casefold m s) = length s"
  by (simp add: casefold_def split: prod.split)

section \<open>Server families, STS\<close>

definition detectServerFamily :: "string \<Rightarrow> rune \<Rightarrow> string" where
  "detectServerFamily version extbanPrefix =
     (let v = to_lower version in
      if contains_str v ''solanum'' \<or> contains_str v ''charybdis'' \<or> contains_str v ''ircd-seven''
         \<or> contains_str v ''ratbox'' then ''solanum''
      else if contains_str v ''unreal'' then ''unrealircd''
      else if contains_str v ''inspircd'' then ''inspircd''
      else if contains_str v ''ergo'' \<or> contains_str v ''oragono'' then ''ergo''
      else if extbanPrefix = 36 then ''solanum''
      else [])"

record STSPolicy =
  stsPort :: int
  stsDuration :: int
  stsPresent :: bool

definition apply_sts_token :: "string \<Rightarrow> STSPolicy \<Rightarrow> STSPolicy" where
  "apply_sts_token tok p =
     (let token = trim_space tok in
      if token = [] then p
      else case cut_byte (CHR ''='') token of (k, val, _) \<Rightarrow>
        let key = trim_space (to_lower k) in
        if key = ''port'' then
          (case parse_int64 (trim_space val) of
             Some n \<Rightarrow> if n > 0 then p\<lparr>stsPort := n\<rparr> else p | None \<Rightarrow> p)
        else if key = ''duration'' then
          (case parse_int64 (trim_space val) of
             Some n \<Rightarrow> if n > 0 then p\<lparr>stsDuration := n\<rparr> else p | None \<Rightarrow> p)
        else p)"

definition parseSTS :: "string \<Rightarrow> STSPolicy" where
  "parseSTS value = fold apply_sts_token (split_byte (CHR '','') value)
     \<lparr>stsPort = 0, stsDuration = 0, stsPresent = True\<rparr>"

lemma parseSTS_range: "0 \<le> stsPort (parseSTS v)" "0 \<le> stsDuration (parseSTS v)" "stsPresent (parseSTS v)"
proof -
  have "0 \<le> stsPort p \<and> 0 \<le> stsDuration p \<and> stsPresent p \<Longrightarrow>
      0 \<le> stsPort (fold apply_sts_token ts p) \<and> 0 \<le> stsDuration (fold apply_sts_token ts p)
        \<and> stsPresent (fold apply_sts_token ts p)" for ts p
    by (induction ts arbitrary: p)
      (auto simp: apply_sts_token_def Let_def split: prod.splits option.splits)
  from this [of "\<lparr>stsPort = 0, stsDuration = 0, stsPresent = True\<rparr>" "split_byte (CHR '','') v"]
  show "0 \<le> stsPort (parseSTS v)" "0 \<le> stsDuration (parseSTS v)" "stsPresent (parseSTS v)"
    by (simp_all add: parseSTS_def)
qed

section \<open>Capabilities\<close>

definition cap_name :: "string \<Rightarrow> string" where "cap_name c = fst (cut_byte (CHR ''='') c)"

definition contains_cap :: "string \<Rightarrow> string \<Rightarrow> bool" where
  "contains_cap capabilities cap \<longleftrightarrow> (\<exists>c \<in> set (str_fields capabilities). cap_name c = cap)"

definition capValue :: "string \<Rightarrow> string \<Rightarrow> string option" where
  "capValue capabilities cap =
     map_option (\<lambda>c. fst (snd (cut_byte (CHR ''='') c)))
       (List.find (\<lambda>c. cap_name c = cap) (str_fields capabilities))"

text \<open>The builder, the tokens of one \<open>CAP LS\<close> line, and whether the list is complete.\<close>

definition accumulateCapLS :: "string list \<Rightarrow> string \<Rightarrow> string option \<times> string" where
  "accumulateCapLS params buf =
     (if length params < 3 then (None, buf)
      else let continuation = 3 < length params \<and> params ! 2 = ''*'';
               tokens = (if continuation then params ! 3 else params ! 2);
               buf = buf @ tokens @ '' ''
        in (if continuation then None else Some buf, buf))"

definition requestedCaps :: "string list" where
  "requestedCaps = [''sasl'', ''server-time'', ''echo-message'', ''message-tags'', ''batch'', ''draft/chathistory'',
     ''chathistory'', ''draft/event-playback'', ''multi-prefix'', ''cap-notify'', ''away-notify'', ''account-notify'',
     ''extended-join'', ''chghost'', ''account-tag'', ''userhost-in-names'', ''setname'', ''invite-notify'',
     ''standard-replies'', ''labeled-response'', ''extended-monitor'', ''no-implicit-names'']"

definition requestCapsForLibrary :: "string list" where
  "requestCapsForLibrary = filter (\<lambda>c. \<not> (c = ''sts'' \<or> c = ''sasl'')) requestedCaps"

definition capsToRequest :: "string \<Rightarrow> (string \<Rightarrow> bool) \<Rightarrow> bool \<Rightarrow> string list" where
  "capsToRequest offered enabled includeSASL =
     filter (\<lambda>w. \<not> (w = ''sasl'' \<and> \<not> includeSASL) \<and> \<not> enabled w \<and> contains_cap offered w) requestedCaps"

text \<open>\<open>network.SASLMechanism\<close> is a nil-able string.\<close>

definition saslMechName :: "bool \<Rightarrow> string option \<Rightarrow> string" where
  "saslMechName saslEnabled mech =
     (if \<not> saslEnabled then [] else case mech of Some m \<Rightarrow> if m \<noteq> [] then m else ''PLAIN'' | None \<Rightarrow> ''PLAIN'')"

section \<open>Nicks of services, prefixes of servers\<close>

definition serviceNicks :: "string list" where
  "serviceNicks = [''nickserv'', ''chanserv'', ''saslserv'', ''memoserv'', ''hostserv'', ''operserv'',
     ''botserv'', ''global'']"

definition IsServiceNick :: "string \<Rightarrow> bool" where
  "IsServiceNick nick \<longleftrightarrow> to_lower nick \<in> set serviceNicks"

definition sourceIsUser :: "string \<Rightarrow> bool" where
  "sourceIsUser source =
     (if source = [] then False
      else if contains_str source ''!'' then True
      else \<not> contains_str source ''.'')"

definition parseMonitorLimit :: "string \<Rightarrow> int option" where
  "parseMonitorLimit param =
     (if param = ''MONITOR'' then Some 0
      else if \<not> has_prefix param ''MONITOR='' then None
      else case parse_int64 (drop (length ''MONITOR='') param) of
        None \<Rightarrow> Some 0 | Some n \<Rightarrow> if n < 0 then Some 0 else Some n)"

definition desiredMonitorState :: "string \<Rightarrow> string \<Rightarrow> bool \<Rightarrow> bool \<Rightarrow> bool" where
  "desiredMonitorState nick selfNick isBuddy hasOpenPM =
     (if isBuddy then True else hasOpenPM \<and> \<not> equal_fold nick selfNick \<and> \<not> IsServiceNick nick)"

definition validTypingState :: "string \<Rightarrow> bool" where
  "validTypingState s \<longleftrightarrow> s = ''active'' \<or> s = ''paused'' \<or> s = ''done''"

definition splitMembershipPrefixes :: "string \<Rightarrow> string \<Rightarrow> string \<times> string" where
  "splitMembershipPrefixes entry validPrefixes =
     (takeWhile (\<lambda>c. c \<in> set validPrefixes) entry, dropWhile (\<lambda>c. c \<in> set validPrefixes) entry)"

definition splitNickUserHost :: "string \<Rightarrow> string \<times> string" where
  "splitNickUserHost entry = (case cut_byte (CHR ''!'') entry of (nick, userhost, _) \<Rightarrow> (nick, userhost))"

definition validateRawCommand :: "string \<Rightarrow> bool" where
  "validateRawCommand command \<longleftrightarrow> \<not> contains_any command [CHR 13, CHR 10]"

text \<open>\<open>fmt.Sscanf(s, "\%d", \&n)\<close> on one token: \<open>n\<close> keeps its value when no number is read.\<close>

definition sscanf_d :: "string \<Rightarrow> int \<Rightarrow> int" where
  "sscanf_d s n =
     (let s = dropWhile (\<lambda>c. is_space (byte c)) s;
          sign = (case s of [] \<Rightarrow> [] | c # _ \<Rightarrow> if c = CHR ''-'' \<or> c = CHR ''+'' then [c] else []);
          ds = takeWhile is_digit (drop (length sign) s)
      in case parse_int64 (sign @ ds) of Some k \<Rightarrow> k | None \<Rightarrow> n)"

section \<open>Properties\<close>

text \<open>An ASCII byte ends whatever sequence was being decoded.\<close>

lemma decode_rune_stop:
  assumes "s \<noteq> []" "byte c < 0x80" shows "decode_rune (s @ c # t) = decode_rune s"
proof -
  have nc: "\<not> cont (byte c)" using assms(2) by (simp add: cont_def)
  obtain a s1 where s: "s = a # s1" using assms(1) by (cases s) auto
  consider "s1 = []" | b where "s1 = [b]" | b d where "s1 = [b, d]" | b d e r where "s1 = b # d # e # r"
    by (metis list.exhaust)
  then show ?thesis
  proof cases
    case 1
    then show ?thesis using nc s assms(2) by (auto simp: decode_rune_def Let_def split: list.splits)
  next
    case 2
    then show ?thesis using nc s assms(2) by (auto simp: decode_rune_def Let_def split: list.splits)
  next
    case 3
    then show ?thesis using nc s by (simp add: decode_rune_def Let_def)
  next
    case 4
    then show ?thesis using s by (simp add: decode_rune_def Let_def)
  qed
qed

lemma str_fields_aux_space: "str_fields_aux acc (space # s) = (if acc = [] then [] else [acc]) @ str_fields_aux [] s"
  if "space = CHR '' ''" for space
  using that by (simp add: str_fields_aux_ascii is_space_def space_runes_def)

lemma str_fields_aux_append:
  "str_fields_aux acc (s @ CHR '' '' # t) = str_fields_aux acc s @ str_fields_aux [] t"
proof (induction acc s rule: str_fields_aux.induct)
  case (1 acc s)
  show ?case
  proof (cases "s = []")
    case True
    then show ?thesis by (simp add: str_fields_aux_space)
  next
    case False
    have d: "decode_rune (s @ CHR '' '' # t) = decode_rune s" using False by (simp add: decode_rune_stop)
    have w: "snd (decode_rune s) \<le> length s" using decode_rune_width [OF False] by simp
    show ?thesis
      using 1(1) [OF False] 1(2) [OF False] False w
      by (simp add: str_fields_aux.simps [of acc s] str_fields_aux.simps [of acc "s @ CHR '' '' # t"] d)
  qed
qed

lemma str_fields_append: "str_fields (s @ CHR '' '' # t) = str_fields s @ str_fields t"
  by (simp add: str_fields_def str_fields_aux_append)

lemma str_fields_Nil [simp]: "str_fields [] = []" by (simp add: str_fields_def)

text \<open>The lines of a \<open>CAP LS 302\<close> answer, and what the builder returns for each of them.\<close>

fun cap_ls_lines :: "string \<Rightarrow> string list \<Rightarrow> string list list" where
  "cap_ls_lines me [] = []"
| "cap_ls_lines me [l] = [[me, ''LS'', l]]"
| "cap_ls_lines me (l # k # ls) = [me, ''LS'', ''*'', l] # cap_ls_lines me (k # ls)"

fun feed_cap_ls :: "string list list \<Rightarrow> string \<Rightarrow> string option list" where
  "feed_cap_ls [] buf = []"
| "feed_cap_ls (p # ps) buf = (case accumulateCapLS p buf of (r, buf) \<Rightarrow> r # feed_cap_ls ps buf)"

lemma feed_cap_ls_lines:
  "ls \<noteq> [] \<Longrightarrow> feed_cap_ls (cap_ls_lines me ls) buf
     = replicate (length ls - 1) None @ [Some (buf @ concat (map (\<lambda>l. l @ '' '') ls))]"
  by (induction me ls arbitrary: buf rule: cap_ls_lines.induct)
    (auto simp: accumulateCapLS_def Let_def numeral_eq_Suc)

lemma str_fields_lines: "str_fields (concat (map (\<lambda>l. l @ '' '') ls)) = concat (map str_fields ls)"
  by (induction ls) (simp_all add: str_fields_append)

text \<open>
  A capability list that the server sends over several \<open>CAP LS\<close> lines is put together again: it is
  complete at the last line and not before, its words are the words of all the lines in order, and
  the capabilities asked for from it are the wanted ones, not yet enabled, that some line offers.
\<close>

theorem cap_ls_reassembled:
  assumes "ls \<noteq> []"
  shows "\<exists>all. feed_cap_ls (cap_ls_lines me ls) [] = replicate (length ls - 1) None @ [Some all]
    \<and> str_fields all = concat (map str_fields ls)
    \<and> set (capsToRequest all enabled sasl)
        = {w \<in> set requestedCaps. (w = ''sasl'' \<longrightarrow> sasl) \<and> \<not> enabled w \<and> (\<exists>l \<in> set ls. contains_cap l w)}"
proof -
  let ?all = "concat (map (\<lambda>l. l @ '' '') ls)"
  have "contains_cap ?all w \<longleftrightarrow> (\<exists>l \<in> set ls. contains_cap l w)" for w
    by (auto simp: contains_cap_def str_fields_lines)
  then show ?thesis
    using feed_cap_ls_lines [OF assms, of me "[]"] str_fields_lines [of ls]
    by (intro exI [of _ ?all]) (auto simp: capsToRequest_def)
qed

theorem cap_ls_reassembled_witness:
  "\<exists>all. feed_cap_ls (cap_ls_lines ''me'' [''batch sts=port=6697'', ''chghost'']) [] = [None, Some all]
     \<and> str_fields all = [''batch'', ''sts=port=6697'', ''chghost'']"
proof -
  have ls: "[''batch sts=port=6697'', ''chghost''] \<noteq> []" by simp
  obtain all where "feed_cap_ls (cap_ls_lines ''me'' [''batch sts=port=6697'', ''chghost'']) []
      = replicate (length [''batch sts=port=6697'', ''chghost''] - 1) None @ [Some all]"
    "str_fields all = concat (map str_fields [''batch sts=port=6697'', ''chghost''])"
    using cap_ls_reassembled [OF ls, of "''me''" "\<lambda>_. False" False] by blast
  then show ?thesis by (intro exI [of _ all]) (simp add: str_fields_def go_text)
qed

end
