(* ===== verification/Server_Caps.thy ===== *)
theory Server_Caps
  imports Mode_Parse Irc_Names "HOL-Library.AList"
begin

text \<open>
  What the server advertises: \<open>ServerCapabilities\<close> and the ISUPPORT (005) tokens of
  \<open>internal/irc/client.go\<close>. The map \<open>Prefix\<close> is an association list from prefix characters to mode
  letters whose order is the one in which the map is walked.
\<close>

record ServerCapabilities =
  scPrefix :: "(rune \<times> rune) list"
  scPrefixString :: string
  scChanModes :: string
  scA :: "rune fset"
  scB :: "rune fset"
  scC :: "rune fset"
  scD :: "rune fset"
  scChanTypes :: string
  scCaseMapping :: string
  scUTF8Only :: bool
  scExtbanPrefix :: rune
  scExtbanTypes :: "rune fset"
  scSoftware :: string
  scBotModeChar :: rune
  scLineLen :: int
  scModes :: int
  scStatusMsg :: string
  scTargMax :: "(string \<times> int) list"

definition no_caps :: ServerCapabilities where
  "no_caps = \<lparr>scPrefix = [], scPrefixString = [], scChanModes = [], scA = {||}, scB = {||}, scC = {||}, scD = {||},
     scChanTypes = [], scCaseMapping = [], scUTF8Only = False, scExtbanPrefix = 0, scExtbanTypes = {||},
     scSoftware = [], scBotModeChar = 0, scLineLen = 0, scModes = 0, scStatusMsg = [], scTargMax = []\<rparr>"

definition classification :: "ServerCapabilities \<Rightarrow> ModeClassification" where
  "classification sc =
     (let (a, b, c, d) = (if scA sc = {||} \<and> scB sc = {||} \<and> scC sc = {||} \<and> scD sc = {||}
                          then classifyChanModes defaultChanModes else (scA sc, scB sc, scC sc, scD sc))
      in \<lparr>ListModes = a, ParamModes = b, SetParamModes = c, FlagModes = d,
          PrefixModes = fset_of_list (map snd (scPrefix sc))\<rparr>)"

section \<open>Membership prefixes\<close>

definition prefixForMode :: "rune \<Rightarrow> ServerCapabilities \<Rightarrow> rune option" where
  "prefixForMode letter sc = map_option fst (List.find (\<lambda>p. snd p = letter) (scPrefix sc))"

definition prefixRank :: "ServerCapabilities \<Rightarrow> rune list" where
  "prefixRank sc = (case index_byte (scPrefixString sc) (CHR '')'') of
     Some close \<Rightarrow> runes (drop (Suc close) (scPrefixString sc)) | None \<Rightarrow> [])"

text \<open>Write what is present in rank order, then what is left.\<close>

fun rank_loop :: "rune list \<Rightarrow> rune list \<Rightarrow> rune list" where
  "rank_loop [] present = present"
| "rank_loop (r # rs) present =
     (if r \<in> set present then r # rank_loop rs (removeAll r present) else rank_loop rs present)"

definition applyUserPrefix :: "string \<Rightarrow> rune \<Rightarrow> bool \<Rightarrow> ServerCapabilities \<Rightarrow> string" where
  "applyUserPrefix current modeLetter add sc = (case prefixForMode modeLetter sc of
     None \<Rightarrow> current
   | Some prefixChar \<Rightarrow>
       let present = remdups (runes current);
           present = (if add then (if prefixChar \<in> set present then present else present @ [prefixChar])
                      else removeAll prefixChar present)
       in unrunes (rank_loop (prefixRank sc) present))"

definition standardMembershipPrefixes :: string where "standardMembershipPrefixes = ''~&@%+''"

definition parsePREFIX :: "string \<Rightarrow> ServerCapabilities \<Rightarrow> ServerCapabilities" where
  "parsePREFIX prefixValue sc0 =
     (let sc = sc0\<lparr>scPrefixString := prefixValue, scPrefix := []\<rparr> in
      case index_byte prefixValue (CHR ''('') of
        None \<Rightarrow> sc
      | Some openParen \<Rightarrow>
          (case index_byte (drop openParen prefixValue) (CHR '')'') of
             None \<Rightarrow> sc
           | Some k \<Rightarrow>
               let closeParen = k + openParen;
                   modeRunes = runes (take (closeParen - Suc openParen) (drop (Suc openParen) prefixValue));
                   prefixRunes = runes (drop (Suc closeParen) prefixValue)
               in sc\<lparr>scPrefix := fold (\<lambda>(p, m). AList.update p m) (zip prefixRunes modeRunes) []\<rparr>))"

section \<open>ISUPPORT\<close>

text \<open>The capabilities with the flags and lock-free copies the client keeps beside them.\<close>

record server_state =
  svCaps :: ServerCapabilities
  svWHOX :: bool
  svMonitor :: bool
  svMonitorLimit :: int
  svChanTypes :: "string option"
  svCaseMapping :: "string option"

definition fresh_server :: server_state where
  "fresh_server = \<lparr>svCaps = no_caps, svWHOX = False, svMonitor = False, svMonitorLimit = 0,
     svChanTypes = None, svCaseMapping = None\<rparr>"

definition ChanTypes :: "server_state \<Rightarrow> string" where
  "ChanTypes sv = (case svChanTypes sv of Some p \<Rightarrow> if p \<noteq> [] then p else defaultChanTypes | None \<Rightarrow> defaultChanTypes)"

definition CaseMapping :: "server_state \<Rightarrow> string" where
  "CaseMapping sv = (case svCaseMapping sv of Some p \<Rightarrow> if p \<noteq> [] then p else ''rfc1459'' | None \<Rightarrow> ''rfc1459'')"

definition sameName :: "server_state \<Rightarrow> string \<Rightarrow> string \<Rightarrow> bool" where
  "sameName sv a b \<longleftrightarrow> casefold (CaseMapping sv) a = casefold (CaseMapping sv) b"

definition foldKey :: "server_state \<Rightarrow> string \<Rightarrow> string" where
  "foldKey sv s = casefold (CaseMapping sv) s"

definition isChannelName :: "server_state \<Rightarrow> string \<Rightarrow> bool" where
  "isChannelName sv name = channelNameMatches name (ChanTypes sv)"

definition targmax_entry :: "string \<Rightarrow> (string \<times> int) list \<Rightarrow> (string \<times> int) list" where
  "targmax_entry e result = (case cut_byte (CHR '':'') e of (cmd, limit, ok) \<Rightarrow>
     if \<not> ok \<or> cmd = [] then result
     else if limit = [] then AList.update (to_upper cmd) (-1) result
     else case parse_int64 limit of
       Some n \<Rightarrow> if n > 0 then AList.update (to_upper cmd) n result else result | None \<Rightarrow> result)"

definition parseTargMax :: "string \<Rightarrow> (string \<times> int) list" where
  "parseTargMax value = fold targmax_entry (split_byte (CHR '','') value) []"

definition after :: "string \<Rightarrow> string \<Rightarrow> string" where "after param p = drop (length p) param"

abbreviation upd_caps :: "(ServerCapabilities \<Rightarrow> ServerCapabilities) \<Rightarrow> server_state \<Rightarrow> server_state" where
  "upd_caps f sv \<equiv> sv\<lparr>svCaps := f (svCaps sv)\<rparr>"

definition isupport_switch :: "string \<Rightarrow> server_state \<Rightarrow> server_state" where
  "isupport_switch param sv =
     (if has_prefix param ''PREFIX='' then upd_caps (parsePREFIX (after param ''PREFIX='')) sv
      else if param = ''WHOX'' then sv\<lparr>svWHOX := True\<rparr>
      else if has_prefix param ''CHANTYPES='' then
        upd_caps (\<lambda>sc. sc\<lparr>scChanTypes := after param ''CHANTYPES=''\<rparr>) (sv\<lparr>svChanTypes := Some (after param ''CHANTYPES='')\<rparr>)
      else if has_prefix param ''CASEMAPPING='' then
        upd_caps (\<lambda>sc. sc\<lparr>scCaseMapping := after param ''CASEMAPPING=''\<rparr>)
          (sv\<lparr>svCaseMapping := Some (after param ''CASEMAPPING='')\<rparr>)
      else if param = ''UTF8ONLY'' then upd_caps (\<lambda>sc. sc\<lparr>scUTF8Only := True\<rparr>) sv
      else if has_prefix param ''EXTBAN='' then
        (case parseExtban (after param ''EXTBAN='') of
           Some (pfx, types) \<Rightarrow> upd_caps (\<lambda>sc. sc\<lparr>scExtbanPrefix := pfx, scExtbanTypes := types\<rparr>) sv
         | None \<Rightarrow> sv)
      else if has_prefix param ''BOT='' then
        (case runes (after param ''BOT='') of [l] \<Rightarrow> upd_caps (\<lambda>sc. sc\<lparr>scBotModeChar := l\<rparr>) sv | _ \<Rightarrow> sv)
      else if has_prefix param ''LINELEN='' then
        (case parse_int64 (after param ''LINELEN='') of
           Some n \<Rightarrow> if n > 0 then upd_caps (\<lambda>sc. sc\<lparr>scLineLen := n\<rparr>) sv else sv | None \<Rightarrow> sv)
      else if has_prefix param ''MODES='' then
        (if after param ''MODES='' = [] then upd_caps (\<lambda>sc. sc\<lparr>scModes := -1\<rparr>) sv
         else case parse_int64 (after param ''MODES='') of
           Some n \<Rightarrow> if n > 0 then upd_caps (\<lambda>sc. sc\<lparr>scModes := n\<rparr>) sv else sv | None \<Rightarrow> sv)
      else if has_prefix param ''STATUSMSG='' then upd_caps (\<lambda>sc. sc\<lparr>scStatusMsg := after param ''STATUSMSG=''\<rparr>) sv
      else if has_prefix param ''TARGMAX='' then
        (if parseTargMax (after param ''TARGMAX='') = [] then sv
         else upd_caps (\<lambda>sc. sc\<lparr>scTargMax := parseTargMax (after param ''TARGMAX='')\<rparr>) sv)
      else if has_prefix param ''CHANMODES='' then
        (case classifyChanModes (after param ''CHANMODES='') of (a, b, c, d) \<Rightarrow>
           upd_caps (\<lambda>sc. sc\<lparr>scChanModes := after param ''CHANMODES='', scA := a, scB := b, scC := c, scD := d\<rparr>) sv)
      else sv)"

definition applyISUPPORTToken :: "string \<Rightarrow> server_state \<Rightarrow> server_state" where
  "applyISUPPORTToken param sv =
     (let sv = isupport_switch param sv in
      case parseMonitorLimit param of
        Some limit \<Rightarrow> sv\<lparr>svMonitor := True, svMonitorLimit := limit\<rparr> | None \<Rightarrow> sv)"

text \<open>The callback of 005: the tokens up to the description.\<close>

definition isupport_tokens :: "string list \<Rightarrow> string list" where
  "isupport_tokens params = takeWhile (\<lambda>p. p \<noteq> [] \<and> hd p \<noteq> CHR '':'') (tl params)"

definition handleISUPPORT :: "string list \<Rightarrow> server_state \<Rightarrow> server_state" where
  "handleISUPPORT params sv = (if length params < 2 then sv else fold applyISUPPORTToken (isupport_tokens params) sv)"

definition ExtbanInfo :: "server_state \<Rightarrow> string \<times> string" where
  "ExtbanInfo sv = ((if scExtbanPrefix (svCaps sv) \<noteq> 0 then encode_rune (scExtbanPrefix (svCaps sv)) else []),
     sortedRunes (scExtbanTypes (svCaps sv)))"

definition BotMode :: "server_state \<Rightarrow> string" where
  "BotMode sv = (if scBotModeChar (svCaps sv) = 0 then [] else encode_rune (scBotModeChar (svCaps sv)))"

definition SoftwareFamily :: "server_state \<Rightarrow> string" where
  "SoftwareFamily sv = detectServerFamily (scSoftware (svCaps sv)) (scExtbanPrefix (svCaps sv))"

definition applyMyInfo :: "string list \<Rightarrow> server_state \<Rightarrow> server_state" where
  "applyMyInfo params sv = (if length params < 3 then sv else upd_caps (\<lambda>sc. sc\<lparr>scSoftware := params ! 2\<rparr>) sv)"

section \<open>Properties\<close>

lemma index_byte_at: "c \<notin> set s \<Longrightarrow> index_byte (s @ c # t) c = Some (length s)"
  by (induction s) auto

lemma fold_update_zip:
  "distinct (map fst ps) \<Longrightarrow> fst ` set al \<inter> fst ` set ps = {} \<Longrightarrow>
     fold (\<lambda>(p, m). AList.update p m) ps al = al @ ps"
proof (induction ps arbitrary: al)
  case (Cons q ps)
  obtain p m where q: "q = (p, m)" by (cases q)
  have "p \<notin> fst ` set al" using Cons.prems(2) q by auto
  then have "AList.update p m al = al @ [(p, m)]" by (induction al) auto
  then show ?case using Cons q by auto
qed simp

lemma find_zip_snd:
  "distinct ms \<Longrightarrow> length ps = length ms \<Longrightarrow> i < length ms \<Longrightarrow>
     List.find (\<lambda>q. snd q = ms ! i) (zip ps ms) = Some (ps ! i, ms ! i)"
proof (induction ms arbitrary: ps i)
  case (Cons m ms)
  then obtain p ps' where ps: "ps = p # ps'" "length ps' = length ms" by (cases ps) auto
  show ?case
  proof (cases i)
    case (Suc j)
    then have "ms ! j \<in> set ms" using Cons.prems(3) by simp
    then have "m \<noteq> ms ! j" using Cons.prems(1) by auto
    then show ?thesis using Cons ps Suc by simp
  qed (use ps in simp)
qed simp

text \<open>
  The PREFIX token is read as it is meant: from \<open>(modes)prefixes\<close> the rank is the prefixes in their
  order, the mode at each place belongs to the prefix at the same place, and no other mode has one.
\<close>

theorem parsePREFIX_roundtrip:
  assumes "\<forall>r \<in> set ms \<union> set ps. valid_rune r" "distinct ms" "distinct ps" "length ps = length ms" "41 \<notin> set ms"
  shows "prefixRank (parsePREFIX (''('' @ unrunes ms @ '')'' @ unrunes ps) sc) = ps
    \<and> map (\<lambda>m. prefixForMode m (parsePREFIX (''('' @ unrunes ms @ '')'' @ unrunes ps) sc)) ms = map Some ps
    \<and> {m. prefixForMode m (parsePREFIX (''('' @ unrunes ms @ '')'' @ unrunes ps) sc) \<noteq> None} = set ms"
proof -
  let ?v = "''('' @ unrunes ms @ '')'' @ unrunes ps"
  have v: "\<forall>r \<in> set ms. valid_rune r" "\<forall>r \<in> set ps. valid_rune r" using assms(1) by auto
  have nb: "CHR '')'' \<notin> set (unrunes ms)" using ascii_in_unrunes [OF v(1), of "CHR '')''"] assms(5) by auto
  have i: "index_byte ?v (CHR '')'') = Some (Suc (length (unrunes ms)))"
    using index_byte_at [OF nb, of "unrunes ps"] by simp
  have "parsePREFIX ?v sc = sc\<lparr>scPrefixString := ?v, scPrefix := fold (\<lambda>(p, m). AList.update p m) (zip ps ms) []\<rparr>"
    using i by (simp add: parsePREFIX_def Let_def runes_unrunes v)
  then have p: "parsePREFIX ?v sc = sc\<lparr>scPrefixString := ?v, scPrefix := zip ps ms\<rparr>"
    using fold_update_zip [of "zip ps ms" "[]"] assms(3,4) by simp
  have rank: "prefixRank (parsePREFIX ?v sc) = ps"
    unfolding p prefixRank_def using i by (simp add: runes_unrunes v)
  have "map (\<lambda>m. prefixForMode m (parsePREFIX ?v sc)) ms = map Some ps"
    unfolding p by (rule nth_equalityI) (use assms(2,4) in \<open>simp_all add: prefixForMode_def find_zip_snd\<close>)
  moreover have "prefixForMode m (parsePREFIX ?v sc) \<noteq> None \<longleftrightarrow> m \<in> set ms" for m
  proof -
    have "prefixForMode m (parsePREFIX ?v sc) = None \<longleftrightarrow> m \<notin> snd ` set (zip ps ms)"
      unfolding p by (force simp: prefixForMode_def find_None_iff)
    also have "snd ` set (zip ps ms) = set ms" using assms(4) by (simp flip: set_map)
    finally show ?thesis by argo
  qed
  ultimately show ?thesis using rank by blast
qed

theorem parsePREFIX_roundtrip_witness:
  "prefixRank (parsePREFIX (''('' @ unrunes [111, 118] @ '')'' @ unrunes [64, 43]) no_caps) = [64, 43]
    \<and> prefixForMode 111 (parsePREFIX (''('' @ unrunes [111, 118] @ '')'' @ unrunes [64, 43]) no_caps) = Some 64"
  using parsePREFIX_roundtrip [of "[111, 118]" "[64, 43]" no_caps] by simp

lemma rank_loop_props:
  "distinct present \<Longrightarrow> set (rank_loop rank present) = set present \<and> distinct (rank_loop rank present)
     \<and> subseq (filter (\<lambda>r. r \<in> set rank) (rank_loop rank present)) rank"
proof (induction rank arbitrary: present)
  case Nil
  then show ?case by simp
next
  case (Cons r rs)
  show ?case
  proof (cases "r \<in> set present")
    case True
    have IH: "set (rank_loop rs (removeAll r present)) = set present - {r}"
      "distinct (rank_loop rs (removeAll r present))"
      "subseq (filter (\<lambda>x. x \<in> set rs) (rank_loop rs (removeAll r present))) rs"
      using Cons.IH [of "removeAll r present"] Cons.prems by simp_all
    have "filter (\<lambda>x. x = r \<or> x \<in> set rs) (rank_loop rs (removeAll r present))
        = filter (\<lambda>x. x \<in> set rs) (rank_loop rs (removeAll r present))"
      by (rule filter_cong) (use IH(1) in auto)
    then show ?thesis using True IH by auto
  next
    case False
    have IH: "set (rank_loop rs present) = set present" "distinct (rank_loop rs present)"
      "subseq (filter (\<lambda>x. x \<in> set rs) (rank_loop rs present)) rs"
      using Cons.IH Cons.prems by simp_all
    have "filter (\<lambda>x. x = r \<or> x \<in> set rs) (rank_loop rs present) = filter (\<lambda>x. x \<in> set rs) (rank_loop rs present)"
      by (rule filter_cong) (use IH(1) False in auto)
    then show ?thesis using False IH by auto
  qed
qed

text \<open>
  A membership mode change adds or removes exactly its own prefix in a member's stored prefixes;
  the result holds no prefix twice, and the advertised ones stand in the order of their rank.
\<close>

theorem applyUserPrefix_effect:
  assumes "prefixForMode letter sc = Some p" "valid_rune p"
  shows "set (runes (applyUserPrefix current letter add sc))
      = (if add then insert p (set (runes current)) else set (runes current) - {p})
    \<and> distinct (runes (applyUserPrefix current letter add sc))
    \<and> subseq (filter (\<lambda>r. r \<in> set (prefixRank sc)) (runes (applyUserPrefix current letter add sc))) (prefixRank sc)"
proof -
  let ?d = "remdups (runes current)"
  let ?present = "if add then (if p \<in> set ?d then ?d else ?d @ [p]) else removeAll p ?d"
  have d: "distinct ?present" by auto
  have s: "set ?present = (if add then insert p (set (runes current)) else set (runes current) - {p})" by auto
  have "\<forall>r \<in> set (rank_loop (prefixRank sc) ?present). valid_rune r"
    using rank_loop_props [OF d] s assms(2) runes_valid by (auto split: if_splits)
  then have "runes (applyUserPrefix current letter add sc) = rank_loop (prefixRank sc) ?present"
    using assms(1) by (simp add: applyUserPrefix_def Let_def runes_unrunes)
  then show ?thesis using rank_loop_props [OF d] s by simp
qed

theorem applyUserPrefix_effect_witness:
  "set (runes (applyUserPrefix ''+'' 111 True (parsePREFIX ''(ov)@+'' no_caps))) = {64, 43}"
proof -
  have f: "prefixForMode 111 (parsePREFIX ''(ov)@+'' no_caps) = Some 64"
    by (simp add: prefixForMode_def parsePREFIX_def no_caps_def)
  show ?thesis using applyUserPrefix_effect [OF f, of "''+''" True] by simp
qed

end
