(* ===== verification/Roster_Store.thy ===== *)
theory Roster_Store
  imports Prelude "HOL-Library.List_Lexorder" "HOL-Library.Char_ord" Irc_Names
begin

text \<open>
  The tables the IRC client works on, as \<open>internal/storage/database.go\<close> and its generated queries use
  them: \<open>channels\<close>, \<open>channel_users\<close>, \<open>messages\<close> and the private conversations. A table is the list
  of its rows in insertion order; messages, conversations and buddies are those of the client's network. \<open>LOWER\<close> is SQLite's, which folds ASCII letters only. A closed store
  answers every query with an error (\<open>None\<close>, or \<open>False\<close> for a statement) and changes nothing.
\<close>

record channel =
  chID :: nat
  chNetwork :: nat
  chName :: string
  chTopic :: string
  chModes :: string
  chKey :: string
  chAutoJoin :: bool
  chIsOpen :: bool

record channel_user =
  cuChannel :: nat
  cuNickname :: string
  cuModes :: string

record stored_message =
  smChannel :: "nat option"
  smUser :: string
  smText :: string
  smType :: string
  smTime :: int
  smRaw :: string
  smPM :: string
  smMsgID :: string
  smReply :: string
  smContext :: string

record store =
  stOpen :: bool
  stChannels :: "channel list"
  stUsers :: "channel_user list"
  stMessages :: "stored_message list"
  stPMs :: "(string \<times> bool) list"
  stMonitored :: "string list"
  stNext :: nat

text \<open>\<open>LOWER(a) = LOWER(b)\<close> in SQLite.\<close>

definition sql_lower :: "string \<Rightarrow> string" where
  "sql_lower = map (\<lambda>c. if 65 \<le> byte c \<and> byte c \<le> 90 then char_of (byte c + 32) else c)"

section \<open>Channels\<close>

definition GetChannelByName :: "nat \<Rightarrow> string \<Rightarrow> store \<Rightarrow> channel option" where
  "GetChannelByName net name s = (if \<not> stOpen s then None
     else List.find (\<lambda>c. chNetwork c = net \<and> sql_lower (chName c) = sql_lower name) (stChannels s))"

text \<open>The id of the new row; \<open>UNIQUE(network_id, name)\<close> can refuse it.\<close>

definition CreateChannel :: "channel \<Rightarrow> store \<Rightarrow> nat option \<times> store" where
  "CreateChannel c s =
     (if \<not> stOpen s \<or> (\<exists>d \<in> set (stChannels s). chNetwork d = chNetwork c \<and> chName d = chName c) then (None, s)
      else (Some (stNext s), s\<lparr>stChannels := stChannels s @ [c\<lparr>chID := stNext s, chTopic := [], chModes := []\<rparr>],
        stNext := Suc (stNext s)\<rparr>))"

definition GetChannels :: "nat \<Rightarrow> store \<Rightarrow> channel list option" where
  "GetChannels net s = (if \<not> stOpen s then None
     else Some (sort_key chName (filter (\<lambda>c. chNetwork c = net) (stChannels s))))"

definition update_channel :: "nat \<Rightarrow> (channel \<Rightarrow> channel) \<Rightarrow> store \<Rightarrow> bool \<times> store" where
  "update_channel i f s = (if \<not> stOpen s then (False, s)
     else (True, s\<lparr>stChannels := map (\<lambda>c. if chID c = i then f c else c) (stChannels s)\<rparr>))"

definition UpdateChannelTopic :: "nat \<Rightarrow> string \<Rightarrow> store \<Rightarrow> bool \<times> store" where
  "UpdateChannelTopic i topic = update_channel i (\<lambda>c. c\<lparr>chTopic := topic\<rparr>)"

definition UpdateChannelModes :: "nat \<Rightarrow> string \<Rightarrow> store \<Rightarrow> bool \<times> store" where
  "UpdateChannelModes i modes = update_channel i (\<lambda>c. c\<lparr>chModes := modes\<rparr>)"

definition UpdateChannelKey :: "nat \<Rightarrow> string \<Rightarrow> store \<Rightarrow> bool \<times> store" where
  "UpdateChannelKey i key = update_channel i (\<lambda>c. c\<lparr>chKey := key\<rparr>)"

definition UpdateChannelAutoJoin :: "nat \<Rightarrow> bool \<Rightarrow> store \<Rightarrow> bool \<times> store" where
  "UpdateChannelAutoJoin i auto_join = update_channel i (\<lambda>c. c\<lparr>chAutoJoin := auto_join\<rparr>)"

definition UpdateChannelIsOpen :: "nat \<Rightarrow> bool \<Rightarrow> store \<Rightarrow> bool \<times> store" where
  "UpdateChannelIsOpen i is_open = update_channel i (\<lambda>c. c\<lparr>chIsOpen := is_open\<rparr>)"

section \<open>Members\<close>

definition nick_row :: "nat \<Rightarrow> string \<Rightarrow> channel_user \<Rightarrow> bool" where
  "nick_row i nick u \<longleftrightarrow> cuChannel u = i \<and> sql_lower (cuNickname u) = sql_lower nick"

definition GetJoinedChannels :: "nat \<Rightarrow> string \<Rightarrow> store \<Rightarrow> channel list option" where
  "GetJoinedChannels net nick s = map_option
     (filter (\<lambda>c. \<exists>u \<in> set (stUsers s). nick_row (chID c) nick u)) (GetChannels net s)"

definition GetOpenChannels :: "nat \<Rightarrow> string \<Rightarrow> store \<Rightarrow> channel list option" where
  "GetOpenChannels net nick s = map_option
     (filter (\<lambda>c. chIsOpen c \<or> (\<exists>u \<in> set (stUsers s). nick_row (chID c) nick u))) (GetChannels net s)"

definition GetChannelUsers :: "nat \<Rightarrow> store \<Rightarrow> channel_user list option" where
  "GetChannelUsers i s = (if \<not> stOpen s then None
     else Some (sort_key cuNickname (filter (\<lambda>u. cuChannel u = i) (stUsers s))))"

definition GetChannelUserModes :: "nat \<Rightarrow> string \<Rightarrow> store \<Rightarrow> string option" where
  "GetChannelUserModes i nick s = (if \<not> stOpen s then None
     else map_option cuModes (List.find (nick_row i nick) (stUsers s)))"

text \<open>The upsert: \<open>ON CONFLICT(channel_id, nickname)\<close> compares the nicknames byte by byte.\<close>

definition upsert_user :: "nat \<Rightarrow> string \<Rightarrow> string \<Rightarrow> channel_user list \<Rightarrow> channel_user list" where
  "upsert_user i nick modes us =
     (if \<exists>u \<in> set us. cuChannel u = i \<and> cuNickname u = nick
      then map (\<lambda>u. if cuChannel u = i \<and> cuNickname u = nick then u\<lparr>cuModes := modes\<rparr> else u) us
      else us @ [\<lparr>cuChannel = i, cuNickname = nick, cuModes = modes\<rparr>])"

definition AddChannelUser :: "nat \<Rightarrow> string \<Rightarrow> string \<Rightarrow> store \<Rightarrow> bool \<times> store" where
  "AddChannelUser i nick modes s = (if \<not> stOpen s then (False, s)
     else (True, s\<lparr>stUsers := upsert_user i nick modes (stUsers s)\<rparr>))"

definition AddChannelUsers :: "nat \<Rightarrow> (string \<times> string) list \<Rightarrow> store \<Rightarrow> bool \<times> store" where
  "AddChannelUsers i users s =
     (if users = [] then (True, s) else if \<not> stOpen s then (False, s)
      else (True, s\<lparr>stUsers := fold (\<lambda>(nick, modes). upsert_user i nick modes) users (stUsers s)\<rparr>))"

definition RemoveChannelUser :: "nat \<Rightarrow> string \<Rightarrow> store \<Rightarrow> bool \<times> store" where
  "RemoveChannelUser i nick s = (if \<not> stOpen s then (False, s)
     else (True, s\<lparr>stUsers := filter (\<lambda>u. \<not> nick_row i nick u) (stUsers s)\<rparr>))"

definition ClearChannelUsers :: "nat \<Rightarrow> store \<Rightarrow> bool \<times> store" where
  "ClearChannelUsers i s = (if \<not> stOpen s then (False, s)
     else (True, s\<lparr>stUsers := filter (\<lambda>u. cuChannel u \<noteq> i) (stUsers s)\<rparr>))"

definition net_ids :: "nat \<Rightarrow> store \<Rightarrow> nat list" where
  "net_ids net s = map chID (filter (\<lambda>c. chNetwork c = net) (stChannels s))"

definition ClearNetworkChannelUsers :: "nat \<Rightarrow> store \<Rightarrow> bool \<times> store" where
  "ClearNetworkChannelUsers net s = (if \<not> stOpen s then (False, s)
     else (True, s\<lparr>stUsers := filter (\<lambda>u. cuChannel u \<notin> set (net_ids net s)) (stUsers s)\<rparr>))"

text \<open>
  \<open>UPDATE OR REPLACE\<close>: row by row, a renamed row deletes the other rows that hold its new key.
\<close>

fun rename_rows :: "(channel_user \<Rightarrow> bool) \<Rightarrow> string \<Rightarrow> channel_user list \<Rightarrow> channel_user list \<Rightarrow> channel_user list" where
  "rename_rows P new done [] = done"
| "rename_rows P new done (u # us) =
     (if P u
      then let clash = (\<lambda>v. cuChannel v = cuChannel u \<and> cuNickname v = new) in
        rename_rows P new (filter (\<lambda>v. \<not> clash v) done @ [u\<lparr>cuNickname := new\<rparr>]) (filter (\<lambda>v. \<not> clash v) us)
      else rename_rows P new (done @ [u]) us)"

definition UpdateChannelUserNickname :: "nat \<Rightarrow> string \<Rightarrow> string \<Rightarrow> store \<Rightarrow> bool \<times> store" where
  "UpdateChannelUserNickname net old new s = (if \<not> stOpen s then (False, s)
     else (True, s\<lparr>stUsers := rename_rows
       (\<lambda>u. sql_lower (cuNickname u) = sql_lower old \<and> cuChannel u \<in> set (net_ids net s)) new [] (stUsers s)\<rparr>))"

section \<open>Messages and conversations\<close>

text \<open>
  The rows that \<open>WriteMessageSync\<close> and \<open>WriteHistoryMessages\<close> insert: the partial unique index drops
  a row whose message id is already there in the same conversation.
\<close>

definition same_conversation :: "stored_message \<Rightarrow> stored_message \<Rightarrow> bool" where
  "same_conversation a b \<longleftrightarrow> smChannel a = smChannel b \<and> smPM a = smPM b"

definition insert_message :: "stored_message \<Rightarrow> stored_message list \<Rightarrow> stored_message list" where
  "insert_message m ms =
     (if smMsgID m \<noteq> [] \<and> (\<exists>n \<in> set ms. same_conversation m n \<and> smMsgID n = smMsgID m) then ms else ms @ [m])"

definition WriteMessageSync :: "stored_message \<Rightarrow> store \<Rightarrow> bool \<times> store" where
  "WriteMessageSync m s = (if \<not> stOpen s then (False, s)
     else (True, s\<lparr>stMessages := insert_message m (stMessages s)\<rparr>))"

definition WriteHistoryMessages :: "stored_message list \<Rightarrow> store \<Rightarrow> nat option \<times> store" where
  "WriteHistoryMessages msgs s = (if msgs = [] then (Some 0, s) else if \<not> stOpen s then (None, s)
     else let rows = fold insert_message msgs (stMessages s)
       in (Some (length rows - length (stMessages s)), s\<lparr>stMessages := rows\<rparr>))"

text \<open>
  Whether a conversation was created; \<open>None\<close> is an error. \<open>stPMs\<close> holds the peer and the open flag, the
  conversation updated last first.
\<close>

definition GetOrCreatePMConversation :: "string \<Rightarrow> store \<Rightarrow> bool option \<times> store" where
  "GetOrCreatePMConversation target s = (if \<not> stOpen s then (None, s)
     else let t = to_lower target in
       if \<exists>p \<in> set (stPMs s). fst p = t then (Some False, s)
       else (Some True, s\<lparr>stPMs := (t, True) # stPMs s\<rparr>))"

text \<open>\<open>GetPrivateMessageConversations\<close> with \<open>openOnly\<close>: the peers as they last wrote their nick.\<close>

definition peer_spelling :: "string \<Rightarrow> store \<Rightarrow> string" where
  "peer_spelling target s =
     (case sort_key smTime (filter (\<lambda>m. smChannel m = None \<and> sql_lower (smUser m) = target
         \<and> smType m \<in> {''privmsg'', ''action'', ''notice''}) (stMessages s)) of
       [] \<Rightarrow> target | ms \<Rightarrow> smUser (last ms))"

definition GetOpenPMs :: "store \<Rightarrow> string list option" where
  "GetOpenPMs s = (if \<not> stOpen s then None
     else Some (map (\<lambda>p. peer_spelling (fst p) s) (filter snd (stPMs s))))"

definition GetMonitoredNicks :: "store \<Rightarrow> string list option" where
  "GetMonitoredNicks s = (if \<not> stOpen s then None else Some (stMonitored s))"

end
