(* ===== verification/Irc_Client.thy ===== *)
theory Irc_Client
  imports Server_Caps Roster_Store
begin

text \<open>
  The state of one connection, \<open>IRCClient\<close> of \<open>internal/irc/client.go\<close>, and the operations its
  handlers share: the event and status writers, identity checks, live roster metadata and bots.
  \<open>cOut\<close> is the sequence of effects a client causes: events on the bus, lines handed to the
  library, requests queued for the paced worker. Rows written with \<open>time.Now()\<close> carry \<open>cNow\<close>.
  Events leave out the network, its name and the time, which are the same for all of them.
\<close>

record UserMeta =
  umAway :: bool
  umAwayMessage :: string
  umAccount :: string
  umHost :: string
  umRealname :: string

definition no_meta :: UserMeta where
  "no_meta = \<lparr>umAway = False, umAwayMessage = [], umAccount = [], umHost = [], umRealname = []\<rparr>"

record BanEntry =
  beMask :: string
  beBy :: string
  beTime :: int

record WhoisInfo =
  wiNickname :: string
  wiUsername :: string
  wiHostmask :: string
  wiRealName :: string
  wiServer :: string
  wiServerInfo :: string
  wiChannels :: "string list"
  wiIdle :: int
  wiSignOn :: int
  wiAccount :: string
  wiAway :: string
  wiIsBot :: bool

record ChannelListItem =
  liChannel :: string
  liUsers :: int
  liTopic :: string

text \<open>The data of a message event; fields an emitter does not set are empty.\<close>

record message_data =
  mdChannel :: string
  mdUser :: string
  mdText :: string
  mdAccount :: string
  mdMsgID :: string
  mdUnix :: int
  mdIsAction :: bool
  mdPM :: string
  mdType :: string
  mdReply :: string
  mdContext :: string

definition no_data :: message_data where
  "no_data = \<lparr>mdChannel = [], mdUser = [], mdText = [], mdAccount = [], mdMsgID = [], mdUnix = 0, mdIsAction = False,
     mdPM = [], mdType = [], mdReply = [], mdContext = []\<rparr>"

datatype (plugins only: code) app_event =
    StatusMessage | ChannelsChanged | ConnectionEstablished | ConnectionLost
  | UserJoined (evChannel: string) (evUser: string)
  | UserParted string string string
  | UserQuit string string UserMeta
  | UserKicked string string string string
  | UserNick string string
  | NickChanged string string
  | ChannelMode string string
  | ChannelUserMode string string string string string
  | ChannelTopic string string
  | NamesComplete string "string list"
  | ChannelBanList string "BanEntry list"
  | ChannelListEnd "ChannelListItem list"
  | MessageReceived message_data
  | MessageSent string string string
  | TypingReceived string string string
  | DCCControl string string
  | ErrorEvent string string string
  | BotDetected string
  | UserMetaChanged string UserMeta
  | SelfStatusChanged string bool string
  | InviteReceived string string
  | MonitorChanged string bool
  | WhoisReceived WhoisInfo
  | HistoryReceived string nat nat
  | SASLSuccess
  | SASLFailed string
  | STSPolicyEvent int int bool

datatype auto_request = AutoNames string | AutoHistory string | AutoWHOX string

datatype (plugins only: code) out =
    Event app_event
  | SendRaw string
  | Send "string list"
  | SendLabelled "string list"
  | SendTags "(string \<times> string) list" "string list"
  | Automatic auto_request
  | StartAutoJoin
  | StartTimer nat
  | StopRequests
  | StopCallbacks
  | LibQuit string
  | Panic

record client =
  cNetwork :: nat
  cAddress :: string
  cPort :: int
  cTLS :: bool
  cNickname :: string
  cIdentifyAsBot :: bool
  cConnected :: bool
  cAbandoned :: bool
  cSaslEnabled :: bool
  cSaslAuthenticated :: bool
  cAuthFailed :: bool
  cRegistration :: "bool option"
  cAutoJoin :: "bool option"
  cConnectGen :: nat
  cReconnecting :: bool
  cServer :: server_state
  cEnabledCaps :: "string \<Rightarrow> bool"
  cCapLS :: string
  cChatHistoryMax :: int
  cNames :: "string \<Rightarrow> bool"
  cMonitorStatus :: "string \<rightharpoonup> bool"
  cMonitorArmed :: "string list"
  cWhois :: "string \<rightharpoonup> WhoisInfo"
  cWhoPending :: "string list"
  cKnownBots :: "string \<Rightarrow> bool"
  cUserMeta :: "string \<rightharpoonup> UserMeta"
  cMetaPending :: "string \<rightharpoonup> UserMeta"
  cMetaStopped :: bool
  cChannelList :: "ChannelListItem list"
  cBanLists :: "string \<Rightarrow> BanEntry list"
  cCurrentNick :: string
  cSelfAway :: bool
  cSelfAwayMessage :: string
  cPendingAway :: "string option"
  cCollisionNotified :: bool
  cPendingManualNick :: string
  cPendingJoinKeys :: "string \<rightharpoonup> string"
  cStore :: store
  cNow :: int
  cOut :: "out list"

text \<open>The errors of the commands; \<open>ErrSend\<close> carries the one of the library.\<close>

datatype command_err = ErrInvalidName | ErrNotConnected | ErrSend string | ErrNewline | ErrStore | ErrArgument

section \<open>Effects\<close>

definition emit :: "out \<Rightarrow> client \<Rightarrow> client" where
  "emit x c = c\<lparr>cOut := cOut c @ [x]\<rparr>"

definition stmt :: "(store \<Rightarrow> 'r \<times> store) \<Rightarrow> client \<Rightarrow> client" where
  "stmt f c = c\<lparr>cStore := snd (f (cStore c))\<rparr>"

definition stmt_result :: "(store \<Rightarrow> 'r \<times> store) \<Rightarrow> client \<Rightarrow> 'r" where
  "stmt_result f c = fst (f (cStore c))"

definition plain_row :: "nat option \<Rightarrow> string \<Rightarrow> string \<Rightarrow> string \<Rightarrow> string \<Rightarrow> string \<Rightarrow> client \<Rightarrow> stored_message" where
  "plain_row ch user ty text raw msgid c =
     \<lparr>smChannel = ch, smUser = user, smText = text, smType = ty, smTime = cNow c, smRaw = raw, smPM = [],
      smMsgID = msgid, smReply = [], smContext = []\<rparr>"

definition write_row :: "stored_message \<Rightarrow> client \<Rightarrow> client" where
  "write_row m = stmt (WriteMessageSync m)"

definition writeStatusBuffer :: "stored_message \<Rightarrow> client \<Rightarrow> client" where
  "writeStatusBuffer m c = emit (Event StatusMessage) (write_row m c)"

definition writeStatusLine :: "string \<Rightarrow> string \<Rightarrow> client \<Rightarrow> client" where
  "writeStatusLine ty text c = writeStatusBuffer (plain_row None ''*'' ty text [] [] c) c"

definition find_channel :: "string \<Rightarrow> client \<Rightarrow> channel option" where
  "find_channel name c = GetChannelByName (cNetwork c) name (cStore c)"

definition writeChannelSystemLine :: "string \<Rightarrow> string \<Rightarrow> string \<Rightarrow> client \<Rightarrow> client" where
  "writeChannelSystemLine channel ty text c = (case find_channel channel c of
     None \<Rightarrow> writeStatusLine ty text c
   | Some ch \<Rightarrow> emit (Event (MessageReceived (no_data\<lparr>mdChannel := channel, mdUser := ''*'', mdText := text,
         mdType := ''privmsg''\<rparr>)))
       (write_row (plain_row (Some (chID ch)) ''*'' ty text [] [] c) c))"

text \<open>\<open>\%q\<close>, exact on printable ASCII.\<close>

definition quoted :: "string \<Rightarrow> string" where
  "quoted s = [CHR 0x22] @ concat (map (\<lambda>x. if x = CHR 0x22 \<or> x = CHR 0x5C then [CHR 0x5C, x] else [x]) s) @ [CHR 0x22]"

section \<open>Identity\<close>

definition CurrentNick :: "client \<Rightarrow> string" where
  "CurrentNick c = (if cCurrentNick c = [] then cNickname c else cCurrentNick c)"

definition same :: "client \<Rightarrow> string \<Rightarrow> string \<Rightarrow> bool" where
  "same c a b = sameName (cServer c) a b"

definition isMe :: "client \<Rightarrow> string \<Rightarrow> bool" where
  "isMe c nick = same c nick (CurrentNick c)"

definition isEchoMessage :: "message \<Rightarrow> client \<Rightarrow> bool" where
  "isEchoMessage e c =
     (if \<not> cEnabledCaps c ''echo-message'' then False
      else same c (Nick e) (if cCurrentNick c = [] then cNickname c else cCurrentNick c))"

definition pmPeer :: "client \<Rightarrow> string \<Rightarrow> string \<Rightarrow> string" where
  "pmPeer c sender target = (if isMe c sender then target else sender)"

text \<open>The check of the routing code for a channel target, which does not ask CHANTYPES.\<close>

definition hash_target :: "string \<Rightarrow> bool" where
  "hash_target t = (case t of [] \<Rightarrow> False | x # _ \<Rightarrow> x = CHR ''#'' \<or> x = CHR ''&'')"

definition noticePMTarget :: "client \<Rightarrow> string \<Rightarrow> string \<Rightarrow> string \<Rightarrow> string" where
  "noticePMTarget c source sender target =
     (if \<not> sourceIsUser source then []
      else if target = [] \<or> target = ''*'' then []
      else if hash_target target then []
      else pmPeer c sender target)"

section \<open>Bots and roster metadata\<close>

definition markBot :: "string \<Rightarrow> client \<Rightarrow> client" where
  "markBot nick c =
     (if nick = [] then c
      else let key = foldKey (cServer c) nick in
        if cKnownBots c key then c
        else emit (Event (BotDetected key)) (c\<lparr>cKnownBots := (cKnownBots c)(key := True)\<rparr>))"

fun bot_mode_loop :: "rune \<Rightarrow> bool \<Rightarrow> rune list \<Rightarrow> client \<Rightarrow> client" where
  "bot_mode_loop botChar adding [] c = c"
| "bot_mode_loop botChar adding (r # rs) c =
     (if r = 43 then bot_mode_loop botChar True rs c
      else if r = 45 then bot_mode_loop botChar False rs c
      else if r = botChar \<and> adding then bot_mode_loop botChar adding rs (markBot (CurrentNick c) c)
      else bot_mode_loop botChar adding rs c)"

definition markSelfBotFromUserMode :: "string \<Rightarrow> string \<Rightarrow> client \<Rightarrow> client" where
  "markSelfBotFromUserMode target modeStr c =
     (if \<not> same c target (CurrentNick c) then c
      else let botChar = scBotModeChar (svCaps (cServer c)) in
        if botChar = 0 then c else bot_mode_loop botChar True (runes modeStr) c)"

definition maybeMarkBotFromTag :: "message \<Rightarrow> client \<Rightarrow> client" where
  "maybeMarkBotFromTag e c = (if GetTag e ''bot'' \<noteq> None then markBot (Nick e) c else c)"

definition emitUserMeta :: "string \<Rightarrow> UserMeta \<Rightarrow> client \<Rightarrow> client" where
  "emitUserMeta key meta c = c\<lparr>cMetaPending := (cMetaPending c)(key \<mapsto> meta)\<rparr>"

definition applyUserMeta :: "string \<Rightarrow> (UserMeta \<Rightarrow> UserMeta) \<Rightarrow> client \<Rightarrow> client" where
  "applyUserMeta nick f c =
     (if nick = [] then c
      else let key = foldKey (cServer c) nick;
               current = (case cUserMeta c key of Some m \<Rightarrow> m | None \<Rightarrow> no_meta);
               updated = f current
        in if updated = current then c
           else emitUserMeta key updated (c\<lparr>cUserMeta := (cUserMeta c)(key \<mapsto> updated)\<rparr>))"

definition renameUserMeta :: "string \<Rightarrow> string \<Rightarrow> client \<Rightarrow> client" where
  "renameUserMeta old new c =
     (if old = [] \<or> new = [] then c
      else let oldKey = foldKey (cServer c) old; newKey = foldKey (cServer c) new in
        if oldKey = newKey then c
        else case cUserMeta c oldKey of None \<Rightarrow> c
          | Some m \<Rightarrow> emitUserMeta newKey m (c\<lparr>cUserMeta := (cUserMeta c)(oldKey := None, newKey \<mapsto> m)\<rparr>))"

definition removeUserMeta :: "string \<Rightarrow> client \<Rightarrow> client" where
  "removeUserMeta nick c =
     (if nick = [] then c else c\<lparr>cUserMeta := (cUserMeta c)(foldKey (cServer c) nick := None)\<rparr>)"

definition UserMetaFor :: "string \<Rightarrow> client \<Rightarrow> UserMeta option" where
  "UserMetaFor nick c = cUserMeta c (foldKey (cServer c) nick)"

definition accountFor :: "string \<Rightarrow> client \<Rightarrow> string" where
  "accountFor nick c = (case UserMetaFor nick c of Some m \<Rightarrow> umAccount m | None \<Rightarrow> [])"

text \<open>The forwarder: the pending snapshots, in the order \<open>ord\<close> of the map walks, go to the snapshot lane.\<close>

fun drainMetaPending :: "string list \<Rightarrow> client \<Rightarrow> client" where
  "drainMetaPending [] c = c"
| "drainMetaPending (k # ord) c = (case cMetaPending c k of
     None \<Rightarrow> drainMetaPending ord c
   | Some m \<Rightarrow> drainMetaPending ord
       (emit (Event (UserMetaChanged k m)) (c\<lparr>cMetaPending := (cMetaPending c)(k := None)\<rparr>)))"

definition stopMetaEmitter :: "client \<Rightarrow> client" where
  "stopMetaEmitter c = c\<lparr>cMetaStopped := True\<rparr>"

definition star_empty :: "string \<Rightarrow> string" where
  "star_empty account = (if account = ''*'' then [] else account)"

definition maybeApplyAccountTag :: "message \<Rightarrow> client \<Rightarrow> client" where
  "maybeApplyAccountTag e c = (case GetTag e ''account'' of None \<Rightarrow> c
     | Some account \<Rightarrow> applyUserMeta (Nick e) (\<lambda>m. m\<lparr>umAccount := star_empty account\<rparr>) c)"

definition maybeApplyExtendedJoin :: "message \<Rightarrow> client \<Rightarrow> client" where
  "maybeApplyExtendedJoin e c =
     (if \<not> cEnabledCaps c ''extended-join'' \<or> length (mParams e) < 2 then c
      else let account = star_empty (mParams e ! 1);
               realname = (if length (mParams e) \<ge> 3 then mParams e ! 2 else [])
        in applyUserMeta (Nick e)
             (\<lambda>m. let m = m\<lparr>umAccount := account\<rparr> in if realname \<noteq> [] then m\<lparr>umRealname := realname\<rparr> else m) c)"

definition handleAway :: "message \<Rightarrow> client \<Rightarrow> client" where
  "handleAway e c = (let message = (case mParams e of [] \<Rightarrow> [] | p # _ \<Rightarrow> p) in
     applyUserMeta (Nick e) (\<lambda>m. m\<lparr>umAway := (message \<noteq> []), umAwayMessage := message\<rparr>) c)"

definition handleAccount :: "message \<Rightarrow> client \<Rightarrow> client" where
  "handleAccount e c = (case mParams e of [] \<Rightarrow> c
     | account # _ \<Rightarrow> applyUserMeta (Nick e) (\<lambda>m. m\<lparr>umAccount := star_empty account\<rparr>) c)"

definition handleChghost :: "message \<Rightarrow> client \<Rightarrow> client" where
  "handleChghost e c = (case mParams e of u # h # _ \<Rightarrow>
       applyUserMeta (Nick e) (\<lambda>m. m\<lparr>umHost := u @ ''@'' @ h\<rparr>) c
     | _ \<Rightarrow> c)"

definition handleSetname :: "message \<Rightarrow> client \<Rightarrow> client" where
  "handleSetname e c = (case mParams e of [] \<Rightarrow> c
     | realname # _ \<Rightarrow> applyUserMeta (Nick e) (\<lambda>m. m\<lparr>umRealname := realname\<rparr>) c)"

section \<open>Capabilities and time\<close>

definition capEnabled :: "string \<Rightarrow> client \<Rightarrow> bool" where "capEnabled name c = cEnabledCaps c name"

definition chatHistoryEnabled :: "client \<Rightarrow> bool" where
  "chatHistoryEnabled c \<longleftrightarrow> cEnabledCaps c ''chathistory'' \<or> cEnabledCaps c ''draft/chathistory''"

definition setChatHistoryMax :: "string \<Rightarrow> client \<Rightarrow> client" where
  "setChatHistoryMax value c = (case parse_int64 (trim_space value) of
     Some n \<Rightarrow> if n \<le> 0 then c else c\<lparr>cChatHistoryMax := n\<rparr> | None \<Rightarrow> c)"

definition defaultChatHistoryLimit :: int where "defaultChatHistoryLimit = 100"

definition clampChatHistoryLimit :: "int \<Rightarrow> client \<Rightarrow> int" where
  "clampChatHistoryLimit limit c =
     (let limit = (if limit \<le> 0 then defaultChatHistoryLimit else limit) in
      if cChatHistoryMax c > 0 \<and> limit > cChatHistoryMax c then cChatHistoryMax c else limit)"

text \<open>\<open>tm\<close> parses a time tag: RFC 3339 with or without fractions.\<close>

definition tag_time :: "(string \<Rightarrow> int option) \<Rightarrow> message \<Rightarrow> client \<Rightarrow> int" where
  "tag_time tm e c = (case GetTag e ''time'' of
     Some v \<Rightarrow> if v = [] then cNow c else (case tm v of Some t \<Rightarrow> t | None \<Rightarrow> cNow c) | None \<Rightarrow> cNow c)"

definition getMessageTime :: "(string \<Rightarrow> int option) \<Rightarrow> message \<Rightarrow> client \<Rightarrow> int" where
  "getMessageTime tm e c = (if cEnabledCaps c ''server-time'' then tag_time tm e c else cNow c)"

definition getChannelContext :: "message \<Rightarrow> client \<Rightarrow> string" where
  "getChannelContext e c =
     (let v = firstTag e [''+draft/channel-context'', ''+channel-context''] in
      if v = [] \<or> \<not> isChannelName (cServer c) v then [] else v)"

end
