(* ===== verification/Irc_Roster.thy ===== *)
theory Irc_Roster
  imports Irc_Client
begin

text \<open>
  The handlers of \<open>internal/irc/client.go\<close> and \<open>recovery.go\<close> that keep the channels and their members:
  JOIN, PART, QUIT, KICK, MODE, NICK, the NAMES replies, topics, ban lists, refused and forwarded
  joins, and the channel keys. A handler that reads a parameter the message does not have panics; the
  callback worker catches that before anything was changed (\<open>Panic\<close>).
\<close>

section \<open>Channel keys\<close>

definition recordPendingJoinKey :: "string \<Rightarrow> string \<Rightarrow> client \<Rightarrow> client" where
  "recordPendingJoinKey channel key c =
     c\<lparr>cPendingJoinKeys := (cPendingJoinKeys c)(foldKey (cServer c) channel \<mapsto> key)\<rparr>"

definition takePendingJoinKey :: "string \<Rightarrow> client \<Rightarrow> string option \<times> client" where
  "takePendingJoinKey channel c =
     (let folded = foldKey (cServer c) channel
      in (cPendingJoinKeys c folded, c\<lparr>cPendingJoinKeys := (cPendingJoinKeys c)(folded := None)\<rparr>))"

definition persistPendingJoinKey :: "string \<Rightarrow> channel \<Rightarrow> client \<Rightarrow> client" where
  "persistPendingJoinKey channel ch c = (case takePendingJoinKey channel c of
       (None, c) \<Rightarrow> c
     | (Some key, c) \<Rightarrow> if chKey ch = key then c else stmt (UpdateChannelKey (chID ch) key) c)"

section \<open>JOIN, PART, QUIT, KICK\<close>

definition joined_channel :: "string \<Rightarrow> client \<Rightarrow> channel option \<times> bool \<times> client" where
  "joined_channel channel c = (case find_channel channel c of
     Some ch \<Rightarrow> (Some ch, False, c)
   | None \<Rightarrow>
       let new = \<lparr>chID = 0, chNetwork = cNetwork c, chName = channel, chTopic = [], chModes = [], chKey = [],
                  chAutoJoin = False, chIsOpen = False\<rparr>
       in (case CreateChannel new (cStore c) of
             (Some i, s) \<Rightarrow> (Some (new\<lparr>chID := i\<rparr>), True, c\<lparr>cStore := s\<rparr>)
           | (None, s) \<Rightarrow> (None, False, c)))"

definition namesOnSelfJoin :: "string \<Rightarrow> client \<Rightarrow> string" where
  "namesOnSelfJoin channel c =
     (if channel = [] \<or> \<not> capEnabled ''no-implicit-names'' c then [] else ''NAMES '' @ channel)"

definition open_joined :: "string \<Rightarrow> channel \<Rightarrow> client \<Rightarrow> client" where
  "open_joined channel ch c =
     persistPendingJoinKey channel ch
       (if chIsOpen ch then c else stmt (UpdateChannelIsOpen (chID ch) True) c)"

definition handleJoin :: "message \<Rightarrow> client \<Rightarrow> client" where
  "handleJoin e c = (case mParams e of [] \<Rightarrow> emit Panic c | channel # _ \<Rightarrow>
     let user = Nick e;
         c = maybeApplyExtendedJoin e (maybeApplyAccountTag e (maybeMarkBotFromTag e c));
         (found, created, c) = joined_channel channel c;
         updated = (case found of Some ch \<Rightarrow> isMe c user \<and> \<not> chIsOpen ch | None \<Rightarrow> False);
         c = (case found of Some ch \<Rightarrow> if isMe c user then open_joined channel ch c else c | None \<Rightarrow> c);
         c = (case found of Some ch \<Rightarrow> stmt (AddChannelUser (chID ch) user []) c | None \<Rightarrow> c);
         c = (if isMe c user \<and> namesOnSelfJoin channel c \<noteq> [] then emit (Automatic (AutoNames channel)) c else c);
         c = (case found of Some ch \<Rightarrow>
                write_row (plain_row (Some (chID ch)) user ''join'' (user @ '' joined the channel'') (mRaw e) (getMsgID e) c) c
              | None \<Rightarrow> c);
         c = emit (Event (UserJoined channel user)) c
     in if created \<or> (updated \<and> isMe c user) then emit (Event ChannelsChanged) c else c)"

definition in_parens :: "string \<Rightarrow> string" where
  "in_parens reason = (if reason \<noteq> [] then '' ('' @ reason @ '')'' else [])"

definition nth_param :: "message \<Rightarrow> nat \<Rightarrow> string" where
  "nth_param e i = (if i < length (mParams e) then mParams e ! i else [])"

text \<open>A member leaves a channel, and the channel closes when it was us.\<close>

definition leave :: "channel \<Rightarrow> string \<Rightarrow> client \<Rightarrow> client" where
  "leave ch user c =
     (let c = stmt (RemoveChannelUser (chID ch) user) c
      in if isMe c user then stmt (UpdateChannelIsOpen (chID ch) False) c else c)"

definition handlePart :: "message \<Rightarrow> client \<Rightarrow> client" where
  "handlePart e c = (case mParams e of [] \<Rightarrow> emit Panic c | channel # _ \<Rightarrow>
     let user = Nick e; reason = nth_param e 1; found = find_channel channel c;
         c = (case found of Some ch \<Rightarrow>
                let c = leave ch user c
                in write_row (plain_row (Some (chID ch)) user ''part'' (user @ '' left the channel'' @ in_parens reason)
                     (mRaw e) (getMsgID e) c) c
              | None \<Rightarrow> c);
         c = emit (Event (UserParted channel user reason)) c
     in if found \<noteq> None \<and> isMe c user then emit (Event ChannelsChanged) c else c)"

text \<open>QUIT, for one channel: only a listed member is removed and gets a line.\<close>

definition quit_channel :: "message \<Rightarrow> channel \<Rightarrow> client \<Rightarrow> client" where
  "quit_channel e ch c =
     (case GetChannelUsers (chID ch) (cStore c) of
        None \<Rightarrow> c
      | Some users \<Rightarrow>
          (case List.find (\<lambda>u. same c (cuNickname u) (Nick e)) users of
             None \<Rightarrow> c
           | Some _ \<Rightarrow>
               let c = stmt (RemoveChannelUser (chID ch) (Nick e)) c
               in write_row (plain_row (Some (chID ch)) (Nick e) ''quit'' (Nick e @ '' quit'' @ in_parens (nth_param e 0))
                    (mRaw e) (getMsgID e) c) c))"

definition handleQuit :: "message \<Rightarrow> client \<Rightarrow> client" where
  "handleQuit e c =
     (let user = Nick e;
          meta = (case UserMetaFor user c of Some m \<Rightarrow> m | None \<Rightarrow> no_meta);
          c = removeUserMeta user c;
          c = (case GetChannels (cNetwork c) (cStore c) of None \<Rightarrow> c | Some chs \<Rightarrow> fold (quit_channel e) chs c)
      in emit (Event (UserQuit user (nth_param e 0) meta)) c)"

definition handleKick :: "message \<Rightarrow> client \<Rightarrow> client" where
  "handleKick e c =
     (if length (mParams e) < 2 then c
      else let channel = mParams e ! 0; kicked = mParams e ! 1; kicker = Nick e; reason = nth_param e 2;
               found = find_channel channel c;
               c = (case found of Some ch \<Rightarrow>
                      let c = leave ch kicked c
                      in write_row (plain_row (Some (chID ch)) kicker ''kick'' (kicker @ '' kicked '' @ kicked @ in_parens reason)
                           (mRaw e) (getMsgID e) c) c
                    | None \<Rightarrow> c);
               c = emit (Event (UserKicked channel kicker kicked reason)) c
        in if found \<noteq> None \<and> isMe c kicked then emit (Event ChannelsChanged) c else c)"

section \<open>MODE\<close>

definition member_mode :: "channel \<Rightarrow> string \<Rightarrow> ModeChange \<Rightarrow> client \<Rightarrow> client" where
  "member_mode ch target mc c =
     (if mcKind mc \<noteq> ModeKindPrefix \<or> mcParam mc = [] then c
      else case GetChannelUserModes (chID ch) (mcParam mc) (cStore c) of
        None \<Rightarrow> c
      | Some current \<Rightarrow>
          let updated = applyUserPrefix current (mcMode mc) (mcAdd mc) (svCaps (cServer c)) in
          if updated = current then c
          else if \<not> stmt_result (AddChannelUser (chID ch) (mcParam mc) updated) c then c
          else emit (Event (ChannelUserMode target (mcParam mc) updated
                 (if mcAdd mc then encode_rune (mcMode mc) else []) (if mcAdd mc then [] else encode_rune (mcMode mc))))
               (stmt (AddChannelUser (chID ch) (mcParam mc) updated) c))"

definition handleMode :: "message \<Rightarrow> client \<Rightarrow> client" where
  "handleMode e c =
     (if length (mParams e) < 2 then c
      else let target = mParams e ! 0 in
        if \<not> hash_target target then markSelfBotFromUserMode target (mParams e ! 1) c
        else case find_channel target c of None \<Rightarrow> c
        | Some ch \<Rightarrow>
            let cls = classification (svCaps (cServer c));
                changes = ParseModeChanges (mParams e ! 1) (drop 2 (mParams e)) cls;
                actor = (if Nick e = [] then mSource e else Nick e);
                c = (if changes \<noteq> [] then write_row (plain_row (Some (chID ch)) actor ''mode''
                       (actor @ '' sets mode: '' @ join '' '' (tl (mParams e))) (mRaw e) (getMsgID e) c) c else c);
                newModes = applyChannelModes (chModes ch) changes cls;
                c = (if newModes \<noteq> chModes ch then stmt (UpdateChannelModes (chID ch) newModes) c else c);
                c = emit (Event (ChannelMode target newModes)) c
            in fold (member_mode ch target) changes c)"

text \<open>324 replaces the stored modes.\<close>

definition handleChannelModeIs :: "message \<Rightarrow> client \<Rightarrow> client" where
  "handleChannelModeIs e c =
     (if length (mParams e) < 3 then c
      else case find_channel (mParams e ! 1) c of None \<Rightarrow> c
      | Some ch \<Rightarrow>
          let cls = classification (svCaps (cServer c));
              newModes = applyChannelModes [] (ParseModeChanges (mParams e ! 2) (drop 3 (mParams e)) cls) cls
          in if \<not> stmt_result (UpdateChannelModes (chID ch) newModes) c then c
             else emit (Event (ChannelMode (mParams e ! 1) newModes)) (stmt (UpdateChannelModes (chID ch) newModes) c))"

section \<open>Refused and forwarded joins\<close>

definition close_phantom :: "string \<Rightarrow> client \<Rightarrow> client" where
  "close_phantom channel c = (case find_channel channel c of
     Some ch \<Rightarrow> emit (Event ChannelsChanged) (stmt (UpdateChannelIsOpen (chID ch) False) c) | None \<Rightarrow> c)"

definition handleForwardedJoin :: "message \<Rightarrow> client \<Rightarrow> client" where
  "handleForwardedJoin e c =
     (if length (mParams e) < 3 then c
      else let from = mParams e ! 1; to = mParams e ! 2
        in writeStatusLine ''status''
             (from @ '' is forwarding new joins to '' @ to @ '' '' @ encode_rune 0x2014 @ '' you were redirected there.'')
             (close_phantom from c))"

definition joinErrorReasons :: "(string \<times> string) list" where
  "joinErrorReasons =
     [(''471'', ''the channel is full (+l)''), (''473'', ''the channel is invite-only (+i)''),
      (''474'', ''you are banned from the channel''), (''475'', ''the channel key is wrong (+k)''),
      (''477'', ''the channel requires a registered, identified nick (+r) '' @ encode_rune 0x2014 @ '' identify and rejoin'')]"

definition handleJoinError :: "message \<Rightarrow> client \<Rightarrow> client" where
  "handleJoinError e c =
     (if length (mParams e) < 2 then c
      else let channel = mParams e ! 1;
               reason = (case map_of joinErrorReasons (mCommand e) of Some r \<Rightarrow> r | None \<Rightarrow> ''the server rejected the join'');
               serverText = (if length (mParams e) \<ge> 3 then last (mParams e) else [])
        in writeStatusLine ''status''
             (''Couldn't join '' @ channel @ '': '' @ reason @ ''.''
               @ (if serverText \<noteq> [] then '' ('' @ serverText @ '')'' else []))
             (close_phantom channel c))"

section \<open>NICK\<close>

definition handleNickMessage :: "message \<Rightarrow> client \<Rightarrow> client" where
  "handleNickMessage e c = (case mParams e of [] \<Rightarrow> emit Panic c | newNick # _ \<Rightarrow>
     let oldNick = Nick e;
         c = stmt (UpdateChannelUserNickname (cNetwork c) oldNick newNick) c;
         c = renameUserMeta oldNick newNick c;
         c = emit (Event (UserNick oldNick newNick)) c
     in if \<not> same c oldNick (cCurrentNick c) then c
        else let reclaimed = same c newNick (cNickname c);
                 c = c\<lparr>cCurrentNick := newNick, cPendingManualNick := [],
                       cCollisionNotified := (if reclaimed then False else cCollisionNotified c)\<rparr>;
                 c = emit (Event (NickChanged newNick (cNickname c))) c
          in if reclaimed then writeStatusLine ''status'' (''Reclaimed your preferred nick '' @ quoted (cNickname c) @ ''.'') c
             else c)"

section \<open>NAMES\<close>

text \<open>One word of a 353 line: the prefixes, the nick, the user and host.\<close>

definition names_entry :: "string \<Rightarrow> string \<Rightarrow> string \<times> string \<times> string" where
  "names_entry validPrefixes word =
     (let (modes, rest) = splitMembershipPrefixes word validPrefixes; (nickname, userhost) = splitNickUserHost rest
      in (nickname, modes, userhost))"

definition names_meta :: "string \<times> string \<times> string \<Rightarrow> client \<Rightarrow> client" where
  "names_meta = (\<lambda>(nickname, modes, userhost) c.
     if nickname \<noteq> [] \<and> userhost \<noteq> [] then applyUserMeta nickname (\<lambda>m. m\<lparr>umHost := userhost\<rparr>) c else c)"

definition valid_prefixes :: "client \<Rightarrow> string" where
  "valid_prefixes c = (let v = unrunes (prefixRank (svCaps (cServer c)))
     in if v = [] then standardMembershipPrefixes else v)"

definition handleNamReply :: "message \<Rightarrow> client \<Rightarrow> client" where
  "handleNamReply e c =
     (if length (mParams e) < 4 then c
      else let channel = mParams e ! 2; namesList = mParams e ! 3 in
        case find_channel channel c of None \<Rightarrow> c
        | Some ch \<Rightarrow>
            let key = foldKey (cServer c) channel;
                c = (if cNames c key then c
                     else stmt (ClearChannelUsers (chID ch)) (c\<lparr>cNames := (cNames c)(key := True)\<rparr>));
                entries = map (names_entry (valid_prefixes c)) (str_fields namesList);
                c = fold names_meta entries c;
                users = map (\<lambda>(n, m, _). (n, m)) (filter (\<lambda>(n, _, _). n \<noteq> []) entries)
            in stmt (AddChannelUsers (chID ch) users) c)"

definition enqueuePostNamesRequests :: "string \<Rightarrow> client \<Rightarrow> client" where
  "enqueuePostNamesRequests channel c =
     (let c = (if chatHistoryEnabled c then emit (Automatic (AutoHistory channel)) c else c)
      in if svWHOX (cServer c) then emit (Automatic (AutoWHOX channel)) c else c)"

definition handleEndOfNames :: "message \<Rightarrow> client \<Rightarrow> client" where
  "handleEndOfNames e c =
     (if length (mParams e) < 2 then c
      else let channel = mParams e ! 1;
               c = c\<lparr>cNames := (cNames c)(foldKey (cServer c) channel := False)\<rparr>;
               users = (case find_channel channel c of None \<Rightarrow> []
                 | Some ch \<Rightarrow> (case GetChannelUsers (chID ch) (cStore c) of None \<Rightarrow> [] | Some us \<Rightarrow> map cuNickname us))
        in enqueuePostNamesRequests channel (emit (Event (NamesComplete channel users)) c))"

section \<open>Topics and ban lists\<close>

definition set_topic :: "string \<Rightarrow> string \<Rightarrow> client \<Rightarrow> client" where
  "set_topic channel topic c =
     emit (Event (ChannelTopic channel topic))
       (case find_channel channel c of Some ch \<Rightarrow> stmt (UpdateChannelTopic (chID ch) topic) c | None \<Rightarrow> c)"

definition handleTopicReply :: "message \<Rightarrow> client \<Rightarrow> client" where
  "handleTopicReply e c = (if length (mParams e) < 3 then c else set_topic (mParams e ! 1) (mParams e ! 2) c)"

definition handleTopic :: "message \<Rightarrow> client \<Rightarrow> client" where
  "handleTopic e c = (if length (mParams e) < 2 then c else set_topic (mParams e ! 0) (nth_param e 1) c)"

definition handleTopicWhoTime :: "(int \<Rightarrow> string) \<Rightarrow> message \<Rightarrow> client \<Rightarrow> client" where
  "handleTopicWhoTime fmt e c =
     (if length (mParams e) < 4 then c
      else writeChannelSystemLine (mParams e ! 1) ''status''
             (formatTopicWhoTime fmt (mParams e ! 2) (sscanf_d (mParams e ! 3) 0)) c)"

definition handleNoTopic :: "message \<Rightarrow> client \<Rightarrow> client" where
  "handleNoTopic e c =
     (if length (mParams e) < 2 then c
      else writeChannelSystemLine (mParams e ! 1) ''status''
             (if length (mParams e) \<ge> 3 \<and> last (mParams e) \<noteq> [] then last (mParams e) else ''No topic is set'') c)"

definition handleBanList :: "message \<Rightarrow> client \<Rightarrow> client" where
  "handleBanList e c =
     (if length (mParams e) < 3 then c
      else let key = foldKey (cServer c) (mParams e ! 1);
               entry = \<lparr>beMask = mParams e ! 2, beBy = nth_param e 3,
                 beTime = (if length (mParams e) \<ge> 5 then sscanf_d (mParams e ! 4) 0 else 0)\<rparr>
        in c\<lparr>cBanLists := (cBanLists c)(key := cBanLists c key @ [entry])\<rparr>)"

definition handleEndOfBanList :: "message \<Rightarrow> client \<Rightarrow> client" where
  "handleEndOfBanList e c =
     (if length (mParams e) < 2 then c
      else let channel = mParams e ! 1; key = foldKey (cServer c) channel; entries = cBanLists c key
        in emit (Event (ChannelBanList channel entries)) (c\<lparr>cBanLists := (cBanLists c)(key := [])\<rparr>))"

text \<open>482 and 442: the error goes to the channel it names, when we have that channel.\<close>

definition handleChannelError :: "string \<Rightarrow> string \<Rightarrow> message \<Rightarrow> client \<Rightarrow> client" where
  "handleChannelError code fallback e c =
     (let channel = nth_param e 1;
          errorMsg = (if length (mParams e) \<ge> 3 then mParams e ! 2 else fallback);
          ch = (if hash_target channel then map_option chID (find_channel channel c) else None)
      in emit (Event (ErrorEvent channel errorMsg code))
           (write_row (plain_row ch ''*'' ''error'' (''Error: '' @ errorMsg) (mRaw e) [] c) c))"

section \<open>Joining and parting\<close>

text \<open>\<open>ValidateChannelName\<close> of \<open>validation/validator.go\<close>; \<open>ans\<close> is the library's answer to a send.\<close>

definition JoinChannelWithKey :: "(string \<Rightarrow> bool) \<Rightarrow> string option \<Rightarrow> string \<Rightarrow> string \<Rightarrow> client \<Rightarrow> (command_err + unit) \<times> client" where
  "JoinChannelWithKey valid ans channel key c =
     (if \<not> valid channel then (Err ErrInvalidName, c)
      else if \<not> cConnected c then (Err ErrNotConnected, c)
      else let c = emit (Send (if key \<noteq> [] then [''JOIN'', channel, key] else [''JOIN'', channel])) c
        in case ans of Some e \<Rightarrow> (Err (ErrSend e), c) | None \<Rightarrow> (Ok (), recordPendingJoinKey channel key c))"

definition PartChannelWithReason :: "string option \<Rightarrow> string \<Rightarrow> string \<Rightarrow> client \<Rightarrow> (command_err + unit) \<times> client" where
  "PartChannelWithReason ans channel reason c =
     (if \<not> cConnected c then (Err ErrNotConnected, c)
      else (case ans of Some e \<Rightarrow> Err (ErrSend e) | None \<Rightarrow> Ok (),
            emit (Send (if reason = [] then [''PART'', channel] else [''PART'', channel, reason])) c))"

definition channelsToJoin :: "bool \<Rightarrow> client \<Rightarrow> channel list option" where
  "channelsToJoin reconnect c =
     (if reconnect
      then map_option (filter (\<lambda>ch. isChannelName (cServer c) (chName ch))) (GetOpenChannels (cNetwork c) (cNickname c) (cStore c))
      else map_option (filter (\<lambda>ch. chAutoJoin ch \<and> isChannelName (cServer c) (chName ch))) (GetChannels (cNetwork c) (cStore c)))"

end
