(* ===== verification/Irc_Presence.thy ===== *)
theory Irc_Presence
  imports Irc_Client
begin

text \<open>
  The queries of \<open>internal/irc/client.go\<close> and the handlers of their replies: MONITOR presence, the
  extended WHO that seeds the roster, the WHO of the user, WHOIS and LIST. \<open>ok\<close> says of a line whether
  the library accepts it.
\<close>

section \<open>MONITOR\<close>

definition monitorSupported :: "client \<Rightarrow> bool" where "monitorSupported c = svMonitor (cServer c)"

definition MonitorAdd :: "string \<Rightarrow> client \<Rightarrow> client" where
  "MonitorAdd nick c =
     (if nick = [] then c
      else let key = foldKey (cServer c) nick
        in emit (SendRaw (''MONITOR + '' @ nick))
             (if key \<in> set (cMonitorArmed c) then c else c\<lparr>cMonitorArmed := cMonitorArmed c @ [key]\<rparr>))"

definition MonitorRemove :: "string \<Rightarrow> client \<Rightarrow> client" where
  "MonitorRemove nick c =
     (if nick = [] then c
      else let key = foldKey (cServer c) nick
        in emit (SendRaw (''MONITOR - '' @ nick))
             (c\<lparr>cMonitorStatus := (cMonitorStatus c)(key := None), cMonitorArmed := removeAll key (cMonitorArmed c)\<rparr>))"

definition at_monitor_limit :: "client \<Rightarrow> bool" where
  "at_monitor_limit c \<longleftrightarrow> svMonitorLimit (cServer c) > 0 \<and> int (length (cMonitorArmed c)) \<ge> svMonitorLimit (cServer c)"

definition MonitorSet :: "string \<Rightarrow> bool \<Rightarrow> client \<Rightarrow> client" where
  "MonitorSet nick on c =
     (if nick = [] \<or> \<not> monitorSupported c then c
      else let armed = foldKey (cServer c) nick \<in> set (cMonitorArmed c) in
        if on = armed then c
        else if on then (if at_monitor_limit c then c else MonitorAdd nick c)
        else MonitorRemove nick c)"

definition some_same :: "client \<Rightarrow> string \<Rightarrow> string list option \<Rightarrow> bool" where
  "some_same c nick names = (case names of None \<Rightarrow> False | Some ns \<Rightarrow> \<exists>n \<in> set ns. same c n nick)"

definition MonitorReconcileNick :: "string \<Rightarrow> client \<Rightarrow> client" where
  "MonitorReconcileNick nick c =
     (if nick = [] \<or> \<not> monitorSupported c then c
      else MonitorSet nick
        (desiredMonitorState nick (cNickname c) (some_same c nick (GetMonitoredNicks (cStore c)))
           (some_same c nick (GetOpenPMs (cStore c)))) c)"

text \<open>The closure \<open>add\<close> of \<open>sendInitialMonitor\<close>, on the keys seen and the nicks to arm.\<close>

definition add_armed :: "client \<Rightarrow> bool \<Rightarrow> bool \<Rightarrow> string \<Rightarrow> string list \<times> string list \<Rightarrow> string list \<times> string list" where
  "add_armed c isBuddy hasOpenPM nick = (\<lambda>(seen, armed).
     let key = foldKey (cServer c) nick in
     if key \<in> set seen \<or> \<not> desiredMonitorState nick (cNickname c) isBuddy hasOpenPM then (seen, armed)
     else (seen @ [key], armed @ [nick]))"

definition rows :: "'a list option \<Rightarrow> 'a list" where
  "rows r = (case r of None \<Rightarrow> [] | Some xs \<Rightarrow> xs)"

definition monitor_targets :: "client \<Rightarrow> string list" where
  "monitor_targets c =
     (let armed = snd (fold (add_armed c False True) (rows (GetOpenPMs (cStore c)))
                    (fold (add_armed c True False) (rows (GetMonitoredNicks (cStore c))) ([], [])));
          limit = svMonitorLimit (cServer c)
      in if limit > 0 \<and> int (length armed) > limit then take (nat limit) armed else armed)"

definition monitor_chunk :: nat where "monitor_chunk = 20"

fun send_monitor :: "(string \<Rightarrow> bool) \<Rightarrow> nat \<Rightarrow> string list \<Rightarrow> client \<Rightarrow> client" where
  "send_monitor ok 0 armed c = c"
| "send_monitor ok (Suc n) armed c =
     (if armed = [] then c
      else let line = ''MONITOR + '' @ join '','' (take monitor_chunk armed); c = emit (SendRaw line) c
        in if ok line then send_monitor ok n (drop monitor_chunk armed) c else c)"

definition sendInitialMonitor :: "(string \<Rightarrow> bool) \<Rightarrow> client \<Rightarrow> client" where
  "sendInitialMonitor ok c =
     (if \<not> monitorSupported c then c
      else let armed = monitor_targets c
        in send_monitor ok (length armed) armed
             (c\<lparr>cMonitorArmed := remdups (map (foldKey (cServer c)) armed)\<rparr>))"

definition setMonitorPresence :: "bool \<Rightarrow> string \<Rightarrow> client \<Rightarrow> client" where
  "setMonitorPresence online nick c =
     (if nick = [] then c
      else let key = foldKey (cServer c) nick in
        if cMonitorStatus c key = Some online then c
        else emit (Event (MonitorChanged nick online)) (c\<lparr>cMonitorStatus := (cMonitorStatus c)(key \<mapsto> online)\<rparr>))"

definition handleMonitorPresence :: "bool \<Rightarrow> message \<Rightarrow> client \<Rightarrow> client" where
  "handleMonitorPresence online e c =
     (if length (mParams e) < 2 then c
      else fold (\<lambda>target c. let target = trim_space target in
             if target = [] then c else setMonitorPresence online (fst (cut_byte (CHR ''!'') target)) c)
           (split_byte (CHR '','') (mParams e ! 1)) c)"

section \<open>WHOX\<close>

text \<open>A batch as the library collects it: its opening message and the items, which may be nil.\<close>

record batch =
  btMessage :: message
  btItems :: "message option list"

definition whoxRosterToken :: string where "whoxRosterToken = ''332''"

definition whoxSupported :: "client \<Rightarrow> bool" where "whoxSupported c = svWHOX (cServer c)"

definition requestWHOX :: "bool \<Rightarrow> string \<Rightarrow> client \<Rightarrow> client" where
  "requestWHOX labelled channel c =
     (if channel = [] then c
      else let fields = ''%tcuhnfar,'' @ whoxRosterToken;
               plain = SendRaw (''WHO '' @ channel @ '' '' @ fields)
        in if capEnabled ''labeled-response'' c
           then (let c = emit (SendLabelled [''WHO'', channel, fields]) c in if labelled then c else emit plain c)
           else emit plain c)"

definition whox_meta :: "string list \<Rightarrow> UserMeta \<Rightarrow> UserMeta" where
  "whox_meta params m =
     (let user = params ! 3; host = params ! 4; flags = params ! 6; realname = params ! 8;
          account = (if params ! 7 = ''0'' \<or> params ! 7 = ''*'' then [] else params ! 7);
          m = m\<lparr>umAway := (flags \<noteq> [] \<and> hd flags = CHR ''G''), umAccount := account\<rparr>;
          m = (if user \<noteq> [] \<and> host \<noteq> [] then m\<lparr>umHost := user @ ''@'' @ host\<rparr> else m)
      in if realname \<noteq> [] then m\<lparr>umRealname := realname\<rparr> else m)"

definition applyWhoxRow :: "string list \<Rightarrow> client \<Rightarrow> client" where
  "applyWhoxRow params c =
     (if length params < 9 then c
      else let nick = params ! 5; botChar = scBotModeChar (svCaps (cServer c));
               c = (if botChar \<noteq> 0 \<and> botChar \<in> set (runes (params ! 6)) then markBot nick c else c)
        in applyUserMeta nick (whox_meta params) c)"

definition whox_item :: "message \<Rightarrow> client \<Rightarrow> client" where
  "whox_item e c = (if mCommand e = ''354'' then applyWhoxRow (mParams e) c else c)"

definition handleWhoxBatch :: "batch option \<Rightarrow> client \<Rightarrow> client" where
  "handleWhoxBatch b c = (case b of None \<Rightarrow> c
     | Some b \<Rightarrow> fold (\<lambda>item c. case item of None \<Rightarrow> c | Some e \<Rightarrow> whox_item e c) (btItems b) (whox_item (btMessage b) c))"

definition handleWhoxReply :: "message \<Rightarrow> client \<Rightarrow> client" where
  "handleWhoxReply e c =
     (if length (mParams e) < 9 \<or> mParams e ! 1 \<noteq> whoxRosterToken then c else applyWhoxRow (mParams e) c)"

section \<open>WHO\<close>

definition RequestWho :: "string \<Rightarrow> client \<Rightarrow> client" where
  "RequestWho target c =
     (if target = [] then c
      else let key = foldKey (cServer c) target
        in emit (SendRaw (''WHO '' @ target))
             (if key \<in> set (cWhoPending c) then c else c\<lparr>cWhoPending := cWhoPending c @ [key]\<rparr>))"

definition handleWhoReply :: "message \<Rightarrow> client \<Rightarrow> client" where
  "handleWhoReply e c =
     (if length (mParams e) < 8 \<or> cWhoPending c = [] then c
      else let p = mParams e; realname = p ! 7;
               realname = (case index_byte realname (CHR '' '') of Some i \<Rightarrow> drop (Suc i) realname | None \<Rightarrow> realname)
        in writeStatusLine ''status'' (formatWhoReply (p ! 1) (p ! 2) (p ! 3) (p ! 4) (p ! 5) (p ! 6) realname) c)"

definition handleEndOfWho :: "message \<Rightarrow> client \<Rightarrow> client" where
  "handleEndOfWho e c =
     (if length (mParams e) < 2 then c
      else let mask = mParams e ! 1; key = foldKey (cServer c) mask in
        if key \<notin> set (cWhoPending c) then c
        else writeStatusLine ''status'' (''End of WHO for '' @ mask) (c\<lparr>cWhoPending := removeAll key (cWhoPending c)\<rparr>))"

section \<open>WHOIS\<close>

definition new_whois :: "string \<Rightarrow> WhoisInfo" where
  "new_whois nick = \<lparr>wiNickname = nick, wiUsername = [], wiHostmask = [], wiRealName = [], wiServer = [], wiServerInfo = [],
     wiChannels = [], wiIdle = 0, wiSignOn = 0, wiAccount = [], wiAway = [], wiIsBot = False\<rparr>"

definition upd_whois :: "string \<Rightarrow> (WhoisInfo \<Rightarrow> WhoisInfo) \<Rightarrow> client \<Rightarrow> client" where
  "upd_whois nick f c = c\<lparr>cWhois := (cWhois c)(nick \<mapsto>
     f (case cWhois c nick of Some w \<Rightarrow> w | None \<Rightarrow> new_whois nick))\<rparr>"

definition param_or_nil :: "message \<Rightarrow> nat \<Rightarrow> string" where
  "param_or_nil e i = (if i < length (mParams e) then mParams e ! i else [])"

definition handleWhoisAway :: "message \<Rightarrow> client \<Rightarrow> client" where
  "handleWhoisAway e c =
     (if length (mParams e) < 3 then c
      else let nick = mParams e ! 1; away = last (mParams e) in
        case cWhois c nick of
          Some w \<Rightarrow> c\<lparr>cWhois := (cWhois c)(nick \<mapsto> w\<lparr>wiAway := away\<rparr>)\<rparr>
        | None \<Rightarrow> writeStatusLine ''status'' (nick @ '' is away: '' @ away) c)"

definition handleWhoisUser :: "message \<Rightarrow> client \<Rightarrow> client" where
  "handleWhoisUser e c =
     (if length (mParams e) < 4 then c
      else upd_whois (mParams e ! 1) (\<lambda>w. w\<lparr>wiUsername := mParams e ! 2, wiHostmask := mParams e ! 3,
             wiRealName := param_or_nil e 4\<rparr>) c)"

definition handleWhoisServer :: "message \<Rightarrow> client \<Rightarrow> client" where
  "handleWhoisServer e c =
     (if length (mParams e) < 3 then c
      else upd_whois (mParams e ! 1) (\<lambda>w. w\<lparr>wiServer := mParams e ! 2, wiServerInfo := param_or_nil e 3\<rparr>) c)"

definition handleWhoisIdle :: "message \<Rightarrow> client \<Rightarrow> client" where
  "handleWhoisIdle e c =
     (if length (mParams e) < 3 then c
      else upd_whois (mParams e ! 1) (\<lambda>w. w\<lparr>wiIdle := sscanf_d (mParams e ! 2) 0,
             wiSignOn := (if length (mParams e) \<ge> 4 then sscanf_d (mParams e ! 3) 0 else 0)\<rparr>) c)"

definition handleWhoisChannels :: "message \<Rightarrow> client \<Rightarrow> client" where
  "handleWhoisChannels e c =
     (if length (mParams e) < 3 then c
      else upd_whois (mParams e ! 1) (\<lambda>w. w\<lparr>wiChannels := str_fields (mParams e ! 2)\<rparr>) c)"

definition handleWhoisAccount :: "message \<Rightarrow> client \<Rightarrow> client" where
  "handleWhoisAccount e c =
     (if length (mParams e) < 3 then c
      else upd_whois (mParams e ! 1) (\<lambda>w. w\<lparr>wiAccount := mParams e ! 2\<rparr>) c)"

definition handleWhoisBot :: "message \<Rightarrow> client \<Rightarrow> client" where
  "handleWhoisBot e c =
     (if length (mParams e) < 2 then c
      else markBot (mParams e ! 1) (upd_whois (mParams e ! 1) (\<lambda>w. w\<lparr>wiIsBot := True\<rparr>) c))"

definition handleEndOfWhois :: "message \<Rightarrow> client \<Rightarrow> client" where
  "handleEndOfWhois e c =
     (if length (mParams e) < 2 then c
      else let nick = mParams e ! 1; found = cWhois c nick; c = c\<lparr>cWhois := (cWhois c)(nick := None)\<rparr> in
        case found of Some w \<Rightarrow> emit (Event (WhoisReceived w)) c | None \<Rightarrow> c)"

section \<open>LIST\<close>

definition handleListStart :: "message \<Rightarrow> client \<Rightarrow> client" where
  "handleListStart e c = c\<lparr>cChannelList := []\<rparr>"

definition handleList :: "message \<Rightarrow> client \<Rightarrow> client" where
  "handleList e c =
     (if length (mParams e) < 3 then c
      else c\<lparr>cChannelList := cChannelList c @ [\<lparr>liChannel = mParams e ! 1, liUsers = sscanf_d (mParams e ! 2) 0,
             liTopic = param_or_nil e 3\<rparr>]\<rparr>)"

definition handleListEnd :: "message \<Rightarrow> client \<Rightarrow> client" where
  "handleListEnd e c = emit (Event (ChannelListEnd (cChannelList c))) (c\<lparr>cChannelList := []\<rparr>)"

end
