(* ===== verification/Irc_Messages.thy ===== *)
theory Irc_Messages
  imports Irc_Presence Split_Msg
begin

text \<open>
  Conversations, as \<open>internal/irc/client.go\<close> handles them: PRIVMSG, CTCP, NOTICE and TAGMSG in,
  messages and CTCP requests out, the replay of a CHATHISTORY batch, and the lines of the status
  buffer. \<open>tm\<close> parses the time tag of a message, \<open>fmt\<close> prints a time.
\<close>

section \<open>Routing\<close>

text \<open>
  Where a message to \<open>target\<close> belongs: the channel id, the peer of the private conversation, which is
  created when it is new, and whether that has to be announced.
\<close>

definition conversation :: "string \<Rightarrow> string \<Rightarrow> client \<Rightarrow> nat option \<times> string \<times> bool \<times> client" where
  "conversation target peer c =
     (if hash_target target then (map_option chID (find_channel target c), [], False, c)
      else (None, peer, stmt_result (GetOrCreatePMConversation peer) c = Some True,
            stmt (GetOrCreatePMConversation peer) c))"

definition announce_new :: "bool \<Rightarrow> client \<Rightarrow> client" where
  "announce_new created c = (if created then emit (Event ChannelsChanged) c else c)"

section \<open>CTCP\<close>

definition is_ctcp :: "string \<Rightarrow> bool" where
  "is_ctcp s \<longleftrightarrow> length s \<ge> 2 \<and> hd s = CHR 0x01 \<and> last s = CHR 0x01"

text \<open>The upper-case command and the arguments of a CTCP body; \<open>None\<close> when it is blank.\<close>

definition ctcp_parts :: "string \<Rightarrow> (string \<times> string) option" where
  "ctcp_parts s = (case str_fields (butlast (tl s)) of [] \<Rightarrow> None
     | cmd # args \<Rightarrow> Some (to_upper cmd, join '' '' args))"

definition ctcp_frame :: "string \<Rightarrow> string" where
  "ctcp_frame body = [CHR 0x01] @ body @ [CHR 0x01]"

definition ctcp_response :: "(int \<Rightarrow> string) \<Rightarrow> string \<Rightarrow> string \<Rightarrow> client \<Rightarrow> string option" where
  "ctcp_response fmt command args c =
     (if command = ''VERSION'' then Some ''Cascade IRC Client v1.0.0''
      else if command = ''TIME'' then Some (fmt (cNow c))
      else if command = ''PING'' then Some (if args \<noteq> [] then args else int_str (cNow c))
      else if command = ''CLIENTINFO'' then Some ''ACTION CLIENTINFO PING TIME VERSION''
      else None)"

definition handleCTCPRequest :: "(int \<Rightarrow> string) \<Rightarrow> string \<Rightarrow> string \<Rightarrow> string \<Rightarrow> client \<Rightarrow> client" where
  "handleCTCPRequest fmt from command args c =
     (if \<not> cConnected c then c
      else case ctcp_response fmt command args c of None \<Rightarrow> c
        | Some response \<Rightarrow> emit (Send [''NOTICE'', from, ctcp_frame (command @ '' '' @ response)]) c)"

definition SendCTCPRequest :: "string option \<Rightarrow> string \<Rightarrow> string \<Rightarrow> string \<Rightarrow> client \<Rightarrow> (command_err + unit) \<times> client" where
  "SendCTCPRequest ans target command args c =
     (if \<not> cConnected c then (Err ErrNotConnected, c)
      else let c = emit (Send [''PRIVMSG'', target,
                     ctcp_frame (if args \<noteq> [] then command @ '' '' @ args else command)]) c
        in case ans of Some e \<Rightarrow> (Err (ErrSend e), c)
          | None \<Rightarrow> (Ok (), writeStatusBuffer (plain_row None (cNickname c) ''ctcp''
              (''CTCP '' @ command @ '' sent to '' @ target) [] [] c) c))"

section \<open>PRIVMSG\<close>

definition chat_row :: "(string \<Rightarrow> int option) \<Rightarrow> nat option \<Rightarrow> string \<Rightarrow> string \<Rightarrow> string \<Rightarrow> message \<Rightarrow> client \<Rightarrow> stored_message" where
  "chat_row tm ch text ty pm e c =
     \<lparr>smChannel = ch, smUser = Nick e, smText = text, smType = ty, smTime = getMessageTime tm e c, smRaw = mRaw e,
      smPM = pm, smMsgID = getMsgID e, smReply = getReplyTag e, smContext = getChannelContext e c\<rparr>"

definition received :: "(string \<Rightarrow> int option) \<Rightarrow> string \<Rightarrow> string \<Rightarrow> message \<Rightarrow> client \<Rightarrow> message_data" where
  "received tm channel text e c = no_data\<lparr>mdChannel := channel, mdUser := Nick e, mdText := text,
     mdAccount := accountFor (Nick e) c, mdMsgID := getMsgID e, mdUnix := getMessageTime tm e c\<rparr>"

definition handle_action :: "(string \<Rightarrow> int option) \<Rightarrow> string \<Rightarrow> string \<Rightarrow> message \<Rightarrow> client \<Rightarrow> client" where
  "handle_action tm channel args e c =
     (case conversation channel (pmPeer c (Nick e) channel) c of (ch, pm, created, c) \<Rightarrow>
        let c = announce_new created c;
            c = write_row (chat_row tm ch (''* '' @ Nick e @ '' '' @ args) ''action'' pm e c) c
        in emit (Event (MessageReceived ((received tm channel args e c)\<lparr>mdIsAction := True\<rparr>))) c)"

definition handle_chat :: "(string \<Rightarrow> int option) \<Rightarrow> string \<Rightarrow> string \<Rightarrow> message \<Rightarrow> client \<Rightarrow> client" where
  "handle_chat tm channel text e c =
     (if isMe c (Nick e) \<and> \<not> isEchoMessage e c \<and> isMe c channel then c
      else case conversation channel (pmPeer c (Nick e) channel) c of (ch, pm, created, c) \<Rightarrow>
        let c = announce_new created c;
            row = chat_row tm ch text ''privmsg'' pm e c;
            c = (if stmt_result (WriteMessageSync row) c then write_row row c
                 else emit (Event (ErrorEvent [] ''storage is closed'' [])) c)
        in emit (Event (MessageReceived ((received tm channel text e c)\<lparr>mdPM := pm, mdType := ''privmsg'',
             mdReply := getReplyTag e, mdContext := getChannelContext e c\<rparr>))) c)"

definition handlePrivmsg :: "(string \<Rightarrow> int option) \<Rightarrow> (int \<Rightarrow> string) \<Rightarrow> message \<Rightarrow> client \<Rightarrow> client" where
  "handlePrivmsg tm fmt e c = (case mParams e of
     channel # text # _ \<Rightarrow>
       let c = maybeApplyAccountTag e (maybeMarkBotFromTag e c) in
       if is_ctcp text then
         (case ctcp_parts text of None \<Rightarrow> c
          | Some (command, args) \<Rightarrow>
              if command = ''DCC'' then emit (Event (DCCControl (Nick e) args)) c
              else if command = ''ACTION'' then handle_action tm channel args e c
              else handleCTCPRequest fmt (Nick e) command args c)
       else handle_chat tm channel text e c
   | _ \<Rightarrow> emit Panic c)"

section \<open>NOTICE\<close>

definition notice_data :: "(string \<Rightarrow> int option) \<Rightarrow> string \<Rightarrow> string \<Rightarrow> message \<Rightarrow> client \<Rightarrow> message_data" where
  "notice_data tm target notice e c = (received tm target notice e c)\<lparr>mdType := ''notice''\<rparr>"

definition handle_ctcp_reply :: "(string \<Rightarrow> int option) \<Rightarrow> string \<Rightarrow> string \<Rightarrow> message \<Rightarrow> client \<Rightarrow> client" where
  "handle_ctcp_reply tm command response e c =
     writeStatusBuffer \<lparr>smChannel = None, smUser = Nick e,
       smText = ''CTCP '' @ command @ '' reply from '' @ Nick e @ '': '' @ response, smType = ''ctcp'',
       smTime = getMessageTime tm e c, smRaw = mRaw e, smPM = [], smMsgID = [], smReply = [], smContext = []\<rparr> c"

definition handle_notice_text :: "(string \<Rightarrow> int option) \<Rightarrow> string \<Rightarrow> string \<Rightarrow> message \<Rightarrow> client \<Rightarrow> client" where
  "handle_notice_text tm target notice e c =
     (if hash_target target then
        emit (Event (MessageReceived (notice_data tm target notice e c)))
          (write_row (chat_row tm (map_option chID (find_channel target c)) notice ''notice'' [] e c) c)
      else if isMe c target \<or> target \<noteq> [] then
        (let pm = noticePMTarget c (mSource e) (Nick e) target;
             created = (pm \<noteq> [] \<and> stmt_result (GetOrCreatePMConversation pm) c = Some True);
             c = (if pm \<noteq> [] then announce_new created (stmt (GetOrCreatePMConversation pm) c) else c);
             row = chat_row tm None notice ''notice'' pm e c
         in if pm = [] then writeStatusBuffer row c
            else emit (Event (MessageReceived (notice_data tm target notice e c))) (write_row row c))
      else c)"

definition handleNotice :: "(string \<Rightarrow> int option) \<Rightarrow> message \<Rightarrow> client \<Rightarrow> client" where
  "handleNotice tm e c = (case mParams e of
     target # notice # _ \<Rightarrow>
       let c = maybeApplyAccountTag e (maybeMarkBotFromTag e c) in
       (case (if is_ctcp notice then ctcp_parts notice else None) of
          Some (command, response) \<Rightarrow> handle_ctcp_reply tm command response e c
        | None \<Rightarrow> handle_notice_text tm target notice e c)
   | _ \<Rightarrow> c)"

section \<open>TAGMSG\<close>

definition SendTyping :: "string option \<Rightarrow> string \<Rightarrow> string \<Rightarrow> client \<Rightarrow> (command_err + unit) \<times> client" where
  "SendTyping ans target state c =
     (if \<not> validTypingState state then (Err ErrArgument, c)
      else if \<not> capEnabled ''message-tags'' c then (Ok (), c)
      else if \<not> cConnected c then (Err ErrNotConnected, c)
      else (case ans of Some e \<Rightarrow> Err (ErrSend e) | None \<Rightarrow> Ok (),
            emit (SendTags [(''+typing'', state)] [''TAGMSG'', target]) c))"

definition handleTypingTag :: "message \<Rightarrow> client \<Rightarrow> client" where
  "handleTypingTag e c = (case GetTag e ''+typing'' of None \<Rightarrow> c
     | Some state \<Rightarrow>
         if \<not> validTypingState state \<or> isMe c (Nick e) then c
         else case mParams e of [] \<Rightarrow> c
           | dest # _ \<Rightarrow> emit (Event (TypingReceived (if hash_target dest then dest else Nick e) (Nick e) state)) c)"

section \<open>Sending\<close>

text \<open>\<open>ans\<close> is the library's answer to one frame.\<close>

definition sendMessageChunk :: "string option \<Rightarrow> string \<Rightarrow> string \<Rightarrow> string \<Rightarrow> string \<Rightarrow> client \<Rightarrow> (command_err + unit) \<times> client" where
  "sendMessageChunk ans target text reply ctx c =
     (let c = emit (case buildSendTags reply ctx of Some tags \<Rightarrow> SendTags tags [''PRIVMSG'', target, text]
                | None \<Rightarrow> Send [''PRIVMSG'', target, text]) c
      in case ans of Some e \<Rightarrow> (Err (ErrSend e), c)
       | None \<Rightarrow> (case conversation target target c of (ch, pm, created, c) \<Rightarrow>
          let c = announce_new created c;
              row = \<lparr>smChannel = ch, smUser = cNickname c, smText = text, smType = ''privmsg'', smTime = cNow c,
                     smRaw = ''PRIVMSG '' @ target @ '' :'' @ text, smPM = pm, smMsgID = [], smReply = reply,
                     smContext = ctx\<rparr>;
              echo = cEnabledCaps c ''echo-message''
          in if \<not> echo \<and> \<not> stmt_result (WriteMessageSync row) c then (Err ErrStore, c)
             else (Ok (), emit (Event (MessageSent target text pm)) (if echo then c else write_row row c))))"

fun send_chunks :: "(string \<Rightarrow> string option) \<Rightarrow> string \<Rightarrow> string \<Rightarrow> string \<Rightarrow> string list \<Rightarrow> client
    \<Rightarrow> (command_err + unit) \<times> client" where
  "send_chunks ans target reply ctx [] c = (Ok (), c)"
| "send_chunks ans target reply ctx (t # ts) c = (case sendMessageChunk (ans t) target t reply ctx c of
     (Inl e, c) \<Rightarrow> (Err e, c)
   | (Inr _, c) \<Rightarrow> send_chunks ans target [] ctx ts c)"

definition client_chunk :: "string \<Rightarrow> client \<Rightarrow> int" where
  "client_chunk target c = maxMessageChunk (Some (scLineLen (svCaps (cServer c)))) (CurrentNick c)
     (map_option umHost (UserMetaFor (CurrentNick c) c)) target"

definition SendMessageWithTags :: "(string \<Rightarrow> string option) \<Rightarrow> string \<Rightarrow> string \<Rightarrow> string \<Rightarrow> string \<Rightarrow> client
    \<Rightarrow> (command_err + unit) \<times> client" where
  "SendMessageWithTags ans target text reply ctx c =
     (if \<not> cConnected c then (Err ErrNotConnected, c)
      else send_chunks ans target reply ctx (splitOutboundMessage text (client_chunk target c)) c)"

section \<open>CHATHISTORY\<close>

definition RequestChatHistoryLatest :: "string \<Rightarrow> int \<Rightarrow> client \<Rightarrow> client" where
  "RequestChatHistoryLatest target limit c =
     (if \<not> chatHistoryEnabled c \<or> target = [] then c
      else emit (SendRaw (''CHATHISTORY LATEST '' @ target @ '' * '' @ int_str (clampChatHistoryLimit limit c))) c)"

definition RequestChatHistoryBefore :: "string \<Rightarrow> string \<Rightarrow> int \<Rightarrow> client \<Rightarrow> client" where
  "RequestChatHistoryBefore target before limit c =
     (if \<not> chatHistoryEnabled c \<or> target = [] \<or> before = [] then c
      else emit (SendRaw (''CHATHISTORY BEFORE '' @ target @ '' timestamp='' @ before @ '' ''
             @ int_str (clampChatHistoryLimit limit c))) c)"

definition history_row :: "(string \<Rightarrow> int option) \<Rightarrow> nat option \<Rightarrow> string \<Rightarrow> string \<Rightarrow> string \<Rightarrow> message \<Rightarrow> client \<Rightarrow> stored_message" where
  "history_row tm ch text ty pm e c =
     \<lparr>smChannel = ch, smUser = Nick e, smText = text, smType = ty, smTime = tag_time tm e c, smRaw = mRaw e,
      smPM = pm, smMsgID = getMsgID e, smReply = [], smContext = []\<rparr>"

text \<open>The type and the text of a replayed PRIVMSG or NOTICE.\<close>

definition history_text :: "message \<Rightarrow> string \<Rightarrow> (string \<times> string) option" where
  "history_text e text =
     (if mCommand e = ''PRIVMSG'' then
        (if is_ctcp text then (case ctcp_parts text of
             Some (command, args) \<Rightarrow> if command = ''ACTION'' then Some (''action'', ''* '' @ Nick e @ '' '' @ args) else None
           | None \<Rightarrow> None)
         else Some (''privmsg'', text))
      else Some (if mCommand e = ''NOTICE'' then ''notice'' else ''privmsg'', text))"

definition buildHistoryChatMessage :: "(string \<Rightarrow> int option) \<Rightarrow> message \<Rightarrow> client \<Rightarrow> stored_message option \<times> client" where
  "buildHistoryChatMessage tm e c = (case mParams e of
     target # text # _ \<Rightarrow>
       (case history_text e text of None \<Rightarrow> (None, c)
        | Some (ty, text) \<Rightarrow>
            (case conversation target (pmPeer c (Nick e) target) c of (ch, pm, _, c) \<Rightarrow>
               (Some (history_row tm ch text ty pm e c), c)))
   | _ \<Rightarrow> (None, c))"

definition in_brackets :: "message \<Rightarrow> nat \<Rightarrow> string" where
  "in_brackets e i = (if i < length (mParams e) \<and> mParams e ! i \<noteq> [] then '' ('' @ mParams e ! i @ '')'' else [])"

text \<open>The type, the channel and the text of a replayed membership line.\<close>

definition history_event :: "message \<Rightarrow> string \<Rightarrow> (string \<times> string \<times> string) option" where
  "history_event e batchTarget =
     (let p = mParams e; user = Nick e in
      if mCommand e = ''JOIN'' then
        (if p = [] then None else Some (''join'', p ! 0, user @ '' joined the channel''))
      else if mCommand e = ''PART'' then
        (if p = [] then None else Some (''part'', p ! 0, user @ '' left the channel'' @ in_brackets e 1))
      else if mCommand e = ''QUIT'' then Some (''quit'', batchTarget, user @ '' quit'' @ in_brackets e 0)
      else if mCommand e = ''KICK'' then
        (if length p < 2 then None else Some (''kick'', p ! 0, user @ '' kicked '' @ p ! 1 @ in_brackets e 2))
      else if mCommand e = ''MODE'' then
        (if length p < 2 then None else Some (''mode'', p ! 0, user @ '' sets mode: '' @ join '' '' (tl p)))
      else None)"

definition buildHistoryMessage :: "(string \<Rightarrow> int option) \<Rightarrow> string \<Rightarrow> message \<Rightarrow> client \<Rightarrow> stored_message option \<times> client" where
  "buildHistoryMessage tm batchTarget e c =
     (if mCommand e = ''PRIVMSG'' \<or> mCommand e = ''NOTICE'' then buildHistoryChatMessage tm e c
      else (map_option (\<lambda>(ty, channel, text). history_row tm (map_option chID (find_channel channel c)) text ty [] e c)
              (history_event e batchTarget), c))"

fun history_rows :: "(string \<Rightarrow> int option) \<Rightarrow> string \<Rightarrow> message option list \<Rightarrow> client \<Rightarrow> stored_message list \<times> client" where
  "history_rows tm target [] c = ([], c)"
| "history_rows tm target (None # es) c = history_rows tm target es c"
| "history_rows tm target (Some e # es) c = (case buildHistoryMessage tm target e c of (row, c) \<Rightarrow>
     case history_rows tm target es c of (rs, c) \<Rightarrow> (case row of None \<Rightarrow> rs | Some r \<Rightarrow> r # rs, c))"

definition isChatHistoryBatch :: "batch \<Rightarrow> bool" where
  "isChatHistoryBatch b \<longleftrightarrow> length (mParams (btMessage b)) \<ge> 2 \<and> mParams (btMessage b) ! 1 = ''chathistory''"

definition handleChatHistoryBatch :: "(string \<Rightarrow> int option) \<Rightarrow> batch \<Rightarrow> client \<Rightarrow> bool \<times> client" where
  "handleChatHistoryBatch tm b c =
     (if \<not> isChatHistoryBatch b then (False, c)
      else let target = param_or_nil (btMessage b) 2 in
        case history_rows tm target (btItems b) c of (msgs, c) \<Rightarrow>
          let inserted = (if msgs = [] then 0
                else case stmt_result (WriteHistoryMessages msgs) c of Some n \<Rightarrow> n | None \<Rightarrow> 0);
              c = (if msgs = [] then c else stmt (WriteHistoryMessages msgs) c)
          in (True, emit (Event (HistoryReceived target inserted (length msgs))) c))"

section \<open>Status lines\<close>

definition handleStandardReply :: "string \<Rightarrow> message \<Rightarrow> client \<Rightarrow> client" where
  "handleStandardReply ty e c =
     (if length (mParams e) < 2 then c
      else let command = mParams e ! 0; description = last (mParams e);
               code = (if length (mParams e) \<ge> 3 then mParams e ! 1 else [])
        in writeStatusLine ty
             (if code \<noteq> [] then mCommand e @ '' '' @ command @ '' ('' @ code @ ''): '' @ description
              else mCommand e @ '' '' @ command @ '': '' @ description) c)"

definition genericErrorNumerics :: "string list" where
  "genericErrorNumerics = [''401'', ''402'', ''403'', ''404'', ''405'', ''406'', ''407'', ''408'', ''409'', ''411'', ''412'',
     ''413'', ''414'', ''415'', ''421'', ''423'', ''424'', ''441'', ''444'', ''451'', ''461'', ''462'', ''463'', ''464'',
     ''465'', ''466'', ''467'', ''472'', ''476'', ''478'', ''479'', ''480'', ''483'', ''484'', ''485'', ''491'', ''501'',
     ''502'', ''524'', ''525'', ''723'']"

definition handleServerNumeric :: "message \<Rightarrow> client \<Rightarrow> client" where
  "handleServerNumeric e c = (let text = formatServerNumeric (mParams e) in
     if text \<noteq> [] then writeStatusLine ''error'' text c else c)"

definition handleInvite :: "message \<Rightarrow> client \<Rightarrow> client" where
  "handleInvite e c =
     (if length (mParams e) < 2 then c
      else let target = mParams e ! 0; channel = mParams e ! 1; inviter = Nick e in
        if \<not> same c target (CurrentNick c)
        then writeStatusLine ''status'' (inviter @ '' invited '' @ target @ '' to '' @ channel) c
        else emit (Event (InviteReceived inviter channel)) c)"

definition handleInviting :: "message \<Rightarrow> client \<Rightarrow> client" where
  "handleInviting e c =
     (if length (mParams e) < 3 then c
      else writeStatusLine ''status'' (''Invited '' @ mParams e ! 1 @ '' to '' @ mParams e ! 2) c)"

definition handleUserOnChannel :: "message \<Rightarrow> client \<Rightarrow> client" where
  "handleUserOnChannel e c =
     (if length (mParams e) < 3 then c
      else writeStatusLine ''status'' (mParams e ! 1 @ '' is already on '' @ mParams e ! 2) c)"

definition handlePermissionDenied :: "message \<Rightarrow> client \<Rightarrow> client" where
  "handlePermissionDenied e c =
     (let errorMsg = (if length (mParams e) \<ge> 2 then last (mParams e) else ''Permission denied'')
      in emit (Event (ErrorEvent [] errorMsg ''481''))
           (writeStatusBuffer (plain_row None ''*'' ''error'' (''Error: '' @ errorMsg) (mRaw e) [] c) c))"

definition handleMotd :: "message \<Rightarrow> client \<Rightarrow> client" where
  "handleMotd e c =
     (if length (mParams e) < 2 then c
      else writeStatusBuffer (plain_row None ''*'' ''motd'' (mParams e ! 1) (mRaw e) [] c) c)"

definition handleMonitorListFull :: "message \<Rightarrow> client \<Rightarrow> client" where
  "handleMonitorListFull e c = c"

end
