(* ===== verification/Irc_Session.thy ===== *)
theory Irc_Session
  imports Irc_Messages Irc_Roster Ip_Addr
begin

text \<open>
  The life of a connection, from \<open>internal/irc/client.go\<close> and \<open>recovery.go\<close>: connecting and registration,
  capabilities and SASL as the client observes them, our nick and away state, auto-join, the loss of
  the connection and its teardown. The library is a parameter: its answers to calls, and the callbacks
  it queues while it connects.
\<close>

definition em_dash :: string where "em_dash = encode_rune 0x2014"
definition ellipsis :: string where "ellipsis = encode_rune 0x2026"

section \<open>Raw commands\<close>

definition SendRawCommand :: "string option \<Rightarrow> string \<Rightarrow> client \<Rightarrow> (command_err + unit) \<times> client" where
  "SendRawCommand ans command c =
     (if \<not> validateRawCommand command then (Err ErrNewline, c)
      else if \<not> cConnected c then (Err ErrNotConnected, c)
      else let c = emit (SendRaw command) c
        in case ans of Some e \<Rightarrow> (Err (ErrSend e), c)
         | None \<Rightarrow>
             let row = plain_row None (cNickname c) ''command'' command command [] c;
                 ok = stmt_result (WriteMessageSync row) c
             in (if ok then Ok () else Err ErrStore, writeStatusBuffer row c))"

definition WriteStatusMessage :: "string \<Rightarrow> client \<Rightarrow> client" where
  "WriteStatusMessage text c = writeStatusBuffer (plain_row None ''*'' ''status'' text [] [] c) c"

definition RequestChannelBans :: "string option \<Rightarrow> string \<Rightarrow> client \<Rightarrow> (command_err + unit) \<times> client" where
  "RequestChannelBans ans channel c = SendRawCommand ans (''MODE '' @ channel @ '' +b'') c"

section \<open>Our nick\<close>

definition ChangeNick :: "string option \<Rightarrow> string \<Rightarrow> client \<Rightarrow> (command_err + unit) \<times> client" where
  "ChangeNick ans nick c =
     (case SendRawCommand ans (''NICK '' @ nick) (c\<lparr>cPendingManualNick := nick\<rparr>) of
        (Inl e, c) \<Rightarrow> (Err e, if cPendingManualNick c = nick then c\<lparr>cPendingManualNick := []\<rparr> else c)
      | (Inr _, c) \<Rightarrow> (Ok (), c))"

definition nickErrorAttempt :: "message \<Rightarrow> string" where
  "nickErrorAttempt e = (if length (mParams e) \<ge> 2 then mParams e ! 1 else [])"

definition surfaceManualNickError :: "string \<Rightarrow> string \<Rightarrow> client \<Rightarrow> bool \<times> client" where
  "surfaceManualNickError attempted text c =
     (if cPendingManualNick c \<noteq> [] \<and> (attempted = [] \<or> same c attempted (cPendingManualNick c))
      then (True, writeStatusLine ''status'' text (c\<lparr>cPendingManualNick := []\<rparr>))
      else (False, c))"

definition couldnt_change :: "string \<Rightarrow> string" where
  "couldnt_change nick = ''Couldn't change nick to '' @ quoted nick @ '' '' @ em_dash @ '' ''"

definition handleNickInUse :: "message \<Rightarrow> client \<Rightarrow> client" where
  "handleNickInUse e c =
     (let attempted = nickErrorAttempt e in
      case surfaceManualNickError attempted (couldnt_change attempted @ ''it's already in use.'') c of
        (True, c) \<Rightarrow> c
      | (False, c) \<Rightarrow>
          let registered = (cCurrentNick c \<noteq> []); alreadyNotified = cCollisionNotified c;
              c = (if registered then c else c\<lparr>cCollisionNotified := True\<rparr>)
          in if registered \<or> alreadyNotified then c
             else writeStatusLine ''status'' (''Nick '' @ quoted (cNickname c) @ '' is in use '' @ em_dash
                    @ '' trying alternatives'' @ ellipsis) c)"

definition handleErroneousNick :: "message \<Rightarrow> client \<Rightarrow> client" where
  "handleErroneousNick e c = snd (surfaceManualNickError (nickErrorAttempt e)
     (couldnt_change (nickErrorAttempt e) @ ''that nickname isn't allowed.'') c)"

definition handleNickUnavailable :: "message \<Rightarrow> client \<Rightarrow> client" where
  "handleNickUnavailable e c = snd (surfaceManualNickError (nickErrorAttempt e)
     (couldnt_change (nickErrorAttempt e)
        @ ''it's temporarily unavailable (it may still be held from a recent disconnect).'') c)"

definition handleNickCollision :: "message \<Rightarrow> client \<Rightarrow> client" where
  "handleNickCollision e c = snd (surfaceManualNickError (nickErrorAttempt e)
     (couldnt_change (nickErrorAttempt e) @ ''it collided with another user.'') c)"

definition handleNoNickGiven :: "message \<Rightarrow> client \<Rightarrow> client" where
  "handleNoNickGiven e c = snd (surfaceManualNickError []
     (''Couldn't change nick '' @ em_dash @ '' no nickname given.'') c)"

definition handleWelcome :: "message \<Rightarrow> client \<Rightarrow> client" where
  "handleWelcome e c = (case mParams e of [] \<Rightarrow> c | nick # _ \<Rightarrow>
     let preferred = cNickname c;
         c = emit (Event (NickChanged nick preferred)) (c\<lparr>cCurrentNick := nick\<rparr>)
     in if nick = preferred then c
        else writeStatusLine ''status'' (''Connected as '' @ quoted nick @ ''. Cascade will keep re-requesting ''
               @ quoted preferred
               @ '' and switch to it automatically once it becomes free. To reclaim it now from a stuck session, use /ns regain ''
               @ preferred @ ''.'') c)"

definition welcome_line :: "message \<Rightarrow> client \<Rightarrow> client" where
  "welcome_line e c = (if mParams e = [] then c
     else writeStatusBuffer (plain_row None ''*'' ''status'' (last (mParams e)) (mRaw e) [] c) c)"

section \<open>Away\<close>

definition emitSelfStatus :: "client \<Rightarrow> client" where
  "emitSelfStatus c = emit (Event (SelfStatusChanged (CurrentNick c) (cSelfAway c) (cSelfAwayMessage c))) c"

definition SetAway :: "string option \<Rightarrow> string \<Rightarrow> client \<Rightarrow> (command_err + unit) \<times> client" where
  "SetAway ans text c =
     (case SendRawCommand ans (if text \<noteq> [] then ''AWAY :'' @ text else ''AWAY'') (c\<lparr>cPendingAway := Some text\<rparr>) of
        (Inl e, c) \<Rightarrow> (Err e, if cPendingAway c = Some text then c\<lparr>cPendingAway := None\<rparr> else c)
      | (Inr _, c) \<Rightarrow> (Ok (), c))"

definition handleNowAway :: "client \<Rightarrow> client" where
  "handleNowAway c =
     (let text = (case cPendingAway c of Some t \<Rightarrow> t | None \<Rightarrow> cSelfAwayMessage c);
          changed = (\<not> cSelfAway c \<or> cSelfAwayMessage c \<noteq> text);
          c = c\<lparr>cSelfAway := True, cSelfAwayMessage := text, cPendingAway := None\<rparr>
      in if changed then emitSelfStatus c else c)"

definition handleUnAway :: "client \<Rightarrow> client" where
  "handleUnAway c =
     (let changed = (cSelfAway c \<or> cSelfAwayMessage c \<noteq> []);
          c = c\<lparr>cSelfAway := False, cSelfAwayMessage := [], cPendingAway := None\<rparr>
      in if changed then emitSelfStatus c else c)"

section \<open>Capabilities\<close>

definition set_cap :: "bool \<Rightarrow> string \<Rightarrow> client \<Rightarrow> client" where
  "set_cap on name c = c\<lparr>cEnabledCaps := (cEnabledCaps c)(name := on)\<rparr>"

definition note_history_max :: "string \<Rightarrow> client \<Rightarrow> client" where
  "note_history_max caps c = (case capValue caps ''chathistory'' of
     Some v \<Rightarrow> setChatHistoryMax v c
   | None \<Rightarrow> (case capValue caps ''draft/chathistory'' of Some v \<Rightarrow> setChatHistoryMax v c | None \<Rightarrow> c))"

definition IsIPLiteral :: "string \<Rightarrow> bool" where
  "IsIPLiteral host \<longleftrightarrow> ParseIP (trim_space host) \<noteq> None"

definition sts_text :: "client \<Rightarrow> STSPolicy \<Rightarrow> string option" where
  "sts_text c p =
     (if cTLS c then
        (if stsDuration p = 0 then Some ''Server cleared its STS policy (duration=0)''
         else Some (''Server advertised STS policy: enforce TLS for '' @ int_str (stsDuration p) @ '' seconds (port ''
                @ int_str (if stsPort p \<le> 0 then cPort c else stsPort p) @ '')''))
      else if stsPort p > 0 then Some (''Server advertised STS policy: upgrading to TLS on port '' @ int_str (stsPort p))
      else None)"

definition handleSTSAdvertisement :: "string \<Rightarrow> client \<Rightarrow> client" where
  "handleSTSAdvertisement value c =
     (if IsIPLiteral (cAddress c) then c
      else let p = parseSTS value in
        case sts_text c p of None \<Rightarrow> c
        | Some text \<Rightarrow> emit (Event (STSPolicyEvent (stsPort p) (stsDuration p) (cTLS c))) (writeStatusLine ''status'' text c))"

definition cap_ls :: "string list \<Rightarrow> client \<Rightarrow> client" where
  "cap_ls params c = (case accumulateCapLS params (cCapLS c) of
     (None, buf) \<Rightarrow> c\<lparr>cCapLS := buf\<rparr>
   | (Some allCaps, _) \<Rightarrow>
       let c = note_history_max allCaps (c\<lparr>cCapLS := []\<rparr>);
           c = (case capValue allCaps ''sts'' of Some v \<Rightarrow> handleSTSAdvertisement v c | None \<Rightarrow> c)
       in writeStatusLine ''status'' (''CAP LS response: '' @ allCaps) c)"

definition cap_new :: "string \<Rightarrow> client \<Rightarrow> client" where
  "cap_new offered c =
     (let c = writeStatusLine ''status'' (''New capabilities available: '' @ offered) (note_history_max offered c);
          toRequest = capsToRequest offered (cEnabledCaps c) False
      in if toRequest = [] then c
         else emit (SendRaw (''CAP REQ :'' @ join '' '' toRequest))
                (writeStatusLine ''status'' (''Requesting capabilities: '' @ join '' '' toRequest) c))"

definition handleCAP :: "message \<Rightarrow> client \<Rightarrow> client" where
  "handleCAP e c =
     (let p = mParams e;
          c = writeStatusBuffer (plain_row None ''*'' ''status'' (''CAP received: '' @ mRaw e) (mRaw e) [] c) c
      in if length p < 2 then c
         else if p ! 1 = ''LS'' then cap_ls p c
         else if p ! 1 = ''ACK'' then
           (if length p < 3 then c
            else writeStatusLine ''status'' (''Capabilities enabled: '' @ p ! 2) (fold (set_cap True) (str_fields (p ! 2)) c))
         else if p ! 1 = ''NAK'' then
           writeStatusLine ''status'' (''Capability request rejected (NAK): '' @ param_or_nil e 2) c
         else if p ! 1 = ''NEW'' then (if length p < 3 then c else cap_new (p ! 2) c)
         else if p ! 1 = ''DEL'' then
           (if length p < 3 then c
            else writeStatusLine ''status'' (''Capabilities removed: '' @ p ! 2)
                   (fold (\<lambda>n. set_cap False (cap_name n)) (str_fields (p ! 2)) c))
         else c)"

section \<open>SASL\<close>

definition observeSASLSuccess :: "client \<Rightarrow> client" where
  "observeSASLSuccess c =
     (let alreadyObserved = cSaslAuthenticated c;
          c = c\<lparr>cSaslAuthenticated := True, cAuthFailed := False\<rparr>
      in if alreadyObserved then c
         else emit (Event SASLSuccess) (writeStatusLine ''status'' ''SASL authentication successful'' c))"

definition auth_failed_text :: "string \<Rightarrow> string" where
  "auth_failed_text reason = ''Authentication failed: '' @ reason @ ''. Not connecting unauthenticated.''"

definition observeSASLFailure :: "string \<Rightarrow> client \<Rightarrow> client" where
  "observeSASLFailure reason c =
     emit (Event (SASLFailed reason))
       (writeStatusLine ''status'' (auth_failed_text reason) (c\<lparr>cSaslAuthenticated := False, cAuthFailed := True\<rparr>))"

definition saslReasons :: "(string \<times> string) list" where
  "saslReasons = [(''902'', ''account locked''), (''904'', ''invalid credentials''),
     (''905'', ''credentials too long''), (''906'', ''authentication aborted'')]"

definition handleSASLNumeric :: "message \<Rightarrow> client \<Rightarrow> client" where
  "handleSASLNumeric e c =
     (if \<not> cSaslEnabled c then c
      else case map_of saslReasons (mCommand e) of
        Some reason \<Rightarrow> observeSASLFailure reason c | None \<Rightarrow> observeSASLSuccess c)"

text \<open>The errors of the library: the sentinels the client asks for, and the rest.\<close>

datatype lib_error = IoEOF | ServerTimedOut string | ServerDisconnected string | ClientDisconnected string | OtherError string

fun error_text :: "lib_error \<Rightarrow> string" where
  "error_text IoEOF = ''EOF''"
| "error_text (ServerTimedOut t) = t"
| "error_text (ServerDisconnected t) = t"
| "error_text (ClientDisconnected t) = t"
| "error_text (OtherError t) = t"

definition transport_error :: "lib_error \<Rightarrow> bool" where
  "transport_error err = (case err of ServerTimedOut _ \<Rightarrow> True | ServerDisconnected _ \<Rightarrow> True
     | ClientDisconnected _ \<Rightarrow> True | _ \<Rightarrow> False)"

definition isSASLFailure :: "bool \<Rightarrow> lib_error option \<Rightarrow> bool" where
  "isSASLFailure saslEnabled err = (case err of None \<Rightarrow> False | Some x \<Rightarrow> saslEnabled \<and> \<not> transport_error x)"

section \<open>Connecting\<close>

definition beginRegistrationCallbacks :: "client \<Rightarrow> client" where
  "beginRegistrationCallbacks c =
     c\<lparr>cRegistration := Some False, cAutoJoin := Some False, cConnectGen := Suc (cConnectGen c)\<rparr>"

definition finishRegistrationCallbacks :: "client \<Rightarrow> client" where
  "finishRegistrationCallbacks c = (case cRegistration c of None \<Rightarrow> c | Some _ \<Rightarrow> c\<lparr>cRegistration := Some True\<rparr>)"

definition signalQuit :: "string \<Rightarrow> client \<Rightarrow> client" where
  "signalQuit reason c =
     emit (LibQuit reason) (emit StopRequests (c\<lparr>cConnected := False, cAbandoned := True\<rparr>))"

definition StopReconnect :: "client \<Rightarrow> client" where
  "StopReconnect c = signalQuit ''Disconnecting'' c"

definition Disconnect :: "client \<Rightarrow> client" where
  "Disconnect c = signalQuit ''Disconnecting'' c"

definition ForceReconnect :: "client \<Rightarrow> client" where
  "ForceReconnect c = (if cConnected c then emit (LibQuit []) c else c)"

definition onConnect :: "message \<Rightarrow> client \<Rightarrow> client" where
  "onConnect e c = finishRegistrationCallbacks
     (if cAbandoned c then signalQuit ''Disconnecting'' c
      else let c = c\<lparr>cConnected := True\<rparr>;
               c = writeStatusBuffer (plain_row None ''*'' ''status'' ''Connected to server'' (mRaw e) [] c) c
        in emit (Event ConnectionEstablished) (stmt (ClearNetworkChannelUsers (cNetwork c)) c))"

text \<open>\<open>during\<close> is the effect of the callbacks applied before \<open>Connect\<close> looks at the boundary channel; while that
  channel is open the call waits (\<open>None\<close>). \<open>acked\<close> are the capabilities the library negotiated.\<close>

datatype connect_err = BadMechanism string | ConnectFailed lib_error | ClosedDuringRegistration

definition Connect :: "string option \<Rightarrow> lib_error option \<Rightarrow> (client \<Rightarrow> client) \<Rightarrow> (string \<Rightarrow> bool) \<Rightarrow> client
    \<Rightarrow> (connect_err + unit) option \<times> client" where
  "Connect saslConfigErr dial during acked c = (case saslConfigErr of
     Some err \<Rightarrow> (Some (Err (BadMechanism err)),
       emit (Event (ErrorEvent [] err [])) ((emit StopCallbacks (emit StopRequests c))\<lparr>cAuthFailed := True\<rparr>))
   | None \<Rightarrow>
       let c = during (beginRegistrationCallbacks c) in
       (case dial of
          Some err \<Rightarrow>
            let c = emit StopCallbacks (emit StopRequests c);
                c = (if isSASLFailure (cSaslEnabled c) (Some err)
                     then writeStatusLine ''status'' (auth_failed_text (error_text err)) (c\<lparr>cAuthFailed := True\<rparr>) else c)
            in (Some (Err (ConnectFailed err)), emit (Event (ErrorEvent [] (error_text err) [])) c)
        | None \<Rightarrow>
            if cRegistration c \<noteq> Some True then (None, c)
            else if \<not> (cConnected c \<and> \<not> cAbandoned c) then (Some (Err ClosedDuringRegistration), c)
            else (Some (Ok ()), c\<lparr>cEnabledCaps := acked\<rparr>)))"

section \<open>Auto-join\<close>

definition triggerAutoJoin :: "client \<Rightarrow> client" where
  "triggerAutoJoin c = (if cAutoJoin c = Some False then emit StartAutoJoin (c\<lparr>cAutoJoin := Some True\<rparr>) else c)"

text \<open>The timer of 001 carries the \<open>Once\<close> it was armed for, which \<open>Connect\<close> replaces.\<close>

definition armAutoJoinTimer :: "client \<Rightarrow> client" where
  "armAutoJoinTimer c = emit (StartTimer (cConnectGen c)) c"

definition autoJoinTimer :: "nat \<Rightarrow> client \<Rightarrow> client" where
  "autoJoinTimer gen c = (if cConnectGen c = gen then triggerAutoJoin c else c)"

definition announceBotMode :: "client \<Rightarrow> client" where
  "announceBotMode c =
     (if \<not> cIdentifyAsBot c then c
      else if BotMode (cServer c) = [] then writeStatusLine ''warning'' ''Server does not support bot mode; +B not set'' c
      else emit (SendRaw (''MODE '' @ CurrentNick c @ '' +'' @ BotMode (cServer c))) c)"

definition join_channel :: "channel \<Rightarrow> client \<Rightarrow> client" where
  "join_channel ch = emit (Send (if chKey ch \<noteq> [] then [''JOIN'', chName ch, chKey ch] else [''JOIN'', chName ch]))"

definition doAutoJoin :: "(string \<Rightarrow> bool) \<Rightarrow> client \<Rightarrow> client" where
  "doAutoJoin ok c =
     (let c = announceBotMode (sendInitialMonitor ok c)
      in case channelsToJoin (cReconnecting c) c of None \<Rightarrow> c | Some chs \<Rightarrow> fold join_channel chs c)"

definition SetReconnecting :: "bool \<Rightarrow> client \<Rightarrow> client" where
  "SetReconnecting v c = c\<lparr>cReconnecting := v\<rparr>"

section \<open>Losing the connection\<close>

definition disconnectStatusText :: "bool \<Rightarrow> lib_error option \<Rightarrow> string" where
  "disconnectStatusText wasAbandoned err =
     (let generic = ''Disconnected from server'' in
      case err of None \<Rightarrow> generic
      | Some x \<Rightarrow>
          if wasAbandoned then generic
          else if x = IoEOF then generic @ '': remote host closed the connection (EOF)''
          else let reason = trim_space (error_text x) in if reason = [] then generic else generic @ '': '' @ reason)"

definition finishDisconnect :: "lib_error option \<Rightarrow> message \<Rightarrow> bool \<Rightarrow> client \<Rightarrow> client" where
  "finishDisconnect err e wasAbandoned c =
     (let c = (case GetChannels (cNetwork c) (cStore c) of None \<Rightarrow> c
            | Some chs \<Rightarrow> fold (\<lambda>ch. stmt (ClearChannelUsers (chID ch))) chs c);
          c = writeStatusBuffer (plain_row None ''*'' ''status'' (disconnectStatusText wasAbandoned err) (mRaw e) [] c) c
      in stopMetaEmitter (emit (Event ConnectionLost) c))"

text \<open>The synchronous part. It queues \<open>finishDisconnect\<close>, with what it returns first, on the callback worker.\<close>

definition onDisconnect :: "client \<Rightarrow> bool \<times> client" where
  "onDisconnect c = (cAbandoned c,
     emit (LibQuit []) (emit StopRequests
       (c\<lparr>cConnected := False, cAbandoned := True, cCurrentNick := [], cCollisionNotified := False,
          cPendingManualNick := []\<rparr>)))"

definition handleServerError :: "message \<Rightarrow> client \<Rightarrow> client" where
  "handleServerError e c =
     (if cAbandoned c then c
      else let reason = trim_space (join '' '' (mParams e));
               text = ''Server closed the connection'' @ (if reason \<noteq> [] then '': '' @ reason else [])
        in signalQuit ''Server closed the connection''
             (emit (Event (ErrorEvent [] text ''ERROR'')) (writeStatusLine ''error'' text c)))"

end
