(* ===== verification/Irc_Dispatch.thy ===== *)
theory Irc_Dispatch
  imports Irc_Session
begin

text \<open>
  The whole client: what \<open>NewIRCClient\<close> builds, the table of callbacks that \<open>setupHandlers\<close> registers,
  the delivery of a message to every callback of its command, and one step of a client, which is a
  message, a library callback, a timer or a call of the application. Callbacks run one at a time, in
  the order of the callback worker (\<open>Dispatchers\<close>).
\<close>

text \<open>The clock and calendar functions: parse a time tag, print a time for CTCP TIME, print one for 333.\<close>

record env =
  envParse :: "string \<Rightarrow> int option"
  envTime :: "int \<Rightarrow> string"
  envTopicTime :: "int \<Rightarrow> string"

record network =
  nwID :: nat
  nwAddress :: string
  nwPort :: int
  nwTLS :: bool
  nwNickname :: string
  nwIdentifyAsBot :: bool
  nwSASLEnabled :: bool

definition NewIRCClient :: "network \<Rightarrow> store \<Rightarrow> int \<Rightarrow> client" where
  "NewIRCClient n s now =
     \<lparr>cNetwork = nwID n, cAddress = nwAddress n, cPort = nwPort n, cTLS = nwTLS n, cNickname = nwNickname n,
      cIdentifyAsBot = nwIdentifyAsBot n, cConnected = False, cAbandoned = False, cSaslEnabled = nwSASLEnabled n,
      cSaslAuthenticated = False, cAuthFailed = False, cRegistration = None, cAutoJoin = Some False, cConnectGen = 0,
      cReconnecting = False, cServer = fresh_server, cEnabledCaps = (\<lambda>_. False), cCapLS = [], cChatHistoryMax = 0,
      cNames = (\<lambda>_. False), cMonitorStatus = Map.empty, cMonitorArmed = [], cWhois = Map.empty, cWhoPending = [],
      cKnownBots = (\<lambda>_. False), cUserMeta = Map.empty, cMetaPending = Map.empty, cMetaStopped = False,
      cChannelList = [], cBanLists = (\<lambda>_. []), cCurrentNick = [], cSelfAway = False, cSelfAwayMessage = [],
      cPendingAway = None, cCollisionNotified = False, cPendingManualNick = [], cPendingJoinKeys = Map.empty,
      cStore = s, cNow = now, cOut = []\<rparr>"

type_synonym handler = "message \<Rightarrow> client \<Rightarrow> client"

definition apply_server :: "(string list \<Rightarrow> server_state \<Rightarrow> server_state) \<Rightarrow> handler" where
  "apply_server f e c = c\<lparr>cServer := f (mParams e) (cServer c)\<rparr>"

text \<open>\<open>setupHandlers\<close>, in its order.\<close>

definition join_handlers :: "(string \<times> handler) list" where
  "join_handlers = [(''471'', handleJoinError), (''473'', handleJoinError), (''474'', handleJoinError),
     (''475'', handleJoinError), (''477'', handleJoinError)]"

definition roster_handlers :: "(string \<times> handler) list" where
  "roster_handlers = [(''QUIT'', handleQuit), (''KICK'', handleKick), (''NICK'', handleNickMessage),
     (''AWAY'', handleAway), (''305'', \<lambda>_. handleUnAway), (''306'', \<lambda>_. handleNowAway), (''ACCOUNT'', handleAccount),
     (''CHGHOST'', handleChghost), (''SETNAME'', handleSetname), (''INVITE'', handleInvite), (''341'', handleInviting),
     (''443'', handleUserOnChannel), (''354'', handleWhoxReply), (''352'', handleWhoReply), (''315'', handleEndOfWho),
     (''730'', handleMonitorPresence True), (''731'', handleMonitorPresence False), (''734'', handleMonitorListFull),
     (''FAIL'', handleStandardReply ''error''), (''WARN'', handleStandardReply ''warning''),
     (''NOTE'', handleStandardReply ''status'')]"

definition channel_handlers :: "env \<Rightarrow> (string \<times> handler) list" where
  "channel_handlers env = [(''332'', handleTopicReply), (''333'', handleTopicWhoTime (envTopicTime env)),
     (''331'', handleNoTopic), (''TOPIC'', handleTopic), (''353'', handleNamReply), (''366'', handleEndOfNames),
     (''482'', handleChannelError ''482'' ''You're not a channel operator''),
     (''442'', handleChannelError ''442'' ''You're not on that channel''),
     (''481'', handlePermissionDenied), (''MODE'', handleMode), (''324'', handleChannelModeIs),
     (''367'', handleBanList), (''368'', handleEndOfBanList), (''372'', handleMotd),
     (''NOTICE'', handleNotice (envParse env)), (''TAGMSG'', handleTypingTag)]"

definition session_handlers :: "(string \<times> handler) list" where
  "session_handlers = [(''001'', welcome_line), (''001'', handleWelcome), (''001'', \<lambda>_. armAutoJoinTimer),
     (''376'', \<lambda>_. triggerAutoJoin), (''422'', \<lambda>_. triggerAutoJoin), (''301'', handleWhoisAway),
     (''311'', handleWhoisUser), (''312'', handleWhoisServer), (''313'', \<lambda>_ c. c), (''317'', handleWhoisIdle),
     (''318'', handleEndOfWhois), (''319'', handleWhoisChannels), (''330'', handleWhoisAccount), (''335'', handleWhoisBot),
     (''004'', apply_server applyMyInfo), (''005'', apply_server handleISUPPORT), (''321'', handleListStart),
     (''322'', handleList), (''323'', handleListEnd), (''CAP'', handleCAP), (''900'', handleSASLNumeric),
     (''903'', handleSASLNumeric), (''902'', handleSASLNumeric), (''904'', handleSASLNumeric),
     (''905'', handleSASLNumeric), (''906'', handleSASLNumeric), (''433'', handleNickInUse), (''431'', handleNoNickGiven),
     (''432'', handleErroneousNick), (''436'', handleNickCollision), (''437'', handleNickUnavailable)]"

definition setupHandlers :: "env \<Rightarrow> (string \<times> handler) list" where
  "setupHandlers env =
     [(''ERROR'', handleServerError), (''PRIVMSG'', handlePrivmsg (envParse env) (envTime env)), (''JOIN'', handleJoin),
      (''PART'', handlePart), (''470'', handleForwardedJoin)]
     @ join_handlers @ map (\<lambda>code. (code, handleServerNumeric)) genericErrorNumerics
     @ roster_handlers @ channel_handlers env @ session_handlers"

text \<open>The library runs every callback of the command; a command without one is dropped.\<close>

definition run_handlers :: "(string \<times> handler) list \<Rightarrow> message \<Rightarrow> client \<Rightarrow> client" where
  "run_handlers hs e = fold (\<lambda>(cmd, h) c. if cmd = mCommand e then h e c else c) hs"

definition receive :: "env \<Rightarrow> message \<Rightarrow> client \<Rightarrow> client" where
  "receive env = run_handlers (setupHandlers env)"

text \<open>One step: \<open>ans\<close> is the answer of the library to the send, \<open>ok\<close> to one of several lines.\<close>

datatype (plugins only: code) client_op =
    Receive message
  | HistoryBatch batch
  | WhoxAnswer "batch option"
  | BeginConnect
  | Connected message
  | CapsNegotiated "string \<Rightarrow> bool"
  | Lost
  | FinishLost "lib_error option" message bool
  | TearDown string
  | Nudge
  | RunAutoJoin "string \<Rightarrow> bool"
  | TimerFires nat
  | DrainMeta "string list"
  | Tick int
  | Reconnecting bool
  | DoJoin "string \<Rightarrow> bool" "string option" string string
  | DoPart "string option" string string
  | DoSend "string \<Rightarrow> string option" string string string string
  | DoRaw "string option" string
  | DoNick "string option" string
  | DoAway "string option" string
  | DoCTCP "string option" string string string
  | DoTyping "string option" string string
  | DoWho string
  | DoMonitor string
  | DoHistory string int
  | RunWHOX bool string

primrec client_step :: "env \<Rightarrow> client_op \<Rightarrow> client \<Rightarrow> client" where
  "client_step env (Receive e) c = receive env e c"
| "client_step env (HistoryBatch b) c = snd (handleChatHistoryBatch (envParse env) b c)"
| "client_step env (WhoxAnswer b) c = handleWhoxBatch b c"
| "client_step env BeginConnect c = beginRegistrationCallbacks c"
| "client_step env (Connected e) c = onConnect e c"
| "client_step env (CapsNegotiated acked) c = c\<lparr>cEnabledCaps := acked\<rparr>"
| "client_step env Lost c = snd (onDisconnect c)"
| "client_step env (FinishLost err e was) c = finishDisconnect err e was c"
| "client_step env (TearDown reason) c = signalQuit reason c"
| "client_step env Nudge c = ForceReconnect c"
| "client_step env (RunAutoJoin ok) c = doAutoJoin ok c"
| "client_step env (TimerFires gen) c = autoJoinTimer gen c"
| "client_step env (DrainMeta ord) c = drainMetaPending ord c"
| "client_step env (Tick now) c = c\<lparr>cNow := now\<rparr>"
| "client_step env (Reconnecting v) c = SetReconnecting v c"
| "client_step env (DoJoin valid ans channel key) c = snd (JoinChannelWithKey valid ans channel key c)"
| "client_step env (DoPart ans channel reason) c = snd (PartChannelWithReason ans channel reason c)"
| "client_step env (DoSend ans target text reply ctx) c = snd (SendMessageWithTags ans target text reply ctx c)"
| "client_step env (DoRaw ans command) c = snd (SendRawCommand ans command c)"
| "client_step env (DoNick ans nick) c = snd (ChangeNick ans nick c)"
| "client_step env (DoAway ans text) c = snd (SetAway ans text c)"
| "client_step env (DoCTCP ans target command args) c = snd (SendCTCPRequest ans target command args c)"
| "client_step env (DoTyping ans target state) c = snd (SendTyping ans target state c)"
| "client_step env (DoWho target) c = RequestWho target c"
| "client_step env (DoMonitor nick) c = MonitorReconcileNick nick c"
| "client_step env (DoHistory target limit) c = RequestChatHistoryLatest target limit c"
| "client_step env (RunWHOX labelled channel) c = requestWHOX labelled channel c"

definition client_run :: "env \<Rightarrow> client_op list \<Rightarrow> client \<Rightarrow> client" where
  "client_run env ops c = fold (client_step env) ops c"

text \<open>A property that every callback keeps is kept by every message.\<close>

lemma receive_inv:
  assumes "\<And>cmd h c. (cmd, h) \<in> set (setupHandlers env) \<Longrightarrow> P c \<Longrightarrow> P (h e c)" and "P c"
  shows "P (receive env e c)"
proof -
  have "P (run_handlers hs e c)" if "set hs \<subseteq> set (setupHandlers env)" "P c" for hs c
    using that assms(1) by (induction hs arbitrary: c) (auto simp: run_handlers_def)
  then show ?thesis using assms(2) by (simp add: receive_def)
qed

lemma client_run_inv:
  assumes "\<And>op c. op \<in> set ops \<Longrightarrow> P c \<Longrightarrow> P (client_step env op c)" and "P c"
  shows "P (client_run env ops c)"
proof -
  have "P (fold (client_step env) os c)" if "set os \<subseteq> set ops" "P c" for os c
    using that assms(1) by (induction os arbitrary: c) auto
  then show ?thesis using assms(2) by (simp add: client_run_def)
qed

lemma run_handlers_view:
  assumes "\<And>p c. p \<in> set hs \<Longrightarrow> fst p = mCommand e \<Longrightarrow> V (snd p e c) = V c"
  shows "V (run_handlers hs e c) = V c"
  using assms by (induction hs arbitrary: c) (auto simp: run_handlers_def)

lemma run_handlers_filter:
  "run_handlers hs e c = fold (\<lambda>p. snd p e) (filter (\<lambda>p. fst p = mCommand e) hs) c"
  by (induction hs arbitrary: c) (auto simp: run_handlers_def)

lemma setupHandlers_cases:
  assumes "p \<in> set (setupHandlers env)"
  shows "p \<in> set [(''ERROR'', handleServerError), (''PRIVMSG'', handlePrivmsg (envParse env) (envTime env)),
      (''JOIN'', handleJoin), (''PART'', handlePart), (''470'', handleForwardedJoin)] \<or> p \<in> set join_handlers
    \<or> snd p = handleServerNumeric \<or> p \<in> set roster_handlers \<or> p \<in> set (channel_handlers env) \<or> p \<in> set session_handlers"
  using assms unfolding setupHandlers_def set_append set_map by fastforce

lemma receive_one:
  assumes "filter (\<lambda>p. fst p = cmd) (setupHandlers env) = [(cmd, h)]" "mCommand e = cmd"
  shows "receive env e c = h e c"
  using assms by (simp add: receive_def run_handlers_filter)

text \<open>A concrete network and store for the examples.\<close>

definition demo_env :: env where
  "demo_env = \<lparr>envParse = (\<lambda>_. None), envTime = (\<lambda>_. []), envTopicTime = (\<lambda>_. [])\<rparr>"

definition demo_network :: network where
  "demo_network = \<lparr>nwID = 1, nwAddress = ''irc.example.net'', nwPort = 6697, nwTLS = True, nwNickname = ''me'',
     nwIdentifyAsBot = False, nwSASLEnabled = False\<rparr>"

definition demo_store :: store where
  "demo_store = \<lparr>stOpen = True, stChannels = [], stUsers = [], stMessages = [], stPMs = [], stMonitored = [], stNext = 1\<rparr>"

definition demo_message :: message where
  "demo_message = \<lparr>mTags = [], mSource = ''irc.example.net'', mCommand = ''376'', mParams = [''me''], mRaw = []\<rparr>"

end
