(* ===== verification/Client_Views.thy ===== *)
theory Client_Views
  imports Irc_Dispatch
begin

text \<open>
  What the operations of a client leave alone. A view is any function of the client; each locale says
  which updates a view does not see, and collects the handlers that only make such updates. The
  property theories interpret the locales for the view their property is about.
\<close>

definition plain :: "out \<Rightarrow> bool" where
  [simp]: "plain x = (case x of StartAutoJoin \<Rightarrow> False
     | Event ev \<Rightarrow> (case ev of ConnectionEstablished \<Rightarrow> False | UserMetaChanged k m \<Rightarrow> False | _ \<Rightarrow> True)
     | _ \<Rightarrow> True)"

section \<open>Message rows and ordinary effects\<close>

locale quiet_view =
  fixes V :: "client \<Rightarrow> 'v"
  assumes V_emit [simp]: "plain x \<Longrightarrow> V (emit x c) = V c"
    and V_messages: "V (c\<lparr>cStore := (cStore c)\<lparr>stMessages := ms\<rparr>\<rparr>) = V c"
    and V_PMs: "V (c\<lparr>cStore := (cStore c)\<lparr>stPMs := ps\<rparr>\<rparr>) = V c"
begin

lemma V_fold: "(\<And>x c. V (f x c) = V c) \<Longrightarrow> V (fold f xs c) = V c"
  by (induction xs arbitrary: c) auto

lemma V_WriteMessageSync [simp]: "V (stmt (WriteMessageSync m) c) = V c"
  using V_messages by (simp add: stmt_def WriteMessageSync_def)

lemma V_GetOrCreate [simp]: "V (stmt (GetOrCreatePMConversation p) c) = V c"
  using V_PMs by (simp add: stmt_def GetOrCreatePMConversation_def Let_def)

lemma V_history [simp]: "V (stmt (WriteHistoryMessages ms) c) = V c"
  using V_messages by (simp add: stmt_def WriteHistoryMessages_def Let_def)

lemma V_write [simp]:
  "V (write_row m c) = V c" "V (writeStatusBuffer m c) = V c" "V (writeStatusLine ty t c) = V c"
  "V (writeChannelSystemLine ch ty t c) = V c" "V (announce_new b c) = V c"
  by (simp_all add: write_row_def writeStatusBuffer_def writeStatusLine_def writeChannelSystemLine_def
    announce_new_def split: option.splits)

lemma V_status_handlers [simp]:
  "V (handleStandardReply ty e c) = V c" "V (handleServerNumeric e c) = V c" "V (handleInvite e c) = V c"
  "V (handleInviting e c) = V c" "V (handleUserOnChannel e c) = V c" "V (handlePermissionDenied e c) = V c"
  "V (handleMotd e c) = V c" "V (handleMonitorListFull e c) = V c" "V (handleChannelError code fb e c) = V c"
  "V (handleTopicWhoTime fmt e c) = V c" "V (handleNoTopic e c) = V c" "V (welcome_line e c) = V c"
  "V (handleSTSAdvertisement v c) = V c" "V (announceBotMode c) = V c" "V (armAutoJoinTimer c) = V c"
  "V (WriteStatusMessage t c) = V c" "V (enqueuePostNamesRequests ch c) = V c"
  by (simp_all add: handleStandardReply_def handleServerNumeric_def handleInvite_def handleInviting_def
    handleUserOnChannel_def handlePermissionDenied_def handleMotd_def handleMonitorListFull_def
    handleChannelError_def handleTopicWhoTime_def handleNoTopic_def welcome_line_def handleSTSAdvertisement_def
    announceBotMode_def armAutoJoinTimer_def WriteStatusMessage_def enqueuePostNamesRequests_def Let_def
    split: option.splits)

lemma V_conversation [simp]: "conversation t p c = (ch, pm, b, c') \<Longrightarrow> V c' = V c"
  by (auto simp: conversation_def split: if_splits)

lemma V_chat [simp]: "V (handle_chat tm ch t e c) = V c"
  by (auto simp: handle_chat_def Let_def split: prod.splits)

lemma V_action [simp]: "V (handle_action tm ch t e c) = V c"
  by (auto simp: handle_action_def Let_def split: prod.splits)

lemma V_notice [simp]: "V (handle_ctcp_reply tm cmd r e c) = V c" "V (handle_notice_text tm t n e c) = V c"
  by (simp_all add: handle_ctcp_reply_def handle_notice_text_def Let_def)

lemma V_ctcp [simp]: "V (handleCTCPRequest fmt f cmd a c) = V c" "V (snd (SendCTCPRequest ans t cmd a c)) = V c"
  by (simp_all add: handleCTCPRequest_def SendCTCPRequest_def Let_def split: option.splits)

lemma V_typing [simp]: "V (handleTypingTag e c) = V c" "V (snd (SendTyping ans t st c)) = V c"
  by (simp_all add: handleTypingTag_def SendTyping_def split: option.splits list.splits)

lemma V_SendRawCommand [simp]: "V (snd (SendRawCommand ans cmd c)) = V c"
  by (simp add: SendRawCommand_def Let_def split: option.splits)

lemma V_send_chunk: "V (snd (sendMessageChunk ans t m r x c)) = V c"
  by (auto simp: sendMessageChunk_def Let_def split: option.splits prod.splits)

lemma V_send_chunks [simp]: "V (snd (send_chunks ans t r x ms c)) = V c"
proof (induction ms arbitrary: r c)
  case (Cons m ms)
  show ?case using V_send_chunk [of "ans m" t m r x c] Cons.IH by (auto split: prod.splits sum.splits)
qed simp

lemma V_sends [simp]:
  "V (snd (SendMessageWithTags ans t m r x c)) = V c" "V (RequestChatHistoryLatest t l c) = V c"
  "V (RequestChatHistoryBefore t b l c) = V c" "V (requestWHOX lb ch c) = V c" "V (join_channel chn c) = V c"
  "V (snd (PartChannelWithReason a ch r c)) = V c" "V (ForceReconnect c) = V c"
  by (simp_all add: SendMessageWithTags_def RequestChatHistoryLatest_def RequestChatHistoryBefore_def
    requestWHOX_def join_channel_def PartChannelWithReason_def ForceReconnect_def Let_def)

lemma V_build [simp]: "V (snd (buildHistoryMessage tm bt e c)) = V c"
  by (auto simp: buildHistoryMessage_def buildHistoryChatMessage_def split: list.splits option.splits prod.splits)

lemma V_history_rows [simp]: "V (snd (history_rows tm t es c)) = V c"
proof (induction tm t es c rule: history_rows.induct)
  case (3 tm t e es c)
  obtain r c1 where b: "buildHistoryMessage tm t e c = (r, c1)" by (cases "buildHistoryMessage tm t e c")
  have "V c1 = V c" using V_build [of tm t e c] b by simp
  then show ?case using 3 [OF b [symmetric]] b by (auto split: prod.splits)
qed simp_all

lemma V_history_batch [simp]: "V (snd (handleChatHistoryBatch tm b c)) = V c"
proof -
  obtain ms c1 where h: "history_rows tm (param_or_nil (btMessage b) 2) (btItems b) c = (ms, c1)" by fastforce
  have "V c1 = V c" using V_history_rows [of tm "param_or_nil (btMessage b) 2" "btItems b" c] h by simp
  then show ?thesis by (simp add: handleChatHistoryBatch_def Let_def h)
qed

end

section \<open>The fields of the session\<close>

text \<open>A view that sees none of the client's own tables and flags.\<close>

locale aux_view = quiet_view V for V :: "client \<Rightarrow> 'v" +
  assumes V_cNames: "V (c\<lparr>cNames := n\<rparr>) = V c"
    and V_cMonitorStatus: "V (c\<lparr>cMonitorStatus := st\<rparr>) = V c"
    and V_cMonitorArmed: "V (c\<lparr>cMonitorArmed := l\<rparr>) = V c"
    and V_cWhois: "V (c\<lparr>cWhois := w\<rparr>) = V c"
    and V_cWhoPending: "V (c\<lparr>cWhoPending := l\<rparr>) = V c"
    and V_cKnownBots: "V (c\<lparr>cKnownBots := n\<rparr>) = V c"
    and V_cChannelList: "V (c\<lparr>cChannelList := cl\<rparr>) = V c"
    and V_cBanLists: "V (c\<lparr>cBanLists := bl\<rparr>) = V c"
    and V_cPendingJoinKeys: "V (c\<lparr>cPendingJoinKeys := k\<rparr>) = V c"
    and V_cChatHistoryMax: "V (c\<lparr>cChatHistoryMax := i\<rparr>) = V c"
    and V_cCapLS: "V (c\<lparr>cCapLS := s\<rparr>) = V c"
    and V_cEnabledCaps: "V (c\<lparr>cEnabledCaps := n\<rparr>) = V c"
    and V_cSaslAuthenticated: "V (c\<lparr>cSaslAuthenticated := b\<rparr>) = V c"
    and V_cAuthFailed: "V (c\<lparr>cAuthFailed := b\<rparr>) = V c"
    and V_cSelfAway: "V (c\<lparr>cSelfAway := b\<rparr>) = V c"
    and V_cSelfAwayMessage: "V (c\<lparr>cSelfAwayMessage := s\<rparr>) = V c"
    and V_cPendingAway: "V (c\<lparr>cPendingAway := p\<rparr>) = V c"
    and V_cCollisionNotified: "V (c\<lparr>cCollisionNotified := b\<rparr>) = V c"
    and V_cPendingManualNick: "V (c\<lparr>cPendingManualNick := s\<rparr>) = V c"
    and V_cCurrentNick: "V (c\<lparr>cCurrentNick := s\<rparr>) = V c"
    and V_cServer: "V (c\<lparr>cServer := sv\<rparr>) = V c"
    and V_cReconnecting: "V (c\<lparr>cReconnecting := b\<rparr>) = V c"
    and V_cNow: "V (c\<lparr>cNow := i\<rparr>) = V c"
    and V_cMetaStopped: "V (c\<lparr>cMetaStopped := b\<rparr>) = V c"
begin

lemmas V_fields [simp] = V_cNames V_cMonitorStatus V_cMonitorArmed V_cWhois V_cWhoPending V_cKnownBots V_cChannelList
  V_cBanLists V_cPendingJoinKeys V_cChatHistoryMax V_cCapLS V_cEnabledCaps V_cSaslAuthenticated V_cAuthFailed
  V_cSelfAway V_cSelfAwayMessage V_cPendingAway V_cCollisionNotified V_cPendingManualNick V_cCurrentNick V_cServer
  V_cReconnecting V_cNow V_cMetaStopped

lemma V_keys [simp]: "V (recordPendingJoinKey ch k c) = V c" "V (snd (takePendingJoinKey ch c)) = V c"
  "V (snd (JoinChannelWithKey valid ans ch k c)) = V c"
  by (simp_all add: recordPendingJoinKey_def takePendingJoinKey_def JoinChannelWithKey_def Let_def
    split: option.splits)

lemma V_bots [simp]: "V (markBot n c) = V c" "V (maybeMarkBotFromTag e c) = V c"
  by (simp_all add: markBot_def maybeMarkBotFromTag_def Let_def)

lemma V_bot_mode [simp]: "V (bot_mode_loop b a rs c) = V c"
  by (induction b a rs c rule: bot_mode_loop.induct) auto

lemma V_self_bot [simp]: "V (markSelfBotFromUserMode t m c) = V c"
  by (simp add: markSelfBotFromUserMode_def Let_def)

lemma V_monitor [simp]: "V (MonitorAdd n c) = V c" "V (MonitorRemove n c) = V c" "V (MonitorSet n on c) = V c"
  "V (MonitorReconcileNick n c) = V c" "V (setMonitorPresence b n c) = V c"
  by (simp_all add: MonitorAdd_def MonitorRemove_def MonitorSet_def MonitorReconcileNick_def setMonitorPresence_def
    Let_def)

lemma V_send_monitor [simp]: "V (send_monitor ok n l c) = V c"
  by (induction ok n l c rule: send_monitor.induct) (auto simp: Let_def)

lemma V_monitor_handlers [simp]: "V (sendInitialMonitor ok c) = V c" "V (handleMonitorPresence b e c) = V c"
  by (simp_all add: sendInitialMonitor_def handleMonitorPresence_def Let_def V_fold)

lemma V_queries [simp]: "V (RequestWho t c) = V c" "V (handleWhoReply e c) = V c" "V (handleEndOfWho e c) = V c"
  "V (handleListStart e c) = V c" "V (handleList e c) = V c" "V (handleListEnd e c) = V c"
  "V (handleBanList e c) = V c" "V (handleEndOfBanList e c) = V c" "V (handleEndOfNames e c) = V c"
  by (simp_all add: RequestWho_def handleWhoReply_def handleEndOfWho_def handleListStart_def handleList_def
    handleListEnd_def handleBanList_def handleEndOfBanList_def handleEndOfNames_def Let_def split: option.splits)

lemma V_whois [simp]: "V (upd_whois n f c) = V c" "V (handleWhoisAway e c) = V c" "V (handleWhoisUser e c) = V c"
  "V (handleWhoisServer e c) = V c" "V (handleWhoisIdle e c) = V c" "V (handleWhoisChannels e c) = V c"
  "V (handleWhoisAccount e c) = V c" "V (handleWhoisBot e c) = V c" "V (handleEndOfWhois e c) = V c"
  by (simp_all add: upd_whois_def handleWhoisAway_def handleWhoisUser_def handleWhoisServer_def handleWhoisIdle_def
    handleWhoisChannels_def handleWhoisAccount_def handleWhoisBot_def handleEndOfWhois_def Let_def
    split: option.splits)

lemma V_nick_error [simp]: "V (snd (surfaceManualNickError a t c)) = V c"
  by (simp add: surfaceManualNickError_def)

lemma V_nick_handlers [simp]: "V (handleNickInUse e c) = V c" "V (handleErroneousNick e c) = V c"
  "V (handleNickUnavailable e c) = V c" "V (handleNickCollision e c) = V c" "V (handleNoNickGiven e c) = V c"
  "V (handleWelcome e c) = V c"
  by (auto simp: handleNickInUse_def handleErroneousNick_def handleNickUnavailable_def handleNickCollision_def
    handleNoNickGiven_def handleWelcome_def surfaceManualNickError_def Let_def split: list.splits)

lemma V_away [simp]: "V (handleNowAway c) = V c" "V (handleUnAway c) = V c" "V (emitSelfStatus c) = V c"
  by (simp_all add: handleNowAway_def handleUnAway_def emitSelfStatus_def Let_def)

lemma V_SendRawCommand_pair: "SendRawCommand ans cmd c = (r, c') \<Longrightarrow> V c' = V c"
  using V_SendRawCommand [of ans cmd c] by simp

lemma V_commands [simp]: "V (snd (ChangeNick a n c)) = V c" "V (snd (SetAway a t c)) = V c"
  by (auto simp: ChangeNick_def SetAway_def dest: V_SendRawCommand_pair split: prod.splits sum.splits)

lemma V_history_max [simp]: "V (set_cap b n c) = V c" "V (setChatHistoryMax v c) = V c" "V (note_history_max cs c) = V c"
  by (simp_all add: set_cap_def setChatHistoryMax_def note_history_max_def Let_def split: option.split)

lemma V_caps [simp]: "V (cap_ls p c) = V c" "V (cap_new o2 c) = V c"
  by (simp_all add: cap_ls_def cap_new_def Let_def split: option.split prod.split)

lemma V_CAP [simp]: "V (handleCAP e c) = V c"
  by (simp add: handleCAP_def Let_def V_fold)

lemma V_SASL [simp]: "V (observeSASLSuccess c) = V c" "V (observeSASLFailure r c) = V c" "V (handleSASLNumeric e c) = V c"
  by (simp_all add: observeSASLSuccess_def observeSASLFailure_def handleSASLNumeric_def Let_def split: option.splits)

lemma V_misc [simp]: "V (SetReconnecting b c) = V c" "V (stopMetaEmitter c) = V c" "V (apply_server f e c) = V c"
  by (simp_all add: SetReconnecting_def stopMetaEmitter_def apply_server_def)

lemma V_doAutoJoin [simp]: "V (doAutoJoin ok c) = V c"
  by (simp add: doAutoJoin_def Let_def V_fold split: option.splits)

end

section \<open>Roster metadata, membership and life cycle\<close>

locale meta_blind = aux_view V for V :: "client \<Rightarrow> 'v" +
  assumes V_cUserMeta: "V (c\<lparr>cUserMeta := m\<rparr>) = V c"
    and V_cMetaPending: "V (c\<lparr>cMetaPending := m\<rparr>) = V c"
    and V_emit_meta: "V (emit (Event (UserMetaChanged k um)) c) = V c"
begin

lemmas V_meta_fields [simp] = V_cUserMeta V_cMetaPending V_emit_meta

lemma V_apply_meta [simp]: "V (emitUserMeta k m c) = V c" "V (applyUserMeta n f c) = V c"
  "V (renameUserMeta o2 n c) = V c" "V (removeUserMeta n c) = V c"
  by (simp_all add: emitUserMeta_def applyUserMeta_def renameUserMeta_def removeUserMeta_def Let_def
    split: option.splits)

lemma V_drain [simp]: "V (drainMetaPending ks c) = V c"
  by (induction ks c rule: drainMetaPending.induct) (auto split: option.splits)

lemma V_meta_handlers [simp]: "V (maybeApplyAccountTag e c) = V c" "V (maybeApplyExtendedJoin e c) = V c"
  "V (handleAway e c) = V c" "V (handleAccount e c) = V c" "V (handleChghost e c) = V c" "V (handleSetname e c) = V c"
  by (simp_all add: maybeApplyAccountTag_def maybeApplyExtendedJoin_def handleAway_def handleAccount_def
    handleChghost_def handleSetname_def Let_def split: option.splits list.splits)

lemma V_whox_row [simp]: "V (applyWhoxRow p c) = V c" "V (whox_item e c) = V c"
  by (simp_all add: applyWhoxRow_def whox_item_def Let_def)

lemma V_whox [simp]: "V (handleWhoxReply e c) = V c" "V (handleWhoxBatch b c) = V c"
  by (simp_all add: handleWhoxReply_def handleWhoxBatch_def V_fold split: option.splits)

lemma V_privmsg [simp]: "V (handlePrivmsg tm fmt e c) = V c"
  by (simp add: handlePrivmsg_def Let_def split: list.splits option.splits)

lemma V_handleNotice [simp]: "V (handleNotice tm e c) = V c"
  by (auto simp: handleNotice_def Let_def split: list.splits option.splits)

end

definition attribute :: "(channel \<Rightarrow> channel) \<Rightarrow> bool" where
  "attribute f \<longleftrightarrow> (\<forall>ch. chID (f ch) = chID ch \<and> chNetwork (f ch) = chNetwork ch \<and> chName (f ch) = chName ch)"

locale attr_blind = aux_view V for V :: "client \<Rightarrow> 'v" +
  assumes V_attribute: "attribute f \<Longrightarrow> V (stmt (update_channel i f) c) = V c"
begin

lemma V_update_channel [simp]: "V (stmt (UpdateChannelTopic i t) c) = V c" "V (stmt (UpdateChannelModes i t) c) = V c"
  "V (stmt (UpdateChannelKey i t) c) = V c" "V (stmt (UpdateChannelIsOpen i b) c) = V c"
  by (simp_all add: UpdateChannelTopic_def UpdateChannelModes_def UpdateChannelKey_def UpdateChannelIsOpen_def
    V_attribute attribute_def)

lemma V_channel_handlers [simp]: "V (set_topic ch t c) = V c" "V (handleTopicReply e c) = V c"
  "V (handleTopic e c) = V c" "V (handleChannelModeIs e c) = V c" "V (close_phantom ch c) = V c"
  "V (handleForwardedJoin e c) = V c" "V (handleJoinError e c) = V c"
  by (simp_all add: set_topic_def handleTopicReply_def handleTopic_def handleChannelModeIs_def close_phantom_def
    handleForwardedJoin_def handleJoinError_def Let_def split: option.splits)

lemma V_open_joined [simp]: "V (open_joined ch chn c) = V c"
  by (auto simp: open_joined_def persistPendingJoinKey_def takePendingJoinKey_def Let_def split: option.splits)

end

locale roster_blind = aux_view V for V :: "client \<Rightarrow> 'v" +
  assumes V_channels: "V (c\<lparr>cStore := (cStore c)\<lparr>stChannels := chs\<rparr>\<rparr>) = V c"
    and V_users: "V (c\<lparr>cStore := (cStore c)\<lparr>stUsers := us\<rparr>\<rparr>) = V c"
    and V_next: "V (c\<lparr>cStore := (cStore c)\<lparr>stNext := n\<rparr>\<rparr>) = V c"

sublocale roster_blind \<subseteq> attr_blind
  using V_channels by unfold_locales (simp add: stmt_def update_channel_def)

context roster_blind begin

lemma V_update_users [simp]: "V (stmt (AddChannelUser i n m) c) = V c" "V (stmt (AddChannelUsers i us) c) = V c"
  "V (stmt (RemoveChannelUser i n) c) = V c" "V (stmt (ClearChannelUsers i) c) = V c"
  "V (stmt (ClearNetworkChannelUsers net) c) = V c" "V (stmt (UpdateChannelUserNickname net o2 n) c) = V c"
  using V_users by (simp_all add: stmt_def AddChannelUser_def AddChannelUsers_def RemoveChannelUser_def
    ClearChannelUsers_def ClearNetworkChannelUsers_def UpdateChannelUserNickname_def)

lemma V_member_mode [simp]: "V (member_mode chn t mc c) = V c"
  by (simp add: member_mode_def Let_def split: option.splits)

lemma V_mode [simp]: "V (handleMode e c) = V c"
  by (simp add: handleMode_def Let_def V_fold split: option.splits)

lemma V_leave [simp]: "V (leave ch u c) = V c"
  by (simp add: leave_def Let_def)

lemma V_part [simp]: "V (handlePart e c) = V c" "V (handleKick e c) = V c"
  by (simp_all add: handlePart_def handleKick_def Let_def split: list.splits option.splits)

lemma V_joined_channel [simp]: "joined_channel ch c = (f, b, c') \<Longrightarrow> V c' = V c"
proof -
  have "V (c\<lparr>cStore := (cStore c)\<lparr>stChannels := chs, stNext := n\<rparr>\<rparr>) = V c" for chs n
    using V_next [where c = "c\<lparr>cStore := (cStore c)\<lparr>stChannels := chs\<rparr>\<rparr>" and n = n] V_channels by simp
  then show "joined_channel ch c = (f, b, c') \<Longrightarrow> V c' = V c"
    by (auto simp: joined_channel_def CreateChannel_def Let_def split: option.splits prod.splits if_splits)
qed

lemma V_finishDisconnect [simp]: "V (finishDisconnect err e was c) = V c"
  by (simp add: finishDisconnect_def Let_def V_fold split: option.splits)

lemma V_quit_channel [simp]: "V (quit_channel e chn c) = V c"
  by (simp add: quit_channel_def Let_def split: option.splits)

end

text \<open>A view that sees neither: every handler of membership is quiet for it.\<close>

locale life_frame = meta_blind V + roster_blind V for V :: "client \<Rightarrow> 'v"
begin

lemma V_join [simp]: "V (handleJoin e c) = V c"
proof (cases "mParams e")
  case (Cons ch ps)
  obtain f b c1 where j: "joined_channel ch (maybeApplyExtendedJoin e (maybeApplyAccountTag e (maybeMarkBotFromTag e c)))
      = (f, b, c1)" by (metis prod_cases3)
  have c1: "V c1 = V c" using V_joined_channel [OF j] by simp
  show ?thesis by (cases f) (simp_all add: handleJoin_def Cons Let_def j c1)
qed (simp add: handleJoin_def)

lemma V_quit [simp]: "V (handleQuit e c) = V c"
  by (simp add: handleQuit_def Let_def V_fold split: option.splits)

lemma V_nick [simp]: "V (handleNickMessage e c) = V c"
  by (simp add: handleNickMessage_def Let_def split: list.splits)

lemma V_names [simp]: "V (handleNamReply e c) = V c"
proof -
  have "V (names_meta x c) = V c" for x c by (cases x) (simp add: names_meta_def)
  then show ?thesis by (simp add: handleNamReply_def Let_def V_fold split: option.splits)
qed

end

locale life_blind = aux_view V for V :: "client \<Rightarrow> 'v" +
  assumes V_cConnected: "V (c\<lparr>cConnected := b\<rparr>) = V c"
    and V_cAbandoned: "V (c\<lparr>cAbandoned := b\<rparr>) = V c"
    and V_cAutoJoin: "V (c\<lparr>cAutoJoin := j\<rparr>) = V c"
    and V_cConnectGen: "V (c\<lparr>cConnectGen := n\<rparr>) = V c"
    and V_cRegistration: "V (c\<lparr>cRegistration := r\<rparr>) = V c"
    and V_emit_start: "V (emit StartAutoJoin c) = V c"
    and V_emit_established: "V (emit (Event ConnectionEstablished) c) = V c"
begin

lemmas V_life_fields [simp] = V_cConnected V_cAbandoned V_cAutoJoin V_cConnectGen V_cRegistration V_emit_start V_emit_established

lemma V_life [simp]: "V (signalQuit r c) = V c" "V (handleServerError e c) = V c" "V (triggerAutoJoin c) = V c"
  "V (autoJoinTimer g c) = V c" "V (finishRegistrationCallbacks c) = V c" "V (beginRegistrationCallbacks c) = V c" "V (snd (onDisconnect c)) = V c"
  by (simp_all add: signalQuit_def handleServerError_def triggerAutoJoin_def autoJoinTimer_def
    finishRegistrationCallbacks_def beginRegistrationCallbacks_def onDisconnect_def Let_def split: option.splits)

end

section \<open>Messages a view does not see\<close>

text \<open>One lemma per table of callbacks, then the message as a whole, for the three kinds of view.\<close>

context attr_blind begin

lemma V_join_table: "p \<in> set join_handlers \<Longrightarrow> V (snd p e c) = V c"
proof -
  have "\<forall>p \<in> set join_handlers. V (snd p e c) = V c" by (simp add: join_handlers_def)
  then show "p \<in> set join_handlers \<Longrightarrow> V (snd p e c) = V c" by blast
qed

end

definition life_commands :: "string set" where
  "life_commands = {''ERROR'', ''376'', ''422''}"

context life_frame begin

lemma V_tables:
  "\<forall>p \<in> set roster_handlers. V (snd p e c) = V c" "\<forall>p \<in> set (channel_handlers env). V (snd p e c) = V c"
  "\<forall>p \<in> set session_handlers. fst p \<in> life_commands \<or> V (snd p e c) = V c"
  by (simp_all add: roster_handlers_def channel_handlers_def session_handlers_def life_commands_def)

lemma V_receive:
  assumes "mCommand e \<notin> life_commands" shows "V (receive env e c) = V c"
  unfolding receive_def
proof (rule run_handlers_view)
  fix p c assume p: "p \<in> set (setupHandlers env)" "fst p = mCommand e"
  from setupHandlers_cases [OF p(1)] show "V (snd p e c) = V c"
    using p(2) assms V_tables(1) [where e = e and c = c] V_tables(2) [where e = e and c = c and env = env]
      V_tables(3) [where e = e and c = c] V_join_table [of p e c]
    by (elim disjE) (auto simp: life_commands_def)
qed

end

text \<open>The view that sees the members of the channels.\<close>

definition member_commands :: "string set" where
  "member_commands = {''JOIN'', ''PART'', ''QUIT'', ''KICK'', ''NICK'', ''353'', ''MODE''}"

locale member_frame = meta_blind V + attr_blind V + life_blind V for V :: "client \<Rightarrow> 'v"
begin

lemma V_tables:
  "\<forall>p \<in> set roster_handlers. fst p \<in> member_commands \<or> V (snd p e c) = V c"
  "\<forall>p \<in> set (channel_handlers env). fst p \<in> member_commands \<or> V (snd p e c) = V c"
  "\<forall>p \<in> set session_handlers. V (snd p e c) = V c"
  by (simp_all add: roster_handlers_def channel_handlers_def session_handlers_def member_commands_def)

lemma V_receive:
  assumes "mCommand e \<notin> member_commands" shows "V (receive env e c) = V c"
  unfolding receive_def
proof (rule run_handlers_view)
  fix p c assume p: "p \<in> set (setupHandlers env)" "fst p = mCommand e"
  from setupHandlers_cases [OF p(1)] show "V (snd p e c) = V c"
    using p(2) assms V_tables(1) [where e = e and c = c] V_tables(2) [where e = e and c = c and env = env]
      V_tables(3) [where e = e and c = c] V_join_table [of p e c]
    by (elim disjE) (auto simp: member_commands_def)
qed

end

text \<open>The view that sees the roster metadata.\<close>

definition meta_commands :: "string set" where
  "meta_commands = {''PRIVMSG'', ''NOTICE'', ''JOIN'', ''QUIT'', ''NICK'', ''AWAY'', ''ACCOUNT'', ''CHGHOST'', ''SETNAME'',
     ''354'', ''353''}"

locale meta_frame = roster_blind V + life_blind V for V :: "client \<Rightarrow> 'v"
begin

lemma V_tables:
  "\<forall>p \<in> set roster_handlers. fst p \<in> meta_commands \<or> V (snd p e c) = V c"
  "\<forall>p \<in> set (channel_handlers env). fst p \<in> meta_commands \<or> V (snd p e c) = V c"
  "\<forall>p \<in> set session_handlers. V (snd p e c) = V c"
  by (simp_all add: roster_handlers_def channel_handlers_def session_handlers_def meta_commands_def)

lemma V_receive:
  assumes "mCommand e \<notin> meta_commands" shows "V (receive env e c) = V c"
  unfolding receive_def
proof (rule run_handlers_view)
  fix p c assume p: "p \<in> set (setupHandlers env)" "fst p = mCommand e"
  from setupHandlers_cases [OF p(1)] show "V (snd p e c) = V c"
    using p(2) assms V_tables(1) [where e = e and c = c] V_tables(2) [where e = e and c = c and env = env]
      V_tables(3) [where e = e and c = c] V_join_table [of p e c]
    by (elim disjE) (auto simp: meta_commands_def)
qed

end

end
