(* ===== verification/Session_Props.thy ===== *)
theory Session_Props
  imports Client_Views
begin

text \<open>
  The life of a connection: an abandoned client never comes back, the channels are joined once per
  connection, \<open>Connect\<close> returns when the registration callbacks have run, and our away state follows
  the server.
\<close>

section \<open>The session machine\<close>

text \<open>
  What the application may rely on: whether the client is connected or retired, the state of the
  auto-join \<open>Once\<close> and of the registration boundary, which \<open>Connect\<close> they belong to, and how often
  the auto-join was started and the connection announced.
\<close>

record session =
  sConnected :: bool
  sAbandoned :: bool
  sAutoJoin :: "bool option"
  sGen :: nat
  sRegistration :: "bool option"
  sStarts :: nat
  sEstablished :: nat

definition quit :: "session \<Rightarrow> session" where
  "quit s = s\<lparr>sConnected := False, sAbandoned := True\<rparr>"

definition trigger :: "session \<Rightarrow> session" where
  "trigger s = (if sAutoJoin s = Some False then s\<lparr>sAutoJoin := Some True, sStarts := Suc (sStarts s)\<rparr> else s)"

definition finish :: "session \<Rightarrow> session" where
  "finish s = (if sRegistration s = None then s else s\<lparr>sRegistration := Some True\<rparr>)"

definition session_step :: "client_op \<Rightarrow> session \<Rightarrow> session" where
  "session_step op s = (case op of
     Receive e \<Rightarrow> if mCommand e = ''ERROR'' then (if sAbandoned s then s else quit s)
       else if mCommand e = ''376'' \<or> mCommand e = ''422'' then trigger s else s
   | BeginConnect \<Rightarrow> s\<lparr>sRegistration := Some False, sAutoJoin := Some False, sGen := Suc (sGen s)\<rparr>
   | Connected e \<Rightarrow> finish (if sAbandoned s then quit s else s\<lparr>sConnected := True, sEstablished := Suc (sEstablished s)\<rparr>)
   | Lost \<Rightarrow> quit s
   | TearDown r \<Rightarrow> quit s
   | TimerFires g \<Rightarrow> if g = sGen s then trigger s else s
   | _ \<Rightarrow> s)"

definition count_out :: "out \<Rightarrow> client \<Rightarrow> nat" where
  "count_out x c = length (filter (\<lambda>y. y = x) (cOut c))"

definition session_of :: "client \<Rightarrow> session" where
  "session_of c = \<lparr>sConnected = cConnected c, sAbandoned = cAbandoned c, sAutoJoin = cAutoJoin c, sGen = cConnectGen c,
     sRegistration = cRegistration c, sStarts = count_out StartAutoJoin c,
     sEstablished = count_out (Event ConnectionEstablished) c\<rparr>"

lemma session_emit: "plain x \<Longrightarrow> session_of (emit x c) = session_of c"
  by (auto simp: session_of_def count_out_def emit_def)

interpretation lf: life_frame session_of
  by unfold_locales (auto simp: session_emit, simp_all add: session_of_def count_out_def emit_def)

lemma session_quit: "session_of (signalQuit r c) = quit (session_of c)"
  by (simp add: session_of_def signalQuit_def emit_def count_out_def quit_def)

lemma session_trigger: "session_of (triggerAutoJoin c) = trigger (session_of c)"
  by (simp add: session_of_def triggerAutoJoin_def emit_def count_out_def trigger_def)

lemma session_finish: "session_of (finishRegistrationCallbacks c) = finish (session_of c)"
  by (simp add: session_of_def finishRegistrationCallbacks_def count_out_def finish_def split: option.splits)

lemma session_begin: "session_of (beginRegistrationCallbacks c)
    = (session_of c)\<lparr>sRegistration := Some False, sAutoJoin := Some False, sGen := Suc (sGen (session_of c))\<rparr>"
  by (simp add: session_of_def beginRegistrationCallbacks_def count_out_def)

lemma session_lost: "session_of (snd (onDisconnect c)) = quit (session_of c)"
  by (simp add: session_of_def onDisconnect_def emit_def count_out_def quit_def)

lemma session_connected: "session_of (emit (Event ConnectionEstablished) c)
    = (session_of c)\<lparr>sEstablished := Suc (sEstablished (session_of c))\<rparr>"
  by (simp add: session_of_def emit_def count_out_def)

lemma session_set_connected: "session_of (c\<lparr>cConnected := b\<rparr>) = (session_of c)\<lparr>sConnected := b\<rparr>"
  by (simp add: session_of_def count_out_def)

lemma session_fields [simp]: "sAbandoned (session_of c) = cAbandoned c" "sGen (session_of c) = cConnectGen c"
  "sConnected (session_of c) = cConnected c" "sRegistration (session_of c) = cRegistration c"
  by (simp_all add: session_of_def)

lemma handlers_of:
  "filter (\<lambda>p. fst p = ''376'') (setupHandlers env) = [(''376'', \<lambda>_. triggerAutoJoin)]"
  "filter (\<lambda>p. fst p = ''422'') (setupHandlers env) = [(''422'', \<lambda>_. triggerAutoJoin)]"
  "filter (\<lambda>p. fst p = ''ERROR'') (setupHandlers env) = [(''ERROR'', handleServerError)]"
  by (simp_all add: setupHandlers_def join_handlers_def roster_handlers_def channel_handlers_def
    session_handlers_def genericErrorNumerics_def)

lemma session_receive: "session_of (receive env e c) = session_step (Receive e) (session_of c)"
proof (cases "mCommand e \<in> life_commands")
  case False
  then show ?thesis by (simp add: lf.V_receive session_step_def life_commands_def)
next
  case True
  then consider "mCommand e = ''ERROR''" | "mCommand e = ''376''" | "mCommand e = ''422''"
    by (auto simp: life_commands_def)
  then show ?thesis
  proof cases
    case 1
    show ?thesis unfolding receive_one [OF handlers_of(3) 1]
      by (simp add: 1 handleServerError_def Let_def session_quit session_step_def)
  next
    case 2
    show ?thesis unfolding receive_one [OF handlers_of(1) 2] by (simp add: 2 session_trigger session_step_def)
  next
    case 3
    show ?thesis unfolding receive_one [OF handlers_of(2) 3] by (simp add: 3 session_trigger session_step_def)
  qed
qed

lemma session_of_step: "session_of (client_step env op c) = session_step op (session_of c)"
proof (cases op)
  case (Receive e)
  then show ?thesis by (simp add: session_receive)
next
  case (Connected e)
  then show ?thesis
    by (simp add: session_step_def onConnect_def Let_def session_finish session_connected session_quit
      session_set_connected)
qed (simp_all add: session_step_def session_begin session_lost session_quit autoJoinTimer_def session_trigger)

text \<open>
  C18: The life of a connection is the one of a small machine: under every message, library callback,
  timer and application call, the connected and retired flags, the auto-join guard, the registration
  boundary, the number of auto-joins started and of connections announced change exactly as
  \<open>session_step\<close> says, and nothing else a handler does touches them.
\<close>

theorem client_refines_session: "session_of (client_step env op c) = session_step op (session_of c)"
  by (rule session_of_step)

lemma session_run: "session_of (client_run env ops c) = fold session_step ops (session_of c)"
  by (induction ops arbitrary: c) (simp_all add: client_run_def session_of_step)

section \<open>An abandoned client stays away\<close>

definition retired :: "nat \<Rightarrow> session \<Rightarrow> bool" where
  "retired n s \<longleftrightarrow> sAbandoned s \<and> \<not> sConnected s \<and> sEstablished s = n"

lemmas machine_defs = session_step_def quit_def trigger_def finish_def

lemma retired_step: "retired n s \<Longrightarrow> retired n (session_step op s)"
  by (auto simp: retired_def machine_defs split: client_op.split)

definition not_both :: "session \<Rightarrow> bool" where
  "not_both s \<longleftrightarrow> \<not> (sConnected s \<and> sAbandoned s)"

lemma retired_run: "retired n s \<Longrightarrow> retired n (fold session_step ops s)"
  by (induction ops arbitrary: s) (auto intro: retired_step)

lemma not_both_step: "not_both s \<Longrightarrow> not_both (session_step op s)"
  by (auto simp: not_both_def machine_defs split: client_op.split)

lemma not_both_run: "not_both s \<Longrightarrow> not_both (fold session_step ops s)"
  by (induction ops arbitrary: s) (auto intro: not_both_step)



section \<open>The channels are joined once\<close>

text \<open>What completes the registration of connection \<open>gen\<close>: an end of MOTD, or the timer armed for it.\<close>

definition completes :: "nat \<Rightarrow> client_op \<Rightarrow> bool" where
  "completes gen op = (case op of Receive e \<Rightarrow> mCommand e = ''376'' \<or> mCommand e = ''422''
     | TimerFires g \<Rightarrow> g = gen | _ \<Rightarrow> False)"

lemma starts_run:
  assumes "BeginConnect \<notin> set ops" "sAutoJoin s = Some done"
  shows "sStarts (fold session_step ops s)
    = sStarts s + (if \<not> done \<and> (\<exists>op \<in> set ops. completes (sGen s) op) then 1 else 0)"
  using assms
proof (induction ops arbitrary: s "done")
  case (Cons op ops)
  have g: "sGen (session_step op s) = sGen s"
    using Cons.prems by (auto simp: machine_defs split: client_op.split)
  have s: "sStarts (session_step op s) = sStarts s + (if \<not> done \<and> completes (sGen s) op then 1 else 0)
      \<and> sAutoJoin (session_step op s) = Some (done \<or> completes (sGen s) op)"
    using Cons.prems by (cases op) (auto simp: machine_defs completes_def)
  show ?case using Cons.IH [OF _ conjunct2 [OF s]] Cons.prems(1) s g by simp
qed simp

text \<open>
  Between one \<open>Connect\<close> and the next, the auto-join is started exactly once when the registration
  completes (376, 422, or the fallback timer of this connection, in any number and order), and not at
  all before; the timer of an earlier connection starts nothing.
\<close>

theorem auto_join_once:
  assumes "BeginConnect \<notin> set ops"
  shows "count_out StartAutoJoin (client_run env (BeginConnect # ops) c)
    = count_out StartAutoJoin c + (if \<exists>op \<in> set ops. completes (Suc (cConnectGen c)) op then 1 else 0)"
proof -
  let ?b = "session_step BeginConnect (session_of c)"
  have "sStarts (session_of (client_run env (BeginConnect # ops) c)) = sStarts (fold session_step ops ?b)"
    unfolding session_run by simp
  also have "\<dots> = sStarts ?b + (if \<exists>op \<in> set ops. completes (sGen ?b) op then 1 else 0)"
    using starts_run [OF assms, of ?b False] by (simp add: session_step_def)
  finally show ?thesis by (simp add: session_step_def session_of_def)
qed

theorem auto_join_once_witness:
  "count_out StartAutoJoin (client_run demo_env [BeginConnect, TimerFires 0, Receive demo_message, Receive demo_message]
     (NewIRCClient demo_network demo_store 0)) = 1"
  using auto_join_once [of "[TimerFires 0, Receive demo_message, Receive demo_message]" demo_env
      "NewIRCClient demo_network demo_store 0"]
  by (simp add: completes_def demo_message_def NewIRCClient_def count_out_def)

section \<open>Connecting\<close>

lemma registration_run:
  assumes "BeginConnect \<notin> set ops" "sRegistration s = Some done"
  shows "sRegistration (fold session_step ops s) = Some (done \<or> (\<exists>e. Connected e \<in> set ops))"
  using assms
proof (induction ops arbitrary: s "done")
  case (Cons op ops)
  have "sRegistration (session_step op s) = Some (done \<or> (\<exists>e. op = Connected e))"
    using Cons.prems by (cases op) (auto simp: machine_defs)
  from Cons.IH [OF _ this] Cons.prems(1) show ?case by auto
qed simp

text \<open>
  C20: \<open>Connect\<close> returns as soon as the connect callback has run, whatever the other callbacks of the
  registration do, and until then it waits; it succeeds exactly when the client is connected and not
  retired then, and it takes over the capabilities the library negotiated.
\<close>

theorem Connect_returns:
  assumes "BeginConnect \<notin> set ops"
  shows "(fst (Connect None None (client_run env ops) acked c) = None) = (\<forall>e. Connected e \<notin> set ops)
    \<and> (fst (Connect None None (client_run env ops) acked c) = Some (Ok ()))
        = ((\<exists>e. Connected e \<in> set ops) \<and> cConnected (client_run env ops (beginRegistrationCallbacks c))
            \<and> \<not> cAbandoned (client_run env ops (beginRegistrationCallbacks c)))
    \<and> (fst (Connect None None (client_run env ops) acked c) = Some (Ok ())
        \<longrightarrow> cEnabledCaps (snd (Connect None None (client_run env ops) acked c)) = acked)"
proof -
  let ?d = "client_run env ops (beginRegistrationCallbacks c)"
  have "sRegistration (session_of ?d) = Some (\<exists>e. Connected e \<in> set ops)"
    using registration_run [OF assms, of "session_of (beginRegistrationCallbacks c)" False]
    by (simp add: session_run session_begin)
  then have "cRegistration ?d = Some (\<exists>e. Connected e \<in> set ops)" by simp
  then show ?thesis by (auto simp: Connect_def Let_def)
qed

theorem Connect_returns_witness:
  "fst (Connect None None (client_run demo_env [Connected demo_message]) (\<lambda>_. True)
     (NewIRCClient demo_network demo_store 0)) = Some (Ok ())"
proof -
  have "cConnected (client_run demo_env [Connected demo_message]
      (beginRegistrationCallbacks (NewIRCClient demo_network demo_store 0)))
    \<and> \<not> cAbandoned (client_run demo_env [Connected demo_message]
      (beginRegistrationCallbacks (NewIRCClient demo_network demo_store 0)))"
    using session_run [of demo_env "[Connected demo_message]" "beginRegistrationCallbacks (NewIRCClient demo_network demo_store 0)"]
    by (simp add: session_of_def machine_defs beginRegistrationCallbacks_def NewIRCClient_def)
  then show ?thesis
    using Connect_returns [of "[Connected demo_message]" demo_env "\<lambda>_. True" "NewIRCClient demo_network demo_store 0"]
    by simp
qed

text \<open>
  With SASL on, an error of the dial itself (a name that does not resolve, a refused connection, a
  bad certificate: anything but the three sentinels) is recorded as a failed authentication although
  the server was never asked, and the status line says so; without SASL it is not.
\<close>

theorem dial_error_blamed_on_sasl:
  "cAuthFailed (snd (Connect None (Some (OtherError t)) (\<lambda>c. c) acked c)) = (cSaslEnabled c \<or> cAuthFailed c)"
  by (simp add: Connect_def Let_def isSASLFailure_def transport_error_def emit_def beginRegistrationCallbacks_def
    writeStatusLine_def writeStatusBuffer_def write_row_def stmt_def)

section \<open>Away\<close>

lemma SetAway_state:
  "cSelfAway (snd (SetAway ans text c)) = cSelfAway c" "cSelfAwayMessage (snd (SetAway ans text c)) = cSelfAwayMessage c"
  "fst (SetAway ans text c) = Ok () \<Longrightarrow> cPendingAway (snd (SetAway ans text c)) = Some text"
  "fst (SetAway ans text c) \<noteq> Ok () \<Longrightarrow> cPendingAway (snd (SetAway ans text c)) = None"
  by (auto simp: SetAway_def SendRawCommand_def Let_def emit_def writeStatusBuffer_def write_row_def stmt_def
    split: prod.splits sum.splits if_splits option.splits)

text \<open>
  The away state we show is the one the server acknowledged: a request that was sent changes nothing
  until it is answered; a 306 then commits its text, and a 305 clears the state.
\<close>

theorem away_follows_server:
  assumes "fst (SetAway ans text c) = Ok ()"
  shows "cSelfAway (snd (SetAway ans text c)) = cSelfAway c
    \<and> cSelfAwayMessage (snd (SetAway ans text c)) = cSelfAwayMessage c
    \<and> cSelfAway (handleNowAway (snd (SetAway ans text c)))
    \<and> cSelfAwayMessage (handleNowAway (snd (SetAway ans text c))) = text
    \<and> \<not> cSelfAway (handleUnAway (snd (SetAway ans text c)))
    \<and> cSelfAwayMessage (handleUnAway (snd (SetAway ans text c))) = []"
  using SetAway_state(3) [OF assms] SetAway_state(1,2)
  by (simp add: handleNowAway_def handleUnAway_def emitSelfStatus_def emit_def Let_def)

theorem away_follows_server_witness:
  "cSelfAwayMessage (handleNowAway (snd (SetAway None ''lunch''
     ((NewIRCClient demo_network demo_store 0)\<lparr>cConnected := True\<rparr>)))) = ''lunch''"
proof -
  have "fst (SetAway None ''lunch'' ((NewIRCClient demo_network demo_store 0)\<lparr>cConnected := True\<rparr>)) = Ok ()"
    by (simp add: SetAway_def SendRawCommand_def validateRawCommand_def contains_any_def Let_def NewIRCClient_def
      demo_store_def stmt_result_def WriteMessageSync_def emit_def)
  from away_follows_server [OF this] show ?thesis by simp
qed

text \<open>
  Two requests in flight lose the away message: clear the state and set it again before the server
  has answered, and the 305 discards the pending text, so the 306 leaves us away with no message.
\<close>

theorem pipelined_away_loses_message:
  "cSelfAway (handleNowAway (handleUnAway (snd (SetAway ans text (snd (SetAway ans' [] c))))))
    \<and> cSelfAwayMessage (handleNowAway (handleUnAway (snd (SetAway ans text (snd (SetAway ans' [] c)))))) = []"
  by (simp add: handleNowAway_def handleUnAway_def emitSelfStatus_def emit_def Let_def)

end
