(* ===== verification/Roster_Props.thy ===== *)
theory Roster_Props
  imports Client_Views
begin

text \<open>
  The channels and their members follow the server: the rows of \<open>channels\<close> and \<open>channel_users\<close>, as
  the handlers keep them, represent a map from channels to sets of nicks, and every message changes the
  map as the protocol says. Names are compared as the database does (\<open>LOWER\<close>).
\<close>

section \<open>Members of a channel in the store\<close>

definition rowmem :: "channel_user list \<Rightarrow> nat \<Rightarrow> string set" where
  "rowmem us i = {sql_lower (cuNickname u) |u. u \<in> set us \<and> cuChannel u = i}"

abbreviation mem :: "store \<Rightarrow> nat \<Rightarrow> string set" where "mem s \<equiv> rowmem (stUsers s)"

lemma rowmem_simps [simp]:
  "rowmem [] i = {}" "rowmem (us @ vs) i = rowmem us i \<union> rowmem vs i"
  "rowmem (u # us) i = (if cuChannel u = i then insert (sql_lower (cuNickname u)) (rowmem us i) else rowmem us i)"
  by (auto simp: rowmem_def)

lemma rowmem_filter:
  "(\<And>u. u \<in> set us \<Longrightarrow> cuChannel u = i \<Longrightarrow> P u \<longleftrightarrow> Q (sql_lower (cuNickname u))) \<Longrightarrow>
     rowmem (filter P us) i = {n \<in> rowmem us i. Q n}"
  by (auto simp: rowmem_def)

lemma rowmem_map: "(\<And>u. cuChannel (f u) = cuChannel u \<and> cuNickname (f u) = cuNickname u) \<Longrightarrow> rowmem (map f us) i = rowmem us i"
  by (induction us) auto

lemma rowmem_upsert: "rowmem (upsert_user i n m us) = (rowmem us)(i := insert (sql_lower n) (rowmem us i))"
proof (cases "\<exists>u \<in> set us. cuChannel u = i \<and> cuNickname u = n")
  case True
  then have "sql_lower n \<in> rowmem us i" by (auto simp: rowmem_def)
  then show ?thesis using True by (auto simp: upsert_user_def rowmem_map fun_eq_iff)
qed (auto simp: upsert_user_def fun_eq_iff)

lemma mem_add: "stOpen s \<Longrightarrow> mem (snd (AddChannelUser i n m s)) = (mem s)(i := insert (sql_lower n) (mem s i))"
  by (simp add: AddChannelUser_def rowmem_upsert)

lemma mem_adds:
  "stOpen s \<Longrightarrow> mem (snd (AddChannelUsers i ps s)) = (mem s)(i := mem s i \<union> sql_lower ` fst ` set ps)"
proof -
  have "rowmem (fold (\<lambda>(n, m). upsert_user i n m) ps us) = (rowmem us)(i := rowmem us i \<union> sql_lower ` fst ` set ps)" for us
    by (induction ps arbitrary: us) (auto simp: rowmem_upsert fun_eq_iff)
  then show "stOpen s \<Longrightarrow> ?thesis" by (auto simp: AddChannelUsers_def)
qed

lemma mem_remove: "stOpen s \<Longrightarrow> mem (snd (RemoveChannelUser i n s)) = (mem s)(i := mem s i - {sql_lower n})"
  by (auto simp: RemoveChannelUser_def nick_row_def rowmem_def fun_eq_iff)

lemma mem_clear: "stOpen s \<Longrightarrow> mem (snd (ClearChannelUsers i s)) = (mem s)(i := {})"
  by (auto simp: ClearChannelUsers_def rowmem_def fun_eq_iff)

lemma mem_clear_net:
  "stOpen s \<Longrightarrow> mem (snd (ClearNetworkChannelUsers net s)) = (\<lambda>i. if i \<in> set (net_ids net s) then {} else mem s i)"
  by (auto simp: ClearNetworkChannelUsers_def rowmem_def fun_eq_iff)

text \<open>A renamed row replaces the rows that have the new nickname, byte for byte.\<close>

lemma rowmem_clash:
  "insert (sql_lower new) (rowmem (filter (\<lambda>v. \<not> (cuChannel v = k \<and> cuNickname v = new)) us) k)
     = insert (sql_lower new) (rowmem us k)"
  "j \<noteq> k \<Longrightarrow> rowmem (filter (\<lambda>v. \<not> (cuChannel v = k \<and> cuNickname v = new)) us) j = rowmem us j"
  by (auto simp: rowmem_def)

definition renamed :: "bool \<Rightarrow> string \<Rightarrow> string \<Rightarrow> string set \<Rightarrow> string set" where
  "renamed b old new M = (if b \<and> sql_lower old \<in> M then insert (sql_lower new) (M - {sql_lower old}) else M)"

lemma rowmem_rename:
  assumes "\<And>u. P u \<longleftrightarrow> sql_lower (cuNickname u) = sql_lower old \<and> cuChannel u \<in> I"
  shows "rowmem (rename_rows P new dn us) j = rowmem dn j \<union> renamed (j \<in> I) old new (rowmem us j)"
  using assms
proof (induction P new dn us rule: rename_rows.induct)
  case (1 P new dn)
  then show ?case by (simp add: renamed_def)
next
  case (2 P new dn u us)
  let ?k = "cuChannel u"
  let ?f = "filter (\<lambda>v. \<not> (cuChannel v = ?k \<and> cuNickname v = new))"
  show ?case
  proof (cases "P u")
    case False
    then have "\<not> (sql_lower (cuNickname u) = sql_lower old \<and> ?k \<in> I)" using 2(3) by blast
    then show ?thesis using False 2(2) [OF False 2(3)] by (auto simp: renamed_def)
  next
    case True
    have u: "sql_lower (cuNickname u) = sql_lower old" "?k \<in> I" using True 2(3) by auto
    have IH: "rowmem (rename_rows P new dn (u # us)) j = rowmem (?f dn @ [u\<lparr>cuNickname := new\<rparr>]) j
        \<union> renamed (j \<in> I) old new (rowmem (?f us) j)"
      using 2(1) [OF True refl 2(3)] True by (simp add: Let_def)
    show ?thesis
    proof (cases "j = ?k")
      case j: True
      obtain A B where A: "A = rowmem (?f dn) ?k" and B: "B = rowmem (?f us) ?k" by blast
      have "insert (sql_lower new) A = insert (sql_lower new) (rowmem dn ?k)"
        "insert (sql_lower new) B = insert (sql_lower new) (rowmem us ?k)"
        unfolding A B by (rule rowmem_clash)+
      then have "insert (sql_lower new) A \<union> renamed (?k \<in> I) old new B
          = rowmem dn ?k \<union> renamed (?k \<in> I) old new (rowmem (u # us) ?k)"
        using u by (auto simp: renamed_def)
      then show ?thesis unfolding IH unfolding j by (simp add: A B)
    next
      case False
      then show ?thesis unfolding IH rowmem_simps rowmem_clash(2) [OF False] by auto
    qed
  qed
qed

lemma mem_rename:
  "stOpen s \<Longrightarrow> mem (snd (UpdateChannelUserNickname net old new s)) = (\<lambda>j. renamed (j \<in> set (net_ids net s)) old new (mem s j))"
  by (auto simp: UpdateChannelUserNickname_def fun_eq_iff
    rowmem_rename [where old = old and I = "set (net_ids net s)"])

section \<open>The view of the roster\<close>

text \<open>The network, whether the store is open, the channels, their members, the next id.\<close>

definition chans :: "store \<Rightarrow> (nat \<times> nat \<times> string) list" where
  "chans s = map (\<lambda>ch. (chID ch, chNetwork ch, chName ch)) (stChannels s)"

definition member_view :: "client \<Rightarrow> nat \<times> bool \<times> (nat \<times> nat \<times> string) list \<times> (nat \<Rightarrow> string set) \<times> nat" where
  "member_view c = (cNetwork c, stOpen (cStore c), chans (cStore c), mem (cStore c), stNext (cStore c))"

lemma view_emit [simp]: "member_view (emit x c) = member_view c"
  by (simp add: member_view_def emit_def)

interpretation ro: member_frame member_view
proof unfold_locales
  fix f i c assume "attribute f"
  then show "member_view (stmt (update_channel i f) c) = member_view c"
    by (simp add: member_view_def stmt_def update_channel_def chans_def attribute_def)
qed (simp_all add: member_view_def emit_def chans_def)

text \<open>The roster: the members of each known channel, by folded name.\<close>

definition lookup :: "nat \<Rightarrow> (nat \<times> nat \<times> string) list \<Rightarrow> string \<Rightarrow> nat option" where
  "lookup net cs n = map_option fst (List.find (\<lambda>(i, nt, nm). nt = net \<and> sql_lower nm = n) cs)"

type_synonym roster = "string \<Rightarrow> string set option"

definition roster :: "client \<Rightarrow> roster" where
  "roster c n = map_option (mem (cStore c)) (lookup (cNetwork c) (chans (cStore c)) n)"

definition roster_of_view :: "nat \<times> bool \<times> (nat \<times> nat \<times> string) list \<times> (nat \<Rightarrow> string set) \<times> nat \<Rightarrow> roster" where
  "roster_of_view = (\<lambda>(net, op, cs, m, nx) n. map_option m (lookup net cs n))"

lemma roster_view: "roster c = roster_of_view (member_view c)"
  by (simp add: roster_of_view_def member_view_def roster_def fun_eq_iff)

lemma find_channel_lookup:
  assumes "stOpen (cStore c)"
  shows "map_option chID (find_channel name c) = lookup (cNetwork c) (chans (cStore c)) (sql_lower name)"
proof -
  have "map_option chID (List.find (\<lambda>ch. chNetwork ch = net \<and> sql_lower (chName ch) = n) chs)
      = lookup net (map (\<lambda>ch. (chID ch, chNetwork ch, chName ch)) chs) n" for net n chs
    by (induction chs) (auto simp: lookup_def)
  then show ?thesis using assms by (simp add: find_channel_def GetChannelByName_def chans_def)
qed

text \<open>The invariant: an open store, distinct channel ids below the next one, members of known channels.\<close>

definition roster_ok :: "client \<Rightarrow> bool" where
  "roster_ok c \<longleftrightarrow> (case member_view c of (net, op, cs, m, nx) \<Rightarrow>
     op \<and> distinct (map fst cs) \<and> (\<forall>(i, p) \<in> set cs. i < nx) \<and> (\<forall>i \<ge> nx. m i = {}))"

lemma roster_okD:
  assumes "roster_ok c"
  shows "stOpen (cStore c)" "distinct (map fst (chans (cStore c)))" "(i, p) \<in> set (chans (cStore c)) \<Longrightarrow> i < stNext (cStore c)"
    "stNext (cStore c) \<le> i \<Longrightarrow> mem (cStore c) i = {}"
  using assms by (auto simp: roster_ok_def member_view_def)

lemma roster_ok_view: "member_view c' = member_view c \<Longrightarrow> roster_ok c' = roster_ok c"
  by (simp add: roster_ok_def)

definition upd_members :: "((nat \<Rightarrow> string set) \<Rightarrow> nat \<Rightarrow> string set)
    \<Rightarrow> nat \<times> bool \<times> (nat \<times> nat \<times> string) list \<times> (nat \<Rightarrow> string set) \<times> nat
    \<Rightarrow> nat \<times> bool \<times> (nat \<times> nat \<times> string) list \<times> (nat \<Rightarrow> string set) \<times> nat" where
  "upd_members f = (\<lambda>(net, op, cs, m, nx). (net, op, cs, f m, nx))"

lemma upd_members_comp: "upd_members f (upd_members g v) = upd_members (\<lambda>m. f (g m)) v"
  by (cases v) (simp add: upd_members_def)

lemma view_parts:
  assumes "member_view c' = member_view c"
  shows "cNetwork c' = cNetwork c" "stOpen (cStore c') = stOpen (cStore c)" "chans (cStore c') = chans (cStore c)"
    "mem (cStore c') = mem (cStore c)" "stNext (cStore c') = stNext (cStore c)"
  using assms by (simp_all add: member_view_def)

lemma view_members:
  assumes "member_view c' = upd_members f (member_view c)"
  shows "cNetwork c' = cNetwork c" "stOpen (cStore c') = stOpen (cStore c)" "chans (cStore c') = chans (cStore c)"
    "mem (cStore c') = f (mem (cStore c))" "stNext (cStore c') = stNext (cStore c)"
  using assms by (simp_all add: member_view_def upd_members_def)

lemma store_fields [simp]:
  "stOpen (snd (AddChannelUser i n m s)) = stOpen s" "chans (snd (AddChannelUser i n m s)) = chans s"
  "stNext (snd (AddChannelUser i n m s)) = stNext s"
  "stOpen (snd (AddChannelUsers i us s)) = stOpen s" "chans (snd (AddChannelUsers i us s)) = chans s"
  "stNext (snd (AddChannelUsers i us s)) = stNext s"
  "stOpen (snd (RemoveChannelUser i n s)) = stOpen s" "chans (snd (RemoveChannelUser i n s)) = chans s"
  "stNext (snd (RemoveChannelUser i n s)) = stNext s"
  "stOpen (snd (ClearChannelUsers i s)) = stOpen s" "chans (snd (ClearChannelUsers i s)) = chans s"
  "stNext (snd (ClearChannelUsers i s)) = stNext s"
  "stOpen (snd (ClearNetworkChannelUsers i s)) = stOpen s" "chans (snd (ClearNetworkChannelUsers i s)) = chans s"
  "stNext (snd (ClearNetworkChannelUsers i s)) = stNext s"
  "stOpen (snd (UpdateChannelUserNickname i x y s)) = stOpen s" "chans (snd (UpdateChannelUserNickname i x y s)) = chans s"
  "stNext (snd (UpdateChannelUserNickname i x y s)) = stNext s"
  by (simp_all add: AddChannelUser_def AddChannelUsers_def RemoveChannelUser_def ClearChannelUsers_def
    ClearNetworkChannelUsers_def UpdateChannelUserNickname_def chans_def)

lemma net_ids_chans: "set (net_ids net s) = {i. \<exists>nm. (i, net, nm) \<in> set (chans s)}"
  by (force simp: net_ids_def chans_def)

text \<open>The statements on members, on the view.\<close>

lemma view_stmts:
  assumes "stOpen (cStore c)"
  shows "member_view (stmt (AddChannelUser i n md) c) = upd_members (\<lambda>m. m(i := insert (sql_lower n) (m i))) (member_view c)"
    "member_view (stmt (AddChannelUsers i us) c) = upd_members (\<lambda>m. m(i := m i \<union> sql_lower ` fst ` set us)) (member_view c)"
    "member_view (stmt (RemoveChannelUser i n) c) = upd_members (\<lambda>m. m(i := m i - {sql_lower n})) (member_view c)"
    "member_view (stmt (ClearChannelUsers i) c) = upd_members (\<lambda>m. m(i := {})) (member_view c)"
    "member_view (stmt (ClearNetworkChannelUsers net) c)
      = upd_members (\<lambda>m i. if i \<in> set (net_ids net (cStore c)) then {} else m i) (member_view c)"
    "member_view (stmt (UpdateChannelUserNickname net x y) c)
      = upd_members (\<lambda>m i. renamed (i \<in> set (net_ids net (cStore c))) x y (m i)) (member_view c)"
  using assms by (simp_all add: member_view_def stmt_def upd_members_def mem_add mem_adds mem_remove mem_clear mem_clear_net
    mem_rename)

section \<open>Each membership message\<close>

lemma view_leave: "stOpen (cStore c) \<Longrightarrow>
    member_view (leave ch u c) = upd_members (\<lambda>m. m(chID ch := m (chID ch) - {sql_lower u})) (member_view c)"
  by (simp add: leave_def Let_def view_stmts)

definition on_channel :: "string \<Rightarrow> (string set \<Rightarrow> string set) \<Rightarrow> client \<Rightarrow> client \<Rightarrow> bool" where
  "on_channel name f c c' \<longleftrightarrow> member_view c' = (case lookup (cNetwork c) (chans (cStore c)) (sql_lower name) of
     None \<Rightarrow> member_view c | Some i \<Rightarrow> upd_members (\<lambda>m. m(i := f (m i))) (member_view c))"

lemma part_view:
  assumes "stOpen (cStore c)" "mParams e = channel # ps"
  shows "on_channel channel (\<lambda>M. M - {sql_lower (Nick e)}) c (handlePart e c)"
  using find_channel_lookup [OF assms(1), of channel, symmetric] assms
  by (cases "find_channel channel c") (auto simp: on_channel_def handlePart_def Let_def view_leave)

lemma kick_view:
  assumes "stOpen (cStore c)" "2 \<le> length (mParams e)"
  shows "on_channel (mParams e ! 0) (\<lambda>M. M - {sql_lower (mParams e ! 1)}) c (handleKick e c)"
  using find_channel_lookup [OF assms(1), of "mParams e ! 0", symmetric] assms
  by (cases "find_channel (mParams e ! 0) c") (auto simp: on_channel_def handleKick_def Let_def view_leave)

text \<open>Names the database takes for equal are equal under every case mapping.\<close>

lemma casefold_sql_lower: "casefold mapping (sql_lower s) = casefold mapping s"
proof -
  have "fold_byte b t (if 65 \<le> byte x \<and> byte x \<le> 90 then char_of (byte x + 32) else x) = fold_byte b t x" for b t x
    by (auto simp: fold_byte_lower) (simp add: fold_byte_def)
  then show ?thesis by (simp add: casefold_def sql_lower_def split: prod.split)
qed

lemma sql_same: "sql_lower a = sql_lower b \<Longrightarrow> same c a b"
  unfolding same_def sameName_def by (metis casefold_sql_lower)

lemma quit_channel_view:
  assumes "stOpen (cStore c)"
  shows "member_view (quit_channel e ch c) = upd_members (\<lambda>m. m(chID ch := m (chID ch) - {sql_lower (Nick e)})) (member_view c)"
proof -
  obtain us where us: "GetChannelUsers (chID ch) (cStore c) = Some us" "set us = {u \<in> set (stUsers (cStore c)). cuChannel u = chID ch}"
    using assms by (simp add: GetChannelUsers_def)
  show ?thesis
  proof (cases "List.find (\<lambda>u. same c (cuNickname u) (Nick e)) us")
    case None
    then have "sql_lower (Nick e) \<notin> mem (cStore c) (chID ch)"
      using us(2) find_NoneD [OF None] sql_same [of "cuNickname u" "Nick e" c for u] by (auto simp: rowmem_def) blast
    then have "member_view c = upd_members (\<lambda>m. m(chID ch := m (chID ch) - {sql_lower (Nick e)})) (member_view c)"
      by (simp add: member_view_def upd_members_def)
    then show ?thesis using None us(1) by (simp add: quit_channel_def)
  next
    case (Some u)
    then show ?thesis using us(1) view_stmts(3) [OF assms] by (simp add: quit_channel_def Let_def)
  qed
qed

lemma quit_fold_view:
  "stOpen (cStore c) \<Longrightarrow> member_view (fold (quit_channel e) chs c)
     = upd_members (\<lambda>m i. if i \<in> chID ` set chs then m i - {sql_lower (Nick e)} else m i) (member_view c)"
proof (induction chs arbitrary: c)
  case (Cons ch chs)
  have v: "member_view (quit_channel e ch c) = upd_members (\<lambda>m. m(chID ch := m (chID ch) - {sql_lower (Nick e)})) (member_view c)"
    using quit_channel_view Cons.prems .
  then have "stOpen (cStore (quit_channel e ch c))" using Cons.prems view_members(2) by blast
  then have "member_view (fold (quit_channel e) (ch # chs) c) = upd_members
      (\<lambda>m i. if i \<in> chID ` set chs then m i - {sql_lower (Nick e)} else m i) (member_view (quit_channel e ch c))"
    using Cons.IH by simp
  also have "\<dots> = upd_members (\<lambda>m i. if i \<in> chID ` set (ch # chs) then m i - {sql_lower (Nick e)} else m i) (member_view c)"
    unfolding v by (auto simp: upd_members_def member_view_def fun_eq_iff)
  finally show ?case .
qed (simp add: upd_members_def member_view_def)

lemma GetChannels_ids:
  "stOpen s \<Longrightarrow> \<exists>chs. GetChannels net s = Some chs \<and> chID ` set chs = set (net_ids net s)"
  by (auto simp: GetChannels_def net_ids_def)

lemma quit_view:
  assumes "stOpen (cStore c)"
  shows "member_view (handleQuit e c) = upd_members
    (\<lambda>m i. if i \<in> set (net_ids (cNetwork c) (cStore c)) then m i - {sql_lower (Nick e)} else m i) (member_view c)"
proof -
  let ?r = "removeUserMeta (Nick e) c"
  have v: "member_view ?r = member_view c" by simp
  have o: "stOpen (cStore ?r)" using assms view_parts(2) [OF v] by simp
  obtain chs where chs: "GetChannels (cNetwork ?r) (cStore ?r) = Some chs" "chID ` set chs = set (net_ids (cNetwork ?r) (cStore ?r))"
    using GetChannels_ids [OF o] by blast
  have "member_view (handleQuit e c) = member_view (fold (quit_channel e) chs ?r)"
    using chs(1) by (simp add: handleQuit_def Let_def)
  then show ?thesis
    using quit_fold_view [OF o, of e chs] chs(2) v view_parts(1,3) [OF v] by (simp add: net_ids_chans)
qed

lemma nick_view:
  assumes "stOpen (cStore c)" "mParams e = new # ps"
  shows "member_view (handleNickMessage e c)
    = upd_members (\<lambda>m i. renamed (i \<in> set (net_ids (cNetwork c) (cStore c))) (Nick e) new (m i)) (member_view c)"
  using assms view_stmts(6) [OF assms(1)] by (simp add: handleNickMessage_def Let_def)

text \<open>A mode change finds the member it names, so it adds none.\<close>

lemma member_mode_view:
  assumes "stOpen (cStore c)" shows "member_view (member_mode ch t mc c) = member_view c"
proof -
  have "GetChannelUserModes (chID ch) n (cStore c) = Some md \<Longrightarrow> sql_lower n \<in> mem (cStore c) (chID ch)" for n md
    using assms by (auto simp: GetChannelUserModes_def nick_row_def rowmem_def dest!: find_SomeD) (metis (full_types))
  then have "GetChannelUserModes (chID ch) n (cStore c) = Some md
      \<Longrightarrow> member_view (stmt (AddChannelUser (chID ch) n md') c) = member_view c" for n md md'
    using view_stmts(1) [OF assms] by (simp add: member_view_def upd_members_def fun_upd_idem insert_absorb)
  then show ?thesis by (simp add: member_mode_def Let_def split: option.splits)
qed

lemma mode_view:
  assumes "stOpen (cStore c)" shows "member_view (handleMode e c) = member_view c"
proof -
  have f: "member_view (fold (member_mode ch t) mcs c) = member_view c" if "stOpen (cStore c)" for ch t mcs c
    using that by (induction mcs arbitrary: c) (auto simp: member_mode_view view_parts(2) [OF member_mode_view])
  have op: "stOpen (cStore c') " if "member_view c' = member_view c" for c' using that assms view_parts(2) by metis
  show ?thesis by (auto simp: handleMode_def Let_def f op split: option.splits)
qed

text \<open>The nicks of one 353 line.\<close>

definition listed :: "string \<Rightarrow> string \<Rightarrow> string set" where
  "listed pfx l = set (filter (\<lambda>n. n \<noteq> []) (map (\<lambda>w. fst (names_entry pfx w)) (str_fields l)))"

lemma listed_eq: "listed pfx l = {n. n \<noteq> [] \<and> n \<in> (\<lambda>w. fst (names_entry pfx w)) ` set (str_fields l)}"
  by (auto simp: listed_def)

lemma names_meta_frame [simp]: "member_view (names_meta x c) = member_view c" "cServer (names_meta x c) = cServer c"
  "cNames (names_meta x c) = cNames c"
  by (cases x; simp add: names_meta_def applyUserMeta_def emitUserMeta_def Let_def member_view_def)+

lemma names_fold_frame [simp]: "member_view (fold names_meta xs c) = member_view c" "cServer (fold names_meta xs c) = cServer c"
  "cNames (fold names_meta xs c) = cNames c"
  by (induction xs arbitrary: c) auto

lemma names_view:
  assumes o: "stOpen (cStore c)" and p: "mParams e = [me, kind, channel, l]"
  defines "known \<equiv> lookup (cNetwork c) (chans (cStore c)) (sql_lower channel) \<noteq> None"
    and "key \<equiv> foldKey (cServer c) channel"
  shows "on_channel channel (\<lambda>M. (if cNames c key then M else {}) \<union> sql_lower ` listed (valid_prefixes c) l) c (handleNamReply e c)"
    "cServer (handleNamReply e c) = cServer c"
    "cNames (handleNamReply e c) = (if known then (cNames c)(key := True) else cNames c)"
proof -
  note f = find_channel_lookup [OF o, of channel, symmetric]
  have pp: "length (mParams e) = 4" "mParams e ! 2 = channel" "mParams e ! 3 = l" by (simp_all add: p)
  define c1 :: "channel \<Rightarrow> client" where "c1 ch = (if cNames c key then c
      else stmt (ClearChannelUsers (chID ch)) (c\<lparr>cNames := (cNames c)(key := True)\<rparr>))" for ch
  have vp: "cServer (c1 ch) = cServer c" "cNames (c1 ch) = (cNames c)(key := True)" for ch
    by (auto simp: c1_def stmt_def fun_upd_idem)
  have vm: "member_view (c1 ch) = (if cNames c key then member_view c else upd_members (\<lambda>m. m(chID ch := {})) (member_view c))" for ch
    using o by (simp add: c1_def view_stmts)
  have o1: "stOpen (cStore (fold names_meta xs (c1 ch)))" for xs ch
  proof -
    have "stOpen (cStore (c1 ch))" using o vm [of ch] by (simp add: member_view_def upd_members_def split: if_splits)
    then show ?thesis using view_parts(2) [OF names_fold_frame(1), of xs "c1 ch"] by simp
  qed
  have ls: "sql_lower ` fst ` set (map (\<lambda>(n, m, _). (n, m)) (filter (\<lambda>(n, _, _). n \<noteq> []) (map (names_entry v) ws)))
      = sql_lower ` {n. n \<noteq> [] \<and> n \<in> (\<lambda>w. fst (names_entry v w)) ` set ws}" for v ws
    by (induction ws) (auto split: prod.splits)
  have h: "handleNamReply e c = (case find_channel channel c of None \<Rightarrow> c
     | Some ch \<Rightarrow> let entries = map (names_entry (valid_prefixes (c1 ch))) (str_fields l)
         in stmt (AddChannelUsers (chID ch) (map (\<lambda>(n, m, _). (n, m)) (filter (\<lambda>(n, _, _). n \<noteq> []) entries)))
              (fold names_meta entries (c1 ch)))"
    by (simp only: handleNamReply_def pp Let_def c1_def key_def less_irrefl if_False)
  have vpc: "valid_prefixes (c1 ch) = valid_prefixes c" for ch by (simp add: valid_prefixes_def vp(1))
  show "on_channel channel (\<lambda>M. (if cNames c key then M else {}) \<union> sql_lower ` listed (valid_prefixes c) l) c (handleNamReply e c)"
  proof (cases "find_channel channel c")
    case None
    then show ?thesis by (simp add: h on_channel_def f)
  next
    case (Some ch)
    have "member_view (handleNamReply e c)
        = upd_members (\<lambda>m. m(chID ch := m (chID ch) \<union> sql_lower ` listed (valid_prefixes c) l)) (member_view (c1 ch))"
      by (simp only: h Some option.case Let_def view_stmts(2) [OF o1] names_fold_frame ls vpc listed_eq)
    then show ?thesis unfolding vm by (simp add: on_channel_def f Some upd_members_comp)
  qed
  have st: "cServer (stmt F d) = cServer d" "cNames (stmt F d) = cNames d" for F :: "store \<Rightarrow> bool \<times> store" and d
    by (simp_all add: stmt_def)
  show "cServer (handleNamReply e c) = cServer c"
    by (cases "find_channel channel c") (simp_all only: h option.case Let_def st names_fold_frame vp)
  show "cNames (handleNamReply e c) = (if known then (cNames c)(key := True) else cNames c)"
    by (cases "find_channel channel c")
      (simp_all only: known_def f h option.case option.map Let_def st names_fold_frame vp simp_thms option.distinct if_True if_False)
qed

text \<open>Our own JOIN may create the channel row.\<close>

lemma joined_view:
  assumes "stOpen (cStore c)"
  shows "case lookup (cNetwork c) (chans (cStore c)) (sql_lower channel) of
      Some i \<Rightarrow> \<exists>ch. joined_channel channel c = (Some ch, False, c) \<and> chID ch = i
    | None \<Rightarrow> \<exists>ch c'. joined_channel channel c = (Some ch, True, c') \<and> chID ch = stNext (cStore c)
        \<and> member_view c' = (cNetwork c, True, chans (cStore c) @ [(stNext (cStore c), cNetwork c, channel)], mem (cStore c),
            Suc (stNext (cStore c)))"
proof (cases "find_channel channel c")
  case (Some ch)
  then show ?thesis using find_channel_lookup [OF assms, of channel, symmetric] by (simp add: joined_channel_def)
next
  case None
  have "\<not> (\<exists>d \<in> set (stChannels (cStore c)). chNetwork d = cNetwork c \<and> chName d = channel)"
    using None assms by (auto simp: find_channel_def GetChannelByName_def dest: find_NoneD)
  then show ?thesis using None find_channel_lookup [OF assms, of channel, symmetric] assms
    by (simp add: joined_channel_def CreateChannel_def Let_def member_view_def chans_def)
qed

lemma join_view:
  assumes "stOpen (cStore c)" "mParams e = channel # ps"
  shows "member_view (handleJoin e c) = (case lookup (cNetwork c) (chans (cStore c)) (sql_lower channel) of
      Some i \<Rightarrow> upd_members (\<lambda>m. m(i := insert (sql_lower (Nick e)) (m i))) (member_view c)
    | None \<Rightarrow> (cNetwork c, True, chans (cStore c) @ [(stNext (cStore c), cNetwork c, channel)],
        (mem (cStore c))(stNext (cStore c) := insert (sql_lower (Nick e)) (mem (cStore c) (stNext (cStore c)))),
        Suc (stNext (cStore c))))"
proof -
  let ?d = "maybeApplyExtendedJoin e (maybeApplyAccountTag e (maybeMarkBotFromTag e c))"
  have v: "member_view ?d = member_view c" by simp
  note p = view_parts [OF v]
  have o: "stOpen (cStore ?d)" using assms(1) p(2) by simp
  have h: "member_view (handleJoin e c) = upd_members (\<lambda>m. m(chID ch := insert (sql_lower (Nick e)) (m (chID ch)))) (member_view d')"
    if "joined_channel channel ?d = (Some ch, b, d')" "stOpen (cStore d')" for ch b d'
  proof -
    have add: "member_view (stmt (AddChannelUser i n md) d2) = upd_members (\<lambda>m. m(i := insert (sql_lower n) (m i))) (member_view d')"
      if "member_view d2 = member_view d'" for d2 i n md
      using view_stmts(1) [of d2] that \<open>stOpen (cStore d')\<close> view_parts(2) [OF that] by simp
    show ?thesis
      by (cases "isMe d' (Nick e)") (simp_all add: handleJoin_def assms(2) Let_def that(1) add)
  qed
  show ?thesis
  proof (cases "lookup (cNetwork c) (chans (cStore c)) (sql_lower channel)")
    case (Some i)
    then obtain ch where "joined_channel channel ?d = (Some ch, False, ?d)" "chID ch = i"
      using joined_view [OF o, of channel] unfolding p by auto
    from h [OF this(1) o] this(2) show ?thesis by (simp only: Some v option.case)
  next
    case None
    then obtain ch d' where j: "joined_channel channel ?d = (Some ch, True, d')" "chID ch = stNext (cStore c)"
        and v': "member_view d' = (cNetwork c, True, chans (cStore c) @ [(stNext (cStore c), cNetwork c, channel)],
          mem (cStore c), Suc (stNext (cStore c)))"
      using joined_view [OF o, of channel] unfolding p by auto
    have "stOpen (cStore d')" using v' by (simp add: member_view_def)
    from h [OF j(1) this] show ?thesis by (simp add: None v' j(2) upd_members_def)
  qed
qed

end
