(* ===== verification/Roster_Spec.thy ===== *)
theory Roster_Spec
  imports Roster_Props
begin

text \<open>
  The specification of the roster, a map from folded channel names to sets of folded nicks, and the
  proof that the client implements it: message by message, through the burst of a NAMES reply, and
  over the reset of a new or a lost connection.
\<close>

section \<open>Channels by name and by id\<close>

lemma lookup_SomeD: "lookup net cs n = Some i \<Longrightarrow> \<exists>nm. (i, net, nm) \<in> set cs \<and> sql_lower nm = n"
  by (auto simp: lookup_def dest!: find_SomeD)

lemma lookup_inj:
  assumes "distinct (map fst cs)" "lookup net cs n = Some i" "lookup net cs k = Some i" shows "k = n"
proof -
  obtain a b where "(i, net, a) \<in> set cs" "sql_lower a = n" "(i, net, b) \<in> set cs" "sql_lower b = k"
    using lookup_SomeD [OF assms(2)] lookup_SomeD [OF assms(3)] by blast
  then show ?thesis using eq_key_imp_eq_value [OF assms(1), of i "(net, a)" "(net, b)"] by simp
qed

lemma lookup_append: "lookup net (cs @ [(i, net, nm)]) n
    = (case lookup net cs n of Some j \<Rightarrow> Some j | None \<Rightarrow> if sql_lower nm = n then Some i else None)"
  by (induction cs) (auto simp: lookup_def)

lemma rosterE:
  assumes "member_view c' = (net, op, cs, m, nx)"
  shows "roster c' = (\<lambda>n. map_option m (lookup net cs n))"
  using assms by (auto simp: roster_view roster_of_view_def)

lemma roster_members:
  assumes "member_view c' = upd_members f (member_view c)"
  shows "roster c' n = map_option (f (mem (cStore c))) (lookup (cNetwork c) (chans (cStore c)) n)"
  by (simp add: roster_def view_members [OF assms])

text \<open>The effect of a change of members on the roster, and the invariant.\<close>

lemma on_channel_roster:
  assumes "roster_ok c" "on_channel name f c c'"
  shows "roster c' = (roster c)(sql_lower name := map_option f (roster c (sql_lower name)))"
proof (cases "lookup (cNetwork c) (chans (cStore c)) (sql_lower name)")
  case None
  then have "member_view c' = member_view c" using assms(2) by (simp add: on_channel_def)
  then show ?thesis using None by (auto simp: roster_view [of c'] roster_view [of c, symmetric] roster_def)
next
  case (Some i)
  then have v: "member_view c' = upd_members (\<lambda>m. m(i := f (m i))) (member_view c)" using assms(2) by (simp add: on_channel_def)
  have "roster c' n = ((roster c)(sql_lower name := map_option f (roster c (sql_lower name)))) n" for n
    using lookup_inj [OF roster_okD(2) [OF assms(1)] Some, of n] Some
    by (cases "lookup (cNetwork c) (chans (cStore c)) n")
      (auto simp: roster_members [OF v] roster_def [of c])
  then show ?thesis by blast
qed

lemma upd_members_roster:
  assumes "member_view c' = upd_members (\<lambda>m i. if i \<in> set (net_ids (cNetwork c) (cStore c)) then f (m i) else m i) (member_view c)"
  shows "roster c' = (\<lambda>n. map_option f (roster c n))"
proof -
  have "roster c' n = map_option f (roster c n)" for n
    using lookup_SomeD [of "cNetwork c" "chans (cStore c)" n]
    by (cases "lookup (cNetwork c) (chans (cStore c)) n")
      (auto simp: roster_members [OF assms] roster_def [of c] net_ids_chans)
  then show ?thesis by blast
qed

lemma roster_ok_upd:
  assumes "roster_ok c" "member_view c' = upd_members f (member_view c)"
    and "\<And>i. stNext (cStore c) \<le> i \<Longrightarrow> f (mem (cStore c)) i = {}"
  shows "roster_ok c'"
proof -
  have "\<forall>i \<ge> stNext (cStore c). f (mem (cStore c)) i = {}" using assms(3) by blast
  then show ?thesis
    using roster_okD(1-3) [OF assms(1)]
    unfolding roster_ok_def assms(2) unfolding member_view_def upd_members_def prod.case by blast
qed

lemma on_channel_ok:
  assumes "roster_ok c" "on_channel name f c c'" shows "roster_ok c'"
proof (cases "lookup (cNetwork c) (chans (cStore c)) (sql_lower name)")
  case None
  then have "member_view c' = member_view c" using assms(2) by (simp add: on_channel_def)
  from roster_ok_view [OF this] show ?thesis using assms(1) by simp
next
  case (Some i)
  then have "i < stNext (cStore c)" using lookup_SomeD roster_okD(3) [OF assms(1)] by blast
  then show ?thesis
    using assms(2) Some roster_okD(4) [OF assms(1)]
    by (intro roster_ok_upd [OF assms(1), of c' "\<lambda>m. m(i := f (m i))"]) (auto simp: on_channel_def)
qed

section \<open>The specification\<close>

definition with_member :: "string \<Rightarrow> string set option \<Rightarrow> string set" where
  "with_member n M = insert n (case M of None \<Rightarrow> {} | Some M \<Rightarrow> M)"

definition roster_message :: "message \<Rightarrow> roster \<Rightarrow> roster" where
  "roster_message e R =
     (let who = sql_lower (Nick e) in
      if mCommand e = ''JOIN'' then (case mParams e of [] \<Rightarrow> R
        | channel # _ \<Rightarrow> R(sql_lower channel \<mapsto> with_member who (R (sql_lower channel))))
      else if mCommand e = ''PART'' then (case mParams e of [] \<Rightarrow> R
        | channel # _ \<Rightarrow> R(sql_lower channel := map_option (\<lambda>M. M - {who}) (R (sql_lower channel))))
      else if mCommand e = ''KICK'' then
        (if length (mParams e) < 2 then R
         else R(sql_lower (mParams e ! 0) :=
                map_option (\<lambda>M. M - {sql_lower (mParams e ! 1)}) (R (sql_lower (mParams e ! 0)))))
      else if mCommand e = ''QUIT'' then (\<lambda>n. map_option (\<lambda>M. M - {who}) (R n))
      else if mCommand e = ''NICK'' then (case mParams e of [] \<Rightarrow> R
        | new # _ \<Rightarrow> (\<lambda>n. map_option (renamed True (Nick e) new) (R n)))
      else R)"

lemma handlers_of_member:
  "filter (\<lambda>p. fst p = ''JOIN'') (setupHandlers env) = [(''JOIN'', handleJoin)]"
  "filter (\<lambda>p. fst p = ''PART'') (setupHandlers env) = [(''PART'', handlePart)]"
  "filter (\<lambda>p. fst p = ''KICK'') (setupHandlers env) = [(''KICK'', handleKick)]"
  "filter (\<lambda>p. fst p = ''QUIT'') (setupHandlers env) = [(''QUIT'', handleQuit)]"
  "filter (\<lambda>p. fst p = ''NICK'') (setupHandlers env) = [(''NICK'', handleNickMessage)]"
  "filter (\<lambda>p. fst p = ''MODE'') (setupHandlers env) = [(''MODE'', handleMode)]"
  "filter (\<lambda>p. fst p = ''353'') (setupHandlers env) = [(''353'', handleNamReply)]"
  "filter (\<lambda>p. fst p = ''366'') (setupHandlers env) = [(''366'', handleEndOfNames)]"
  by (simp_all add: setupHandlers_def join_handlers_def roster_handlers_def channel_handlers_def
    session_handlers_def genericErrorNumerics_def)

lemma same_roster: "member_view c' = member_view c \<Longrightarrow> roster c' = roster c"
  by (simp add: roster_view)

lemma join_spec:
  assumes ok: "roster_ok c" and p: "mParams e = channel # ps"
  shows "roster_ok (handleJoin e c)"
    "roster (handleJoin e c)
      = (roster c)(sql_lower channel \<mapsto> with_member (sql_lower (Nick e)) (roster c (sql_lower channel)))"
proof -
  note o = roster_okD(1) [OF ok]
  let ?M = "insert (sql_lower (Nick e))"
  have "roster_ok (handleJoin e c) \<and> roster (handleJoin e c)
      = (roster c)(sql_lower channel \<mapsto> with_member (sql_lower (Nick e)) (roster c (sql_lower channel)))"
  proof (cases "lookup (cNetwork c) (chans (cStore c)) (sql_lower channel)")
    case (Some i)
    then have oc: "on_channel channel ?M c (handleJoin e c)"
      using join_view [OF o p] by (simp add: on_channel_def)
    have "roster c (sql_lower channel) = Some (mem (cStore c) i)" using Some by (simp add: roster_def)
    then show ?thesis
      using on_channel_ok [OF ok oc] on_channel_roster [OF ok oc] by (simp add: with_member_def)
  next
    case None
    let ?nx = "stNext (cStore c)"
    have new: "mem (cStore c) ?nx = {}" using roster_okD(4) [OF ok] by blast
    have v: "member_view (handleJoin e c) = (cNetwork c, True, chans (cStore c) @ [(?nx, cNetwork c, channel)],
        (mem (cStore c))(?nx := {sql_lower (Nick e)}), Suc ?nx)"
      using join_view [OF o p] None new by simp
    have fresh: "(?nx, q) \<notin> set (chans (cStore c))" for q using roster_okD(3) [OF ok] by blast
    have "roster_ok (handleJoin e c)"
      using roster_okD(2-4) [OF ok] fresh by (auto simp: roster_ok_def v less_Suc_eq)
    moreover have "roster (handleJoin e c) n = ((roster c)(sql_lower channel \<mapsto> {sql_lower (Nick e)})) n" for n
      using fresh lookup_SomeD [of "cNetwork c" "chans (cStore c)" n] None
      by (cases "lookup (cNetwork c) (chans (cStore c)) n") (auto simp: rosterE [OF v] roster_def lookup_append)
    moreover have "roster c (sql_lower channel) = None" using None by (simp add: roster_def)
    ultimately show ?thesis by (auto simp: with_member_def)
  qed
  then show "roster_ok (handleJoin e c)" "roster (handleJoin e c)
      = (roster c)(sql_lower channel \<mapsto> with_member (sql_lower (Nick e)) (roster c (sql_lower channel)))"
    by blast+
qed

lemma panic_view: "member_view (emit Panic c) = member_view c" by simp

lemma roster_ok_all:
  assumes "roster_ok c" "f {} = {}"
    "member_view c' = upd_members (\<lambda>m i. if i \<in> set (net_ids (cNetwork c) (cStore c)) then f (m i) else m i) (member_view c)"
  shows "roster_ok c'"
  using roster_ok_upd [OF assms(1,3)] roster_okD(4) [OF assms(1)] assms(2) by simp

lemma nick_view_if:
  "(\<lambda>m i. renamed (i \<in> I) old new (m i)) = (\<lambda>m i. if i \<in> I then renamed True old new (m i) else m i)"
  by (auto simp: renamed_def fun_eq_iff)

lemma roster_step:
  assumes ok: "roster_ok c" and other: "mCommand e \<noteq> ''353''"
  shows "roster_ok (receive env e c) \<and> roster (receive env e c) = roster_message e (roster c)"
proof (cases "mCommand e \<in> member_commands")
  case False
  then have "roster_message e R = R" for R by (simp add: roster_message_def member_commands_def)
  then show ?thesis 
    using roster_ok_view [OF ro.V_receive [OF False]] same_roster [OF ro.V_receive [OF False]] ok by simp
next
  case True
  note o = roster_okD(1) [OF ok]
  from True other consider "mCommand e = ''JOIN''" | "mCommand e = ''PART''" | "mCommand e = ''KICK''"
    | "mCommand e = ''QUIT''" | "mCommand e = ''NICK''" | "mCommand e = ''MODE''"
    by (auto simp: member_commands_def)
  then show ?thesis
  proof cases
    case 1
    show ?thesis unfolding receive_one [OF handlers_of_member(1) 1]
    proof (cases "mParams e")
      case Nil
      then show "roster_ok (handleJoin e c) \<and> roster (handleJoin e c) = roster_message e (roster c)"
        using roster_ok_view [OF panic_view] same_roster [OF panic_view] ok 1
        by (simp add: handleJoin_def roster_message_def)
    next
      case (Cons channel ps)
      then show "roster_ok (handleJoin e c) \<and> roster (handleJoin e c) = roster_message e (roster c)"
        using join_spec [OF ok Cons] 1 by (simp add: roster_message_def)
    qed
  next
    case 2
    show ?thesis unfolding receive_one [OF handlers_of_member(2) 2]
    proof (cases "mParams e")
      case Nil
      then show "roster_ok (handlePart e c) \<and> roster (handlePart e c) = roster_message e (roster c)"
        using roster_ok_view [OF panic_view] same_roster [OF panic_view] ok 2
        by (simp add: handlePart_def roster_message_def)
    next
      case (Cons channel ps)
      note v = part_view [OF o Cons]
      then show "roster_ok (handlePart e c) \<and> roster (handlePart e c) = roster_message e (roster c)"
        using on_channel_ok [OF ok v] on_channel_roster [OF ok v] 2 Cons by (simp add: roster_message_def)
    qed
  next
    case 3
    show ?thesis unfolding receive_one [OF handlers_of_member(3) 3]
    proof (cases "length (mParams e) < 2")
      case True
      then show "roster_ok (handleKick e c) \<and> roster (handleKick e c) = roster_message e (roster c)"
        using ok 3 by (simp add: handleKick_def roster_message_def)
    next
      case False
      then have v: "on_channel (mParams e ! 0) (\<lambda>M. M - {sql_lower (mParams e ! 1)}) c (handleKick e c)"
        using kick_view [OF o] by simp
      then show "roster_ok (handleKick e c) \<and> roster (handleKick e c) = roster_message e (roster c)"
        using on_channel_ok [OF ok v] on_channel_roster [OF ok v] 3 False by (simp add: roster_message_def)
    qed
  next
    case 4
    note v = quit_view [OF o, of e]
    show ?thesis unfolding receive_one [OF handlers_of_member(4) 4]
      using roster_ok_all [OF ok _ v] upd_members_roster [OF v] 4 by (simp add: roster_message_def)
  next
    case 5
    show ?thesis unfolding receive_one [OF handlers_of_member(5) 5]
    proof (cases "mParams e")
      case Nil
      then show "roster_ok (handleNickMessage e c) \<and> roster (handleNickMessage e c) = roster_message e (roster c)"
        using roster_ok_view [OF panic_view] same_roster [OF panic_view] ok 5
        by (simp add: handleNickMessage_def roster_message_def)
    next
      case (Cons new ps)
      note v = nick_view [OF o Cons, unfolded nick_view_if]
      have "renamed True (Nick e) new {} = {}" by (simp add: renamed_def)
      then show "roster_ok (handleNickMessage e c) \<and> roster (handleNickMessage e c) = roster_message e (roster c)"
        using roster_ok_all [OF ok _ v] upd_members_roster [OF v] 5 Cons by (simp add: roster_message_def)
    qed
  next
    case 6
    note v = mode_view [OF o, of e]
    show ?thesis unfolding receive_one [OF handlers_of_member(6) 6]
      using roster_ok_view [OF v] same_roster [OF v] ok 6 by (simp add: roster_message_def)
  qed
qed

section \<open>The whole client\<close>

text \<open>Calls and callbacks other than messages: a new and a lost connection empty every channel.\<close>

definition roster_op :: "bool \<Rightarrow> client_op \<Rightarrow> roster \<Rightarrow> roster" where
  "roster_op abandoned op R = (case op of
     Receive e \<Rightarrow> roster_message e R
   | Connected e \<Rightarrow> if abandoned then R else (\<lambda>n. map_option (\<lambda>_. {}) (R n))
   | FinishLost err e was \<Rightarrow> (\<lambda>n. map_option (\<lambda>_. {}) (R n))
   | _ \<Rightarrow> R)"

definition names_line :: "client_op \<Rightarrow> bool" where
  "names_line op = (case op of Receive e \<Rightarrow> mCommand e = ''353'' | _ \<Rightarrow> False)"

lemma clear_fold_view:
  "stOpen (cStore c) \<Longrightarrow> member_view (fold (\<lambda>ch. stmt (ClearChannelUsers (chID ch))) chs c)
     = upd_members (\<lambda>m i. if i \<in> chID ` set chs then {} else m i) (member_view c)"
proof (induction chs arbitrary: c)
  case (Cons ch chs)
  note v = view_stmts(4) [OF Cons.prems, of "chID ch"]
  have "stOpen (cStore (stmt (ClearChannelUsers (chID ch)) c))" using view_members(2) [OF v] Cons.prems by simp
  from Cons.IH [OF this] show ?case unfolding fold_simps o_apply v by (auto simp: upd_members_def member_view_def fun_eq_iff)
qed (simp add: upd_members_def member_view_def)

lemma finish_lost_view:
  assumes "stOpen (cStore c)"
  shows "member_view (finishDisconnect err e was c)
    = upd_members (\<lambda>m i. if i \<in> set (net_ids (cNetwork c) (cStore c)) then {} else m i) (member_view c)"
proof -
  obtain chs where "GetChannels (cNetwork c) (cStore c) = Some chs" "chID ` set chs = set (net_ids (cNetwork c) (cStore c))"
    using GetChannels_ids [OF assms] by blast
  then show ?thesis using clear_fold_view [OF assms, of chs] by (simp add: finishDisconnect_def Let_def)
qed

lemma connected_view:
  assumes "stOpen (cStore c)"
  shows "member_view (onConnect e c) = (if cAbandoned c then member_view c
     else upd_members (\<lambda>m i. if i \<in> set (net_ids (cNetwork c) (cStore c)) then {} else m i) (member_view c))"
proof -
  let ?d = "writeStatusBuffer (plain_row None ''*'' ''status'' ''Connected to server'' (mRaw e) [] (c\<lparr>cConnected := True\<rparr>))
      (c\<lparr>cConnected := True\<rparr>)"
  have v: "member_view ?d = member_view c" by simp
  have "cNetwork ?d = cNetwork c" by (simp add: writeStatusBuffer_def write_row_def stmt_def emit_def)
  then show ?thesis
    using view_stmts(5) [of ?d "cNetwork c"] assms view_parts(2) [OF v] v view_parts(3) [OF v]
    by (simp add: onConnect_def Let_def net_ids_chans)
qed

lemma quiet_op: "member_view c' = member_view c \<Longrightarrow> roster_ok c \<Longrightarrow> roster_ok c' \<and> roster c' = roster c"
  using roster_ok_view same_roster by blast

lemma cleared_op:
  assumes "roster_ok c"
    "member_view c' = upd_members (\<lambda>m i. if i \<in> set (net_ids (cNetwork c) (cStore c)) then {} else m i) (member_view c)"
  shows "roster_ok c' \<and> roster c' = (\<lambda>n. map_option (\<lambda>_. {}) (roster c n))"
  using roster_ok_all [OF assms(1) _ assms(2)] upd_members_roster [OF assms(2)] by simp

lemma roster_run_step:
  assumes ok: "roster_ok c" and other: "\<not> names_line op"
  shows "roster_ok (client_step env op c) \<and> roster (client_step env op c) = roster_op (cAbandoned c) op (roster c)"
proof (cases op)
  case (Receive e)
  then show ?thesis using roster_step [OF ok] other by (simp add: roster_op_def names_line_def)
next
  case (Connected e)
  have v: "member_view (onConnect e c) = (if cAbandoned c then member_view c
     else upd_members (\<lambda>m i. if i \<in> set (net_ids (cNetwork c) (cStore c)) then {} else m i) (member_view c))"
    by (rule connected_view [OF roster_okD(1) [OF ok]])
  show ?thesis
  proof (cases "cAbandoned c")
    case True
    then have "member_view (onConnect e c) = member_view c" using v by simp
    from quiet_op [OF this ok] show ?thesis using True by (simp add: Connected roster_op_def)
  next
    case False
    then have "member_view (onConnect e c) = upd_members
        (\<lambda>m i. if i \<in> set (net_ids (cNetwork c) (cStore c)) then {} else m i) (member_view c)" using v by simp
    from cleared_op [OF ok this] show ?thesis using False by (simp add: Connected roster_op_def)
  qed
next
  case (FinishLost err e was)
  from cleared_op [OF ok finish_lost_view [OF roster_okD(1) [OF ok]]] show ?thesis
    by (simp add: FinishLost roster_op_def)
qed (simp only: client_step.simps roster_op_def client_op.case; rule quiet_op [OF _ ok]; simp)+


definition joining :: "string \<Rightarrow> string \<Rightarrow> client_op" where
  "joining nick channel = Receive \<lparr>mTags = [], mSource = nick @ ''!u@h'', mCommand = ''JOIN'', mParams = [channel], mRaw = []\<rparr>"

lemma demo_roster_ok: "roster_ok (NewIRCClient demo_network demo_store 0)"
  by (simp add: roster_ok_def member_view_def NewIRCClient_def demo_store_def chans_def)

lemma demo_roster: "roster (NewIRCClient demo_network demo_store 0) n = None"
  by (simp add: roster_def NewIRCClient_def demo_store_def chans_def lookup_def)

lemma demo_folded: "sql_lower ''#Go'' = ''#go''" "sql_lower ''Alice'' = ''alice''"
  by code_simp+


section \<open>A NAMES reply\<close>

lemma names_receive: "mCommand e = ''353'' \<Longrightarrow> receive env e c = handleNamReply e c"
  by (rule receive_one [OF handlers_of_member(7)])

lemma names_lines:
  fixes env :: env
  assumes "roster_ok c" "lookup (cNetwork c) (chans (cStore c)) (sql_lower channel) \<noteq> None"
    and "\<forall>e \<in> set es. mCommand e = ''353'' \<and> (\<exists>me kind. mParams e = [me, kind, channel, mParams e ! 3])"
  defines "c' \<equiv> fold (receive env) es c"
  shows "roster_ok c' \<and> cServer c' = cServer c
    \<and> roster c' = (roster c)(sql_lower channel := map_option (\<lambda>M. (if es = [] \<or> cNames c (foldKey (cServer c) channel) then M else {})
        \<union> sql_lower ` (\<Union>e \<in> set es. listed (valid_prefixes c) (mParams e ! 3))) (roster c (sql_lower channel)))
    \<and> lookup (cNetwork c') (chans (cStore c')) (sql_lower channel) = lookup (cNetwork c) (chans (cStore c)) (sql_lower channel)"
  using assms(1-3) unfolding c'_def
proof (induction es arbitrary: c)
  case Nil
  then show ?case by (simp add: option.map_ident)
next
  case (Cons e es)
  let ?d = "receive env e c"
  let ?N = "\<lambda>e. sql_lower ` listed (valid_prefixes c) (mParams e ! 3)"
  from Cons.prems(3) obtain me kind where p: "mParams e = [me, kind, channel, mParams e ! 3]" and e: "mCommand e = ''353''"
    by auto
  note o = roster_okD(1) [OF Cons.prems(1)]
  note v = names_view [OF o p, folded names_receive [OF e, of env]]
  have ok: "roster_ok ?d" and R: "roster ?d = (roster c)(sql_lower channel :=
      map_option (\<lambda>M. (if cNames c (foldKey (cServer c) channel) then M else {}) \<union> ?N e) (roster c (sql_lower channel)))"
    using on_channel_ok [OF Cons.prems(1) v(1)] on_channel_roster [OF Cons.prems(1) v(1)] by auto
  have l: "lookup (cNetwork ?d) (chans (cStore ?d)) (sql_lower channel) = lookup (cNetwork c) (chans (cStore c)) (sql_lower channel)"
    using v(1) Cons.prems(2) view_members(1,3) [of ?d _ c] by (force simp: on_channel_def)
  have k: "cNames ?d (foldKey (cServer ?d) channel)" using v(2,3) Cons.prems(2) by simp
  have vp: "valid_prefixes ?d = valid_prefixes c" by (simp add: valid_prefixes_def v(2))
  note IH = Cons.IH [OF ok, unfolded l, OF Cons.prems(2)]
  have *: "\<forall>e\<in>set es. mCommand e = ''353'' \<and> (\<exists>me kind. mParams e = [me, kind, channel, mParams e ! 3])"
    using Cons.prems(3) by simp
  show ?case using IH [OF *] k unfolding R v(2) vp
    by (auto simp: option.map_comp o_def image_Un Un_assoc image_UN intro!: arg_cong [where f = "\<lambda>f. map_option f _"])
qed

definition names_burst :: "string \<Rightarrow> string \<Rightarrow> string \<Rightarrow> string \<Rightarrow> string list \<Rightarrow> message list" where
  "names_burst src me kind channel ls =
     map (\<lambda>l. \<lparr>mTags = [], mSource = src, mCommand = ''353'', mParams = [me, kind, channel, l], mRaw = []\<rparr>) ls
     @ [\<lparr>mTags = [], mSource = src, mCommand = ''366'', mParams = [me, channel, ''End of /NAMES list.''], mRaw = []\<rparr>]"

lemma end_of_names:
  assumes "mCommand e = ''366''" "mParams e = [me, channel, t]"
  shows "member_view (receive env e c) = member_view c" "cServer (receive env e c) = cServer c"
    "\<not> cNames (receive env e c) (foldKey (cServer c) channel)"
proof -
  have r: "receive env e c = handleEndOfNames e c" by (rule receive_one [OF handlers_of_member(8) assms(1)])
  show "member_view (receive env e c) = member_view c" unfolding r by simp
  show "cServer (receive env e c) = cServer c" "\<not> cNames (receive env e c) (foldKey (cServer c) channel)"
    unfolding r by (simp_all add: handleEndOfNames_def assms(2) enqueuePostNamesRequests_def Let_def emit_def)
qed

text \<open>
  A NAMES reply replaces the members: of however many lines it is, in whatever case the channel is
  written, the members afterwards are exactly the nicks of its lines (every membership prefix the
  server announced stripped), no one who was there before stays, no other channel changes, and the
  next reply starts afresh.
\<close>

theorem names_burst_replaces:
  assumes "roster_ok c" "roster c (sql_lower channel) = Some old" "\<not> cNames c (foldKey (cServer c) channel)" "ls \<noteq> []"
  shows "roster (fold (receive env) (names_burst src me kind channel ls) c)
      = (roster c)(sql_lower channel \<mapsto> sql_lower ` (\<Union>l \<in> set ls. listed (valid_prefixes c) l))
    \<and> \<not> cNames (fold (receive env) (names_burst src me kind channel ls) c) (foldKey (cServer c) channel)"
proof -
  let ?es = "map (\<lambda>l. \<lparr>mTags = [], mSource = src, mCommand = ''353'', mParams = [me, kind, channel, l], mRaw = []\<rparr>) ls"
  let ?d = "fold (receive env) ?es c"
  let ?e = "\<lparr>mTags = [], mSource = src, mCommand = ''366'', mParams = [me, channel, ''End of /NAMES list.''], mRaw = []\<rparr>"
  have k: "lookup (cNetwork c) (chans (cStore c)) (sql_lower channel) \<noteq> None" using assms(2) by (auto simp: roster_def)
  have d: "cServer ?d = cServer c" "roster ?d = (roster c)(sql_lower channel \<mapsto>
      sql_lower ` (\<Union>l \<in> set ls. listed (valid_prefixes c) l))"
    using names_lines [OF assms(1) k, of ?es env] assms(2-4) by auto
  note e = end_of_names [of ?e me channel _ env ?d, OF _ _, simplified]
  have b: "fold (receive env) (names_burst src me kind channel ls) c = receive env ?e ?d" by (simp add: names_burst_def)
  show ?thesis unfolding b using same_roster [OF e(1)] e(3) d by simp
qed

text \<open>A client in \<open>#Go\<close> with Alice.\<close>

definition demo_joined :: client where
  "demo_joined = NewIRCClient demo_network (demo_store\<lparr>stChannels := [\<lparr>chID = 1, chNetwork = 1, chName = ''#Go'', chTopic = [],
     chModes = [], chKey = [], chAutoJoin = False, chIsOpen = True\<rparr>],
     stUsers := [\<lparr>cuChannel = 1, cuNickname = ''Alice'', cuModes = []\<rparr>], stNext := 2\<rparr>) 0"

lemma demo_joined_facts: "roster_ok demo_joined" "roster demo_joined ''#go'' = Some {''alice''}"
  "cServer demo_joined = fresh_server" "cNames demo_joined = (\<lambda>_. False)"
  by (simp_all add: demo_joined_def roster_ok_def roster_def member_view_def NewIRCClient_def demo_store_def demo_network_def chans_def
    lookup_def demo_folded)

theorem names_burst_replaces_witness:
  "roster (fold (receive demo_env) (names_burst ''srv'' ''me'' ''='' ''#GO'' [''me @Op'', ''+v'']) demo_joined) ''#go''
     = Some {''me'', ''op'', ''v''}"
proof -
  have g: "sql_lower ''#GO'' = ''#go''" by code_simp
  have vp: "valid_prefixes demo_joined = ''~&@%+''"
    unfolding valid_prefixes_def demo_joined_facts fresh_server_def by code_simp
  have f: "str_fields ''me @Op'' = [''me'', ''@Op'']" "str_fields ''+v'' = [''+v'']"
    by (simp_all add: str_fields_def go_text)
  have n: "fst (names_entry ''~&@%+'' ''me'') = ''me''" "fst (names_entry ''~&@%+'' ''@Op'') = ''Op''" "fst (names_entry ''~&@%+'' ''+v'') = ''v''"
    by code_simp+
  have w: "sql_lower ''me'' = ''me''" "sql_lower ''Op'' = ''op''" "sql_lower ''v'' = ''v''" by code_simp+
  have l: "sql_lower ` (\<Union>l \<in> set [''me @Op'', ''+v'']. listed (valid_prefixes demo_joined) l) = {''me'', ''op'', ''v''}"
  proof -
    have "listed ''~&@%+'' ''me @Op'' = {''me'', ''Op''}" "listed ''~&@%+'' ''+v'' = {''v''}"
      by (auto simp: listed_eq f n)
    then show ?thesis by (simp add: vp w insert_commute)
  qed
  show ?thesis
    using names_burst_replaces [of demo_joined "''#GO''" "{''alice''}" "[''me @Op'', ''+v'']" demo_env "''srv''" "''me''" "''=''"]
      demo_joined_facts g l by simp
qed

end
