(* ===== verification/Meta_Props.thy ===== *)
theory Meta_Props
  imports Client_Views
begin

text \<open>
  The metadata of the users (account, host, real name, away) reaches the application: a snapshot that
  was recorded is waiting to be published or is the last one published for its nick.
\<close>

section \<open>What was published\<close>

definition publish :: "out \<Rightarrow> (string \<rightharpoonup> UserMeta) \<Rightarrow> string \<rightharpoonup> UserMeta" where
  "publish x p = (case x of Event (UserMetaChanged k m) \<Rightarrow> p(k \<mapsto> m) | _ \<Rightarrow> p)"

definition published :: "out list \<Rightarrow> string \<rightharpoonup> UserMeta" where
  "published xs = fold publish xs Map.empty"

lemma published_snoc [simp]: "published (xs @ [x]) = publish x (published xs)"
  by (simp add: published_def)

lemma publish_plain: "plain x \<Longrightarrow> publish x p = p"
  by (auto simp: publish_def split: out.splits app_event.splits)

type_synonym meta_view = "(string \<rightharpoonup> UserMeta) \<times> (string \<rightharpoonup> UserMeta) \<times> (string \<rightharpoonup> UserMeta)"

definition mview :: "client \<Rightarrow> meta_view" where
  "mview c = (cUserMeta c, cMetaPending c, published (cOut c))"

interpretation mf: meta_frame mview
  by unfold_locales (simp_all add: mview_def emit_def publish_plain, simp_all add: publish_def)

text \<open>Every recorded snapshot is pending or published.\<close>

definition settled :: "meta_view \<Rightarrow> bool" where
  "settled = (\<lambda>(cur, pend, pub). \<forall>k m. cur k = Some m \<longrightarrow> pend k = Some m \<or> pend k = None \<and> pub k = Some m)"

section \<open>The operations on metadata\<close>

lemma settled_apply [simp]: "settled (mview c) \<Longrightarrow> settled (mview (applyUserMeta n f c))"
  by (auto simp: settled_def mview_def applyUserMeta_def emitUserMeta_def Let_def)

lemma settled_rename [simp]: "settled (mview c) \<Longrightarrow> settled (mview (renameUserMeta a b c))"
  by (auto simp: settled_def mview_def renameUserMeta_def emitUserMeta_def Let_def split: option.splits)

lemma settled_remove [simp]: "settled (mview c) \<Longrightarrow> settled (mview (removeUserMeta n c))"
  by (auto simp: settled_def mview_def removeUserMeta_def)

lemma settled_publish_one:
  "settled (mview c) \<Longrightarrow> cMetaPending c k = Some m \<Longrightarrow>
     settled (mview (emit (Event (UserMetaChanged k m)) (c\<lparr>cMetaPending := (cMetaPending c)(k := None)\<rparr>)))"
  by (simp add: settled_def mview_def emit_def publish_def) (metis option.distinct(1) option.inject)

lemma settled_drain [simp]: "settled (mview c) \<Longrightarrow> settled (mview (drainMetaPending ks c))"
  by (induction ks c rule: drainMetaPending.induct) (auto simp: settled_publish_one split: option.splits)

lemma settled_fold: "(\<And>x c. settled (mview c) \<Longrightarrow> settled (mview (f x c))) \<Longrightarrow> settled (mview c) \<Longrightarrow>
    settled (mview (fold f xs c))"
  by (induction xs arbitrary: c) auto

lemma settled_tags [simp]: "settled (mview c) \<Longrightarrow> settled (mview (maybeApplyAccountTag e c))"
    "settled (mview c) \<Longrightarrow> settled (mview (maybeApplyExtendedJoin e c))"
  by (simp_all add: maybeApplyAccountTag_def maybeApplyExtendedJoin_def Let_def split: option.splits)

lemma settled_attributes [simp]:
  assumes "settled (mview c)"
  shows "settled (mview (handleAway e c))" "settled (mview (handleAccount e c))" "settled (mview (handleChghost e c))"
    "settled (mview (handleSetname e c))" "settled (mview (applyWhoxRow ps c))" "settled (mview (whox_item e c))"
    "settled (mview (handleWhoxReply e c))" "settled (mview (names_meta x c))"
  using assms by (simp_all add: handleAway_def handleAccount_def handleChghost_def handleSetname_def applyWhoxRow_def
    whox_item_def handleWhoxReply_def names_meta_def Let_def split: list.splits prod.splits)

lemma settled_batch [simp]: "settled (mview c) \<Longrightarrow> settled (mview (handleWhoxBatch b c))"
  by (auto simp: handleWhoxBatch_def intro!: settled_fold split: option.splits)

section \<open>The handlers\<close>

lemma settled_texts [simp]:
  assumes "settled (mview c)"
  shows "settled (mview (handlePrivmsg tm fmt e c))" "settled (mview (handleNotice tm e c))"
  using assms by (auto simp: handlePrivmsg_def handleNotice_def Let_def split: list.splits option.splits)

lemma settled_join [simp]:
  assumes "settled (mview c)" shows "settled (mview (handleJoin e c))"
proof (cases "mParams e")
  case (Cons ch ps)
  obtain f b c1 where j: "joined_channel ch (maybeApplyExtendedJoin e (maybeApplyAccountTag e (maybeMarkBotFromTag e c)))
      = (f, b, c1)" by (metis prod_cases3)
  have "settled (mview c1)" using mf.V_joined_channel [OF j] assms by simp
  then show ?thesis by (cases f) (simp_all add: handleJoin_def Cons Let_def j)
qed (simp add: handleJoin_def assms)

lemma settled_quit [simp]: "settled (mview c) \<Longrightarrow> settled (mview (handleQuit e c))"
  by (simp add: handleQuit_def Let_def mf.V_fold split: option.splits)

lemma settled_nick [simp]: "settled (mview c) \<Longrightarrow> settled (mview (handleNickMessage e c))"
  by (simp add: handleNickMessage_def Let_def split: list.splits)

lemma settled_names [simp]: "settled (mview c) \<Longrightarrow> settled (mview (handleNamReply e c))"
  by (auto simp: handleNamReply_def Let_def intro!: settled_fold split: option.splits)

lemma settled_tables:
  assumes "settled (mview c)"
  shows "\<forall>p \<in> set roster_handlers. settled (mview (snd p e c))"
    "\<forall>p \<in> set (channel_handlers env). settled (mview (snd p e c))"
    "\<forall>p \<in> set session_handlers. settled (mview (snd p e c))"
  using assms by (simp_all add: roster_handlers_def channel_handlers_def session_handlers_def)

lemma settled_receive [simp]:
  assumes "settled (mview c)" shows "settled (mview (receive env e c))"
proof (rule receive_inv [where P = "\<lambda>c. settled (mview c)", OF _ assms])
  fix cmd h c assume p: "(cmd, h) \<in> set (setupHandlers env)" and s: "settled (mview c)"
  from setupHandlers_cases [OF p] show "settled (mview (h e c))"
    using s bspec [OF settled_tables(1) [OF s]] bspec [OF settled_tables(2) [OF s]] bspec [OF settled_tables(3) [OF s]]
      mf.V_join_table [of "(cmd, h)" e c]
    by (elim disjE) fastforce+
qed

lemma settled_step: "settled (mview c) \<Longrightarrow> settled (mview (client_step env op c))"
  by (cases op) (simp_all add: onConnect_def Let_def)

lemma settled_run: "settled (mview c) \<Longrightarrow> settled (mview (client_run env ops c))"
  by (rule client_run_inv [where P = "\<lambda>c. settled (mview c)"]) (simp_all add: settled_step)

section \<open>Draining\<close>

lemma drain_keeps: "cUserMeta (drainMetaPending ks c) = cUserMeta c"
  by (induction ks c rule: drainMetaPending.induct) (auto simp: emit_def split: option.splits)

lemma drain_clears:
  "cMetaPending (drainMetaPending ks c) k = (if k \<in> set ks then None else cMetaPending c k)"
  by (induction ks c rule: drainMetaPending.induct) (auto simp: emit_def split: option.splits)

text \<open>
  C22: No metadata update is lost, however the forwarder coalesces: after any run of a client (messages,
  batches, calls and earlier drains, in any order), once the forwarder has taken a nick's snapshot, what
  was last published for the nick is what the client holds for it.
\<close>

theorem metadata_converges:
  assumes "cUserMeta (client_run env ops (NewIRCClient n s now)) k = Some m" "k \<in> set ks"
  shows "published (cOut (drainMetaPending ks (client_run env ops (NewIRCClient n s now)))) k = Some m"
proof -
  have "settled (mview (NewIRCClient n s now))" by (simp add: settled_def mview_def NewIRCClient_def)
  from settled_drain [OF settled_run [OF this], of ks] show ?thesis
    using assms by (simp add: settled_def mview_def drain_keeps drain_clears) (metis option.distinct(1))
qed

theorem metadata_converges_witness:
  "published (cOut (drainMetaPending [''alice''] (client_run demo_env
     [Receive \<lparr>mTags = [], mSource = ''Alice!u@h'', mCommand = ''AWAY'', mParams = [''tea''], mRaw = []\<rparr>]
     (NewIRCClient demo_network demo_store 0)))) ''alice'' = Some (no_meta\<lparr>umAway := True, umAwayMessage := ''tea''\<rparr>)"
proof -
  let ?e = "\<lparr>mTags = [], mSource = ''Alice!u@h'', mCommand = ''AWAY'', mParams = [''tea''], mRaw = []\<rparr> :: message"
  have "filter (\<lambda>p. fst p = ''AWAY'') (setupHandlers demo_env) = [(''AWAY'', handleAway)]"
    by (simp add: setupHandlers_def join_handlers_def roster_handlers_def channel_handlers_def
      session_handlers_def genericErrorNumerics_def)
  then have r: "receive demo_env ?e c = handleAway ?e c" for c by (rule receive_one) simp
  have k: "foldKey fresh_server ''Alice'' = ''alice''" by code_simp
  have "cUserMeta (client_run demo_env [Receive ?e] (NewIRCClient demo_network demo_store 0)) ''alice''
      = Some (no_meta\<lparr>umAway := True, umAwayMessage := ''tea''\<rparr>)"
    by (simp add: client_run_def r handleAway_def applyUserMeta_def emitUserMeta_def Let_def Nick_def NewIRCClient_def k
      no_meta_def)
  from metadata_converges [OF this, of "[''alice'']"] show ?thesis by simp
qed

end
