(* ===== verification/Schema_Props.thy ===== *)
theory Schema_Props
  imports Roster_Spec
begin

text \<open>
  The rows of \<open>channels\<close> and \<open>channel_users\<close> are well-formed: ids are distinct and below the next one,
  a network has a channel name once, a channel has a nickname once, and every member row belongs to a
  channel. SQLite enforces the keys of one table, but not the reference from a member to its channel: the
  storage never turns foreign keys on. That the client keeps both is shown here.
\<close>

section \<open>Well-formed tables\<close>

type_synonym schema_view = "nat \<times> bool \<times> (nat \<times> nat \<times> string) list \<times> (nat \<times> string) list \<times> nat"

definition channel_key :: "channel \<Rightarrow> nat \<times> nat \<times> string" where
  "channel_key ch = (chID ch, chNetwork ch, chName ch)"

definition user_key :: "channel_user \<Rightarrow> nat \<times> string" where
  "user_key u = (cuChannel u, cuNickname u)"

definition sview :: "client \<Rightarrow> schema_view" where
  "sview c = (cNetwork c, stOpen (cStore c), map channel_key (stChannels (cStore c)), map user_key (stUsers (cStore c)),
     stNext (cStore c))"

interpretation sc: member_frame sview
proof unfold_locales
  fix f i c assume "attribute f"
  then show "sview (stmt (update_channel i f) c) = sview c"
    by (auto simp: sview_def stmt_def update_channel_def attribute_def channel_key_def)
qed (simp_all add: sview_def emit_def)

definition keys_ok :: "(nat \<times> nat \<times> string) list \<Rightarrow> (nat \<times> string) list \<Rightarrow> nat \<Rightarrow> bool" where
  "keys_ok chs us nx \<longleftrightarrow> distinct (map fst chs) \<and> distinct (map snd chs) \<and> (\<forall>k \<in> set chs. fst k < nx)
     \<and> distinct us \<and> fst ` set us \<subseteq> fst ` set chs"

definition well_typed :: "schema_view \<Rightarrow> bool" where
  "well_typed = (\<lambda>(net, op, chs, us, nx). keys_ok chs us nx)"

definition known :: "nat \<Rightarrow> schema_view \<Rightarrow> bool" where
  "known i = (\<lambda>(net, op, chs, us, nx). i \<in> fst ` set chs)"

section \<open>The statements\<close>

lemma upsert_keys:
  "map user_key (upsert_user i n m us)
    = (if (i, n) \<in> set (map user_key us) then map user_key us else map user_key us @ [(i, n)])"
proof -
  have "map user_key (map (\<lambda>u. if cuChannel u = i \<and> cuNickname u = n then u\<lparr>cuModes := m\<rparr> else u) us) = map user_key us"
    by (simp add: user_key_def)
  then show ?thesis by (auto simp: upsert_user_def user_key_def)
qed

lemma keys_upsert:
  "keys_ok chs (map user_key us) nx \<Longrightarrow> i \<in> fst ` set chs \<Longrightarrow> keys_ok chs (map user_key (upsert_user i n m us)) nx"
  unfolding upsert_keys by (auto simp: keys_ok_def)

lemma well_typed_add [simp]:
  "well_typed (sview c) \<Longrightarrow> known i (sview c) \<Longrightarrow> well_typed (sview (stmt (AddChannelUser i n m) c))"
  by (simp add: well_typed_def known_def sview_def stmt_def AddChannelUser_def keys_upsert del: list.set_map)

lemma keys_upserts:
  "keys_ok chs (map user_key us) nx \<Longrightarrow> i \<in> fst ` set chs \<Longrightarrow>
    keys_ok chs (map user_key (fold (\<lambda>(n, m). upsert_user i n m) ps us)) nx"
proof (induction ps arbitrary: us)
  case (Cons p ps)
  have "keys_ok chs (map user_key (upsert_user i (fst p) (snd p) us)) nx"
    using Cons.prems by (rule keys_upsert)
  from Cons.IH [OF this Cons.prems(2)] show ?case by (simp add: case_prod_beta)
qed simp

lemma well_typed_adds [simp]:
  "well_typed (sview c) \<Longrightarrow> known i (sview c) \<Longrightarrow> well_typed (sview (stmt (AddChannelUsers i ps) c))"
  by (simp add: well_typed_def known_def sview_def stmt_def AddChannelUsers_def keys_upserts del: list.set_map)

lemma keys_filter: "keys_ok chs (map user_key us) nx \<Longrightarrow> keys_ok chs (map user_key (filter P us)) nx"
  by (auto simp: keys_ok_def distinct_map_filter)

lemma well_typed_removes [simp]:
  assumes "well_typed (sview c)"
  shows "well_typed (sview (stmt (RemoveChannelUser i n) c))" "well_typed (sview (stmt (ClearChannelUsers i) c))"
    "well_typed (sview (stmt (ClearNetworkChannelUsers i) c))"
  using assms by (auto simp: well_typed_def sview_def stmt_def RemoveChannelUser_def ClearChannelUsers_def
    ClearNetworkChannelUsers_def keys_filter)

lemma rename_cut:
  fixes new :: string
  assumes "distinct (map user_key (dn @ u # us))"
  defines "f \<equiv> filter (\<lambda>v. \<not> (cuChannel v = cuChannel u \<and> cuNickname v = new))"
  shows "distinct (map user_key ((f dn @ [u\<lparr>cuNickname := new\<rparr>]) @ f us))"
proof -
  have "distinct (map user_key (f dn @ f us))"
    using assms by (auto simp: distinct_map_filter)
  moreover have "user_key (u\<lparr>cuNickname := new\<rparr>) \<notin> user_key ` set (f dn @ f us)"
    by (auto simp: user_key_def f_def)
  ultimately show ?thesis by auto
qed

lemma rename_keys:
  "distinct (map user_key (dn @ us)) \<Longrightarrow> distinct (map user_key (rename_rows P new dn us))
     \<and> cuChannel ` set (rename_rows P new dn us) \<subseteq> cuChannel ` set (dn @ us)"
proof (induction P new dn us rule: rename_rows.induct)
  case (2 P new dn u us)
  show ?case
  proof (cases "P u")
    case True
    show ?thesis
      using 2(1) [OF True refl rename_cut [OF 2(3)]] True by (auto simp: Let_def)
  qed (use 2 in simp)
qed simp

lemma keys_rename:
  assumes "keys_ok chs (map user_key us) nx"
  shows "keys_ok chs (map user_key (rename_rows P new [] us)) nx"
proof -
  have "cuChannel ` set us \<subseteq> fst ` set chs"
    using assms by (auto simp: keys_ok_def user_key_def image_image)
  with rename_keys [of "[]" us P new] assms show ?thesis
    by (simp add: keys_ok_def user_key_def image_image) (meson subset_trans)
qed

lemma well_typed_rename [simp]:
  "well_typed (sview c) \<Longrightarrow> well_typed (sview (stmt (UpdateChannelUserNickname net x y) c))"
  by (simp add: well_typed_def sview_def stmt_def UpdateChannelUserNickname_def keys_rename)

text \<open>The channels of the view stay through all of them.\<close>

lemma known_stmts [simp]:
  "known i (sview (stmt (AddChannelUser j n m) c)) = known i (sview c)"
  "known i (sview (stmt (AddChannelUsers j ps) c)) = known i (sview c)"
  "known i (sview (stmt (RemoveChannelUser j n) c)) = known i (sview c)"
  "known i (sview (stmt (ClearChannelUsers j) c)) = known i (sview c)"
  by (simp_all add: known_def sview_def stmt_def AddChannelUser_def AddChannelUsers_def RemoveChannelUser_def
    ClearChannelUsers_def)

lemma known_found: "find_channel name c = Some ch \<Longrightarrow> known (chID ch) (sview c)"
  by (force simp: find_channel_def GetChannelByName_def known_def sview_def channel_key_def split: if_splits dest!: find_SomeD)

lemma well_typed_joined:
  assumes "well_typed (sview c)" "joined_channel name c = (found, b, c')"
  shows "well_typed (sview c')" "found = Some ch \<Longrightarrow> known (chID ch) (sview c')"
proof -
  show "well_typed (sview c')"
    using assms by (force simp: joined_channel_def CreateChannel_def Let_def well_typed_def sview_def keys_ok_def channel_key_def
      less_Suc_eq split: option.splits if_splits)
  show "found = Some ch \<Longrightarrow> known (chID ch) (sview c')"
    using assms(2) known_found [of name c ch]
    by (auto simp: joined_channel_def CreateChannel_def Let_def known_def sview_def channel_key_def
      split: option.splits if_splits)
qed

section \<open>The handlers\<close>

lemma wt_leave: "well_typed (sview c) \<Longrightarrow> well_typed (sview (leave ch user c))"
  by (simp add: leave_def Let_def)

lemma wt_part: "well_typed (sview c) \<Longrightarrow> well_typed (sview (handlePart e c))"
  by (simp add: handlePart_def Let_def wt_leave split: list.split option.split)

lemma wt_kick: "well_typed (sview c) \<Longrightarrow> well_typed (sview (handleKick e c))"
  by (simp add: handleKick_def Let_def wt_leave split: option.split)

lemma wt_fold: "(\<And>x c. well_typed (sview c) \<Longrightarrow> well_typed (sview (f x c))) \<Longrightarrow> well_typed (sview c)
    \<Longrightarrow> well_typed (sview (fold f xs c))"
  by (induction xs arbitrary: c) auto

lemma wt_quit_channel: "well_typed (sview c) \<Longrightarrow> well_typed (sview (quit_channel e ch c))"
  by (simp add: quit_channel_def Let_def split: option.split)

lemma wt_quit: "well_typed (sview c) \<Longrightarrow> well_typed (sview (handleQuit e c))"
  by (simp add: handleQuit_def Let_def split: option.split) (auto intro: wt_fold wt_quit_channel)

lemma wt_nick: "well_typed (sview c) \<Longrightarrow> well_typed (sview (handleNickMessage e c))"
  by (simp add: handleNickMessage_def Let_def split: list.split)

lemma wt_member_mode:
  assumes "well_typed (sview c)" "known (chID ch) (sview c)"
  shows "well_typed (sview (member_mode ch target mc c)) \<and> known (chID ch) (sview (member_mode ch target mc c))"
  using assms by (simp add: member_mode_def Let_def split: option.split)

lemma wt_member_modes:
  "well_typed (sview c) \<Longrightarrow> known (chID ch) (sview c) \<Longrightarrow> well_typed (sview (fold (member_mode ch target) mcs c))"
  by (induction mcs arbitrary: c) (auto simp: wt_member_mode)

lemma wt_mode:
  assumes "well_typed (sview c)" shows "well_typed (sview (handleMode e c))"
  using assms known_found [of "mParams e ! 0" c]
  by (simp add: handleMode_def Let_def split: option.split) (auto intro!: wt_member_modes)

lemma view_names_meta [simp]: "sview (fold names_meta es c) = sview c"
  by (rule sc.V_fold) (simp add: names_meta_def split: prod.split)

lemma wt_names:
  assumes "well_typed (sview c)" shows "well_typed (sview (handleNamReply e c))"
  using assms known_found [of "mParams e ! 2" c]
  by (simp add: handleNamReply_def Let_def split: option.split)

lemma wt_join:
  assumes "well_typed (sview c)" shows "well_typed (sview (handleJoin e c))"
proof (cases "mParams e")
  case (Cons channel ps)
  let ?c = "maybeApplyExtendedJoin e (maybeApplyAccountTag e (maybeMarkBotFromTag e c))"
  obtain found b c' where j: "joined_channel channel ?c = (found, b, c')" by (cases "joined_channel channel ?c") auto
  have "well_typed (sview ?c)" using assms by simp
  from well_typed_joined [OF this j] show ?thesis using Cons j
    by (simp add: handleJoin_def Let_def split: option.split)
qed (simp add: handleJoin_def assms)

text \<open>The other commands do not touch the keys at all (\<open>Client_Views\<close>).\<close>

lemma wt_receive:
  assumes "well_typed (sview c)" shows "well_typed (sview (receive env e c))"
proof (cases "mCommand e \<in> member_commands")
  case False
  then show ?thesis using assms sc.V_receive by simp
next
  case True
  then consider "mCommand e = ''JOIN''" | "mCommand e = ''PART''" | "mCommand e = ''KICK''" | "mCommand e = ''QUIT''"
    | "mCommand e = ''NICK''" | "mCommand e = ''MODE''" | "mCommand e = ''353''"
    by (auto simp: member_commands_def)
  then show ?thesis
    using handlers_of_member(1-7) [of env]
    by cases (simp_all add: receive_one wt_join wt_part wt_kick wt_quit wt_nick wt_mode wt_names assms)
qed

section \<open>The whole client\<close>

lemma wt_connected: "well_typed (sview c) \<Longrightarrow> well_typed (sview (onConnect e c))"
  by (simp add: onConnect_def Let_def)

lemma wt_finish: "well_typed (sview c) \<Longrightarrow> well_typed (sview (finishDisconnect err e was c))"
  by (simp add: finishDisconnect_def Let_def split: option.split) (auto intro: wt_fold)

lemma wt_step:
  assumes "well_typed (sview c)" shows "well_typed (sview (client_step env op c))"
proof (cases op)
  case (Receive e) then show ?thesis using wt_receive [OF assms] by simp
next
  case (Connected e) then show ?thesis using wt_connected [OF assms] by simp
next
  case (FinishLost err e was) then show ?thesis using wt_finish [OF assms] by simp
qed (simp_all add: assms)

text \<open>
  C26: The tables stay well-formed: from well-formed rows, no sequence of messages, callbacks, timers
  and calls, in any order, gives two channels one id or one name, gives a channel a member twice, or
  leaves a member row without its channel. (The storage never turns foreign keys on in SQLite, so the
  last is up to the client.)
\<close>

theorem tables_stay_well_typed:
  assumes "well_typed (sview c)"
  shows "well_typed (sview (client_run env ops c))"
  by (rule client_run_inv [OF wt_step assms])

theorem tables_stay_well_typed_witness:
  "well_typed (sview (client_run demo_env [joining ''Alice'' ''#Go'', Lost, joining ''me'' ''#go''] demo_joined))"
proof (rule tables_stay_well_typed)
  show "well_typed (sview demo_joined)"
    by (simp add: well_typed_def sview_def keys_ok_def demo_joined_def NewIRCClient_def demo_store_def demo_network_def
      channel_key_def user_key_def)
qed

end
