(* ===== verification/Replay_Props.thy ===== *)
theory Replay_Props
  imports Client_Views
begin

text \<open>
  The live path and the replay path agree: a line that was delivered live and comes again in a
  CHATHISTORY batch builds a row of the same conversation, author, text and type, so the store takes it
  for the row it has.
\<close>

section \<open>Who we are and where a line belongs\<close>

definition place :: "client \<Rightarrow> server_state \<times> string \<times> string \<times> nat \<times> bool \<times> channel list" where
  "place c = (cServer c, cNickname c, cCurrentNick c, cNetwork c, stOpen (cStore c), stChannels (cStore c))"

lemma place_same:
  assumes "place d = place c"
  shows "pmPeer d = pmPeer c" "find_channel ch d = find_channel ch c" "stOpen (cStore d) = stOpen (cStore c)"
  using assms by (simp_all add: place_def pmPeer_def isMe_def same_def CurrentNick_def find_channel_def GetChannelByName_def
    fun_eq_iff)

lemma place_emit [simp]: "place (emit x c) = place c" "cStore (emit x c) = cStore c"
  by (simp_all add: place_def emit_def)

lemma place_bots [simp]: "place (maybeMarkBotFromTag e c) = place c" "cStore (maybeMarkBotFromTag e c) = cStore c"
  by (simp_all add: maybeMarkBotFromTag_def markBot_def Let_def place_def emit_def)

lemma place_tags [simp]: "place (maybeApplyAccountTag e c) = place c" "cStore (maybeApplyAccountTag e c) = cStore c"
  by (simp_all add: maybeApplyAccountTag_def applyUserMeta_def emitUserMeta_def Let_def place_def split: option.splits)

definition chat_place :: "message \<Rightarrow> string \<Rightarrow> client \<Rightarrow> nat option \<times> string" where
  "chat_place e target c = (if hash_target target then (map_option chID (find_channel target c), [])
     else (None, pmPeer c (Nick e) target))"

lemma chat_place_same:
  assumes "place d = place c" shows "chat_place e t d = chat_place e t c"
  unfolding chat_place_def place_same [OF assms] ..

lemma conversation_place:
  "conversation target (pmPeer c (Nick e) target) c = (ch, pm, b, d) \<Longrightarrow>
     (ch, pm) = chat_place e target c \<and> place d = place c \<and> stMessages (cStore d) = stMessages (cStore c)"
  by (auto simp: conversation_def chat_place_def place_def stmt_def GetOrCreatePMConversation_def Let_def split: if_splits)

section \<open>The row a line leaves\<close>

text \<open>A row of the line's conversation with its message id.\<close>

definition has_line :: "message \<Rightarrow> string \<Rightarrow> client \<Rightarrow> bool" where
  "has_line e target c \<longleftrightarrow> (\<exists>m \<in> set (stMessages (cStore c)).
     (smChannel m, smPM m) = chat_place e target c \<and> smMsgID m = getMsgID e)"

lemma insert_has: "smMsgID m \<noteq> [] \<Longrightarrow> \<exists>n \<in> set (insert_message m ms). same_conversation n m \<and> smMsgID n = smMsgID m"
  by (auto simp: insert_message_def same_conversation_def)

lemma stored_chat:
  assumes "stOpen (cStore c)" "getMsgID e \<noteq> []" "place d = place c"
    and "(smChannel m, smPM m) = chat_place e target c" "smMsgID m = getMsgID e"
  shows "has_line e target (write_row m d)" "place (write_row m d) = place c"
proof -
  have o: "stOpen (cStore d)" using assms(1) place_same(3) [OF assms(3)] by simp
  show p: "place (write_row m d) = place c"
    using assms(3) by (simp add: write_row_def stmt_def WriteMessageSync_def place_def)
  obtain n where n: "n \<in> set (insert_message m (stMessages (cStore d)))" "same_conversation n m" "smMsgID n = smMsgID m"
    using insert_has [of m] assms(2,5) by metis
  then show "has_line e target (write_row m d)"
    using assms(4,5) o unfolding has_line_def chat_place_same [OF p]
    by (intro bexI [of _ n]) (simp_all add: write_row_def stmt_def WriteMessageSync_def same_conversation_def)
qed

text \<open>The lines a client stores live: an action, or a message that is not a self-echo to drop.\<close>

definition stored_line :: "string \<Rightarrow> string \<Rightarrow> message \<Rightarrow> client \<Rightarrow> bool" where
  "stored_line target text e c =
     (if is_ctcp text then (case ctcp_parts text of Some (cmd, args) \<Rightarrow> cmd = ''ACTION'' | None \<Rightarrow> False)
      else \<not> (isMe c (Nick e) \<and> \<not> isEchoMessage e c \<and> isMe c target))"

lemma echo_bot_tag: "isEchoMessage e (maybeMarkBotFromTag e' c) = isEchoMessage e c" "isMe (maybeMarkBotFromTag e' c) n = isMe c n"
  by (simp_all add: maybeMarkBotFromTag_def markBot_def Let_def emit_def isEchoMessage_def isMe_def same_def CurrentNick_def
    split: option.split)

lemma echo_account_tag: "isEchoMessage e (maybeApplyAccountTag e' c) = isEchoMessage e c" "isMe (maybeApplyAccountTag e' c) n = isMe c n"
  by (simp_all add: maybeApplyAccountTag_def applyUserMeta_def emitUserMeta_def Let_def emit_def isEchoMessage_def isMe_def same_def
    CurrentNick_def split: option.split)

lemma echo_tags: "isEchoMessage e (maybeApplyAccountTag e' (maybeMarkBotFromTag e' c)) = isEchoMessage e c"
    "isMe (maybeApplyAccountTag e' (maybeMarkBotFromTag e' c)) n = isMe c n"
  by (simp_all only: echo_bot_tag echo_account_tag)

lemma live_line:
  assumes "stOpen (cStore c)" "getMsgID e \<noteq> []" "mParams e = target # text # ps" "stored_line target text e c"
  shows "has_line e target (handlePrivmsg tm fmt e c) \<and> place (handlePrivmsg tm fmt e c) = place c"
proof -
  let ?d = "maybeApplyAccountTag e (maybeMarkBotFromTag e c)"
  obtain ch pm b d where cv: "conversation target (pmPeer ?d (Nick e) target) ?d = (ch, pm, b, d)" by (metis prod_cases4)
  then have k: "(ch, pm) = chat_place e target c" "place d = place c"
    using conversation_place [OF cv] chat_place_same [of ?d c e target] by simp_all
  have o: "stOpen (cStore d)" using assms(1) place_same(3) [OF k(2)] by simp
  have emit_line: "has_line e target (emit x c') = has_line e target c'" for x c'
    by (simp add: has_line_def chat_place_same [OF place_emit(1)])
  have a: "place (announce_new b d) = place c" "stOpen (cStore (announce_new b d))"
    using k(2) o by (simp_all add: announce_new_def)
  show ?thesis
  proof (cases "is_ctcp text")
    case True
    then obtain args where "ctcp_parts text = Some (''ACTION'', args)"
      using assms(4) by (auto simp: stored_line_def split: option.splits)
    then have h: "handlePrivmsg tm fmt e c = handle_action tm target args e ?d"
      using True assms(3) by (simp add: handlePrivmsg_def Let_def)
    show ?thesis unfolding h handle_action_def cv prod.case Let_def emit_line place_emit
      by (intro conjI stored_chat [OF assms(1,2) a(1)]) (simp_all add: chat_row_def k(1))
  next
    case False
    then have h: "handlePrivmsg tm fmt e c = handle_chat tm target text e ?d"
      using assms(3) by (simp add: handlePrivmsg_def Let_def)
    have drop: "\<not> (isMe ?d (Nick e) \<and> \<not> isEchoMessage e ?d \<and> isMe ?d target)"
      using False assms(4) by (simp add: stored_line_def echo_tags)
    have w: "stmt_result (WriteMessageSync m) (announce_new b d) = True" for m
      using a(2) by (simp add: stmt_result_def WriteMessageSync_def)
    show ?thesis unfolding h handle_chat_def if_not_P [OF drop] cv prod.case Let_def emit_line place_emit w if_True
      by (intro conjI stored_chat [OF assms(1,2) a(1)]) (simp_all add: chat_row_def k(1))
  qed
qed

section \<open>The replay\<close>

lemma replay_line:
  assumes "stOpen (cStore c)" "mCommand e = ''PRIVMSG''" "mParams e = target # text # ps" "getMsgID e \<noteq> []" "has_line e target c"
    and "isChatHistoryBatch bt" "btItems bt = [Some e]"
  shows "stMessages (cStore (snd (handleChatHistoryBatch tm bt c))) = stMessages (cStore c)"
proof (cases "history_text e text")
  case None
  then show ?thesis using assms(2,3,6,7)
    by (simp add: handleChatHistoryBatch_def buildHistoryMessage_def buildHistoryChatMessage_def Let_def)
next
  case (Some p)
  obtain ty body where p: "p = (ty, body)" by fastforce
  obtain ch pm b d where cv: "conversation target (pmPeer c (Nick e) target) c = (ch, pm, b, d)" by (metis prod_cases4)
  note k = conversation_place [OF cv]
  have o: "stOpen (cStore d)" using assms(1) place_same(3) k by metis
  have "insert_message (history_row tm ch body ty pm e d) (stMessages (cStore d)) = stMessages (cStore d)"
  proof -
    obtain m where m: "m \<in> set (stMessages (cStore d))" "smChannel m = ch" "smPM m = pm" "smMsgID m = getMsgID e"
      using assms(5) k unfolding has_line_def by (metis prod.inject)
    have "\<exists>n \<in> set (stMessages (cStore d)). same_conversation (history_row tm ch body ty pm e d) n \<and> smMsgID n = getMsgID e"
      by (rule bexI [of _ m]) (simp_all add: m history_row_def same_conversation_def)
    then show ?thesis using assms(4) by (simp add: insert_message_def history_row_def)
  qed
  then show ?thesis using assms(2,3,6,7) Some p cv k o
    by (simp add: handleChatHistoryBatch_def buildHistoryMessage_def buildHistoryChatMessage_def Let_def stmt_def
      WriteHistoryMessages_def)
qed

text \<open>
  C25: The replay path is equivalent to the live path for a line already seen: a message or an action
  with a message id that was delivered live, to a channel or in private, ours or another's, and comes
  again in a history batch is routed to the same conversation and stored no second time.
\<close>

theorem replay_after_live_stores_nothing:
  assumes "stOpen (cStore c)" "mCommand e = ''PRIVMSG''" "mParams e = target # text # ps" "getMsgID e \<noteq> []"
    and "stored_line target text e c" "isChatHistoryBatch bt" "btItems bt = [Some e]"
  shows "stMessages (cStore (snd (handleChatHistoryBatch tm bt (handlePrivmsg tm fmt e c))))
    = stMessages (cStore (handlePrivmsg tm fmt e c))"
proof -
  note l = live_line [OF assms(1,4,3,5), of tm fmt]
  then have "stOpen (cStore (handlePrivmsg tm fmt e c))" using assms(1) place_same(3) by metis
  then show ?thesis by (rule replay_line [OF _ assms(2,3,4) _ assms(6,7)]) (use l in blast)
qed

definition demo_line :: message where
  "demo_line = \<lparr>mTags = [(''msgid'', ''x1'')], mSource = ''Ann!u@h'', mCommand = ''PRIVMSG'', mParams = [''me'', ''hello''], mRaw = []\<rparr>"

theorem replay_after_live_stores_nothing_witness:
  "stMessages (cStore (snd (handleChatHistoryBatch (\<lambda>_. None)
       \<lparr>btMessage = \<lparr>mTags = [], mSource = [], mCommand = ''BATCH'', mParams = [''+1'', ''chathistory'', ''Ann''], mRaw = []\<rparr>,
        btItems = [Some demo_line]\<rparr>
       (handlePrivmsg (\<lambda>_. None) (\<lambda>_. []) demo_line (NewIRCClient demo_network demo_store 0)))))
   = stMessages (cStore (handlePrivmsg (\<lambda>_. None) (\<lambda>_. []) demo_line (NewIRCClient demo_network demo_store 0)))"
proof (rule replay_after_live_stores_nothing)
  show "getMsgID demo_line \<noteq> []" by (simp add: demo_line_def getMsgID_def GetTag_def)
  have "\<not> sameName fresh_server ''Ann'' ''me''" unfolding sameName_def by (auto dest: arg_cong [of _ _ length])
  moreover have "Nick demo_line = ''Ann''" by code_simp
  ultimately have "\<not> isMe (NewIRCClient demo_network demo_store 0) (Nick demo_line)"
    by (simp add: isMe_def same_def CurrentNick_def NewIRCClient_def demo_network_def)
  then show "stored_line ''me'' ''hello'' demo_line (NewIRCClient demo_network demo_store 0)"
    by (simp add: stored_line_def is_ctcp_def)
  show "stOpen (cStore (NewIRCClient demo_network demo_store 0))" by (simp add: NewIRCClient_def demo_store_def)
  show "isChatHistoryBatch \<lparr>btMessage = \<lparr>mTags = [], mSource = [], mCommand = ''BATCH'', mParams = [''+1'', ''chathistory'', ''Ann''], mRaw = []\<rparr>,
      btItems = [Some demo_line]\<rparr>"
    by (simp add: isChatHistoryBatch_def)
qed (simp_all add: demo_line_def)

end
