(* ===== verification/Write_Buffer.thy ===== *)
theory Write_Buffer
  imports Roster_Store
begin

text \<open>
  The write path of \<open>internal/storage/database.go\<close>: the buffered channel of messages, the flush loop and
  \<open>Close\<close>. A writer is a goroutine inside \<open>WriteMessage\<close>, \<open>WriteMessageSync\<close> or \<open>WriteMessageDirect\<close>; its
  program counter says where it can be interrupted (between two lock regions, and between the draining
  of the channel and the insert inside \<open>flushBuffer\<close>, which holds \<open>mu\<close> but not \<open>closedMu\<close>), so that every
  interleaving of writers, the loop and \<open>Close\<close> is a list of actions. Times are instants, so the
  conversion to UTC of \<open>normalizeForStore\<close> is the identity.
\<close>

section \<open>The buffer\<close>

text \<open>A message with its network.\<close>

type_synonym net_message = "nat \<times> stored_message"

datatype writer_pc =
    WriteStart
  | WriteFull
  | WriteFlush "net_message list"
  | WriteRetry
  | SyncStart
  | SyncFirst
  | SyncFlush "net_message list"
  | SyncSend
  | SyncLast
  | SyncLastFlush "net_message list"
  | DirectStart
  | DirectInsert
  | Returned bool

datatype loop_pc = LoopWait | LoopTick | LoopFlush "net_message list" | LoopFinal | LoopFinalFlush "net_message list" | LoopDone

text \<open>\<open>wbLocked\<close> is \<open>mu\<close>; \<open>wbClosed\<close> also says that \<open>stopCh\<close> is closed; \<open>wbDB\<close> that the database is open.\<close>

record write_buffer =
  wbCap :: nat
  wbBuffer :: "net_message list"
  wbRows :: "net_message list"
  wbClosed :: bool
  wbDB :: bool
  wbLocked :: bool
  wbLoop :: loop_pc
  wbWriters :: "(net_message \<times> writer_pc) list"

definition NewStorage :: "nat \<Rightarrow> net_message list \<Rightarrow> write_buffer" where
  "NewStorage bufferSize rows =
     \<lparr>wbCap = bufferSize, wbBuffer = [], wbRows = rows, wbClosed = False, wbDB = True, wbLocked = False,
      wbLoop = LoopWait, wbWriters = []\<rparr>"

text \<open>The unique index on network, conversation and message id.\<close>

definition same_key :: "net_message \<Rightarrow> net_message \<Rightarrow> bool" where
  "same_key p q \<longleftrightarrow> smMsgID (snd p) \<noteq> [] \<and> fst p = fst q \<and> same_conversation (snd p) (snd q) \<and> smMsgID (snd p) = smMsgID (snd q)"

definition insert_row :: "net_message \<Rightarrow> net_message list \<Rightarrow> net_message list" where
  "insert_row p rows = (if \<exists>q \<in> set rows. same_key p q then rows else rows @ [p])"

text \<open>
  \<open>flushBuffer\<close>. First half: wait for \<open>mu\<close> (\<open>None\<close>), leave at once when closed or empty (no batch), or
  drain the channel. Second half: check again, insert the batch with \<open>ON CONFLICT DO NOTHING\<close>, release
  \<open>mu\<close>. A batch that is refused or fails (\<open>ok\<close>) is gone.
\<close>

definition flush_enter :: "bool \<Rightarrow> write_buffer \<Rightarrow> (net_message list option \<times> write_buffer) option" where
  "flush_enter allowClosed s =
     (if wbLocked s then None
      else if (wbClosed s \<and> \<not> allowClosed) \<or> wbBuffer s = [] then Some (None, s)
      else Some (Some (wbBuffer s), s\<lparr>wbBuffer := [], wbLocked := True\<rparr>))"

definition flush_leave :: "bool \<Rightarrow> bool \<Rightarrow> net_message list \<Rightarrow> write_buffer \<Rightarrow> write_buffer" where
  "flush_leave allowClosed ok batch s =
     s\<lparr>wbLocked := False,
       wbRows := (if (wbClosed s \<and> \<not> allowClosed) \<or> \<not> ok \<or> \<not> wbDB s then wbRows s else fold insert_row batch (wbRows s))\<rparr>"

text \<open>The non-blocking send; \<open>None\<close> when the channel is full.\<close>

definition try_send :: "net_message \<Rightarrow> write_buffer \<Rightarrow> write_buffer option" where
  "try_send p s = (if length (wbBuffer s) < wbCap s then Some (s\<lparr>wbBuffer := wbBuffer s @ [p]\<rparr>) else None)"

text \<open>\<open>CreateMessage\<close>: a plain INSERT, which the unique index can refuse.\<close>

definition direct_insert :: "net_message \<Rightarrow> bool \<Rightarrow> write_buffer \<Rightarrow> bool \<times> write_buffer" where
  "direct_insert p ok s =
     (if \<not> ok \<or> \<not> wbDB s \<or> (\<exists>q \<in> set (wbRows s). same_key p q) then (False, s)
      else (True, s\<lparr>wbRows := wbRows s @ [p]\<rparr>))"

section \<open>Writers\<close>

text \<open>A writer at its flush: it waits, goes on to hold a batch, or goes on.\<close>

definition begin_flush :: "writer_pc \<Rightarrow> (net_message list \<Rightarrow> writer_pc) \<Rightarrow> writer_pc \<Rightarrow> write_buffer \<Rightarrow> writer_pc \<times> write_buffer" where
  "begin_flush wait hold go s = (case flush_enter False s of
     None \<Rightarrow> (wait, s) | Some (None, s) \<Rightarrow> (go, s) | Some (Some batch, s) \<Rightarrow> (hold batch, s))"

definition WriteMessage :: "bool \<Rightarrow> net_message \<Rightarrow> writer_pc \<Rightarrow> write_buffer \<Rightarrow> writer_pc \<times> write_buffer" where
  "WriteMessage ok p pc s = (case pc of
     WriteStart \<Rightarrow> if wbClosed s then (Returned False, s)
       else (case try_send p s of Some s \<Rightarrow> (Returned True, s) | None \<Rightarrow> (WriteFull, s))
   | WriteFull \<Rightarrow> begin_flush WriteFull WriteFlush WriteRetry s
   | WriteFlush batch \<Rightarrow> (WriteRetry, flush_leave False ok batch s)
   | WriteRetry \<Rightarrow> if wbClosed s then (Returned False, s)
       else (case try_send p s of Some s \<Rightarrow> (Returned True, s) | None \<Rightarrow> (Returned False, s))
   | _ \<Rightarrow> (pc, s))"

definition WriteMessageSync_at :: "bool \<Rightarrow> net_message \<Rightarrow> writer_pc \<Rightarrow> write_buffer \<Rightarrow> writer_pc \<times> write_buffer" where
  "WriteMessageSync_at ok p pc s = (case pc of
     SyncStart \<Rightarrow> (if wbClosed s then Returned False else SyncFirst, s)
   | SyncFirst \<Rightarrow> begin_flush SyncFirst SyncFlush SyncSend s
   | SyncFlush batch \<Rightarrow> (SyncSend, flush_leave False ok batch s)
   | SyncSend \<Rightarrow> (case try_send p s of Some s \<Rightarrow> (SyncLast, s)
       | None \<Rightarrow> (case direct_insert p ok s of (r, s) \<Rightarrow> (Returned r, s)))
   | SyncLast \<Rightarrow> begin_flush SyncLast SyncLastFlush (Returned True) s
   | SyncLastFlush batch \<Rightarrow> (Returned True, flush_leave False ok batch s)
   | _ \<Rightarrow> (pc, s))"

definition WriteMessageDirect :: "bool \<Rightarrow> net_message \<Rightarrow> writer_pc \<Rightarrow> write_buffer \<Rightarrow> writer_pc \<times> write_buffer" where
  "WriteMessageDirect ok p pc s = (case pc of
     DirectStart \<Rightarrow> (if wbClosed s then Returned False else DirectInsert, s)
   | DirectInsert \<Rightarrow> (case direct_insert p ok s of (r, s) \<Rightarrow> (Returned r, s))
   | _ \<Rightarrow> (pc, s))"

datatype write_call = CallWriteMessage | CallWriteMessageSync | CallWriteMessageDirect

primrec start_pc :: "write_call \<Rightarrow> writer_pc" where
  "start_pc CallWriteMessage = WriteStart"
| "start_pc CallWriteMessageSync = SyncStart"
| "start_pc CallWriteMessageDirect = DirectStart"

definition writer_step :: "bool \<Rightarrow> net_message \<Rightarrow> writer_pc \<Rightarrow> write_buffer \<Rightarrow> writer_pc \<times> write_buffer" where
  "writer_step ok p pc s = (case pc of
     WriteStart \<Rightarrow> WriteMessage ok p pc s | WriteFull \<Rightarrow> WriteMessage ok p pc s
   | WriteFlush _ \<Rightarrow> WriteMessage ok p pc s | WriteRetry \<Rightarrow> WriteMessage ok p pc s
   | DirectStart \<Rightarrow> WriteMessageDirect ok p pc s | DirectInsert \<Rightarrow> WriteMessageDirect ok p pc s
   | _ \<Rightarrow> WriteMessageSync_at ok p pc s)"

lemmas writer_defs = writer_step_def WriteMessage_def WriteMessageSync_at_def WriteMessageDirect_def begin_flush_def
  flush_enter_def flush_leave_def try_send_def direct_insert_def

section \<open>The flush loop and the close\<close>

text \<open>A step of \<open>flushLoop\<close> inside one of its flushes.\<close>

definition loop_step :: "bool \<Rightarrow> write_buffer \<Rightarrow> write_buffer" where
  "loop_step ok s = (case wbLoop s of
     LoopTick \<Rightarrow> (case flush_enter False s of None \<Rightarrow> s
       | Some (None, s) \<Rightarrow> s\<lparr>wbLoop := LoopWait\<rparr> | Some (Some batch, s) \<Rightarrow> s\<lparr>wbLoop := LoopFlush batch\<rparr>)
   | LoopFlush batch \<Rightarrow> (flush_leave False ok batch s)\<lparr>wbLoop := LoopWait\<rparr>
   | LoopFinal \<Rightarrow> (case flush_enter True s of None \<Rightarrow> s
       | Some (None, s) \<Rightarrow> s\<lparr>wbLoop := LoopDone\<rparr> | Some (Some batch, s) \<Rightarrow> s\<lparr>wbLoop := LoopFinalFlush batch\<rparr>)
   | LoopFinalFlush batch \<Rightarrow> (flush_leave True ok batch s)\<lparr>wbLoop := LoopDone\<rparr>
   | _ \<Rightarrow> s)"

text \<open>What can happen: a call begins, a writer takes a step, the loop sees the ticker or \<open>stopCh\<close> (when both
  are ready \<open>select\<close> may take either), the loop takes a step, \<open>Close\<close> marks the store closed, and closes the
  database once the loop is done.\<close>

datatype write_action =
    Begin write_call net_message
  | Step nat bool
  | SeeTick
  | SeeStop
  | LoopStep bool
  | CloseMark
  | CloseDB

primrec write_step :: "write_action \<Rightarrow> write_buffer \<Rightarrow> write_buffer" where
  "write_step (Begin call p) s = s\<lparr>wbWriters := wbWriters s @ [(p, start_pc call)]\<rparr>"
| "write_step (Step i ok) s =
     (if i < length (wbWriters s)
      then let (p, pc) = wbWriters s ! i; (pc', s') = writer_step ok p pc s
        in s'\<lparr>wbWriters := (wbWriters s)[i := (p, pc')]\<rparr>
      else s)"
| "write_step SeeTick s =
     (if wbLoop s = LoopWait then s\<lparr>wbLoop := if wbClosed s then LoopDone else LoopTick\<rparr> else s)"
| "write_step SeeStop s = (if wbLoop s = LoopWait \<and> wbClosed s then s\<lparr>wbLoop := LoopFinal\<rparr> else s)"
| "write_step (LoopStep ok) s = loop_step ok s"
| "write_step CloseMark s = s\<lparr>wbClosed := True\<rparr>"
| "write_step CloseDB s = (if wbClosed s \<and> wbLoop s = LoopDone then s\<lparr>wbDB := False\<rparr> else s)"

definition write_run :: "write_action list \<Rightarrow> write_buffer \<Rightarrow> write_buffer" where
  "write_run as s = fold write_step as s"

text \<open>No insert fails.\<close>

definition succeeds :: "write_action \<Rightarrow> bool" where
  "succeeds a = (case a of Step i ok \<Rightarrow> ok | LoopStep ok \<Rightarrow> ok | _ \<Rightarrow> True)"

section \<open>Nothing accepted is lost\<close>

text \<open>A row is kept when it is there, or another one with its key is.\<close>

definition kept :: "net_message \<Rightarrow> net_message list \<Rightarrow> bool" where
  "kept p rows \<longleftrightarrow> p \<in> set rows \<or> (\<exists>q \<in> set rows. same_key p q)"

lemma kept_append: "kept p (xs @ ys) \<longleftrightarrow> kept p xs \<or> kept p ys"
  by (auto simp: kept_def)

lemma same_key_trans: "same_key p q \<Longrightarrow> same_key q r \<Longrightarrow> same_key p r"
  by (auto simp: same_key_def same_conversation_def)

lemma kept_insert: "kept p rows \<or> p = q \<or> same_key p q \<Longrightarrow> kept p (insert_row q rows)"
  by (auto simp: kept_def insert_row_def intro: same_key_trans)

lemma kept_fold: "kept p (rows @ buf) \<Longrightarrow> kept p (fold insert_row buf rows)"
proof (induction buf arbitrary: rows)
  case (Cons q buf)
  from Cons.prems have "kept p rows \<or> (p = q \<or> same_key p q) \<or> kept p buf" by (auto simp: kept_def)
  then have "kept p (insert_row q rows @ buf)" by (auto simp: kept_append kept_insert)
  from Cons.IH [OF this] show ?case by simp
qed simp

text \<open>A write has succeeded once its message is in the channel for good; where the batches are.\<close>

definition accepted :: "writer_pc \<Rightarrow> bool" where
  "accepted pc = (case pc of SyncLast \<Rightarrow> True | SyncLastFlush _ \<Rightarrow> True | Returned r \<Rightarrow> r | _ \<Rightarrow> False)"

definition held :: "writer_pc \<Rightarrow> net_message list option" where
  "held pc = (case pc of WriteFlush b \<Rightarrow> Some b | SyncFlush b \<Rightarrow> Some b | SyncLastFlush b \<Rightarrow> Some b | _ \<Rightarrow> None)"

definition loop_held :: "loop_pc \<Rightarrow> net_message list" where
  "loop_held pc = (case pc of LoopFlush b \<Rightarrow> b | LoopFinalFlush b \<Rightarrow> b | _ \<Rightarrow> [])"

definition in_store :: "write_buffer \<Rightarrow> net_message \<Rightarrow> bool" where
  "in_store s p \<longleftrightarrow> kept p (wbRows s) \<or> kept p (wbBuffer s)"

definition present :: "write_buffer \<Rightarrow> net_message \<Rightarrow> bool" where
  "present s p \<longleftrightarrow> in_store s p \<or> kept p (loop_held (wbLoop s))
     \<or> (\<exists>i < length (wbWriters s). \<exists>b. held (snd (wbWriters s ! i)) = Some b \<and> kept p b)"

text \<open>No flush but the last one has drained its batch and not yet checked again.\<close>

definition no_flush :: "write_buffer \<Rightarrow> bool" where
  "no_flush s \<longleftrightarrow> (\<forall>i < length (wbWriters s). held (snd (wbWriters s ! i)) = None) \<and> (\<forall>b. wbLoop s \<noteq> LoopFlush b)"

definition nothing_lost :: "write_buffer \<Rightarrow> bool" where
  "nothing_lost s \<longleftrightarrow> (wbClosed s \<longrightarrow> no_flush s) \<and> (\<not> wbDB s \<longrightarrow> wbClosed s \<and> wbLoop s = LoopDone)
     \<and> (\<forall>i < length (wbWriters s). accepted (snd (wbWriters s ! i)) \<longrightarrow> present s (fst (wbWriters s ! i)))"

lemma kept_nil [simp]: "\<not> kept p []" by (simp add: kept_def)

lemma kept_self: "kept p [p]" by (simp add: kept_def)

lemma kept_fold_rows: "kept p rows \<or> kept p b \<Longrightarrow> kept p (fold insert_row b rows)"
  using kept_fold [of p rows b] by (simp add: kept_append)

text \<open>What a step of one writer does to the store.\<close>

lemma writer_step_keeps:
  assumes "writer_step True p pc s = (pc', s')" "wbClosed s \<longrightarrow> held pc = None" "\<not> wbDB s \<longrightarrow> wbClosed s"
  shows "in_store s q \<or> (\<exists>b. held pc = Some b \<and> kept q b) \<Longrightarrow> in_store s' q \<or> (\<exists>b. held pc' = Some b \<and> kept q b)"
    and "accepted pc' \<Longrightarrow> accepted pc \<or> in_store s' p"
    and "wbClosed s' = wbClosed s \<and> wbDB s' = wbDB s \<and> wbLoop s' = wbLoop s \<and> wbWriters s' = wbWriters s"
    and "wbClosed s \<Longrightarrow> held pc' = None"
  using assms
  by (cases pc; auto simp: writer_defs accepted_def held_def in_store_def kept_append kept_self kept_fold_rows
    split: if_splits option.splits prod.splits)+

lemma loop_step_keeps:
  assumes "wbClosed s \<longrightarrow> (\<forall>b. wbLoop s \<noteq> LoopFlush b)" "\<not> wbDB s \<longrightarrow> wbClosed s \<and> wbLoop s = LoopDone"
  shows "in_store s q \<or> kept q (loop_held (wbLoop s)) \<Longrightarrow>
      in_store (loop_step True s) q \<or> kept q (loop_held (wbLoop (loop_step True s)))"
    and "wbClosed (loop_step True s) = wbClosed s \<and> wbDB (loop_step True s) = wbDB s
      \<and> wbWriters (loop_step True s) = wbWriters s"
    and "wbClosed s \<Longrightarrow> wbLoop (loop_step True s) \<noteq> LoopFlush b"
    and "wbLoop s = LoopDone \<Longrightarrow> loop_step True s = s"
  using assms
  by (cases "wbLoop s"; auto simp: loop_step_def flush_enter_def flush_leave_def loop_held_def in_store_def kept_fold_rows
    split: if_splits)+

lemma nothing_lost_writer:
  assumes "nothing_lost s" "i < length (wbWriters s)"
  shows "nothing_lost (write_step (Step i True) s)"
proof -
  obtain p pc where w: "wbWriters s ! i = (p, pc)" by fastforce
  obtain pc' s' where st: "writer_step True p pc s = (pc', s')" by fastforce
  let ?t = "s'\<lparr>wbWriters := (wbWriters s)[i := (p, pc')]\<rparr>"
  have t: "write_step (Step i True) s = ?t" using assms(2) w st by simp
  have h: "wbClosed s \<longrightarrow> held pc = None" "\<not> wbDB s \<longrightarrow> wbClosed s"
    using assms w unfolding nothing_lost_def no_flush_def by (metis snd_conv)+
  note k = writer_step_keeps [OF st h]
  have pr: "present ?t q" if "present s q" for q
  proof -
    consider "in_store s q \<or> (\<exists>b. held pc = Some b \<and> kept q b)" | "kept q (loop_held (wbLoop s))"
      | j b where "j < length (wbWriters s)" "j \<noteq> i" "held (snd (wbWriters s ! j)) = Some b" "kept q b"
      using \<open>present s q\<close> w unfolding present_def by (metis snd_conv)
    then show ?thesis
    proof cases
      case 1
      from k(1) [OF this] show ?thesis using assms(2) by (auto simp: present_def in_store_def)
    next
      case 2
      then show ?thesis using k(3) by (simp add: present_def)
    next
      case 3
      then show ?thesis by (auto simp: present_def intro!: exI [of _ j])
    qed
  qed
  have "present ?t (fst (wbWriters ?t ! j))" if "j < length (wbWriters s)" "accepted (snd (wbWriters ?t ! j))" for j
  proof (cases "j = i")
    case True
    then have "accepted pc'" using that by simp
    from k(2) [OF this] have "present ?t p"
    proof
      assume "accepted pc"
      then have "present s p" using assms w unfolding nothing_lost_def by (metis fst_conv snd_conv)
      then show ?thesis by (rule pr)
    qed (simp add: present_def in_store_def)
    then show ?thesis using True assms(2) by simp
  next
    case False
    then show ?thesis using that assms(1) pr unfolding nothing_lost_def by simp
  qed
  moreover have "wbClosed ?t \<longrightarrow> no_flush ?t"
    using assms k(3,4) by (auto simp: nothing_lost_def no_flush_def nth_list_update)
  ultimately show ?thesis using assms(1) k(3) unfolding t nothing_lost_def by simp
qed

lemma nothing_lost_view:
  assumes "nothing_lost s" "wbWriters s' = wbWriters s" "\<And>q. present s q \<Longrightarrow> present s' q"
    and "wbClosed s' \<longrightarrow> no_flush s'" "\<not> wbDB s' \<longrightarrow> wbClosed s' \<and> wbLoop s' = LoopDone"
  shows "nothing_lost s'"
  using assms unfolding nothing_lost_def by simp

lemma nothing_lost_loop:
  assumes "nothing_lost s" shows "nothing_lost (write_step (LoopStep True) s)"
proof (rule nothing_lost_view [OF assms])
  have h: "wbClosed s \<longrightarrow> (\<forall>b. wbLoop s \<noteq> LoopFlush b)" "\<not> wbDB s \<longrightarrow> wbClosed s \<and> wbLoop s = LoopDone"
    using assms by (auto simp: nothing_lost_def no_flush_def)
  note k = loop_step_keeps [OF h]
  show "wbWriters (write_step (LoopStep True) s) = wbWriters s" using k(2) by simp
  show "present s q \<Longrightarrow> present (write_step (LoopStep True) s) q" for q
    using k(1) [of q] k(2) by (auto simp: present_def)
  show "wbClosed (write_step (LoopStep True) s) \<longrightarrow> no_flush (write_step (LoopStep True) s)"
    using k(2,3) assms by (auto simp: nothing_lost_def no_flush_def)
  show "\<not> wbDB (write_step (LoopStep True) s) \<longrightarrow> wbClosed (write_step (LoopStep True) s)
      \<and> wbLoop (write_step (LoopStep True) s) = LoopDone"
    using k(2,4) h(2) by auto
qed

lemma nothing_lost_step:
  assumes "nothing_lost s" "succeeds a" "a = CloseMark \<Longrightarrow> no_flush s"
  shows "nothing_lost (write_step a s)"
proof (cases a)
  case (Begin call p)
  have "accepted (start_pc call) = False" "held (start_pc call) = None" by (cases call; simp add: accepted_def held_def)+
  then show ?thesis using assms(1) Begin
    by (auto simp: nothing_lost_def no_flush_def present_def in_store_def nth_append less_Suc_eq)
next
  case (Step i ok)
  then have "ok" using assms(2) by (simp add: succeeds_def)
  then show ?thesis using nothing_lost_writer [OF assms(1)] Step assms(1) by (cases "i < length (wbWriters s)") auto
next
  case (LoopStep ok)
  then have "ok" using assms(2) by (simp add: succeeds_def)
  then show ?thesis using nothing_lost_loop [OF assms(1)] LoopStep by simp
qed (use assms in \<open>auto intro!: nothing_lost_view [OF assms(1)] simp: nothing_lost_def present_def in_store_def no_flush_def loop_held_def\<close>)

lemma writer_closed: "writer_step ok p pc s = (pc', s') \<Longrightarrow> wbClosed s' = wbClosed s \<and> wbDB s' = wbDB s \<and> wbLoop s' = wbLoop s"
  by (cases pc) (auto simp: writer_defs split: if_splits option.splits prod.splits)

lemma closed_step: "wbClosed (write_step a s) \<longleftrightarrow> wbClosed s \<or> a = CloseMark"
  by (cases a) (auto simp: Let_def loop_step_def flush_enter_def flush_leave_def dest!: writer_closed
    split: prod.splits loop_pc.splits)

lemma nothing_lost_run:
  "nothing_lost s \<Longrightarrow> list_all succeeds as \<Longrightarrow> CloseMark \<notin> set as \<or> wbClosed s \<Longrightarrow> nothing_lost (write_run as s)"
proof (induction as arbitrary: s)
  case (Cons a as)
  have "nothing_lost (write_step a s)"
    using nothing_lost_step [OF Cons.prems(1), of a] Cons.prems by (auto simp: nothing_lost_def)
  from Cons.IH [OF this] Cons.prems show ?case by (auto simp: write_run_def closed_step)
qed (simp add: write_run_def)

section \<open>Closing\<close>

text \<open>No \<open>WriteMessageSync\<close> is between its check and its send.\<close>

definition late_sync :: "writer_pc \<Rightarrow> bool" where
  "late_sync pc = (case pc of SyncFirst \<Rightarrow> True | SyncFlush _ \<Rightarrow> True | SyncSend \<Rightarrow> True | _ \<Rightarrow> False)"

definition no_late_sync :: "write_buffer \<Rightarrow> bool" where
  "no_late_sync s \<longleftrightarrow> (\<forall>i < length (wbWriters s). \<not> late_sync (snd (wbWriters s ! i)))"

definition last_flush :: "loop_pc \<Rightarrow> bool" where
  "last_flush pc = (case pc of LoopFinalFlush _ \<Rightarrow> True | LoopDone \<Rightarrow> True | _ \<Rightarrow> False)"

definition quiesced :: "write_buffer \<Rightarrow> bool" where
  "quiesced s \<longleftrightarrow> wbClosed s \<and> no_late_sync s \<and> no_flush s \<and> (last_flush (wbLoop s) \<longrightarrow> wbBuffer s = [])"

lemma quiesced_writer:
  assumes "writer_step ok p pc s = (pc', s')" "wbClosed s" "\<not> late_sync pc" "held pc = None"
  shows "wbBuffer s' = wbBuffer s \<and> \<not> late_sync pc' \<and> held pc' = None"
  using assms by (cases pc) (auto simp: writer_defs late_sync_def held_def split: if_splits)

lemma quiesced_step: "quiesced s \<Longrightarrow> a \<noteq> SeeTick \<Longrightarrow> quiesced (write_step a s)"
proof (cases a)
  case (Begin call p)
  have "\<not> late_sync (start_pc call)" "held (start_pc call) = None" by (cases call; simp add: late_sync_def held_def)+
  then show "quiesced s \<Longrightarrow> ?thesis" using Begin
    by (auto simp: quiesced_def no_late_sync_def no_flush_def nth_append less_Suc_eq)
next
  case (Step i ok)
  assume q: "quiesced s"
  show ?thesis
  proof (cases "i < length (wbWriters s)")
    case True
    obtain p pc where w: "wbWriters s ! i = (p, pc)" by fastforce
    obtain pc' s' where st: "writer_step ok p pc s = (pc', s')" by fastforce
    have "\<not> late_sync pc" "held pc = None"
      using q True w unfolding quiesced_def no_late_sync_def no_flush_def by (metis snd_conv)+
    then have "wbBuffer s' = wbBuffer s \<and> \<not> late_sync pc' \<and> held pc' = None"
      using quiesced_writer [OF st] q by (simp add: quiesced_def)
    then show ?thesis using True w st Step q writer_closed [OF st]
      by (auto simp: quiesced_def no_late_sync_def no_flush_def nth_list_update)
  qed (use q Step in simp)
next
  case (LoopStep ok)
  then show "quiesced s \<Longrightarrow> ?thesis"
    by (cases "wbLoop s") (auto simp: quiesced_def no_late_sync_def no_flush_def last_flush_def loop_step_def flush_enter_def
      flush_leave_def)
qed (auto simp: quiesced_def no_late_sync_def no_flush_def last_flush_def)

lemma quiesced_run: "quiesced s \<Longrightarrow> SeeTick \<notin> set as \<Longrightarrow> quiesced (write_run as s)"
proof (induction as arbitrary: s)
  case (Cons a as)
  have "quiesced (write_step a s)" using Cons.prems by (intro quiesced_step) auto
  from Cons.IH [OF this] Cons.prems show ?case by (simp add: write_run_def)
qed (simp add: write_run_def)

lemma open_run:
  "\<not> wbClosed s \<Longrightarrow> wbLoop s \<in> {LoopWait, LoopTick} \<union> range LoopFlush \<Longrightarrow> CloseMark \<notin> set as \<Longrightarrow>
     wbLoop (write_run as s) \<in> {LoopWait, LoopTick} \<union> range LoopFlush"
proof (induction as arbitrary: s)
  case (Cons a as)
  have "wbLoop (write_step a s) \<in> {LoopWait, LoopTick} \<union> range LoopFlush"
  proof (cases a)
    case (LoopStep ok)
    then show ?thesis using Cons.prems
      by (cases "wbLoop s") (auto simp: loop_step_def flush_enter_def flush_leave_def)
  qed (use Cons.prems in \<open>auto simp: Let_def dest!: writer_closed split: prod.splits\<close>)
  from Cons.IH [OF _ this] Cons.prems show ?case by (auto simp: write_run_def closed_step)
qed (simp add: write_run_def)

text \<open>
  C23: Closing the store loses nothing, as long as three races do not happen: if no insert fails, and
  when the store is marked closed no \<open>WriteMessageSync\<close> is between its check and its send, no flush has
  drained its batch without having checked again, and the loop does not see another tick after that,
  then in every interleaving of writers, loop and close each message whose write reported success is in
  the table when the database has been closed (or the row with its message id that was there before).
\<close>

theorem close_keeps_accepted:
  assumes "list_all succeeds (earlier @ CloseMark # later)" "CloseMark \<notin> set earlier" "SeeTick \<notin> set later"
    and "no_late_sync (write_run earlier (NewStorage bufferSize rows))" "no_flush (write_run earlier (NewStorage bufferSize rows))"
    and "\<not> wbDB (write_run (earlier @ CloseMark # later) (NewStorage bufferSize rows))"
    and "(p, Returned True) \<in> set (wbWriters (write_run (earlier @ CloseMark # later) (NewStorage bufferSize rows)))"
  shows "kept p (wbRows (write_run (earlier @ CloseMark # later) (NewStorage bufferSize rows)))"
proof -
  let ?b = "write_run earlier (NewStorage bufferSize rows)"
  let ?e = "write_run later (write_step CloseMark ?b)"
  have run: "write_run (earlier @ CloseMark # later) (NewStorage bufferSize rows) = ?e" by (simp add: write_run_def)
  have "nothing_lost (NewStorage bufferSize rows)" by (simp add: nothing_lost_def NewStorage_def)
  from nothing_lost_run [OF this, of earlier] have "nothing_lost ?b" using assms(1,2) by simp
  from nothing_lost_step [OF this, of CloseMark] have "nothing_lost (write_step CloseMark ?b)"
    using assms(5) by (simp add: succeeds_def)
  from nothing_lost_run [OF this, of later] have n: "nothing_lost ?e" using assms(1) by simp
  have "wbLoop ?b \<in> {LoopWait, LoopTick} \<union> range LoopFlush"
    using open_run [of "NewStorage bufferSize rows" earlier] assms(2) by (simp add: NewStorage_def)
  then have "quiesced (write_step CloseMark ?b)"
    using assms(4,5) by (auto simp: quiesced_def no_late_sync_def no_flush_def last_flush_def)
  from quiesced_run [OF this assms(3)] have q: "quiesced ?e" .
  have "wbLoop ?e = LoopDone" using n assms(6) unfolding run nothing_lost_def by blast
  then have e: "present ?e p \<Longrightarrow> kept p (wbRows ?e)"
    using q by (auto simp: quiesced_def last_flush_def no_flush_def present_def in_store_def loop_held_def)
  obtain i where "i < length (wbWriters ?e)" "wbWriters ?e ! i = (p, Returned True)"
    using assms(7) unfolding run by (auto simp: in_set_conv_nth)
  moreover from this have "accepted (snd (wbWriters ?e ! i))" by (simp add: accepted_def)
  ultimately have "present ?e p" using n unfolding nothing_lost_def by (metis fst_conv)
  then show ?thesis unfolding run by (rule e)
qed

definition demo_row :: net_message where
  "demo_row = (1, \<lparr>smChannel = Some 1, smUser = ''ann'', smText = ''hi'', smType = ''privmsg'', smTime = 0, smRaw = [], smPM = [],
     smMsgID = [], smReply = [], smContext = []\<rparr>)"

lemmas run_defs = write_run_def NewStorage_def writer_defs loop_step_def

theorem close_keeps_accepted_witness:
  "kept demo_row (wbRows (write_run ([Begin CallWriteMessage demo_row, Step 0 True]
     @ CloseMark # [SeeStop, LoopStep True, LoopStep True, CloseDB]) (NewStorage 100 [])))"
  by (rule close_keeps_accepted)
    (simp_all add: run_defs succeeds_def no_late_sync_def no_flush_def late_sync_def held_def)

text \<open>
  Each of the three races loses a message although its write reports success. A \<open>WriteMessageSync\<close>
  that passed its check before the close puts its message into the channel after the last flush. A
  message that a tick's flush had drained when the close began is dropped by its second check. And a
  tick that the loop sees after the close ends it without the last flush. The database is closed, the
  table as before.
\<close>

theorem close_races_lose_rows:
  fixes bufferSize :: nat and rows :: "net_message list" and p :: net_message
  defines "end_of \<equiv> \<lambda>actions. write_run actions (NewStorage (Suc bufferSize) rows)"
  defines "lost \<equiv> \<lambda>s. wbWriters s = [(p, Returned True)] \<and> \<not> wbDB s \<and> wbRows s = rows"
  shows "lost (end_of ([Begin CallWriteMessageSync p, Step 0 True, CloseMark, SeeStop, LoopStep True, CloseDB]
        @ [Step 0 True, Step 0 True, Step 0 True]))
    \<and> lost (end_of [Begin CallWriteMessage p, Step 0 True, SeeTick, LoopStep True, CloseMark, LoopStep True, SeeStop,
        LoopStep True, CloseDB])
    \<and> lost (end_of [Begin CallWriteMessage p, Step 0 True, CloseMark, SeeTick, CloseDB])"
  by (simp add: end_of_def lost_def run_defs)

section \<open>A write on its own\<close>

text \<open>The rows of one network, as the model of the client's store has them.\<close>

definition net_rows :: "nat \<Rightarrow> net_message list \<Rightarrow> stored_message list" where
  "net_rows net rows = map snd (filter (\<lambda>q. fst q = net) rows)"

lemma net_rows_insert: "net_rows net (insert_row (net, m) rows) = insert_message m (net_rows net rows)"
  by (auto simp: net_rows_def insert_row_def insert_message_def same_key_def)

lemma net_rows_fold:
  "net_rows net (fold insert_row ps rows) = fold insert_message (net_rows net ps) (net_rows net rows)"
proof (induction ps arbitrary: rows)
  case (Cons p ps)
  have "net_rows net (insert_row p rows) = (if fst p = net then insert_message (snd p) (net_rows net rows) else net_rows net rows)"
    by (cases p) (auto simp: net_rows_insert, auto simp: net_rows_def insert_row_def)
  then show ?case using Cons.IH by (simp add: net_rows_def)
qed (simp add: net_rows_def)

text \<open>
  The atomic write the client's handlers are modelled with is what the code does: on an open store
  with a buffer that is not unbuffered, a \<open>WriteMessageSync\<close> that no one interrupts reports success,
  leaves the buffer empty, and the rows of its network are the earlier ones with the buffered messages
  and then this one inserted, each unless its message id is already in its conversation.
\<close>

theorem sync_write_is_insert:
  fixes net :: nat and m :: stored_message
  assumes "\<not> wbClosed s" "wbDB s" "wbCap s \<noteq> 0" "wbWriters s = []" "\<not> wbLocked s"
  defines "s' \<equiv> write_run (Begin CallWriteMessageSync (net, m) # replicate 6 (Step 0 True)) s"
  shows "wbWriters s' = [((net, m), Returned True)] \<and> wbBuffer s' = []
    \<and> net_rows net (wbRows s') = insert_message m (fold insert_message (net_rows net (wbBuffer s)) (net_rows net (wbRows s)))"
proof -
  have "wbWriters s' = [((net, m), Returned True)] \<and> wbBuffer s' = []
      \<and> wbRows s' = insert_row (net, m) (fold insert_row (wbBuffer s) (wbRows s))"
    using assms(1-5) by (cases "wbBuffer s = []") (simp_all add: s'_def write_run_def writer_defs numeral_eq_Suc)
  then show ?thesis by (simp add: net_rows_insert net_rows_fold)
qed

theorem sync_write_is_insert_witness:
  "net_rows 1 (wbRows (write_run (Begin CallWriteMessageSync (1, snd demo_row) # replicate 6 (Step 0 True)) (NewStorage 100 [])))
     = [snd demo_row]"
  using sync_write_is_insert [of "NewStorage 100 []" 1 "snd demo_row"]
  by (simp add: NewStorage_def demo_row_def net_rows_def insert_message_def)

end
