(* ===== verification/Message_Pages.thy ===== *)
theory Message_Pages
  imports Roster_Store
begin

text \<open>
  Reading the message log page by page: the queries of \<open>internal/storage/database.go\<close> and
  \<open>generated/messages.sql.go\<close>, \<open>pinned_messages.sql.go\<close> that the scrollback, the jump to a message and
  the pins use. The rows are those of one network, each with its id.
\<close>

section \<open>Queries\<close>

type_synonym log_row = "int \<times> stored_message"

text \<open>A channel, or the status pane.\<close>

definition in_pane :: "nat option \<Rightarrow> stored_message \<Rightarrow> bool" where
  "in_pane ch m \<longleftrightarrow> smChannel m = ch \<and> (ch = None \<longrightarrow> smPM m = [])"

definition in_pm :: "string \<Rightarrow> stored_message \<Rightarrow> bool" where
  "in_pm target m \<longleftrightarrow> smChannel m = None \<and> smType m \<in> {''privmsg'', ''action'', ''notice'', ''marker''}
     \<and> smPM m \<noteq> [] \<and> sql_lower (smPM m) = target"

text \<open>\<open>LIMIT\<close>: a negative one is none.\<close>

definition sql_limit :: "int \<Rightarrow> 'a list \<Rightarrow> 'a list" where
  "sql_limit n xs = (if n < 0 then xs else take (nat n) xs)"

text \<open>\<open>ORDER BY id\<close>, and \<open>ORDER BY timestamp, id\<close>.\<close>

definition by_id :: "log_row list \<Rightarrow> log_row list" where
  "by_id = sort_key fst"

definition by_time :: "log_row list \<Rightarrow> log_row list" where
  "by_time rows = sort_key (\<lambda>r. smTime (snd r)) (by_id rows)"

definition GetMessages :: "nat option \<Rightarrow> int \<Rightarrow> log_row list \<Rightarrow> log_row list" where
  "GetMessages ch limit rows = rev (sql_limit limit (rev (by_time (filter (\<lambda>r. in_pane ch (snd r)) rows))))"

definition messages_before :: "nat option \<Rightarrow> int \<Rightarrow> int \<Rightarrow> log_row list \<Rightarrow> log_row list" where
  "messages_before ch i limit rows = sql_limit limit (rev (by_id (filter (\<lambda>r. in_pane ch (snd r) \<and> fst r \<le> i) rows)))"

definition messages_after :: "nat option \<Rightarrow> int \<Rightarrow> int \<Rightarrow> log_row list \<Rightarrow> log_row list" where
  "messages_after ch i limit rows = sql_limit limit (by_id (filter (\<lambda>r. in_pane ch (snd r) \<and> i < fst r) rows))"

definition GetMessagesBefore :: "nat option \<Rightarrow> int \<Rightarrow> int \<Rightarrow> log_row list \<Rightarrow> log_row list" where
  "GetMessagesBefore ch beforeID limit rows = rev (messages_before ch (beforeID - 1) limit rows)"

definition GetMessagesAfter :: "nat option \<Rightarrow> int \<Rightarrow> int \<Rightarrow> log_row list \<Rightarrow> log_row list" where
  "GetMessagesAfter ch afterID limit rows = messages_after ch afterID limit rows"

definition GetMessagesAround :: "nat option \<Rightarrow> int \<Rightarrow> int \<Rightarrow> log_row list \<Rightarrow> log_row list" where
  "GetMessagesAround ch targetID window rows =
     rev (messages_before ch targetID window rows) @ messages_after ch targetID window rows"

definition pane_of :: "nat option \<Rightarrow> string \<Rightarrow> stored_message \<Rightarrow> bool" where
  "pane_of ch pmTarget m = (if pmTarget \<noteq> [] then in_pm (to_lower pmTarget) m else in_pane ch m)"

definition GetMessagesBeforeTime :: "nat option \<Rightarrow> string \<Rightarrow> int \<Rightarrow> int \<Rightarrow> log_row list \<Rightarrow> log_row list" where
  "GetMessagesBeforeTime ch pmTarget t limit rows =
     rev (sql_limit limit (rev (by_time (filter (\<lambda>r. pane_of ch pmTarget (snd r) \<and> smTime (snd r) < t) rows))))"

definition GetMessageByMsgID :: "string \<Rightarrow> log_row list \<Rightarrow> log_row option" where
  "GetMessageByMsgID msgid rows = List.find (\<lambda>r. msgid \<noteq> [] \<and> smMsgID (snd r) = msgid) rows"

section \<open>Pages by id\<close>

text \<open>The log: ids grow.\<close>

definition log_ok :: "log_row list \<Rightarrow> bool" where
  "log_ok rows \<longleftrightarrow> sorted_wrt (<) (map fst rows)"

lemma log_ok_filter: "log_ok rows \<Longrightarrow> log_ok (filter P rows)"
  unfolding log_ok_def by (induction rows) auto

lemma by_id_log: "log_ok rows \<Longrightarrow> by_id rows = rows"
  unfolding by_id_def log_ok_def by (intro sort_key_sorted) (metis strict_sorted_iff)

lemma rev_limit: "0 \<le> n \<Longrightarrow> rev (sql_limit n (rev xs)) = drop (length xs - nat n) xs"
  by (simp add: sql_limit_def take_rev)

text \<open>The rows below the one at a position are those before it.\<close>

lemma filter_below:
  fixes f :: "'a \<Rightarrow> int"
  shows "sorted_wrt (<) (map f xs) \<Longrightarrow> i < length xs \<Longrightarrow> filter (\<lambda>x. f x < f (xs ! i)) xs = take i xs"
proof (induction xs arbitrary: i)
  case (Cons x xs)
  show ?case
  proof (cases i)
    case 0
    then show ?thesis using Cons.prems by (auto simp: filter_empty_conv)
  next
    case (Suc j)
    then have "f x < f (xs ! j)" using Cons.prems nth_mem [of j xs] by auto
    then show ?thesis using Cons Suc by simp
  qed
qed simp

lemma drop_take_join: "drop (d - k) (take d xs) @ drop d xs = drop (d - k) xs"
proof -
  have "drop d xs = drop (d - (d - k)) (drop (d - k) xs)" by simp
  then show ?thesis using append_take_drop_id [of "d - (d - k)" "drop (d - k) xs"] by (simp only: drop_take)
qed

lemma log_split:
  assumes "log_ok rows"
  shows "filter P rows = filter (\<lambda>r. P r \<and> fst r < i) rows @ filter (\<lambda>r. P r \<and> \<not> fst r < i) rows"
  using assms unfolding log_ok_def
proof (induction rows)
  case (Cons r rows)
  have "filter (\<lambda>q. P q \<and> fst q < i) rows = []" if "\<not> fst r < i"
    using that Cons.prems by (auto simp: filter_empty_conv)
  then show ?case using Cons by auto
qed simp

lemma before_log:
  assumes "log_ok rows" "0 \<le> n"
  shows "GetMessagesBefore ch b n rows
    = (let l = filter (\<lambda>r. in_pane ch (snd r) \<and> fst r < b) rows in drop (length l - nat n) l)"
proof -
  have "(\<lambda>r :: log_row. in_pane ch (snd r) \<and> fst r \<le> b - 1) = (\<lambda>r. in_pane ch (snd r) \<and> fst r < b)" by auto
  then show ?thesis
    using by_id_log [OF log_ok_filter [OF assms(1)]] assms(2)
    by (simp add: GetMessagesBefore_def messages_before_def rev_limit Let_def)
qed

lemma after_log:
  assumes "log_ok rows" "0 \<le> n"
  shows "GetMessagesAfter ch a n rows = take (nat n) (filter (\<lambda>r. in_pane ch (snd r) \<and> a < fst r) rows)"
  using by_id_log [OF log_ok_filter [OF assms(1)]] assms(2)
  by (simp add: GetMessagesAfter_def messages_after_def sql_limit_def)

lemma pages_join:
  assumes "log_ok rows" "0 \<le> n" "0 \<le> k" "GetMessagesBefore ch b n rows \<noteq> []"
  shows "GetMessagesBefore ch (fst (hd (GetMessagesBefore ch b n rows))) k rows @ GetMessagesBefore ch b n rows
    = GetMessagesBefore ch b (n + k) rows"
proof -
  let ?l = "filter (\<lambda>r. in_pane ch (snd r) \<and> fst r < b) rows"
  let ?d = "length ?l - nat n"
  have p: "GetMessagesBefore ch b n rows = drop ?d ?l" using before_log [OF assms(1,2)] by (simp add: Let_def)
  then have d: "?d < length ?l" using assms(4) by simp
  have "fst (?l ! ?d) < b" using nth_mem [OF d] by simp
  then have "filter (\<lambda>r. in_pane ch (snd r) \<and> fst r < fst (?l ! ?d)) rows = filter (\<lambda>r. fst r < fst (?l ! ?d)) ?l"
    by (auto intro: filter_cong)
  also have "\<dots> = take ?d ?l"
    using filter_below [OF log_ok_filter [OF assms(1), unfolded log_ok_def] d] .
  finally have "GetMessagesBefore ch (fst (?l ! ?d)) k rows = drop (?d - nat k) (take ?d ?l)"
    using before_log [OF assms(1,3), of ch "fst (?l ! ?d)"] by (simp add: Let_def)
  also have "\<dots> @ drop ?d ?l = drop (?d - nat k) ?l"
    by (rule drop_take_join)
  finally show ?thesis
    using before_log [OF assms(1), of "n + k" ch b] assms(2,3)
    unfolding p hd_drop_conv_nth [OF d] by (simp add: Let_def nat_add_distrib)
qed

text \<open>
  C24: Scrolling back loses nothing and repeats nothing: a page of \<open>n\<close> messages before an id, and the
  page of \<open>k\<close> before its oldest message, are together the page of \<open>n + k\<close>; so any sequence of pages is
  one page, whatever the panes of the other rows.
\<close>

theorem pages_compose:
  assumes "log_ok rows" "0 \<le> n" "0 \<le> k" "GetMessagesBefore ch b n rows \<noteq> []"
  shows "GetMessagesBefore ch (fst (hd (GetMessagesBefore ch b n rows))) k rows @ GetMessagesBefore ch b n rows
    = GetMessagesBefore ch b (n + k) rows"
  by (rule pages_join [OF assms])

definition demo_msg :: "string \<Rightarrow> int \<Rightarrow> stored_message" where
  "demo_msg text t = \<lparr>smChannel = Some 1, smUser = ''ann'', smText = text, smType = ''privmsg'', smTime = t, smRaw = [], smPM = [],
     smMsgID = [], smReply = [], smContext = []\<rparr>"

definition demo_log :: "log_row list" where
  "demo_log = [(1, demo_msg ''a'' 5), (2, demo_msg ''b'' 5), (4, demo_msg ''c'' 5), (7, demo_msg ''d'' 5)]"

lemma demo_log_ok: "log_ok demo_log" by (simp add: log_ok_def demo_log_def)

theorem pages_compose_witness:
  "GetMessagesBefore (Some 1) 4 1 demo_log @ GetMessagesBefore (Some 1) 7 1 demo_log = GetMessagesBefore (Some 1) 7 2 demo_log
   \<and> GetMessagesBefore (Some 1) 7 1 demo_log = [(4, demo_msg ''c'' 5)]"
proof -
  have p: "GetMessagesBefore (Some 1) 7 1 demo_log = [(4, demo_msg ''c'' 5)]"
    using before_log [OF demo_log_ok, of 1 "Some 1" 7] by (simp add: demo_log_def demo_msg_def in_pane_def Let_def)
  then show ?thesis using pages_compose [OF demo_log_ok, of 1 1 "Some 1" 7] by simp
qed

section \<open>The window around a message\<close>

text \<open>
  The window around a message is a contiguous stretch of the log: the page before the next id and
  the page after the message, in order, without a gap at the target.
\<close>

theorem around_is_contiguous:
  assumes "log_ok rows" "0 \<le> window"
  shows "GetMessagesAround ch i window rows
      = GetMessagesBefore ch (i + 1) window rows @ GetMessagesAfter ch i window rows
    \<and> (\<exists>us vs. filter (\<lambda>r. in_pane ch (snd r)) rows = us @ GetMessagesAround ch i window rows @ vs)"
proof -
  let ?f = "filter (\<lambda>r. in_pane ch (snd r)) rows"
  have e: "GetMessagesAround ch i window rows
      = GetMessagesBefore ch (i + 1) window rows @ GetMessagesAfter ch i window rows"
    by (simp add: GetMessagesAround_def GetMessagesBefore_def GetMessagesAfter_def)
  let ?l = "filter (\<lambda>r. in_pane ch (snd r) \<and> fst r < i + 1) rows" and ?u = "filter (\<lambda>r. in_pane ch (snd r) \<and> i < fst r) rows"
  have "(\<lambda>r :: log_row. in_pane ch (snd r) \<and> \<not> fst r < i + 1) = (\<lambda>r. in_pane ch (snd r) \<and> i < fst r)" by auto
  then have "?f = ?l @ ?u" using log_split [OF assms(1), of "\<lambda>r. in_pane ch (snd r)" "i + 1"] by simp
  also have "\<dots> = take (length ?l - nat window) ?l @ GetMessagesAround ch i window rows @ drop (nat window) ?u"
    unfolding e by (simp add: before_log [OF assms] after_log [OF assms] Let_def)
  finally show ?thesis using e by blast
qed

theorem around_is_contiguous_witness:
  "GetMessagesAround (Some 1) 2 1 demo_log = GetMessagesBefore (Some 1) 3 1 demo_log @ GetMessagesAfter (Some 1) 2 1 demo_log"
  using around_is_contiguous [OF demo_log_ok, of 1 "Some 1" 2] by simp

section \<open>Pages by time\<close>

lemma by_time_same: "\<forall>r \<in> set rows. smTime (snd r) = t \<Longrightarrow> log_ok rows \<Longrightarrow> by_time rows = rows"
proof -
  assume t: "\<forall>r \<in> set rows. smTime (snd r) = t" and ok: "log_ok rows"
  have "sorted (map (\<lambda>r. smTime (snd r)) rows)" using t by (induction rows) auto
  then show ?thesis unfolding by_time_def by_id_log [OF ok] by (rule sort_key_sorted)
qed

text \<open>
  Scrolling back by time loses the messages that share a time stamp: of a conversation whose
  messages have one time (a burst, or a server that stamps seconds), the first page shows the newest
  and the next one, whatever its size, is empty, so the others are never shown.
\<close>

theorem time_pages_skip_ties:
  assumes "log_ok rows" "0 \<le> n" "nat n < length rows" "\<forall>r \<in> set rows. pane_of ch pm (snd r) \<and> smTime (snd r) = t"
  shows "GetMessagesBeforeTime ch pm (t + 1) n rows = drop (length rows - nat n) rows
    \<and> GetMessagesBeforeTime ch pm t k rows = []"
proof -
  have f: "filter (\<lambda>r. pane_of ch pm (snd r) \<and> smTime (snd r) < t + 1) rows = rows"
    using assms(4) by (simp add: filter_id_conv)
  have "filter (\<lambda>r. pane_of ch pm (snd r) \<and> smTime (snd r) < t) rows = []"
    using assms(4) by (simp add: filter_empty_conv)
  then have e: "GetMessagesBeforeTime ch pm t k rows = []"
    by (simp add: GetMessagesBeforeTime_def by_time_def by_id_def sql_limit_def)
  have "by_time rows = rows" using assms(1,4) by (intro by_time_same) auto
  then show ?thesis using e f rev_limit [OF assms(2), of rows] by (simp add: GetMessagesBeforeTime_def)
qed

theorem time_pages_skip_ties_witness:
  "GetMessagesBeforeTime (Some 1) [] 6 2 demo_log = [(4, demo_msg ''c'' 5), (7, demo_msg ''d'' 5)]
   \<and> GetMessagesBeforeTime (Some 1) [] 5 100 demo_log = []"
  using time_pages_skip_ties [OF demo_log_ok, of 2 "Some 1" "[]" 5 100]
  by (simp add: demo_log_def demo_msg_def pane_of_def in_pane_def)

end
