(* ===== verification/Credentials.thy ===== *)
theory Credentials
  imports Go_Text
begin

text \<open>
  The secrets of \<open>internal/security\<close>: the encrypted file of \<open>file_backend.go\<close> and the credential store of
  \<open>credentials.go\<close> over any backend. Encryption is ideal: a sealed file opens with its own key and with
  no other; whether the file can be read and written is part of the state.
\<close>

section \<open>The encrypted file\<close>

datatype secrets_file = NoFile | EmptyFile | Truncated | Sealed string "string \<rightharpoonup> string"

record file_backend =
  fbKey :: string
  fbFile :: secrets_file
  fbReadable :: bool
  fbWritable :: bool

text \<open>\<open>load\<close>: a missing or empty file is the empty map, what does not decrypt is an error (\<open>None\<close>).\<close>

definition file_load :: "file_backend \<Rightarrow> (string \<rightharpoonup> string) option" where
  "file_load f = (case fbFile f of
     NoFile \<Rightarrow> Some Map.empty
   | EmptyFile \<Rightarrow> if fbReadable f then Some Map.empty else None
   | Truncated \<Rightarrow> None
   | Sealed key m \<Rightarrow> if fbReadable f \<and> key = fbKey f then Some m else None)"

text \<open>
  \<open>save\<close>: a temporary file, readable by its owner, renamed over the old one, so a failure leaves the
  old one.
\<close>

definition file_save :: "(string \<rightharpoonup> string) \<Rightarrow> file_backend \<Rightarrow> bool \<times> file_backend" where
  "file_save m f = (if fbWritable f then (True, f\<lparr>fbFile := Sealed (fbKey f) m, fbReadable := True\<rparr>) else (False, f))"

definition FileSet :: "string \<Rightarrow> string \<Rightarrow> file_backend \<Rightarrow> bool \<times> file_backend" where
  "FileSet key val f = (case file_load f of None \<Rightarrow> (False, f) | Some m \<Rightarrow> file_save (m(key \<mapsto> val)) f)"

definition FileGet :: "string \<Rightarrow> file_backend \<Rightarrow> string option" where
  "FileGet key f = (case file_load f of None \<Rightarrow> None
     | Some m \<Rightarrow> Some (case m key of Some v \<Rightarrow> v | None \<Rightarrow> []))"

definition FileDelete :: "string \<Rightarrow> file_backend \<Rightarrow> bool \<times> file_backend" where
  "FileDelete key f = (case file_load f of None \<Rightarrow> (False, f)
     | Some m \<Rightarrow> if m key = None then (True, f) else file_save (m(key := None)) f)"

section \<open>The interface of a backend\<close>

text \<open>\<open>SecretBackend\<close>: \<open>Get\<close> returns the empty string for a missing key, \<open>None\<close> for an error.\<close>

record 'b backend =
  bSet :: "string \<Rightarrow> string \<Rightarrow> 'b \<Rightarrow> bool \<times> 'b"
  bGet :: "string \<Rightarrow> 'b \<Rightarrow> string option"
  bDelete :: "string \<Rightarrow> 'b \<Rightarrow> bool \<times> 'b"

definition FileBackend :: "file_backend backend" where
  "FileBackend = \<lparr>bSet = FileSet, bGet = FileGet, bDelete = FileDelete\<rparr>"

definition FieldPassword :: string where "FieldPassword = ''password''"
definition FieldSASLPassword :: string where "FieldSASLPassword = ''sasl_password''"
definition FieldSASLExternalCert :: string where "FieldSASLExternalCert = ''sasl_external_cert''"

definition credKey :: "nat \<Rightarrow> string \<Rightarrow> string" where
  "credKey networkID field = ''network-'' @ nat_str networkID @ ''-'' @ field"

text \<open>The credential store; \<open>None\<close> is a nil store. \<open>Store\<close> returns whether the backend took the value.\<close>

definition Store :: "'b backend \<Rightarrow> nat \<Rightarrow> string \<Rightarrow> string \<Rightarrow> 'b option \<Rightarrow> bool \<times> 'b option" where
  "Store B networkID field val cs = (case cs of None \<Rightarrow> (False, None)
     | Some b \<Rightarrow> (case (if val = [] then bDelete B (credKey networkID field) b else bSet B (credKey networkID field) val b)
         of (used, b) \<Rightarrow> (used, Some b)))"

definition Resolve :: "'b backend \<Rightarrow> nat \<Rightarrow> string \<Rightarrow> string \<Rightarrow> 'b option \<Rightarrow> string" where
  "Resolve B networkID field columnValue cs = (case cs of None \<Rightarrow> columnValue
     | Some b \<Rightarrow> (case bGet B (credKey networkID field) b of
         Some v \<Rightarrow> if v \<noteq> [] then v else columnValue | None \<Rightarrow> columnValue))"

definition in_backend :: "'b backend \<Rightarrow> nat \<Rightarrow> string \<Rightarrow> 'b \<Rightarrow> bool" where
  "in_backend B networkID field b = (case bGet B (credKey networkID field) b of Some v \<Rightarrow> v \<noteq> [] | None \<Rightarrow> False)"

definition Migrate :: "'b backend \<Rightarrow> nat \<Rightarrow> string \<Rightarrow> string \<Rightarrow> 'b option \<Rightarrow> bool \<times> 'b option" where
  "Migrate B networkID field columnValue cs = (case cs of None \<Rightarrow> (False, None)
     | Some b \<Rightarrow> if columnValue = [] then (False, Some b)
         else if in_backend B networkID field b then (True, Some b)
         else Store B networkID field columnValue (Some b))"

primrec delete_fields :: "'b backend \<Rightarrow> nat \<Rightarrow> string list \<Rightarrow> 'b \<Rightarrow> bool \<times> 'b" where
  "delete_fields B networkID [] b = (True, b)"
| "delete_fields B networkID (field # fs) b = (case bDelete B (credKey networkID field) b of
     (True, b) \<Rightarrow> delete_fields B networkID fs b | (False, b) \<Rightarrow> (False, b))"

definition DeleteSecrets :: "'b backend \<Rightarrow> nat \<Rightarrow> 'b option \<Rightarrow> bool \<times> 'b option" where
  "DeleteSecrets B networkID cs = (case cs of None \<Rightarrow> (True, None)
     | Some b \<Rightarrow> (case delete_fields B networkID [FieldPassword, FieldSASLPassword, FieldSASLExternalCert] b of
         (ok, b) \<Rightarrow> (ok, Some b)))"

section \<open>Keys\<close>

lemma nat_str_inj: "nat_str m = nat_str n \<Longrightarrow> m = n"
  by (metis digits_val_nat_str)

lemma credKey_eq [simp]: "credKey i f = credKey j g \<longleftrightarrow> i = j \<and> f = g"
proof
  assume "credKey i f = credKey j g"
  then have e: "nat_str i @ CHR ''-'' # f = nat_str j @ CHR ''-'' # g" by (simp add: credKey_def)
  have "\<not> is_digit (CHR ''-'')" by (simp add: is_digit_def)
  then have t: "takeWhile is_digit (nat_str n @ CHR ''-'' # h) = nat_str n" for n h
    by (simp add: takeWhile_append2 nat_str_digits)
  have "nat_str i = nat_str j" using arg_cong [OF e, of "takeWhile is_digit"] t by simp
  with e show "i = j \<and> f = g" by (auto dest: nat_str_inj)
qed simp

section \<open>What a backend promises\<close>

locale secret_store =
  fixes B :: "'b backend"
  assumes get_set: "bSet B k v b = (True, b') \<Longrightarrow> bGet B k b' = Some v"
    and get_set_other: "bSet B k v b = (True, b') \<Longrightarrow> k' \<noteq> k \<Longrightarrow> bGet B k' b' = bGet B k' b"
    and set_failed: "bSet B k v b = (False, b') \<Longrightarrow> b' = b"
    and get_delete: "bDelete B k b = (True, b') \<Longrightarrow> bGet B k b' = Some []"
    and get_delete_other: "bDelete B k b = (True, b') \<Longrightarrow> k' \<noteq> k \<Longrightarrow> bGet B k' b' = bGet B k' b"
    and delete_failed: "bDelete B k b = (False, b') \<Longrightarrow> b' = b"
begin

lemma store_failed: "Store B i f v cs = (False, cs') \<Longrightarrow> cs' = cs"
  by (auto simp: Store_def dest: set_failed delete_failed split: option.splits if_splits prod.splits)

lemma store_resolve: "Store B i f v cs = (True, cs') \<Longrightarrow> v \<noteq> [] \<Longrightarrow> Resolve B i f col cs' = v"
  by (auto simp: Store_def Resolve_def dest: get_set split: option.splits if_splits prod.splits)

lemma store_other:
  assumes "Store B i f v cs = (r, cs')" "(j, g) \<noteq> (i, f)"
  shows "Resolve B j g col cs' = Resolve B j g col cs"
proof (cases r)
  case True
  then show ?thesis using assms
    by (auto simp: Store_def Resolve_def get_set_other get_delete_other split: option.splits if_splits prod.splits)
next
  case False
  then show ?thesis using assms store_failed by metis
qed

lemma migrate_resolve: "Migrate B i f col cs = (True, cs') \<Longrightarrow> Resolve B i f col' cs' = Resolve B i f col cs"
  using store_resolve [of i f col cs cs']
  by (auto simp: Migrate_def in_backend_def Resolve_def split: option.splits if_splits)

lemma migrate_other:
  "Migrate B i f col cs = (r, cs') \<Longrightarrow> (j, g) \<noteq> (i, f) \<Longrightarrow> Resolve B j g c cs' = Resolve B j g c cs"
  using store_other [of i f col cs r cs' j g c] by (auto simp: Migrate_def split: option.splits if_splits)

lemma migrate_failed: "Migrate B i f col cs = (False, cs') \<Longrightarrow> cs' = cs"
  using store_failed [of i f col cs cs'] by (auto simp: Migrate_def split: option.splits if_splits)

lemma deleted_fields:
  assumes "delete_fields B i fs b = (True, b')"
  shows "bGet B (credKey j g) b' = (if j = i \<and> g \<in> set fs then Some [] else bGet B (credKey j g) b)"
  using assms
proof (induction fs arbitrary: b)
  case (Cons f fs)
  then obtain c where c: "bDelete B (credKey i f) b = (True, c)" "delete_fields B i fs c = (True, b')"
    by (auto split: prod.splits bool.splits)
  show ?case
    using Cons.IH [OF c(2)] get_delete [OF c(1)] get_delete_other [OF c(1), of "credKey j g"] by auto
qed simp

lemma deleted_resolve:
  "DeleteSecrets B i cs = (True, cs') \<Longrightarrow> g \<in> {FieldPassword, FieldSASLPassword, FieldSASLExternalCert} \<Longrightarrow>
     Resolve B i g col cs' = col"
  by (auto simp: DeleteSecrets_def Resolve_def deleted_fields simp del: delete_fields.simps split: option.splits prod.splits)

end

lemma file_saved: "file_save m f = (True, f') \<Longrightarrow> file_load f' = Some m"
  by (auto simp: file_save_def file_load_def split: if_splits)

lemma file_save_failed: "file_save m f = (False, f') \<Longrightarrow> f' = f"
  by (auto simp: file_save_def split: if_splits)

lemma file_set:
  "FileSet k v f = (True, f') \<Longrightarrow> \<exists>m. file_load f = Some m \<and> file_load f' = Some (m(k \<mapsto> v))"
  "FileSet k v f = (False, f') \<Longrightarrow> f' = f"
  by (auto simp: FileSet_def dest: file_saved file_save_failed split: option.splits)

lemma file_delete:
  "FileDelete k f = (True, f') \<Longrightarrow> \<exists>m. file_load f = Some m \<and> file_load f' = Some (m(k := None))"
  "FileDelete k f = (False, f') \<Longrightarrow> f' = f"
  by (auto simp: FileDelete_def fun_upd_idem dest: file_saved file_save_failed split: option.splits if_splits)

interpretation fb: secret_store FileBackend
  by unfold_locales (auto simp: FileBackend_def FileGet_def dest: file_set file_delete)

end
