(* ===== verification/Go_Int.thy ===== *)
theory Go_Int
  imports Prelude "HOL-Library.Word"
begin

text \<open>Go's 64-bit integers: arithmetic on int64 wraps. A duration is an int64 of nanoseconds.\<close>

definition int64 :: "int \<Rightarrow> int" where "int64 x = sint (word_of_int x :: 64 word)"

lemma int64_mod: "int64 x = (x + 2 ^ 63) mod 2 ^ 64 - 2 ^ 63"
  unfolding int64_def by (subst int_word_sint) simp

lemma int64_id: "- (2 ^ 63) \<le> x \<Longrightarrow> x < 2 ^ 63 \<Longrightarrow> int64 x = x"
  by (simp add: int64_mod)

lemma int64_wraps:
  assumes "2 ^ 63 \<le> x" "x < 2 ^ 64" shows "int64 x = x - 2 ^ 64"
proof -
  have "(x + 2 ^ 63) mod 2 ^ 64 = (x - 2 ^ 63) mod 2 ^ 64"
    using mod_add_self2 [of "x - 2 ^ 63" "2 ^ 64"] by (simp add: add.commute)
  also have "\<dots> = x - 2 ^ 63" using assms by simp
  finally show ?thesis unfolding int64_mod by simp
qed

end
