(* ===== verification/Network_Config.thy ===== *)
theory Network_Config
  imports Credentials Irc_Session Go_Int
begin

text \<open>
  The saved networks: their rows and servers (\<open>internal/storage/database.go\<close>, \<open>generated/networks.sql.go\<close>,
  \<open>servers.sql.go\<close>, \<open>sts_policies.sql.go\<close>), the checks of \<open>internal/validation/validator.go\<close>, and the
  functions of \<open>app_connection.go\<close> and \<open>app_events.go\<close> that save a configuration, keep its secrets out of
  the rows, rebuild it for a connection and enforce STS policies. A closed database fails every query.
\<close>

section \<open>Data\<close>

record server_config =
  scAddress :: string
  scPort :: int
  scTLS :: bool
  scOrder :: int

record network_config =
  ncName :: string
  ncAddress :: string
  ncPort :: int
  ncTLS :: bool
  ncServers :: "server_config list"
  ncNickname :: string
  ncUsername :: string
  ncRealname :: string
  ncPassword :: string
  ncSASLEnabled :: bool
  ncSASLMechanism :: string
  ncSASLUsername :: string
  ncSASLPassword :: string
  ncSASLExternalCert :: string
  ncAutoConnect :: bool
  ncIdentifyAsBot :: bool

record network_row =
  nrID :: nat
  nrName :: string
  nrAddress :: string
  nrPort :: int
  nrTLS :: bool
  nrNickname :: string
  nrUsername :: string
  nrRealname :: string
  nrPassword :: string
  nrSASLEnabled :: bool
  nrSASLMechanism :: "string option"
  nrSASLUsername :: "string option"
  nrSASLPassword :: "string option"
  nrSASLExternalCert :: "string option"
  nrAutoConnect :: bool
  nrIdentifyAsBot :: bool
  nrColor :: "string option"
  nrSort :: int

record server_row =
  srID :: nat
  srNetwork :: nat
  srAddress :: string
  srPort :: int
  srTLS :: bool
  srOrder :: int

record config_db =
  dbOpen :: bool
  dbNetworks :: "network_row list"
  dbServers :: "server_row list"
  dbNextNetwork :: nat
  dbNextServer :: nat
  dbPolicies :: "string \<rightharpoonup> int \<times> int"

datatype config_err = ErrDatabase | ErrNoServers | ErrPanic | ErrInvalid string | ErrNoNetwork | ErrSecrets

definition stringPtr :: "string \<Rightarrow> string option" where
  "stringPtr s = (if s = [] then None else Some s)"

definition derefStr :: "string option \<Rightarrow> string" where
  "derefStr p = (case p of Some s \<Rightarrow> s | None \<Rightarrow> [])"

section \<open>Queries\<close>

definition CreateNetwork :: "network_row \<Rightarrow> config_db \<Rightarrow> network_row option \<times> config_db" where
  "CreateNetwork n db = (if \<not> dbOpen db then (None, db)
     else let n = n\<lparr>nrID := dbNextNetwork db, nrColor := None, nrSort := 0\<rparr>
       in (Some n, db\<lparr>dbNetworks := dbNetworks db @ [n], dbNextNetwork := Suc (dbNextNetwork db)\<rparr>))"

definition GetNetworks :: "config_db \<Rightarrow> network_row list option" where
  "GetNetworks db = (if dbOpen db then Some (sort_key nrSort (sort_key nrID (dbNetworks db))) else None)"

definition GetNetwork :: "nat \<Rightarrow> config_db \<Rightarrow> network_row option" where
  "GetNetwork i db = (if dbOpen db then List.find (\<lambda>n. nrID n = i) (dbNetworks db) else None)"

text \<open>An UPDATE leaves the colour and the position as they are.\<close>

definition UpdateNetwork :: "network_row \<Rightarrow> config_db \<Rightarrow> bool \<times> config_db" where
  "UpdateNetwork n db = (if \<not> dbOpen db then (False, db)
     else (True, db\<lparr>dbNetworks := map (\<lambda>m. if nrID m = nrID n then n\<lparr>nrColor := nrColor m, nrSort := nrSort m\<rparr> else m)
       (dbNetworks db)\<rparr>))"

definition update_row :: "nat \<Rightarrow> (network_row \<Rightarrow> network_row) \<Rightarrow> config_db \<Rightarrow> bool \<times> config_db" where
  "update_row i f db = (if \<not> dbOpen db then (False, db)
     else (True, db\<lparr>dbNetworks := map (\<lambda>m. if nrID m = i then f m else m) (dbNetworks db)\<rparr>))"

definition UpdateNetworkAutoConnect :: "nat \<Rightarrow> bool \<Rightarrow> config_db \<Rightarrow> bool \<times> config_db" where
  "UpdateNetworkAutoConnect i v = update_row i (\<lambda>n. n\<lparr>nrAutoConnect := v\<rparr>)"

definition UpdateNetworkColor :: "nat \<Rightarrow> string option \<Rightarrow> config_db \<Rightarrow> bool \<times> config_db" where
  "UpdateNetworkColor i color = update_row i (\<lambda>n. n\<lparr>nrColor := color\<rparr>)"

definition UpdateNetworkSortOrder :: "nat \<Rightarrow> int \<Rightarrow> config_db \<Rightarrow> bool \<times> config_db" where
  "UpdateNetworkSortOrder i ord = update_row i (\<lambda>n. n\<lparr>nrSort := ord\<rparr>)"

text \<open>Foreign keys are off, so only the row goes.\<close>

definition DeleteNetworkRow :: "nat \<Rightarrow> config_db \<Rightarrow> bool \<times> config_db" where
  "DeleteNetworkRow i db = (if \<not> dbOpen db then (False, db)
     else (True, db\<lparr>dbNetworks := filter (\<lambda>n. nrID n \<noteq> i) (dbNetworks db)\<rparr>))"

definition GetServers :: "nat \<Rightarrow> config_db \<Rightarrow> server_row list option" where
  "GetServers i db = (if dbOpen db
     then Some (sort_key srOrder (sort_key srID (filter (\<lambda>s. srNetwork s = i) (dbServers db)))) else None)"

definition CreateServer :: "nat \<Rightarrow> server_config \<Rightarrow> config_db \<Rightarrow> bool \<times> config_db" where
  "CreateServer i sc db = (if \<not> dbOpen db then (False, db)
     else (True, db\<lparr>dbServers := dbServers db @ [\<lparr>srID = dbNextServer db, srNetwork = i, srAddress = scAddress sc,
         srPort = scPort sc, srTLS = scTLS sc, srOrder = scOrder sc\<rparr>], dbNextServer := Suc (dbNextServer db)\<rparr>))"

definition DeleteAllServers :: "nat \<Rightarrow> config_db \<Rightarrow> bool \<times> config_db" where
  "DeleteAllServers i db = (if \<not> dbOpen db then (False, db)
     else (True, db\<lparr>dbServers := filter (\<lambda>s. srNetwork s \<noteq> i) (dbServers db)\<rparr>))"

section \<open>Validation\<close>

definition ValidateServerAddress :: "string \<Rightarrow> int \<Rightarrow> string option" where
  "ValidateServerAddress address port =
     (if trim_space address = [] then Some ''server address is required''
      else if port \<le> 0 \<or> 65535 < port then Some ''port must be between 1 and 65535'' else None)"

definition ValidateChannelName :: "string \<Rightarrow> string option" where
  "ValidateChannelName raw = (let channel = trim_space raw in
     if channel = [] then Some ''channel name is required''
     else if hd channel \<notin> {CHR ''#'', CHR ''&'', CHR ''+'', CHR ''!''} then Some ''channel name must start with #, &, +, or !''
     else if 200 < length channel then Some ''channel name too long (max 200 characters)''
     else if contains_any channel [CHR '' '', CHR 0x00, CHR 0x07, CHR 0x0A, CHR 0x0D, CHR '','']
       then Some ''channel name contains invalid characters'' else None)"

primrec invalid_server :: "nat \<Rightarrow> server_config list \<Rightarrow> string option" where
  "invalid_server i [] = None"
| "invalid_server i (sc # scs) = (case ValidateServerAddress (scAddress sc) (scPort sc) of
     Some e \<Rightarrow> Some (''server '' @ nat_str i @ '': '' @ e) | None \<Rightarrow> invalid_server (Suc i) scs)"

definition ValidateNetworkConfig :: "network_config \<Rightarrow> server_config list \<Rightarrow> string option" where
  "ValidateNetworkConfig cfg servers =
     (if trim_space (ncName cfg) = [] then Some ''network name is required''
      else if trim_space (ncNickname cfg) = [] then Some ''nickname is required''
      else if trim_space (ncUsername cfg) = [] then Some ''username is required''
      else if trim_space (ncRealname cfg) = [] then Some ''realname is required''
      else if servers = [] then Some ''at least one server is required''
      else invalid_server 1 servers)"

section \<open>Saving a configuration\<close>

definition normalizeServers :: "network_config \<Rightarrow> server_config list" where
  "normalizeServers cfg =
     (if ncServers cfg \<noteq> [] then ncServers cfg
      else if ncAddress cfg \<noteq> [] then [\<lparr>scAddress = ncAddress cfg, scPort = ncPort cfg, scTLS = ncTLS cfg, scOrder = 0\<rparr>]
      else [])"

text \<open>One secret: an empty value preserves, a refused one goes to the column.\<close>

definition secure_one :: "'b backend \<Rightarrow> nat \<Rightarrow> string \<Rightarrow> string \<Rightarrow> string \<Rightarrow> 'b option \<Rightarrow> string \<times> 'b option" where
  "secure_one B i field val column cs =
     (if val = [] then (column, cs)
      else case Store B i field val cs of (used, cs) \<Rightarrow> (if used then [] else val, cs))"

definition secureNetworkSecrets :: "'b backend \<Rightarrow> network_row \<Rightarrow> string \<Rightarrow> string \<Rightarrow> config_db \<times> 'b option \<Rightarrow>
    (config_err + network_row) \<times> config_db \<times> 'b option" where
  "secureNetworkSecrets B n password saslPassword = (\<lambda>(db, cs).
     let (pw, cs) = secure_one B (nrID n) FieldPassword password (nrPassword n) cs;
         (spw, cs) = secure_one B (nrID n) FieldSASLPassword saslPassword (derefStr (nrSASLPassword n)) cs;
         n = n\<lparr>nrPassword := pw, nrSASLPassword := (if saslPassword = [] then nrSASLPassword n else stringPtr spw)\<rparr>;
         (ok, db) = UpdateNetwork n db
     in (if ok then Ok n else Err ErrDatabase, db, cs))"

definition new_row :: "network_config \<Rightarrow> server_config \<Rightarrow> bool \<Rightarrow> network_row" where
  "new_row cfg srv persist =
     \<lparr>nrID = 0, nrName = ncName cfg, nrAddress = scAddress srv, nrPort = scPort srv, nrTLS = scTLS srv,
      nrNickname = ncNickname cfg, nrUsername = ncUsername cfg, nrRealname = ncRealname cfg, nrPassword = [],
      nrSASLEnabled = ncSASLEnabled cfg, nrSASLMechanism = stringPtr (ncSASLMechanism cfg),
      nrSASLUsername = stringPtr (ncSASLUsername cfg), nrSASLPassword = None,
      nrSASLExternalCert = stringPtr (ncSASLExternalCert cfg), nrAutoConnect = persist \<and> ncAutoConnect cfg,
      nrIdentifyAsBot = persist \<and> ncIdentifyAsBot cfg, nrColor = None, nrSort = 0\<rparr>"

definition updated_row :: "network_config \<Rightarrow> bool \<Rightarrow> network_row \<Rightarrow> network_row" where
  "updated_row cfg persist n =
     n\<lparr>nrName := ncName cfg, nrNickname := ncNickname cfg, nrUsername := ncUsername cfg, nrRealname := ncRealname cfg,
       nrPassword := [], nrSASLEnabled := ncSASLEnabled cfg, nrSASLMechanism := stringPtr (ncSASLMechanism cfg),
       nrSASLUsername := stringPtr (ncSASLUsername cfg), nrSASLPassword := None,
       nrSASLExternalCert := stringPtr (ncSASLExternalCert cfg),
       nrAutoConnect := (if persist then ncAutoConnect cfg else nrAutoConnect n),
       nrIdentifyAsBot := (if persist then ncIdentifyAsBot cfg else nrIdentifyAsBot n)\<rparr>"

definition named_network :: "string \<Rightarrow> config_db \<Rightarrow> network_row option" where
  "named_network name db = (case GetNetworks db of Some ns \<Rightarrow> List.find (\<lambda>n. nrName n = name) ns | None \<Rightarrow> None)"

text \<open>The row with its id, and the secrets to keep: an empty field keeps what is stored.\<close>

definition upsert_network :: "'b backend \<Rightarrow> network_config \<Rightarrow> server_config list \<Rightarrow> bool \<Rightarrow> config_db \<Rightarrow> 'b option \<Rightarrow>
    (config_err + network_row \<times> string \<times> string) \<times> config_db" where
  "upsert_network B cfg servers persist db cs = (case named_network (ncName cfg) db of
     None \<Rightarrow> (case servers of [] \<Rightarrow> (Err ErrPanic, db) | srv # _ \<Rightarrow>
       (case CreateNetwork (new_row cfg srv persist) db of
          (None, db) \<Rightarrow> (Err ErrDatabase, db) | (Some n, db) \<Rightarrow> (Ok (n, ncPassword cfg, ncSASLPassword cfg), db)))
   | Some n \<Rightarrow>
       let password = (if ncPassword cfg = [] then Resolve B (nrID n) FieldPassword (nrPassword n) cs else ncPassword cfg);
           sasl = (if ncSASLPassword cfg = []
             then Resolve B (nrID n) FieldSASLPassword (derefStr (nrSASLPassword n)) cs else ncSASLPassword cfg);
           n = updated_row cfg persist n
       in (case UpdateNetwork n db of (ok, db) \<Rightarrow> (if ok then Ok (n, password, sasl) else Err ErrDatabase, db)))"

primrec create_servers :: "nat \<Rightarrow> server_config list \<Rightarrow> config_db \<Rightarrow> bool \<times> config_db" where
  "create_servers i [] db = (True, db)"
| "create_servers i (sc # scs) db = (case CreateServer i sc db of
     (True, db) \<Rightarrow> create_servers i scs db | (False, db) \<Rightarrow> (False, db))"

definition buildNetworkFromConfig :: "'b backend \<Rightarrow> network_config \<Rightarrow> server_config list \<Rightarrow> bool \<Rightarrow> config_db \<times> 'b option \<Rightarrow>
    (config_err + network_row) \<times> config_db \<times> 'b option" where
  "buildNetworkFromConfig B cfg servers persist = (\<lambda>(db, cs).
     case upsert_network B cfg servers persist db cs of
       (Err e, db) \<Rightarrow> (Err e, db, cs)
     | (Ok (n, password, sasl), db) \<Rightarrow>
         (case secureNetworkSecrets B n password sasl (db, cs) of
            (Err e, db, cs) \<Rightarrow> (Err e, db, cs)
          | (Ok n, db, cs) \<Rightarrow>
              (case DeleteAllServers (nrID n) db of
                 (False, db) \<Rightarrow> (Err ErrDatabase, db, cs)
               | (True, db) \<Rightarrow> (case create_servers (nrID n) servers db of
                   (ok, db) \<Rightarrow> (if ok then Ok n else Err ErrDatabase, db, cs)))))"

definition SaveNetwork :: "'b backend \<Rightarrow> network_config \<Rightarrow> config_db \<times> 'b option \<Rightarrow> config_err option \<times> config_db \<times> 'b option" where
  "SaveNetwork B cfg s =
     (if normalizeServers cfg = [] then (Some ErrNoServers, s)
      else case buildNetworkFromConfig B cfg (normalizeServers cfg) True s of
        (Err e, s) \<Rightarrow> (Some e, s) | (Ok n, s) \<Rightarrow> (None, s))"

section \<open>Secrets for a connection\<close>

definition hydrateNetworkSecrets :: "'b backend \<Rightarrow> 'b option \<Rightarrow> network_row \<Rightarrow> network_row" where
  "hydrateNetworkSecrets B cs n =
     (let v = Resolve B (nrID n) FieldSASLPassword (derefStr (nrSASLPassword n)) cs
      in n\<lparr>nrPassword := Resolve B (nrID n) FieldPassword (nrPassword n) cs,
           nrSASLPassword := (if v \<noteq> [] then stringPtr v else nrSASLPassword n)\<rparr>)"

definition migrateNetworkSecrets :: "'b backend \<Rightarrow> network_row \<Rightarrow> config_db \<times> 'b option \<Rightarrow> network_row \<times> config_db \<times> 'b option" where
  "migrateNetworkSecrets B n = (\<lambda>(db, cs).
     let (moved, cs) = Migrate B (nrID n) FieldPassword (nrPassword n) cs;
         pw = moved \<and> nrPassword n \<noteq> [];
         sp = derefStr (nrSASLPassword n);
         (moved, cs) = (if sp \<noteq> [] then Migrate B (nrID n) FieldSASLPassword sp cs else (False, cs));
         n = n\<lparr>nrPassword := (if pw then [] else nrPassword n), nrSASLPassword := (if moved then None else nrSASLPassword n)\<rparr>
     in (n, if pw \<or> moved then snd (UpdateNetwork n db) else db, cs))"

definition server_of_row :: "server_row \<Rightarrow> server_config" where
  "server_of_row s = \<lparr>scAddress = srAddress s, scPort = srPort s, scTLS = srTLS s, scOrder = srOrder s\<rparr>"

definition config_of_row :: "'b backend \<Rightarrow> 'b option \<Rightarrow> network_row \<Rightarrow> server_row list \<Rightarrow> network_config" where
  "config_of_row B cs n servers =
     \<lparr>ncName = nrName n, ncAddress = [], ncPort = 0, ncTLS = False, ncServers = map server_of_row servers,
      ncNickname = nrNickname n, ncUsername = nrUsername n, ncRealname = nrRealname n,
      ncPassword = Resolve B (nrID n) FieldPassword (nrPassword n) cs, ncSASLEnabled = nrSASLEnabled n,
      ncSASLMechanism = derefStr (nrSASLMechanism n), ncSASLUsername = derefStr (nrSASLUsername n),
      ncSASLPassword = Resolve B (nrID n) FieldSASLPassword (derefStr (nrSASLPassword n)) cs,
      ncSASLExternalCert = derefStr (nrSASLExternalCert n), ncAutoConnect = nrAutoConnect n, ncIdentifyAsBot = nrIdentifyAsBot n\<rparr>"

definition buildReconnectConfig :: "'b backend \<Rightarrow> network_row \<Rightarrow> config_db \<times> 'b option \<Rightarrow> network_config option" where
  "buildReconnectConfig B n = (\<lambda>(db, cs). case GetServers (nrID n) db of
     None \<Rightarrow> None | Some servers \<Rightarrow> if servers = [] then None else Some (config_of_row B cs n servers))"

section \<open>STS\<close>

definition GetSTSPolicy :: "string \<Rightarrow> int \<Rightarrow> config_db \<Rightarrow> int option" where
  "GetSTSPolicy host now db = (if \<not> dbOpen db then None
     else case dbPolicies db host of Some (port, expires) \<Rightarrow> if expires \<le> now then None else Some port | None \<Rightarrow> None)"

definition UpsertSTSPolicy :: "string \<Rightarrow> int \<Rightarrow> int \<Rightarrow> config_db \<Rightarrow> bool \<times> config_db" where
  "UpsertSTSPolicy host port expires db = (if \<not> dbOpen db then (False, db)
     else (True, db\<lparr>dbPolicies := (dbPolicies db)(host \<mapsto> (port, expires))\<rparr>))"

definition DeleteSTSPolicy :: "string \<Rightarrow> config_db \<Rightarrow> bool \<times> config_db" where
  "DeleteSTSPolicy host db = (if \<not> dbOpen db then (False, db) else (True, db\<lparr>dbPolicies := (dbPolicies db)(host := None)\<rparr>))"

type_synonym sts_upgrades = "nat \<rightharpoonup> string \<times> int"

definition applySTS :: "sts_upgrades \<Rightarrow> config_db \<Rightarrow> int \<Rightarrow> nat \<Rightarrow> network_row \<Rightarrow> bool \<times> network_row" where
  "applySTS upgrades db now networkID n =
     (if IsIPLiteral (nrAddress n) then (False, n)
      else let forced = (\<lambda>port. (True, n\<lparr>nrPort := port, nrTLS := True\<rparr>));
               stored = (case GetSTSPolicy (nrAddress n) now db of
                 Some port \<Rightarrow> if 0 < port then forced port else (False, n) | None \<Rightarrow> (False, n))
        in case upgrades networkID of
             Some (host, port) \<Rightarrow> if host = nrAddress n \<and> 0 < port then forced port else stored
           | None \<Rightarrow> stored)"

text \<open>The advertisement: host, secure, port, current port, duration; the sum of two int64 wraps. The result says whether to upgrade.\<close>

definition handleSTSPolicy :: "nat \<Rightarrow> string \<Rightarrow> bool \<Rightarrow> int \<Rightarrow> int \<Rightarrow> int \<Rightarrow> int \<Rightarrow> sts_upgrades \<times> config_db \<Rightarrow>
    bool \<times> sts_upgrades \<times> config_db" where
  "handleSTSPolicy networkID host secure port currentPort duration now = (\<lambda>(up, db).
     if host = [] then (False, up, db)
     else if \<not> secure then if port \<le> 0 then (False, up, db) else (True, up(networkID \<mapsto> (host, port)), db)
     else if duration \<le> 0 then (False, up(networkID := None), snd (DeleteSTSPolicy host db))
     else case UpsertSTSPolicy host (if port \<le> 0 then currentPort else port) (int64 (now + duration)) db of
       (False, db) \<Rightarrow> (False, up, db) | (True, db) \<Rightarrow> (False, up(networkID := None), db))"

section \<open>Small operations\<close>

definition ToggleNetworkAutoConnect :: "nat \<Rightarrow> config_db \<Rightarrow> config_err option \<times> config_db" where
  "ToggleNetworkAutoConnect i db = (case GetNetworks db of None \<Rightarrow> (Some ErrDatabase, db)
     | Some ns \<Rightarrow> (case List.find (\<lambda>n. nrID n = i) ns of None \<Rightarrow> (Some ErrNoNetwork, db)
         | Some n \<Rightarrow> (case UpdateNetworkAutoConnect i (\<not> nrAutoConnect n) db of
             (ok, db) \<Rightarrow> (if ok then None else Some ErrDatabase, db))))"

definition SetNetworkColor :: "nat \<Rightarrow> string \<Rightarrow> config_db \<Rightarrow> bool \<times> config_db" where
  "SetNetworkColor i color = UpdateNetworkColor i (stringPtr color)"

primrec reorder_from :: "int \<Rightarrow> nat list \<Rightarrow> config_db \<Rightarrow> bool \<times> config_db" where
  "reorder_from k [] db = (True, db)"
| "reorder_from k (i # ids) db = (case UpdateNetworkSortOrder i k db of
     (True, db) \<Rightarrow> reorder_from (k + 1) ids db | (False, db) \<Rightarrow> (False, db))"

definition ReorderNetworks :: "nat list \<Rightarrow> config_db \<Rightarrow> bool \<times> config_db" where
  "ReorderNetworks orderedIDs = reorder_from 1 orderedIDs"

definition uses_address :: "string \<Rightarrow> config_db \<Rightarrow> network_row \<Rightarrow> bool" where
  "uses_address address db n \<longleftrightarrow> nrAddress n = address
     \<or> (case GetServers (nrID n) db of Some ss \<Rightarrow> list_ex (\<lambda>s. srAddress s = address) ss | None \<Rightarrow> False)"

definition findNetworkIDByAddress :: "string \<Rightarrow> config_db \<Rightarrow> nat option" where
  "findNetworkIDByAddress address db = (case GetNetworks db of None \<Rightarrow> None
     | Some ns \<Rightarrow> map_option nrID (List.find (uses_address address db) ns))"

definition findNetworksByAddress :: "string \<Rightarrow> config_db \<Rightarrow> nat list" where
  "findNetworksByAddress host db = (case GetNetworks db of None \<Rightarrow> []
     | Some ns \<Rightarrow> map nrID (filter (uses_address host db) ns))"

text \<open>A value in event data: a number of any of Go's types (a float by its integral part), a string, a
  boolean, anything else as \<open>%v\<close> prints it. The network is an id, or else the server's address.\<close>

datatype event_value = IntValue int | TextValue string | BoolValue bool | OtherValue string

definition resolveNetworkID :: "(string \<rightharpoonup> event_value) \<Rightarrow> config_db \<Rightarrow> int option" where
  "resolveNetworkID data db = (case data ''networkId'' of Some (IntValue i) \<Rightarrow> Some i
     | _ \<Rightarrow> (case data ''network'' of Some (TextValue a) \<Rightarrow> map_option int (findNetworkIDByAddress a db) | _ \<Rightarrow> None))"

end
