(* ===== verification/Config_Props.thy ===== *)
theory Config_Props
  imports Network_Config
begin

text \<open>
  What saving a network gives back: the row found by its name, its servers in order, its secrets, and
  no secret in the row while the credential store works. The lemmas are about any backend that keeps
  the contract of \<open>SecretBackend\<close>; the properties are about the encrypted file.
\<close>

section \<open>Rows found by name\<close>

definition db_ok :: "config_db \<Rightarrow> bool" where
  "db_ok db \<longleftrightarrow> dbOpen db \<and> distinct (map nrID (dbNetworks db)) \<and> (\<forall>n \<in> set (dbNetworks db). nrID n < dbNextNetwork db)
     \<and> (\<forall>s \<in> set (dbServers db). srID s < dbNextServer db)"

definition ranked :: "network_row list \<Rightarrow> network_row list" where
  "ranked ns = sort_key nrSort (sort_key nrID ns)"

lemma set_ranked [simp]: "set (ranked ns) = set ns" by (simp add: ranked_def)

lemma named_ranked: "named_network name db = (if dbOpen db then List.find (\<lambda>n. nrName n = name) (ranked (dbNetworks db)) else None)"
  by (simp add: named_network_def GetNetworks_def ranked_def)

lemma ranked_map:
  assumes "\<And>m. nrID (g m) = nrID m" "\<And>m. nrSort (g m) = nrSort m"
  shows "ranked (map g ns) = map g (ranked ns)"
  by (simp add: ranked_def sort_key_map assms)

lemma distinct_ranked: "distinct (map nrID ns) \<Longrightarrow> distinct (map nrID (ranked ns))"
  by (simp add: ranked_def distinct_map)

lemma find_same_id:
  assumes "distinct (map nrID ns)" "List.find (\<lambda>n. nrName n = name) ns = Some n"
  shows "List.find (\<lambda>m. nrID m = nrID n \<or> nrName m = name) ns = Some n"
  using assms by (induction ns) (auto split: if_splits dest!: find_SomeD)

text \<open>Writing back a row under its own id and name.\<close>

lemma named_update:
  assumes "db_ok db" "named_network (nrName n) db = Some m" "nrID m = nrID n" "nrColor m = nrColor n" "nrSort m = nrSort n"
    and "UpdateNetwork n db = (ok, db')"
  shows "ok \<and> db_ok db' \<and> named_network (nrName n) db' = Some n \<and> dbServers db' = dbServers db \<and> dbNextServer db' = dbNextServer db"
proof -
  let ?g = "\<lambda>m. if nrID m = nrID n then n\<lparr>nrColor := nrColor m, nrSort := nrSort m\<rparr> else m"
  have o: "dbOpen db" "distinct (map nrID (ranked (dbNetworks db)))"
    using assms(1) distinct_ranked by (auto simp: db_ok_def)
  have f: "List.find (\<lambda>m. nrName m = nrName n) (ranked (dbNetworks db)) = Some m"
    using assms(2) o by (simp add: named_ranked)
  have P: "(\<lambda>m. nrName (?g m) = nrName n) = (\<lambda>k. nrID k = nrID m \<or> nrName k = nrName n)"
    using assms(3) by auto
  have db': "db' = db\<lparr>dbNetworks := map ?g (dbNetworks db)\<rparr>" "ok" using assms(6) o by (simp_all add: UpdateNetwork_def)
  have "ranked (map ?g (dbNetworks db)) = map ?g (ranked (dbNetworks db))" by (rule ranked_map) auto
  then have "List.find (\<lambda>m. nrName m = nrName n) (ranked (map ?g (dbNetworks db))) = Some (?g m)"
    unfolding find_map P find_same_id [OF o(2) f] by (simp add: find_map P find_same_id [OF o(2) f])
  moreover have "?g m = n" using assms(3-5) by simp
  ultimately have "named_network (nrName n) db' = Some n" using o by (simp add: named_ranked db')
  moreover have ids: "map nrID (dbNetworks db') = map nrID (dbNetworks db)" by (simp add: db')
  have "distinct (map nrID (dbNetworks db'))" unfolding ids using assms(1) by (simp add: db_ok_def)
  then have "db_ok db'" using assms(1) by (auto simp: db_ok_def db')
  ultimately show ?thesis using db' by simp
qed

lemma named_create:
  assumes "db_ok db" "named_network (nrName r) db = None" "CreateNetwork r db = (Some n, db')"
  shows "db_ok db' \<and> named_network (nrName r) db' = Some n \<and> dbServers db' = dbServers db \<and> dbNextServer db' = dbNextServer db
    \<and> n = r\<lparr>nrID := nrID n, nrColor := None, nrSort := 0\<rparr> \<and> (\<forall>m \<in> set (dbNetworks db). nrID m \<noteq> nrID n)"
proof -
  have o: "dbOpen db" using assms(1) by (simp add: db_ok_def)
  have n: "n = r\<lparr>nrID := dbNextNetwork db, nrColor := None, nrSort := 0\<rparr>"
    "db' = db\<lparr>dbNetworks := dbNetworks db @ [n], dbNextNetwork := Suc (dbNextNetwork db)\<rparr>"
    using assms(3) o by (auto simp: CreateNetwork_def Let_def)
  have none: "m \<in> set (dbNetworks db) \<Longrightarrow> nrName m \<noteq> nrName r" for m
    using assms(2) o find_NoneD [of "\<lambda>n. nrName n = nrName r" "ranked (dbNetworks db)" m] by (auto simp: named_ranked)
  have "List.find (\<lambda>n. nrName n = nrName r) xs = Some n" if "set xs = insert n (set (dbNetworks db))" for xs
  proof -
    have "List.find (\<lambda>n. nrName n = nrName r) xs \<noteq> None"
      using find_NoneD [of "\<lambda>n. nrName n = nrName r" xs n] that n by auto
    then obtain m where "List.find (\<lambda>n. nrName n = nrName r) xs = Some m" by blast
    with find_SomeD [OF this] none that show ?thesis by auto
  qed
  from this [of "ranked (dbNetworks db')"] have "named_network (nrName r) db' = Some n"
    using o n by (simp add: named_ranked)
  then show ?thesis using assms(1) n by (force simp: db_ok_def less_Suc_eq)
qed

section \<open>Servers\<close>

lemma create_servers_rows:
  "dbOpen db \<Longrightarrow> \<exists>rows. create_servers i scs db = (True, db\<lparr>dbServers := dbServers db @ rows, dbNextServer := dbNextServer db + length scs\<rparr>)
     \<and> map server_of_row rows = scs \<and> (\<forall>r \<in> set rows. srNetwork r = i)
     \<and> map srID rows = [dbNextServer db ..< dbNextServer db + length scs]"
proof (induction scs arbitrary: db)
  case (Cons sc scs)
  let ?r = "\<lparr>srID = dbNextServer db, srNetwork = i, srAddress = scAddress sc, srPort = scPort sc, srTLS = scTLS sc, srOrder = scOrder sc\<rparr>"
  let ?db = "db\<lparr>dbServers := dbServers db @ [?r], dbNextServer := Suc (dbNextServer db)\<rparr>"
  have "CreateServer i sc db = (True, ?db)" using Cons.prems by (simp add: CreateServer_def)
  moreover obtain rows where "create_servers i scs ?db
      = (True, ?db\<lparr>dbServers := dbServers ?db @ rows, dbNextServer := dbNextServer ?db + length scs\<rparr>)"
    "map server_of_row rows = scs" "\<forall>r \<in> set rows. srNetwork r = i"
    "map srID rows = [Suc (dbNextServer db) ..< Suc (dbNextServer db) + length scs]"
    using Cons.IH [of ?db] Cons.prems by auto
  moreover have "[dbNextServer db ..< dbNextServer db + length (sc # scs)]
      = dbNextServer db # [Suc (dbNextServer db) ..< Suc (dbNextServer db) + length scs]" by (subst upt_conv_Cons) simp_all
  moreover have "server_of_row ?r = sc" by (simp add: server_of_row_def)
  ultimately show ?case by (intro exI [of _ "?r # rows"]) simp
qed (simp add: exI [of _ "[]"])

lemma replaced_servers:
  assumes "db_ok db" "DeleteAllServers i db = (ok, db1)" "create_servers i scs db1 = (ok', db2)"
  shows "ok \<and> ok' \<and> db_ok db2 \<and> dbNetworks db2 = dbNetworks db
    \<and> (\<exists>rows. GetServers i db2 = Some rows \<and> map server_of_row rows = sort_key scOrder scs)"
proof -
  have o: "dbOpen db" using assms(1) by (simp add: db_ok_def)
  have d1: "ok" "db1 = db\<lparr>dbServers := filter (\<lambda>s. srNetwork s \<noteq> i) (dbServers db)\<rparr>"
    using assms(2) o by (auto simp: DeleteAllServers_def)
  obtain rows where r: "create_servers i scs db1 = (True, db1\<lparr>dbServers := dbServers db1 @ rows, dbNextServer := dbNextServer db1 + length scs\<rparr>)"
    "map server_of_row rows = scs" "\<forall>r \<in> set rows. srNetwork r = i" "map srID rows = [dbNextServer db1 ..< dbNextServer db1 + length scs]"
    using create_servers_rows [of db1 i scs] d1 o by auto
  have s: "sort_key srID rows = rows" using r(4) by (intro sort_key_sorted) simp
  have e: "ok'" "db2 = db1\<lparr>dbServers := dbServers db1 @ rows, dbNextServer := dbNextServer db1 + length scs\<rparr>"
    using r(1) assms(3) by auto
  have fl: "filter (\<lambda>s. srNetwork s = i) (dbServers db2) = rows"
    using r(3) unfolding e(2) d1(2) by (auto simp: filter_empty_conv)
  have ord: "srOrder = (\<lambda>x. scOrder (server_of_row x))" by (simp add: server_of_row_def)
  have "map server_of_row (sort_key srOrder rows) = sort_key scOrder scs"
    unfolding r(2) [symmetric] ord by (simp add: sort_key_map)
  moreover have "GetServers i db2 = Some (sort_key srOrder rows)"
    using fl s o e(2) d1 by (simp add: GetServers_def)
  moreover have "set (map srID rows) = {dbNextServer db ..< dbNextServer db + length scs}" using r(4) d1 by simp
  then have "\<forall>x \<in> set rows. srID x < dbNextServer db + length scs" by auto
  then have "db_ok db2" using e(2) assms(1) d1 by (auto simp: db_ok_def)
  ultimately show ?thesis using d1 e by auto
qed

section \<open>Secrets\<close>

text \<open>A store that, while it is good, takes every secret and can be read.\<close>

locale reliable_store = secret_store B for B :: "'b backend" +
  fixes good :: "'b \<Rightarrow> bool"
  assumes good_set: "good b \<Longrightarrow> \<exists>b'. bSet B k v b = (True, b') \<and> good b'"
begin

lemma store_good: "good b \<Longrightarrow> v \<noteq> [] \<Longrightarrow> \<exists>b'. Store B i f v (Some b) = (True, Some b') \<and> good b'"
  using good_set [of b "credKey i f" v] by (auto simp: Store_def)

lemma secure_one_good:
  assumes "good b" "secure_one B i f v col (Some b) = (col', cs')" "f \<noteq> g"
  shows "\<exists>b'. cs' = Some b' \<and> good b' \<and> col' = (if v = [] then col else [])
    \<and> Resolve B i f col' cs' = (if v = [] then Resolve B i f col (Some b) else v)
    \<and> (\<forall>c. Resolve B i g c cs' = Resolve B i g c (Some b))"
proof (cases "v = []")
  case False
  from store_good [OF assms(1) False] obtain b' where b': "Store B i f v (Some b) = (True, Some b')" "good b'" by blast
  then have "col' = []" "cs' = Some b'" using assms(2) False by (auto simp: secure_one_def)
  then show ?thesis using b' store_resolve [OF b'(1) False] store_other [OF b'(1), of i g] assms(3) False by auto
qed (use assms in \<open>auto simp: secure_one_def\<close>)

end

lemma field_names [simp]: "FieldPassword \<noteq> FieldSASLPassword" by (simp add: FieldPassword_def FieldSASLPassword_def)

lemma secure_named:
  assumes "db_ok db" "named_network (nrName n) db = Some m" "nrID m = nrID n" "nrColor m = nrColor n" "nrSort m = nrSort n"
    and "secure_one B (nrID n) FieldPassword pw (nrPassword n) cs = (col1, cs1)"
    and "secure_one B (nrID n) FieldSASLPassword spw (derefStr (nrSASLPassword n)) cs1 = (col2, cs2)"
  shows "\<exists>db'. secureNetworkSecrets B n pw spw (db, cs)
      = (Ok (n\<lparr>nrPassword := col1, nrSASLPassword := if spw = [] then nrSASLPassword n else stringPtr col2\<rparr>), db', cs2)
    \<and> named_network (nrName n) db' = Some (n\<lparr>nrPassword := col1, nrSASLPassword := if spw = [] then nrSASLPassword n else stringPtr col2\<rparr>)
    \<and> db_ok db'"
proof -
  let ?n = "n\<lparr>nrPassword := col1, nrSASLPassword := if spw = [] then nrSASLPassword n else stringPtr col2\<rparr>"
  obtain ok db' where u: "UpdateNetwork ?n db = (ok, db')" by fastforce
  have "ok \<and> db_ok db' \<and> named_network (nrName ?n) db' = Some ?n"
    using named_update [of db ?n m ok db'] assms(1-5) u by simp
  then show ?thesis using assms(6,7) u by (auto simp: secureNetworkSecrets_def Let_def)
qed

text \<open>The first half: the row, with blank columns, is there under its name.\<close>

definition old_column :: "string \<Rightarrow> config_db \<Rightarrow> string \<times> string" where
  "old_column name db = (case named_network name db of Some m \<Rightarrow> (nrPassword m, derefStr (nrSASLPassword m)) | None \<Rightarrow> ([], []))"

definition matches :: "network_config \<Rightarrow> network_row \<Rightarrow> bool" where
  "matches cfg n \<longleftrightarrow> nrName n = ncName cfg \<and> nrNickname n = ncNickname cfg \<and> nrUsername n = ncUsername cfg
     \<and> nrRealname n = ncRealname cfg \<and> nrSASLEnabled n = ncSASLEnabled cfg \<and> derefStr (nrSASLMechanism n) = ncSASLMechanism cfg
     \<and> derefStr (nrSASLUsername n) = ncSASLUsername cfg \<and> derefStr (nrSASLExternalCert n) = ncSASLExternalCert cfg"

lemma deref_ptr [simp]: "derefStr (stringPtr s) = s" "derefStr None = []"
  by (simp_all add: derefStr_def stringPtr_def)

lemma upserted:
  assumes "db_ok db" "servers \<noteq> []"
  shows "\<exists>n pw spw db'. upsert_network B cfg servers persist db cs = (Ok (n, pw, spw), db') \<and> db_ok db'
    \<and> named_network (nrName n) db' = Some n \<and> matches cfg n \<and> nrPassword n = [] \<and> nrSASLPassword n = None
    \<and> (case named_network (ncName cfg) db of
         Some m \<Rightarrow> nrID n = nrID m \<and> nrAddress n = nrAddress m
           \<and> pw = (if ncPassword cfg = [] then Resolve B (nrID m) FieldPassword (nrPassword m) cs else ncPassword cfg)
           \<and> spw = (if ncSASLPassword cfg = [] then Resolve B (nrID m) FieldSASLPassword (derefStr (nrSASLPassword m)) cs else ncSASLPassword cfg)
           \<and> nrAutoConnect n = (if persist then ncAutoConnect cfg else nrAutoConnect m)
           \<and> nrIdentifyAsBot n = (if persist then ncIdentifyAsBot cfg else nrIdentifyAsBot m)
       | None \<Rightarrow> pw = ncPassword cfg \<and> spw = ncSASLPassword cfg
           \<and> nrAutoConnect n = (persist \<and> ncAutoConnect cfg) \<and> nrIdentifyAsBot n = (persist \<and> ncIdentifyAsBot cfg))"
proof (cases "named_network (ncName cfg) db")
  case None
  obtain srv rest where s: "servers = srv # rest" using assms(2) by (cases servers) auto
  obtain n db' where c: "CreateNetwork (new_row cfg srv persist) db = (Some n, db')"
    using assms(1) by (auto simp: CreateNetwork_def db_ok_def Let_def)
  have nm: "nrName (new_row cfg srv persist) = ncName cfg" by (simp add: new_row_def)
  from named_create [OF assms(1) _ c, unfolded nm, OF None]
  have "db_ok db'" "named_network (ncName cfg) db' = Some n" "n = (new_row cfg srv persist)\<lparr>nrID := nrID n, nrColor := None, nrSort := 0\<rparr>"
    by auto
  moreover from this(3) obtain i where n: "n = (new_row cfg srv persist)\<lparr>nrID := i, nrColor := None, nrSort := 0\<rparr>" by blast
  have "matches cfg n" "nrName n = ncName cfg" "nrPassword n = []" "nrSASLPassword n = None"
    "nrAutoConnect n = (persist \<and> ncAutoConnect cfg)" "nrIdentifyAsBot n = (persist \<and> ncIdentifyAsBot cfg)"
    unfolding n by (simp_all add: matches_def new_row_def)
  ultimately show ?thesis using None s c by (simp add: upsert_network_def)
next
  case (Some m)
  have nm: "nrName m = ncName cfg" using Some by (auto simp: named_network_def dest: find_SomeD split: option.splits)
  let ?n = "updated_row cfg persist m"
  obtain ok db' where u: "UpdateNetwork ?n db = (ok, db')" by fastforce
  have "ok \<and> db_ok db' \<and> named_network (nrName ?n) db' = Some ?n"
    using named_update [of db ?n m ok db'] assms(1) Some u nm by (simp add: updated_row_def)
  moreover have "matches cfg ?n" "nrPassword ?n = []" "nrSASLPassword ?n = None" "nrID ?n = nrID m" "nrAddress ?n = nrAddress m"
    "nrAutoConnect ?n = (if persist then ncAutoConnect cfg else nrAutoConnect m)"
    "nrIdentifyAsBot ?n = (if persist then ncIdentifyAsBot cfg else nrIdentifyAsBot m)"
    by (simp_all add: matches_def updated_row_def)
  ultimately show ?thesis using Some u by (simp add: upsert_network_def Let_def)
qed

text \<open>The secret a save leaves: the given one, or with an empty field the one that was stored.\<close>

definition kept_secret :: "'b backend \<Rightarrow> 'b option \<Rightarrow> nat \<Rightarrow> string \<Rightarrow> string \<Rightarrow> string \<Rightarrow> string" where
  "kept_secret B cs i field given column = (if given \<noteq> [] then given else Resolve B i field column cs)"

lemma Resolve_blank: "Resolve B i f c cs = [] \<Longrightarrow> Resolve B i f [] cs = []"
  by (auto simp: Resolve_def split: option.splits if_splits)

definition preferences :: "bool \<Rightarrow> network_config \<Rightarrow> config_db \<Rightarrow> bool \<times> bool" where
  "preferences persist cfg db = (if persist then (ncAutoConnect cfg, ncIdentifyAsBot cfg)
     else case named_network (ncName cfg) db of Some m \<Rightarrow> (nrAutoConnect m, nrIdentifyAsBot m) | None \<Rightarrow> (False, False))"

definition built_ok :: "'b backend \<Rightarrow> network_config \<Rightarrow> server_config list \<Rightarrow> bool \<Rightarrow> config_db \<Rightarrow> 'b option \<Rightarrow> network_row \<Rightarrow> config_db \<Rightarrow> 'b option \<Rightarrow> bool" where
  "built_ok B cfg servers persist db cs n db' cs' \<longleftrightarrow> db_ok db' \<and> named_network (ncName cfg) db' = Some n \<and> matches cfg n
     \<and> nrPassword n = [] \<and> nrSASLPassword n = None \<and> (nrAutoConnect n, nrIdentifyAsBot n) = preferences persist cfg db
     \<and> (\<forall>m. named_network (ncName cfg) db = Some m \<longrightarrow> nrID n = nrID m \<and> nrAddress n = nrAddress m)
     \<and> Resolve B (nrID n) FieldPassword [] cs' = kept_secret B cs (nrID n) FieldPassword (ncPassword cfg) (fst (old_column (ncName cfg) db))
     \<and> Resolve B (nrID n) FieldSASLPassword [] cs'
         = kept_secret B cs (nrID n) FieldSASLPassword (ncSASLPassword cfg) (snd (old_column (ncName cfg) db))
     \<and> (\<exists>rows. GetServers (nrID n) db' = Some rows \<and> map server_of_row rows = sort_key scOrder servers)"

lemma named_same: "dbNetworks db' = dbNetworks db \<Longrightarrow> dbOpen db' = dbOpen db \<Longrightarrow> named_network name db' = named_network name db"
  by (simp add: named_ranked)

context reliable_store begin

lemma built:
  assumes "db_ok db" "servers \<noteq> []" "good b"
  shows "\<exists>n db' b'. buildNetworkFromConfig B cfg servers persist (db, Some b) = (Ok n, db', Some b') \<and> good b'
    \<and> built_ok B cfg servers persist db (Some b) n db' (Some b')"
proof -
  obtain n pw spw db1 where up: "upsert_network B cfg servers persist db (Some b) = (Ok (n, pw, spw), db1)" "db_ok db1"
      "named_network (nrName n) db1 = Some n" "matches cfg n" "nrPassword n = []" "nrSASLPassword n = None"
    and old: "case named_network (ncName cfg) db of
         Some m \<Rightarrow> nrID n = nrID m \<and> nrAddress n = nrAddress m
           \<and> pw = (if ncPassword cfg = [] then Resolve B (nrID m) FieldPassword (nrPassword m) (Some b) else ncPassword cfg)
           \<and> spw = (if ncSASLPassword cfg = [] then Resolve B (nrID m) FieldSASLPassword (derefStr (nrSASLPassword m)) (Some b) else ncSASLPassword cfg)
           \<and> nrAutoConnect n = (if persist then ncAutoConnect cfg else nrAutoConnect m)
           \<and> nrIdentifyAsBot n = (if persist then ncIdentifyAsBot cfg else nrIdentifyAsBot m)
       | None \<Rightarrow> pw = ncPassword cfg \<and> spw = ncSASLPassword cfg
           \<and> nrAutoConnect n = (persist \<and> ncAutoConnect cfg) \<and> nrIdentifyAsBot n = (persist \<and> ncIdentifyAsBot cfg)"
    using upserted [OF assms(1,2), of B cfg persist "Some b"] by blast
  obtain col1 cs1 where s1: "secure_one B (nrID n) FieldPassword pw [] (Some b) = (col1, cs1)" by fastforce
  from secure_one_good [OF assms(3) s1 field_names] obtain b1 where b1: "cs1 = Some b1" "good b1" "col1 = []"
      "Resolve B (nrID n) FieldPassword [] cs1 = (if pw = [] then Resolve B (nrID n) FieldPassword [] (Some b) else pw)"
      "\<forall>c. Resolve B (nrID n) FieldSASLPassword c cs1 = Resolve B (nrID n) FieldSASLPassword c (Some b)"
    by (auto split: if_splits)
  obtain col2 cs2 where s2: "secure_one B (nrID n) FieldSASLPassword spw [] (Some b1) = (col2, cs2)" by fastforce
  from secure_one_good [OF b1(2) s2 field_names [symmetric]] obtain b2 where b2: "cs2 = Some b2" "good b2" "col2 = []"
      "Resolve B (nrID n) FieldSASLPassword [] cs2 = (if spw = [] then Resolve B (nrID n) FieldSASLPassword [] (Some b1) else spw)"
      "\<forall>c. Resolve B (nrID n) FieldPassword c cs2 = Resolve B (nrID n) FieldPassword c (Some b1)"
    by (auto split: if_splits)
  have "n\<lparr>nrPassword := [], nrSASLPassword := None\<rparr> = n" using up(5,6) by simp
  moreover have "stringPtr [] = None" by (simp add: stringPtr_def)
  ultimately obtain db2 where sec: "secureNetworkSecrets B n pw spw (db1, Some b) = (Ok n, db2, Some b2)"
      "named_network (nrName n) db2 = Some n" "db_ok db2"
    using secure_named [OF up(2,3) refl refl refl, of B pw "Some b" col1 cs1 spw col2 cs2] s1 s2 b1 b2 up(5,6)
    by (auto simp: if_distrib)
  obtain ok db3 where d: "DeleteAllServers (nrID n) db2 = (ok, db3)" by fastforce
  obtain ok' db4 where c: "create_servers (nrID n) servers db3 = (ok', db4)" by fastforce
  from replaced_servers [OF sec(3) d c] have r: "ok" "ok'" "db_ok db4" "dbNetworks db4 = dbNetworks db2"
    "\<exists>rows. GetServers (nrID n) db4 = Some rows \<and> map server_of_row rows = sort_key scOrder servers" by auto
  have run: "buildNetworkFromConfig B cfg servers persist (db, Some b) = (Ok n, db4, Some b2)"
    using up(1) sec(1) d c r(1,2) by (simp add: buildNetworkFromConfig_def)
  have nm: "nrName n = ncName cfg" using up(4) by (simp add: matches_def)
  have "named_network (nrName n) db4 = Some n"
    using named_same [OF r(4)] sec(2,3) r(3) by (simp add: db_ok_def)
  moreover have "Resolve B (nrID n) FieldPassword [] (Some b2)
      = kept_secret B (Some b) (nrID n) FieldPassword (ncPassword cfg) (fst (old_column (ncName cfg) db))"
    using old b2(1,5) b1(1,4)
    by (cases "named_network (ncName cfg) db") (auto simp: old_column_def kept_secret_def dest: Resolve_blank split: if_splits)
  moreover have "Resolve B (nrID n) FieldSASLPassword [] (Some b2)
      = kept_secret B (Some b) (nrID n) FieldSASLPassword (ncSASLPassword cfg) (snd (old_column (ncName cfg) db))"
    using old b2(1,4) b1(1,5)
    by (cases "named_network (ncName cfg) db") (auto simp: old_column_def kept_secret_def dest: Resolve_blank split: if_splits)
  moreover have "(nrAutoConnect n, nrIdentifyAsBot n) = preferences persist cfg db"
    "\<forall>m. named_network (ncName cfg) db = Some m \<longrightarrow> nrID n = nrID m \<and> nrAddress n = nrAddress m"
    using old by (auto simp: preferences_def split: option.splits)
  ultimately show ?thesis using run b2(2) r(3,5) up(4,5,6) nm by (auto simp: built_ok_def)
qed

end

section \<open>The encrypted file\<close>

definition healthy :: "file_backend \<Rightarrow> bool" where
  "healthy f \<longleftrightarrow> fbWritable f \<and> file_load f \<noteq> None"

interpretation fr: reliable_store FileBackend healthy
  by unfold_locales
    (auto simp: FileBackend_def FileSet_def file_save_def file_load_def healthy_def split: option.splits if_splits secrets_file.splits)

definition saved_config :: "network_config \<Rightarrow> config_db \<times> file_backend option \<Rightarrow> nat \<Rightarrow> network_config" where
  "saved_config cfg = (\<lambda>(db, cs) i. cfg\<lparr>ncAddress := [], ncPort := 0, ncTLS := False,
     ncServers := sort_key scOrder (normalizeServers cfg),
     ncPassword := kept_secret FileBackend cs i FieldPassword (ncPassword cfg) (fst (old_column (ncName cfg) db)),
     ncSASLPassword := kept_secret FileBackend cs i FieldSASLPassword (ncSASLPassword cfg) (snd (old_column (ncName cfg) db))\<rparr>)"


definition demo_config :: network_config where
  "demo_config = \<lparr>ncName = ''Libera'', ncAddress = [], ncPort = 0, ncTLS = False,
     ncServers = [\<lparr>scAddress = ''irc.libera.chat'', scPort = 6697, scTLS = True, scOrder = 0\<rparr>], ncNickname = ''me'', ncUsername = ''me'',
     ncRealname = ''Me'', ncPassword = ''new'', ncSASLEnabled = False, ncSASLMechanism = [], ncSASLUsername = [],
     ncSASLPassword = [], ncSASLExternalCert = [], ncAutoConnect = True, ncIdentifyAsBot = False\<rparr>"

definition demo_saved :: network_row where
  "demo_saved = (new_row demo_config \<lparr>scAddress = ''irc.old.net'', scPort = 6697, scTLS = True, scOrder = 0\<rparr> True)\<lparr>nrID := 1\<rparr>"

definition demo_db :: config_db where
  "demo_db = \<lparr>dbOpen = True, dbNetworks = [demo_saved], dbServers = [], dbNextNetwork = 2, dbNextServer = 1, dbPolicies = Map.empty\<rparr>"

definition demo_secrets :: "bool \<Rightarrow> file_backend" where
  "demo_secrets writable = \<lparr>fbKey = ''k'', fbFile = Sealed ''k'' [credKey 1 FieldPassword \<mapsto> ''old''], fbReadable = True, fbWritable = writable\<rparr>"

lemma demo_db_ok: "db_ok demo_db" by (simp add: demo_db_def db_ok_def demo_saved_def)

lemma demo_facts: "nrID demo_saved = 1" "nrAddress demo_saved = ''irc.old.net''" "ncName demo_config = ''Libera''"
  "ncPassword demo_config = ''new''" "normalizeServers demo_config \<noteq> []" "healthy (demo_secrets True)"
  "FileGet (credKey 1 FieldPassword) (demo_secrets False) = Some ''old''" "\<not> fbWritable (demo_secrets False)"
  by (simp_all add: demo_saved_def new_row_def demo_config_def normalizeServers_def healthy_def demo_secrets_def FileGet_def
    file_load_def)

lemma demo_named: "named_network (ncName demo_config) demo_db = Some demo_saved"
  by (simp add: demo_db_def named_network_def GetNetworks_def demo_saved_def new_row_def)


section \<open>What a save can lose\<close>

text \<open>
  A password saved while the credential file cannot be written is silently lost: the save reports
  success and puts the new password into the row, but the old one in the file still wins whenever the
  secret is resolved, and the next connection's migration takes the row's copy for already moved and
  blanks it.
\<close>

theorem fallback_password_lost:
  assumes "db_ok db" "named_network (ncName cfg) db = Some m" "FileGet (credKey (nrID m) FieldPassword) b = Some old" "old \<noteq> []"
    and "\<not> fbWritable b" "ncPassword cfg \<noteq> []" "normalizeServers cfg \<noteq> []"
  shows "\<exists>n db'. SaveNetwork FileBackend cfg (db, Some b) = (None, db', Some b) \<and> nrID n = nrID m
    \<and> named_network (ncName cfg) db' = Some n \<and> nrPassword n = ncPassword cfg
    \<and> Resolve FileBackend (nrID n) FieldPassword (nrPassword n) (Some b) = old
    \<and> nrPassword (fst (migrateNetworkSecrets FileBackend n (db', Some b))) = []"
proof -
  have st: "v \<noteq> [] \<Longrightarrow> Store FileBackend i f v (Some b) = (False, Some b)" for i f v
    using assms(3,5) by (auto simp: Store_def FileBackend_def FileSet_def FileGet_def file_save_def split: option.splits)
  then have s1: "v \<noteq> [] \<Longrightarrow> secure_one FileBackend i f v col (Some b) = (v, Some b)" for i f v col
    by (simp add: secure_one_def)
  have s2: "snd (secure_one FileBackend i f v col (Some b)) = Some b" for i f v col
    using s1 [of v] by (cases "v = []") (auto simp: secure_one_def)
  obtain n spw db1 where up: "upsert_network FileBackend cfg (normalizeServers cfg) True db (Some b) = (Ok (n, ncPassword cfg, spw), db1)"
      "db_ok db1" "named_network (nrName n) db1 = Some n" "matches cfg n" "nrID n = nrID m"
    using upserted [OF assms(1,7), of FileBackend cfg True "Some b"] assms(2,6) by auto
  obtain col2 where c2: "secure_one FileBackend (nrID n) FieldSASLPassword spw (derefStr (nrSASLPassword n)) (Some b) = (col2, Some b)"
    using s2 by (metis prod.collapse)
  let ?n = "n\<lparr>nrPassword := ncPassword cfg, nrSASLPassword := if spw = [] then nrSASLPassword n else stringPtr col2\<rparr>"
  obtain db2 where sec: "secureNetworkSecrets FileBackend n (ncPassword cfg) spw (db1, Some b) = (Ok ?n, db2, Some b)"
      "named_network (nrName n) db2 = Some ?n" "db_ok db2"
    using secure_named [OF up(2,3) refl refl refl s1 [OF assms(6)] c2] by blast
  obtain ok db3 where d: "DeleteAllServers (nrID n) db2 = (ok, db3)" by fastforce
  obtain ok' db4 where c: "create_servers (nrID n) (normalizeServers cfg) db3 = (ok', db4)" by fastforce
  from replaced_servers [OF sec(3) d c] have r: "ok" "ok'" "db_ok db4" "dbNetworks db4 = dbNetworks db2" by auto
  have "SaveNetwork FileBackend cfg (db, Some b) = (None, db4, Some b)"
    using up(1) sec(1) d c r(1,2) assms(7) by (simp add: SaveNetwork_def buildNetworkFromConfig_def)
  moreover have "named_network (ncName cfg) db4 = Some ?n"
    using named_same [OF r(4)] sec(2,3) r(3) up(4) by (simp add: db_ok_def matches_def)
  moreover have "Resolve FileBackend (nrID m) FieldPassword c (Some b) = old" for c
    using assms(3,4) by (simp add: Resolve_def FileBackend_def)
  moreover have "nrPassword (fst (migrateNetworkSecrets FileBackend ?n (db4, Some b))) = []"
    using assms(3,4,6) up(5) by (simp add: migrateNetworkSecrets_def Migrate_def in_backend_def FileBackend_def Let_def split: prod.split)
  ultimately show ?thesis using up(5) by (intro exI [of _ ?n] exI [of _ db4]) simp
qed

theorem fallback_password_lost_witness:
  "\<exists>(n :: network_row) db'. SaveNetwork FileBackend demo_config (demo_db, Some (demo_secrets False)) = (None, db', Some (demo_secrets False))
     \<and> nrPassword n = ''new'' \<and> Resolve FileBackend 1 FieldPassword (nrPassword n) (Some (demo_secrets False)) = ''old''"
proof -
  have o: "''old'' \<noteq> []" and w: "''new'' \<noteq> []" by simp_all
  from fallback_password_lost [of demo_db demo_config demo_saved "demo_secrets False" "''old''", unfolded demo_facts(1,4),
      OF demo_db_ok demo_named demo_facts(7) o demo_facts(8) w demo_facts(5)]
  show ?thesis by metis
qed

text \<open>
  An edited network keeps the address it was created with: after its servers have been replaced,
  none of them at the first address any more, a link to that address still finds the network.
\<close>

theorem stale_address_matches:
  assumes "db_ok db" "healthy b" "named_network (ncName cfg) db = Some m" "normalizeServers cfg \<noteq> []"
    and "nrAddress m \<notin> scAddress ` set (normalizeServers cfg)"
  shows "\<exists>db' cs'. SaveNetwork FileBackend cfg (db, Some b) = (None, db', cs') \<and> nrID m \<in> set (findNetworksByAddress (nrAddress m) db')
    \<and> (\<exists>rows. GetServers (nrID m) db' = Some rows \<and> nrAddress m \<notin> srAddress ` set rows)"
proof -
  obtain n db' b' where run: "buildNetworkFromConfig FileBackend cfg (normalizeServers cfg) True (db, Some b) = (Ok n, db', Some b')"
    and ok: "built_ok FileBackend cfg (normalizeServers cfg) True db (Some b) n db' (Some b')"
    using fr.built [OF assms(1,4,2)] by blast
  obtain rows where rows: "GetServers (nrID n) db' = Some rows" "map server_of_row rows = sort_key scOrder (normalizeServers cfg)"
    using ok by (auto simp: built_ok_def)
  have "set (map server_of_row rows) = set (normalizeServers cfg)" unfolding rows(2) by simp
  then have "srAddress ` set rows = scAddress ` set (normalizeServers cfg)"
    by (auto simp: server_of_row_def image_iff) (metis (no_types, lifting) imageE image_eqI server_config.select_convs(1))+
  moreover have n: "nrID n = nrID m" "nrAddress n = nrAddress m" using ok assms(3) by (auto simp: built_ok_def)
  moreover have "n \<in> set (dbNetworks db')" "dbOpen db'"
    using ok by (auto simp: built_ok_def named_ranked db_ok_def dest: find_SomeD split: if_splits)
  then have "nrID n \<in> set (findNetworksByAddress (nrAddress n) db')"
    by (auto simp: findNetworksByAddress_def GetNetworks_def uses_address_def)
  ultimately show ?thesis using run rows assms(4,5) by (auto simp: SaveNetwork_def)
qed

theorem stale_address_matches_witness:
  "\<exists>db' cs'. SaveNetwork FileBackend demo_config (demo_db, Some (demo_secrets True)) = (None, db', cs')
     \<and> 1 \<in> set (findNetworksByAddress ''irc.old.net'' db')"
proof -
  have "nrAddress demo_saved \<notin> scAddress ` set (normalizeServers demo_config)"
    by (simp add: demo_facts(2)) (simp add: normalizeServers_def demo_config_def)
  from stale_address_matches [OF demo_db_ok demo_facts(6) demo_named demo_facts(5) this] show ?thesis
    unfolding demo_facts(1,2) by blast
qed

end
