(* ===== verification/Connection_Manager.thy ===== *)
theory Connection_Manager
  imports Config_Props
begin

text \<open>
  The connections of the application (\<open>app_connection.go\<close>): connecting with its duplicate guard and
  server fallback, disconnecting, deleting, the reaction to a lost connection, reconnecting with
  backoff, the STS upgrade, startup and wake. Every goroutine is a process; between two regions
  of the mutex \<open>a.mu\<close>, or two calls that block, it can be interrupted, and one of its steps runs it to
  the next such point. Sleeps and the waiting inside \<open>Disconnect\<close> are such points too. The client of
  \<open>internal/irc\<close> is reduced to what this file asks of it, a status line to its fixed words, and what is
  only shown or logged is left out.
\<close>

section \<open>State\<close>

text \<open>A client: whether its \<open>Connect\<close> runs, its link is up, it is connected, retired, refused.\<close>

record handle =
  hNetwork :: nat
  hDialing :: bool
  hLink :: bool
  hConnected :: bool
  hAbandoned :: bool
  hAuthFailed :: bool

text \<open>Where a running \<open>connectNetwork\<close> is; the row is the network, the list the servers still to try.\<close>

datatype connect_pc =
    CnBegin
  | CnGuard network_row "server_row list"
  | CnStale network_row "server_row list" nat
  | CnCleanup network_row "server_row list"
  | CnTry network_row "server_row list"
  | CnDialing network_row "server_row list" nat
  | CnWon network_row nat
  | CnDuplicate nat

text \<open>Who called it: the user, the given attempt of a reconnect loop (with the next delay), an upgrade.\<close>

datatype caller = ByUser | ByBackoff nat nat nat | ByUpgrade nat

text \<open>\<open>DisconnectNetwork\<close> on its own, or inside an upgrade that then connects.\<close>

datatype process =
    Connecting caller network_config bool connect_pc
  | Backoff nat nat nat
  | LostFlags nat
  | LostMark nat
  | LostDecide nat
  | DiscFlag nat "network_config option"
  | DiscStop nat nat "network_config option"
  | DiscForget nat nat "network_config option"
  | DelFlag nat
  | DelStop nat nat
  | DelRow nat
  | UpgradeStart nat
  | UpgradeConfig nat
  | Finished

record dial =
  dlHost :: string
  dlPort :: int
  dlTLS :: bool

record conn =
  cnDB :: config_db
  cnSecrets :: "file_backend option"
  cnClients :: "nat \<rightharpoonup> nat"
  cnConnecting :: "nat \<Rightarrow> bool"
  cnReconnecting :: "nat \<Rightarrow> bool"
  cnIntentional :: "nat \<Rightarrow> bool"
  cnUpgrading :: "nat \<Rightarrow> bool"
  cnUpgrades :: sts_upgrades
  cnHandles :: "handle list"
  cnProcs :: "process list"
  cnDials :: "dial list"
  cnNow :: int
  cnRetryAuth :: string
  cnStatus :: "(nat \<times> string) list"

definition writeNetworkStatus :: "nat \<Rightarrow> string \<Rightarrow> conn \<Rightarrow> conn" where
  "writeNetworkStatus i text s = s\<lparr>cnStatus := cnStatus s @ [(i, text)]\<rparr>"

definition spawn :: "process \<Rightarrow> conn \<Rightarrow> conn" where
  "spawn p s = s\<lparr>cnProcs := cnProcs s @ [p]\<rparr>"

definition set_handle :: "nat \<Rightarrow> (handle \<Rightarrow> handle) \<Rightarrow> conn \<Rightarrow> conn" where
  "set_handle h f s = (if h < length (cnHandles s) then s\<lparr>cnHandles := (cnHandles s)[h := f (cnHandles s ! h)]\<rparr> else s)"

definition is_connected :: "conn \<Rightarrow> nat \<Rightarrow> bool" where
  "is_connected s h \<longleftrightarrow> h < length (cnHandles s) \<and> hConnected (cnHandles s ! h)"

definition slot_connected :: "conn \<Rightarrow> nat \<Rightarrow> bool" where
  "slot_connected s i \<longleftrightarrow> (case cnClients s i of Some h \<Rightarrow> is_connected s h | None \<Rightarrow> False)"

text \<open>\<open>IRCClient.Disconnect\<close> and \<open>StopReconnect\<close> retire the client; its link ends later.\<close>

definition retire :: "nat \<Rightarrow> conn \<Rightarrow> conn" where
  "retire h = set_handle h (\<lambda>c. c\<lparr>hConnected := False, hAbandoned := True\<rparr>)"

definition GetConnectionStatus :: "nat \<Rightarrow> conn \<Rightarrow> bool" where
  "GetConnectionStatus i s = slot_connected s i"

section \<open>Connecting\<close>

datatype answer = Fine | Failed | TimedOut

text \<open>What the caller does when \<open>connectNetwork\<close> returns.\<close>

definition returned :: "caller \<Rightarrow> bool \<Rightarrow> conn \<Rightarrow> process \<times> conn" where
  "returned who ok s = (case who of
     ByUser \<Rightarrow> (Finished, s)
   | ByBackoff i attempt delay \<Rightarrow>
       if ok then (Finished, (writeNetworkStatus i (''Reconnected successfully after '' @ nat_str attempt @ '' attempt(s)'') s)
           \<lparr>cnReconnecting := (cnReconnecting s)(i := False)\<rparr>)
       else (Backoff i (Suc attempt) delay, writeNetworkStatus i (''Reconnect attempt '' @ nat_str attempt @ '' failed'') s)
   | ByUpgrade i \<Rightarrow>
       (Finished, (if ok then s else writeNetworkStatus i ''STS upgrade to TLS failed'' s)
           \<lparr>cnUpgrading := (cnUpgrading s)(i := False)\<rparr>))"

definition row_of_server :: "server_config \<Rightarrow> server_row" where
  "row_of_server sc = \<lparr>srID = 0, srNetwork = 0, srAddress = scAddress sc, srPort = scPort sc, srTLS = scTLS sc, srOrder = scOrder sc\<rparr>"

text \<open>Up to the mutex: validation, the existence check of a reconnect, the row and the servers.\<close>

definition connect_begin :: "network_config \<Rightarrow> bool \<Rightarrow> conn \<Rightarrow> (network_row \<times> server_row list) option \<times> conn" where
  "connect_begin cfg reconnect s =
     (let servers = normalizeServers cfg in
      if ValidateNetworkConfig cfg servers \<noteq> None then (None, s)
      else if reconnect \<and> named_network (ncName cfg) (cnDB s) = None then (None, s)
      else case buildNetworkFromConfig FileBackend cfg servers False (cnDB s, cnSecrets s) of
        (Err e, db, cs) \<Rightarrow> (None, s\<lparr>cnDB := db, cnSecrets := cs\<rparr>)
      | (Ok n, db, cs) \<Rightarrow>
          (Some (n, case GetServers (nrID n) db of
               Some (r # rs) \<Rightarrow> r # rs | _ \<Rightarrow> map row_of_server servers), s\<lparr>cnDB := db, cnSecrets := cs\<rparr>))"

text \<open>One server: its address on a copy of the row with the secrets, STS applied, a new client.\<close>

definition server_network :: "conn \<Rightarrow> network_row \<Rightarrow> server_row \<Rightarrow> bool \<times> network_row" where
  "server_network s n srv = applySTS (cnUpgrades s) (cnDB s) (cnNow s) (nrID n)
     (hydrateNetworkSecrets FileBackend (cnSecrets s) (n\<lparr>nrAddress := srAddress srv, nrPort := srPort srv, nrTLS := srTLS srv\<rparr>))"

definition dial_server :: "network_row \<Rightarrow> server_row \<Rightarrow> conn \<Rightarrow> nat \<times> conn" where
  "dial_server n srv s =
     (let (forced, temp) = server_network s n srv;
          s' = writeNetworkStatus (nrID n) (''Connecting to '' @ nrAddress temp @ '':'' @ int_str (nrPort temp)
                 @ (if forced then '' (TLS enforced by STS)...'' else ''...'')) s
      in (length (cnHandles s), s'\<lparr>cnHandles := cnHandles s @ [\<lparr>hNetwork = nrID n, hDialing = True, hLink = False,
              hConnected = False, hAbandoned = False, hAuthFailed = False\<rparr>],
            cnDials := cnDials s @ [\<lparr>dlHost = nrAddress temp, dlPort = nrPort temp, dlTLS = nrTLS temp\<rparr>]\<rparr>))"

definition end_dial :: "nat \<Rightarrow> conn \<Rightarrow> conn" where
  "end_dial h = set_handle h (\<lambda>c. c\<lparr>hDialing := False\<rparr>)"

text \<open>The guard: one attempt at a time, none beside a live client; a dead one is taken out.\<close>

definition connect_guard :: "caller \<Rightarrow> (connect_pc \<Rightarrow> process) \<Rightarrow> network_row \<Rightarrow> server_row list \<Rightarrow> conn \<Rightarrow> process \<times> conn" where
  "connect_guard who goto n servers s =
     (if cnConnecting s (nrID n) then returned who False s
      else case cnClients s (nrID n) of
          None \<Rightarrow> (goto (CnCleanup n servers), s\<lparr>cnConnecting := (cnConnecting s)(nrID n := True)\<rparr>)
        | Some h \<Rightarrow> if is_connected s h then returned who False s
            else (goto (CnStale n servers h),
              s\<lparr>cnClients := (cnClients s)(nrID n := None), cnConnecting := (cnConnecting s)(nrID n := True)\<rparr>))"

text \<open>A client has connected: it is stored, unless another one has been meanwhile.\<close>

definition connect_won :: "caller \<Rightarrow> (connect_pc \<Rightarrow> process) \<Rightarrow> network_row \<Rightarrow> nat \<Rightarrow> conn \<Rightarrow> process \<times> conn" where
  "connect_won who goto n h s =
     (if cnClients s (nrID n) \<noteq> Some h \<and> slot_connected s (nrID n)
      then (goto (CnDuplicate h), s\<lparr>cnConnecting := (cnConnecting s)(nrID n := False)\<rparr>)
      else returned who True (writeNetworkStatus (nrID n) ''Connected''
             (s\<lparr>cnClients := (cnClients s)(nrID n \<mapsto> h), cnConnecting := (cnConnecting s)(nrID n := False),
                cnReconnecting := (cnReconnecting s)(nrID n := False)\<rparr>)))"

definition connect_failed :: "caller \<Rightarrow> network_row \<Rightarrow> conn \<Rightarrow> process \<times> conn" where
  "connect_failed who n s = returned who False (writeNetworkStatus (nrID n) ''Failed to connect to any server''
     (s\<lparr>cnConnecting := (cnConnecting s)(nrID n := False)\<rparr>))"

definition connectNetwork :: "answer \<Rightarrow> caller \<Rightarrow> network_config \<Rightarrow> bool \<Rightarrow> connect_pc \<Rightarrow> conn \<Rightarrow> process \<times> conn" where
  "connectNetwork ans who cfg reconnect pc s =
     (let goto = Connecting who cfg reconnect in case pc of
        CnBegin \<Rightarrow> (case connect_begin cfg reconnect s of
            (None, s) \<Rightarrow> returned who False s
          | (Some (n, servers), s) \<Rightarrow> (goto (CnGuard n servers), s))
      | CnGuard n servers \<Rightarrow> connect_guard who goto n servers s
      | CnStale n servers h \<Rightarrow> (goto (CnCleanup n servers), retire h s)
      | CnCleanup n servers \<Rightarrow>
          if slot_connected s (nrID n) then returned who False (s\<lparr>cnConnecting := (cnConnecting s)(nrID n := False)\<rparr>)
          else (case migrateNetworkSecrets FileBackend n (cnDB s, cnSecrets s) of
              (n', db, cs) \<Rightarrow> (goto (CnTry n' servers), s\<lparr>cnDB := db, cnSecrets := cs\<rparr>))
      | CnTry n servers \<Rightarrow> (case servers of
            [] \<Rightarrow> connect_failed who n s
          | srv # rest \<Rightarrow> (case dial_server n srv s of (h, s) \<Rightarrow> (goto (CnDialing n rest h), s)))
      | CnDialing n rest h \<Rightarrow>
          if ans = TimedOut then (goto (CnTry n rest), writeNetworkStatus (nrID n) ''Failed to connect'' (retire h s))
          else if is_connected s h then (goto (CnWon n h), end_dial h s)
          else if ans = Failed then (goto (CnTry n rest), writeNetworkStatus (nrID n) ''Failed to connect'' (end_dial h s))
          else (goto pc, s)
      | CnWon n h \<Rightarrow> connect_won who goto n h s
      | CnDuplicate h \<Rightarrow> returned who False (retire h s))"

lemmas connect_defs = connectNetwork_def connect_guard_def connect_won_def connect_failed_def

section \<open>Reconnecting\<close>

definition maxAttempts :: nat where "maxAttempts = 10"
definition maxDelay :: nat where "maxDelay = 300"
definition firstDelay :: nat where "firstDelay = 5"

definition authFailureBlocksReconnect :: "string \<Rightarrow> bool" where
  "authFailureBlocksReconnect setting \<longleftrightarrow> setting \<noteq> ''true''"

text \<open>The sleep before an attempt after the first, and the delay after it.\<close>

definition next_delay :: "nat \<Rightarrow> nat \<Rightarrow> nat" where
  "next_delay attempt delay = (if 1 < attempt then min maxDelay (2 * delay) else delay)"

definition stop_reconnect :: "nat \<Rightarrow> conn \<Rightarrow> process \<times> conn" where
  "stop_reconnect i s = (Finished, s\<lparr>cnReconnecting := (cnReconnecting s)(i := False)\<rparr>)"

definition reconnectWithBackoff :: "nat \<Rightarrow> nat \<Rightarrow> nat \<Rightarrow> conn \<Rightarrow> process \<times> conn" where
  "reconnectWithBackoff i attempt delay s =
     (if maxAttempts < attempt
      then stop_reconnect i (writeNetworkStatus i
             (''Failed to reconnect after '' @ nat_str maxAttempts @ '' attempts. Please reconnect manually.'') s)
      else case GetNetwork i (cnDB s) of None \<Rightarrow> stop_reconnect i s
      | Some n \<Rightarrow>
          if \<not> nrAutoConnect n \<or> slot_connected s i then stop_reconnect i s
          else case buildReconnectConfig FileBackend n (cnDB s, cnSecrets s) of
            None \<Rightarrow> (Backoff i (Suc attempt) (next_delay attempt delay), s)
          | Some cfg \<Rightarrow> (Connecting (ByBackoff i attempt (next_delay attempt delay)) cfg True CnBegin,
              writeNetworkStatus i (''Attempting to reconnect (attempt '' @ nat_str attempt @ ''/'' @ nat_str maxAttempts @ '')...'') s))"

text \<open>\<open>handleConnectionLost\<close>: the two flags, the guard, the decision.\<close>

definition lost_flags :: "nat \<Rightarrow> conn \<Rightarrow> process \<times> conn" where
  "lost_flags i s = (if cnUpgrading s i \<or> cnIntentional s i then Finished else LostMark i,
     s\<lparr>cnIntentional := (cnIntentional s)(i := False)\<rparr>)"

definition lost_mark :: "nat \<Rightarrow> conn \<Rightarrow> process \<times> conn" where
  "lost_mark i s = (if cnReconnecting s i \<or> slot_connected s i then (Finished, s)
     else (LostDecide i, s\<lparr>cnReconnecting := (cnReconnecting s)(i := True)\<rparr>))"

definition lost_decide :: "nat \<Rightarrow> conn \<Rightarrow> process \<times> conn" where
  "lost_decide i s = (case GetNetwork i (cnDB s) of None \<Rightarrow> stop_reconnect i s
     | Some n \<Rightarrow>
         let authFailed = (case cnClients s i of Some h \<Rightarrow> h < length (cnHandles s) \<and> hAuthFailed (cnHandles s ! h) | None \<Rightarrow> False) in
         if authFailed \<and> authFailureBlocksReconnect (cnRetryAuth s) then stop_reconnect i s
         else if \<not> nrAutoConnect n
           then stop_reconnect i (case cnClients s i of Some h \<Rightarrow> retire h s | None \<Rightarrow> s)
         else (Backoff i 1 firstDelay, s))"

section \<open>Disconnecting, deleting, upgrading\<close>

text \<open>After \<open>DisconnectNetwork\<close>: nothing, or the connect of the upgrade.\<close>

definition disconnected :: "nat \<Rightarrow> network_config option \<Rightarrow> process" where
  "disconnected i k = (case k of None \<Rightarrow> Finished | Some cfg \<Rightarrow> Connecting (ByUpgrade i) cfg True CnBegin)"

definition disconnect_flag :: "nat \<Rightarrow> network_config option \<Rightarrow> conn \<Rightarrow> process \<times> conn" where
  "disconnect_flag i k s = (case cnClients s i of None \<Rightarrow> (disconnected i k, s)
     | Some h \<Rightarrow> (DiscStop i h k,
         if is_connected s h then s\<lparr>cnIntentional := (cnIntentional s)(i := True)\<rparr> else s))"

definition delete_flag :: "nat \<Rightarrow> conn \<Rightarrow> process \<times> conn" where
  "delete_flag i s = (case cnClients s i of None \<Rightarrow> (DelRow i, s)
     | Some h \<Rightarrow> (DelStop i h, s\<lparr>cnClients := (cnClients s)(i := None), cnIntentional := (cnIntentional s)(i := True)\<rparr>))"

definition delete_row :: "nat \<Rightarrow> conn \<Rightarrow> conn" where
  "delete_row i s = (case DeleteNetworkRow i (cnDB s) of
     (False, db) \<Rightarrow> s
   | (True, db) \<Rightarrow> s\<lparr>cnDB := db, cnSecrets := snd (DeleteSecrets FileBackend i (cnSecrets s))\<rparr>)"

definition upgrade_config :: "nat \<Rightarrow> conn \<Rightarrow> process \<times> conn" where
  "upgrade_config i s =
     (case (case GetNetwork i (cnDB s) of None \<Rightarrow> None | Some n \<Rightarrow> buildReconnectConfig FileBackend n (cnDB s, cnSecrets s)) of
        None \<Rightarrow> (Finished, s\<lparr>cnUpgrading := (cnUpgrading s)(i := False)\<rparr>)
      | Some cfg \<Rightarrow> (DiscFlag i (Some cfg), s))"

section \<open>Steps\<close>

primrec proc_step :: "answer \<Rightarrow> process \<Rightarrow> conn \<Rightarrow> process \<times> conn" where
  "proc_step ans (Connecting who cfg reconnect pc) s = connectNetwork ans who cfg reconnect pc s"
| "proc_step ans (Backoff i attempt delay) s = reconnectWithBackoff i attempt delay s"
| "proc_step ans (LostFlags i) s = lost_flags i s"
| "proc_step ans (LostMark i) s = lost_mark i s"
| "proc_step ans (LostDecide i) s = lost_decide i s"
| "proc_step ans (DiscFlag i k) s = disconnect_flag i k s"
| "proc_step ans (DiscStop i h k) s = (DiscForget i h k, retire h s)"
| "proc_step ans (DiscForget i h k) s = (disconnected i k, s\<lparr>cnClients := (cnClients s)(i := None)\<rparr>)"
| "proc_step ans (DelFlag i) s = delete_flag i s"
| "proc_step ans (DelStop i h) s = (DelRow i, retire h s)"
| "proc_step ans (DelRow i) s = (Finished, delete_row i s)"
| "proc_step ans (UpgradeStart i) s = (UpgradeConfig i, s\<lparr>cnUpgrading := (cnUpgrading s)(i := True)\<rparr>)"
| "proc_step ans (UpgradeConfig i) s = upgrade_config i s"
| "proc_step ans Finished s = (Finished, s)"

text \<open>The network calls up a client that still dials; a retired one is not connected by it.\<close>

definition link_up :: "nat \<Rightarrow> conn \<Rightarrow> conn" where
  "link_up h = set_handle h (\<lambda>c. if hDialing c \<and> \<not> hLink c then c\<lparr>hLink := True, hConnected := \<not> hAbandoned c\<rparr> else c)"

text \<open>A link ends: the client is retired and the loss is reported.\<close>

definition link_down :: "nat \<Rightarrow> conn \<Rightarrow> conn" where
  "link_down h s = (if h < length (cnHandles s) \<and> hLink (cnHandles s ! h)
     then spawn (LostFlags (hNetwork (cnHandles s ! h)))
       (set_handle h (\<lambda>c. c\<lparr>hLink := False, hConnected := False, hAbandoned := True\<rparr>) s)
     else s)"

datatype conn_action =
    Run nat answer
  | UserConnect network_config
  | UserSave network_config
  | UserDisconnect nat
  | UserDelete nat
  | UserToggle nat
  | SavedConnect nat
  | LinkUp nat
  | LinkDown nat
  | AuthFails nat
  | STSAdvertised nat string bool int int int
  | Clock int

definition saved_connect :: "nat \<Rightarrow> conn \<Rightarrow> conn" where
  "saved_connect i s = (case GetNetwork i (cnDB s) of None \<Rightarrow> s
     | Some n \<Rightarrow> (case buildReconnectConfig FileBackend n (cnDB s, cnSecrets s) of None \<Rightarrow> s
         | Some cfg \<Rightarrow> spawn (Connecting ByUser cfg False CnBegin) s))"

definition sts_advertised :: "nat \<Rightarrow> string \<Rightarrow> bool \<Rightarrow> int \<Rightarrow> int \<Rightarrow> int \<Rightarrow> conn \<Rightarrow> conn" where
  "sts_advertised i host secure port current duration s =
     (case handleSTSPolicy i host secure port current duration (cnNow s) (cnUpgrades s, cnDB s) of
        (upgrade, up, db) \<Rightarrow> let s = s\<lparr>cnUpgrades := up, cnDB := db\<rparr> in if upgrade then spawn (UpgradeStart i) s else s)"

primrec conn_step :: "conn_action \<Rightarrow> conn \<Rightarrow> conn" where
  "conn_step (Run p ans) s =
     (if p < length (cnProcs s)
      then case proc_step ans (cnProcs s ! p) s of (q, s') \<Rightarrow> s'\<lparr>cnProcs := (cnProcs s')[p := q]\<rparr>
      else s)"
| "conn_step (UserConnect cfg) s = spawn (Connecting ByUser cfg False CnBegin) s"
| "conn_step (UserSave cfg) s = (case SaveNetwork FileBackend cfg (cnDB s, cnSecrets s) of
     (_, db, cs) \<Rightarrow> s\<lparr>cnDB := db, cnSecrets := cs\<rparr>)"
| "conn_step (UserDisconnect i) s = spawn (DiscFlag i None) s"
| "conn_step (UserDelete i) s = spawn (DelFlag i) s"
| "conn_step (UserToggle i) s = s\<lparr>cnDB := snd (ToggleNetworkAutoConnect i (cnDB s))\<rparr>"
| "conn_step (SavedConnect i) s = saved_connect i s"
| "conn_step (LinkUp h) s = link_up h s"
| "conn_step (LinkDown h) s = link_down h s"
| "conn_step (AuthFails h) s = set_handle h (\<lambda>c. c\<lparr>hAuthFailed := True\<rparr>) s"
| "conn_step (STSAdvertised i host secure port current duration) s = sts_advertised i host secure port current duration s"
| "conn_step (Clock now) s = s\<lparr>cnNow := now\<rparr>"

definition conn_run :: "conn_action list \<Rightarrow> conn \<Rightarrow> conn" where
  "conn_run as s = fold conn_step as s"

definition fresh_conn :: "config_db \<Rightarrow> file_backend option \<Rightarrow> conn" where
  "fresh_conn db cs = \<lparr>cnDB = db, cnSecrets = cs, cnClients = Map.empty, cnConnecting = (\<lambda>_. False), cnReconnecting = (\<lambda>_. False),
     cnIntentional = (\<lambda>_. False), cnUpgrading = (\<lambda>_. False), cnUpgrades = Map.empty, cnHandles = [], cnProcs = [], cnDials = [],
     cnNow = 0, cnRetryAuth = [], cnStatus = []\<rparr>"

end
