(* ===== verification/Connection_Props.thy ===== *)
theory Connection_Props
  imports Connection_Manager
begin

text \<open>
  What the processes of \<open>Connection_Manager\<close> keep in every interleaving: one attempt per network at a
  time, no connected client outside the map and the processes in flight, STS, and the bounds of the
  reconnect loop; and the races that break what the code means to do.
\<close>

section \<open>Fields a step leaves alone\<close>

lemma set_handle_fields [simp]:
  "cnProcs (set_handle h f s) = cnProcs s" "cnClients (set_handle h f s) = cnClients s"
  "cnConnecting (set_handle h f s) = cnConnecting s" "length (cnHandles (set_handle h f s)) = length (cnHandles s)"
  "cnDials (set_handle h f s) = cnDials s" "cnDB (set_handle h f s) = cnDB s" "cnUpgrading (set_handle h f s) = cnUpgrading s"
  by (simp_all add: set_handle_def)

lemma retire_fields [simp]:
  "cnProcs (retire h s) = cnProcs s" "cnClients (retire h s) = cnClients s" "cnConnecting (retire h s) = cnConnecting s"
  "length (cnHandles (retire h s)) = length (cnHandles s)" "cnDials (retire h s) = cnDials s" "cnDB (retire h s) = cnDB s"
  by (simp_all add: retire_def)

lemma end_dial_fields [simp]:
  "cnProcs (end_dial h s) = cnProcs s" "cnClients (end_dial h s) = cnClients s" "cnConnecting (end_dial h s) = cnConnecting s"
  "length (cnHandles (end_dial h s)) = length (cnHandles s)" "cnDials (end_dial h s) = cnDials s" "cnDB (end_dial h s) = cnDB s"
  by (simp_all add: end_dial_def)

lemma status_fields [simp]:
  "cnProcs (writeNetworkStatus i t s) = cnProcs s" "cnClients (writeNetworkStatus i t s) = cnClients s"
  "cnConnecting (writeNetworkStatus i t s) = cnConnecting s" "cnHandles (writeNetworkStatus i t s) = cnHandles s"
  "cnDials (writeNetworkStatus i t s) = cnDials s" "cnDB (writeNetworkStatus i t s) = cnDB s"
  by (simp_all add: writeNetworkStatus_def)

lemma spawn_fields [simp]:
  "cnProcs (spawn p s) = cnProcs s @ [p]" "cnClients (spawn p s) = cnClients s" "cnConnecting (spawn p s) = cnConnecting s"
  "cnHandles (spawn p s) = cnHandles s" "cnDials (spawn p s) = cnDials s" "cnDB (spawn p s) = cnDB s"
  by (simp_all add: spawn_def)

lemma returned_fields:
  assumes "returned who ok s = (q, s')"
  shows "cnProcs s' = cnProcs s" "cnClients s' = cnClients s" "cnConnecting s' = cnConnecting s" "cnHandles s' = cnHandles s"
    "cnDials s' = cnDials s" "cnDB s' = cnDB s"
  using assms by (auto simp: returned_def Let_def split: caller.splits if_splits)

lemma begin_fields:
  assumes "connect_begin cfg r s = (x, s')"
  shows "cnProcs s' = cnProcs s" "cnClients s' = cnClients s" "cnConnecting s' = cnConnecting s" "cnHandles s' = cnHandles s"
    "cnDials s' = cnDials s"
  using assms by (auto simp: connect_begin_def Let_def split: if_splits sum.splits prod.splits)

lemma migrate_id: "nrID (fst (migrateNetworkSecrets B n x)) = nrID n"
  by (simp add: migrateNetworkSecrets_def Let_def split: prod.split)

lemma dial_fields:
  assumes "dial_server n srv s = (h, s')"
  shows "cnProcs s' = cnProcs s" "cnClients s' = cnClients s" "cnConnecting s' = cnConnecting s" "h = length (cnHandles s)"
    "cnHandles s' = cnHandles s @ [\<lparr>hNetwork = nrID n, hDialing = True, hLink = False, hConnected = False, hAbandoned = False, hAuthFailed = False\<rparr>]"
    "cnDB s' = cnDB s"
  using assms by (auto simp: dial_server_def Let_def split: prod.splits)

section \<open>One attempt at a time\<close>

text \<open>The network whose entry in \<open>connectingNetworks\<close> a process holds.\<close>

definition owner :: "process \<Rightarrow> nat option" where
  "owner p = (case p of Connecting who cfg r pc \<Rightarrow> (case pc of
       CnStale n ss h \<Rightarrow> Some (nrID n) | CnCleanup n ss \<Rightarrow> Some (nrID n) | CnTry n ss \<Rightarrow> Some (nrID n)
     | CnDialing n ss h \<Rightarrow> Some (nrID n) | CnWon n h \<Rightarrow> Some (nrID n) | _ \<Rightarrow> None) | _ \<Rightarrow> None)"

definition excl :: "nat option list \<Rightarrow> (nat \<Rightarrow> bool) \<Rightarrow> bool" where
  "excl os C \<longleftrightarrow> (\<forall>p < length os. \<forall>i. os ! p = Some i \<longrightarrow> C i \<and> (\<forall>q < length os. os ! q = Some i \<longrightarrow> q = p))"

definition exclusive :: "conn \<Rightarrow> bool" where
  "exclusive s \<longleftrightarrow> excl (map owner (cnProcs s)) (cnConnecting s)"

lemma returned_owner: "returned who ok s = (q, s') \<Longrightarrow> owner q = None"
  by (auto simp: returned_def owner_def split: caller.splits if_splits)

text \<open>The facts about a return and about the database part, each as one elimination.\<close>

lemma returned_all:
  "returned who ok s = (q, s') \<Longrightarrow> owner q = None \<and> cnProcs s' = cnProcs s \<and> cnClients s' = cnClients s
     \<and> cnConnecting s' = cnConnecting s \<and> cnHandles s' = cnHandles s \<and> cnDials s' = cnDials s \<and> cnDB s' = cnDB s"
  using returned_fields [of who ok s q s'] returned_owner [of who ok s q s'] by simp

lemma begin_all:
  "connect_begin cfg r s = (x, s') \<Longrightarrow> cnProcs s' = cnProcs s \<and> cnClients s' = cnClients s
     \<and> cnConnecting s' = cnConnecting s \<and> cnHandles s' = cnHandles s \<and> cnDials s' = cnDials s"
  using begin_fields [of cfg r s x s'] by simp

text \<open>A step takes the entry, gives it back, or leaves it.\<close>

definition entry_step :: "nat option \<Rightarrow> nat option \<Rightarrow> (nat \<Rightarrow> bool) \<Rightarrow> (nat \<Rightarrow> bool) \<Rightarrow> bool" where
  "entry_step o1 o2 C C' \<longleftrightarrow> (case (o1, o2) of
     (None, None) \<Rightarrow> C' = C | (Some i, None) \<Rightarrow> C' = C(i := False)
   | (None, Some i) \<Rightarrow> \<not> C i \<and> C' = C(i := True) | (Some i, Some j) \<Rightarrow> i = j \<and> C' = C)"

lemma connect_entry:
  assumes "connectNetwork ans who cfg r pc s = (q, s')"
  shows "entry_step (owner (Connecting who cfg r pc)) (owner q) (cnConnecting s) (cnConnecting s') \<and> cnProcs s' = cnProcs s"
proof (cases pc)
  case CnBegin
  then show ?thesis using assms
    by (auto simp: connect_defs Let_def entry_step_def owner_def dest!: begin_all returned_all split: prod.splits option.splits)
next
  case (CnGuard n ss)
  then show ?thesis using assms
    by (auto simp: connect_defs Let_def entry_step_def dest!: returned_all split: if_splits option.splits) (auto simp: owner_def)
next
  case (CnCleanup n ss)
  then show ?thesis using assms migrate_id [of FileBackend n "(cnDB s, cnSecrets s)"]
    by (auto simp: connect_defs Let_def entry_step_def owner_def dest!: returned_all split: if_splits prod.splits)
next
  case (CnTry n ss)
  then show ?thesis using assms
    by (auto simp: connect_defs Let_def entry_step_def owner_def dest!: returned_all dest: dial_fields split: list.splits prod.splits)
next
  case (CnWon n h)
  then show ?thesis using assms
    by (auto simp: connect_defs Let_def entry_step_def owner_def dest!: returned_all split: if_splits)
qed (use assms in \<open>auto simp: connect_defs Let_def entry_step_def owner_def dest!: returned_all split: if_splits\<close>)

lemma proc_entry:
  assumes "proc_step ans p s = (q, s')"
  shows "entry_step (owner p) (owner q) (cnConnecting s) (cnConnecting s') \<and> cnProcs s' = cnProcs s"
proof (cases p)
  case (Connecting who cfg r pc)
  then show ?thesis using connect_entry assms by simp
next
  case (Backoff i attempt delay)
  then show ?thesis using assms
    by (auto simp: reconnectWithBackoff_def stop_reconnect_def entry_step_def owner_def split: if_splits option.splits)
qed (use assms in \<open>auto simp: lost_flags_def lost_mark_def lost_decide_def disconnect_flag_def delete_flag_def delete_row_def
    upgrade_config_def disconnected_def stop_reconnect_def Let_def entry_step_def owner_def split: if_splits option.splits prod.splits bool.splits\<close>)

lemma excl_update:
  assumes "excl os C" "p < length os" "entry_step (os ! p) x C C'"
  shows "excl (os[p := x]) C'"
  unfolding excl_def
proof (intro allI impI)
  fix j i assume j: "j < length (os[p := x])" and ji: "os[p := x] ! j = Some i"
  have others: "os ! k = Some i \<Longrightarrow> os ! p = Some i \<Longrightarrow> k < length os \<Longrightarrow> k = p" for k
    using assms(1,2) unfolding excl_def by blast
  have keeps: "C' i" if "os ! p \<noteq> Some i" "C i" for i
    using assms(3) that by (cases "os ! p"; cases x) (auto simp: entry_step_def)
  show "C' i \<and> (\<forall>q < length (os[p := x]). os[p := x] ! q = Some i \<longrightarrow> q = j)"
  proof (cases "j = p")
    case True
    then have "x = Some i" using ji assms(2) by simp
    have "C' i \<and> (\<forall>k < length os. os ! k = Some i \<longrightarrow> k = p)"
    proof (cases "os ! p")
      case None
      then have "\<not> C i" "C' = C(i := True)" using assms(3) \<open>x = Some i\<close> by (simp_all add: entry_step_def)
      then show ?thesis using assms(1) unfolding excl_def by (metis fun_upd_same)
    next
      case (Some m)
      then have "m = i" "C' = C" using assms(3) \<open>x = Some i\<close> by (simp_all add: entry_step_def)
      then show ?thesis using others Some assms(1,2) unfolding excl_def by blast
    qed
    then show ?thesis using True assms(2) by (auto simp: nth_list_update split: if_splits)
  next
    case False
    then have k: "os ! j = Some i" "j < length os" using j ji by auto
    then have "os ! p \<noteq> Some i" "C i" using others False assms(1) unfolding excl_def by blast+
    then have "C' i" "x \<noteq> Some i" using keeps assms(3) by (auto simp: entry_step_def split: option.splits)
    moreover have "\<forall>q < length os. os ! q = Some i \<longrightarrow> q = j" using k assms(1) unfolding excl_def by blast
    ultimately show ?thesis by (metis length_list_update nth_list_update_eq nth_list_update_neq)
  qed
qed

lemma excl_append:
  assumes "excl os C" shows "excl (os @ [None]) C"
  unfolding excl_def
proof (intro allI impI)
  have old: "k < length os \<and> os ! k = Some i" if "k < length (os @ [None])" "(os @ [None]) ! k = Some i" for k i
    using that by (cases "k < length os") (auto simp: nth_append less_Suc_eq)
  fix j i assume "j < length (os @ [None])" "(os @ [None]) ! j = Some i"
  with old have "C i \<and> (\<forall>q < length os. os ! q = Some i \<longrightarrow> q = j)" using assms unfolding excl_def by blast
  then show "C i \<and> (\<forall>q < length (os @ [None]). (os @ [None]) ! q = Some i \<longrightarrow> q = j)" using old by blast
qed

lemma exclusive_spawn: "exclusive s \<Longrightarrow> owner p = None \<Longrightarrow> exclusive (spawn p s)"
  by (simp add: exclusive_def excl_append)

lemma exclusive_same: "exclusive s \<Longrightarrow> cnProcs s' = cnProcs s \<Longrightarrow> cnConnecting s' = cnConnecting s \<Longrightarrow> exclusive s'"
  by (simp add: exclusive_def)

lemma exclusive_step: "exclusive s \<Longrightarrow> exclusive (conn_step a s)"
proof (cases a)
  case (Run p ans)
  assume e: "exclusive s"
  obtain q s' where st: "proc_step ans (cnProcs s ! p) s = (q, s')" by fastforce
  show ?thesis
  proof (cases "p < length (cnProcs s)")
    case True
    then show ?thesis using excl_update [of "map owner (cnProcs s)" "cnConnecting s" p "owner q" "cnConnecting s'"] e
        proc_entry [OF st] Run st by (simp add: exclusive_def map_update)
  qed (use e Run in simp)
next
  case (STSAdvertised i host secure port current duration)
  assume e: "exclusive s"
  obtain u up db where r: "handleSTSPolicy i host secure port current duration (cnNow s) (cnUpgrades s, cnDB s) = (u, up, db)"
    by (cases "handleSTSPolicy i host secure port current duration (cnNow s) (cnUpgrades s, cnDB s)") auto
  have "exclusive (s\<lparr>cnUpgrades := up, cnDB := db\<rparr>)" using exclusive_same [OF e] by simp
  then show ?thesis using exclusive_spawn r STSAdvertised by (simp add: sts_advertised_def Let_def owner_def)
qed (auto simp: owner_def saved_connect_def link_up_def link_down_def intro!: exclusive_spawn intro: exclusive_same
    split: option.split prod.split)

lemma exclusive_run: "exclusive s \<Longrightarrow> exclusive (conn_run as s)"
  unfolding conn_run_def by (induction as arbitrary: s) (auto intro: exclusive_step)

text \<open>
  C3: One attempt per network at a time: in every interleaving of connects, reconnect loops, upgrades,
  disconnects, losses and database changes, two processes are never both between the guard and the end
  of an attempt for one network, so a network is never dialled by two attempts at once; and the guard's
  entry is there as long as the attempt is.
\<close>

theorem one_attempt_at_a_time:
  assumes "p < length (cnProcs (conn_run as (fresh_conn db cs)))" "q < length (cnProcs (conn_run as (fresh_conn db cs)))" "p \<noteq> q"
    and "owner (cnProcs (conn_run as (fresh_conn db cs)) ! p) = Some i"
  shows "owner (cnProcs (conn_run as (fresh_conn db cs)) ! q) \<noteq> Some i \<and> cnConnecting (conn_run as (fresh_conn db cs)) i"
proof -
  have "exclusive (conn_run as (fresh_conn db cs))" by (rule exclusive_run) (simp add: exclusive_def excl_def fresh_conn_def)
  then show ?thesis using assms unfolding exclusive_def excl_def by auto
qed

section \<open>No client out of sight\<close>

text \<open>A client that is connected, or may still be by its dial.\<close>

definition active :: "conn \<Rightarrow> nat \<Rightarrow> bool" where
  "active s h \<longleftrightarrow> h < length (cnHandles s)
     \<and> (hConnected (cnHandles s ! h) \<or> hDialing (cnHandles s ! h) \<and> \<not> hAbandoned (cnHandles s ! h))"

text \<open>The client a process will store, retire or drop.\<close>

definition holds :: "process \<Rightarrow> nat \<Rightarrow> bool" where
  "holds p h \<longleftrightarrow> (case p of Connecting who cfg r pc \<Rightarrow> (case pc of CnDialing n ss g \<Rightarrow> g = h | CnWon n g \<Rightarrow> g = h | CnDuplicate g \<Rightarrow> g = h | _ \<Rightarrow> False)
     | DelStop i g \<Rightarrow> g = h | _ \<Rightarrow> False)"

definition good_proc :: "handle list \<Rightarrow> process \<Rightarrow> bool" where
  "good_proc hs p \<longleftrightarrow> (case p of Connecting who cfg r pc \<Rightarrow> (case pc of
       CnDialing n ss h \<Rightarrow> h < length hs \<and> hNetwork (hs ! h) = nrID n
     | CnWon n h \<Rightarrow> h < length hs \<and> hNetwork (hs ! h) = nrID n \<and> \<not> hDialing (hs ! h)
     | CnDuplicate h \<Rightarrow> h < length hs | CnStale n ss h \<Rightarrow> h < length hs | _ \<Rightarrow> True)
   | DiscStop i h k \<Rightarrow> h < length hs | DiscForget i h k \<Rightarrow> h < length hs \<and> hAbandoned (hs ! h) | DelStop i h \<Rightarrow> h < length hs | _ \<Rightarrow> True)"

definition sane :: "conn \<Rightarrow> bool" where
  "sane s \<longleftrightarrow> (\<forall>i h. cnClients s i = Some h \<longrightarrow> h < length (cnHandles s) \<and> \<not> hDialing (cnHandles s ! h))
     \<and> (\<forall>c \<in> set (cnHandles s). hConnected c \<longrightarrow> \<not> hAbandoned c)"

text \<open>Handles are only added, keep their network, stay retired and do not dial again.\<close>

definition extends_handles :: "handle list \<Rightarrow> handle list \<Rightarrow> bool" where
  "extends_handles hs hs' \<longleftrightarrow> length hs \<le> length hs' \<and>
     (\<forall>h < length hs. hNetwork (hs' ! h) = hNetwork (hs ! h) \<and> (hAbandoned (hs ! h) \<longrightarrow> hAbandoned (hs' ! h))
       \<and> (hDialing (hs' ! h) \<longrightarrow> hDialing (hs ! h)))"

lemma handles_refl [simp]: "extends_handles hs hs" by (simp add: extends_handles_def)

lemma handles_append [simp]: "extends_handles hs (hs @ cs)" by (simp add: extends_handles_def nth_append)

lemma good_extends: "good_proc hs p \<Longrightarrow> extends_handles hs hs' \<Longrightarrow> good_proc hs' p"
  by (auto simp: good_proc_def extends_handles_def split: process.splits connect_pc.splits)

lemma retire_handles:
  "cnHandles (retire h s) = (if h < length (cnHandles s)
     then (cnHandles s)[h := (cnHandles s ! h)\<lparr>hConnected := False, hAbandoned := True\<rparr>] else cnHandles s)"
  by (simp add: retire_def set_handle_def)

lemma end_dial_handles:
  "cnHandles (end_dial h s) = (if h < length (cnHandles s) then (cnHandles s)[h := (cnHandles s ! h)\<lparr>hDialing := False\<rparr>] else cnHandles s)"
  by (simp add: end_dial_def set_handle_def)

lemma sane_update:
  assumes "sane s" "cnClients s' = cnClients s" "cnHandles s' = (cnHandles s)[h := c]" "hConnected c \<longrightarrow> \<not> hAbandoned c"
    and "hDialing c \<longrightarrow> hDialing (cnHandles s ! h)"
  shows "sane s'"
proof -
  have "\<not> hDialing ((cnHandles s)[h := c] ! g)" if "g < length (cnHandles s)" "\<not> hDialing (cnHandles s ! g)" for g
    using that assms(5) by (cases "h = g") auto
  then show ?thesis
    using assms(1-4) set_update_subset_insert [of "cnHandles s" h c] by (auto simp: sane_def)
qed

lemma extends_update: "hNetwork c = hNetwork (hs ! h) \<Longrightarrow> (hAbandoned (hs ! h) \<Longrightarrow> hAbandoned c) \<Longrightarrow>
    (hDialing c \<Longrightarrow> hDialing (hs ! h)) \<Longrightarrow> extends_handles hs (hs[h := c])"
  by (cases "h < length hs") (auto simp: extends_handles_def nth_list_update)

lemma retire_good:
  assumes "sane s" shows "extends_handles (cnHandles s) (cnHandles (retire h s)) \<and> sane (retire h s)
    \<and> (\<forall>g. active (retire h s) g \<longleftrightarrow> active s g \<and> g \<noteq> h)"
proof (cases "h < length (cnHandles s)")
  case True
  have "sane (retire h s)" by (rule sane_update [OF assms, of _ h "(cnHandles s ! h)\<lparr>hConnected := False, hAbandoned := True\<rparr>"])
      (simp_all add: retire_handles True)
  moreover have "extends_handles (cnHandles s) (cnHandles (retire h s))"
    unfolding retire_handles by (auto intro!: extends_update)
  ultimately show ?thesis using True by (auto simp: retire_handles active_def nth_list_update)
next
  case False
  then have "retire h s = s" by (simp add: retire_def set_handle_def)
  then show ?thesis using assms False by (auto simp: active_def)
qed

lemma end_dial_good:
  assumes "sane s" shows "extends_handles (cnHandles s) (cnHandles (end_dial h s)) \<and> sane (end_dial h s)
    \<and> (\<forall>g. active (end_dial h s) g \<longleftrightarrow> active s g \<and> (g = h \<longrightarrow> is_connected s h))"
proof (cases "h < length (cnHandles s)")
  case True
  have "hConnected (cnHandles s ! h) \<longrightarrow> \<not> hAbandoned (cnHandles s ! h)" using assms True by (simp add: sane_def)
  then have "sane (end_dial h s)" by (intro sane_update [OF assms, of _ h "(cnHandles s ! h)\<lparr>hDialing := False\<rparr>"])
      (simp_all add: end_dial_handles True)
  moreover have "extends_handles (cnHandles s) (cnHandles (end_dial h s))"
    unfolding end_dial_handles by (auto intro!: extends_update)
  ultimately show ?thesis using True by (auto simp: end_dial_handles active_def is_connected_def nth_list_update)
next
  case False
  then have "end_dial h s = s" by (simp add: end_dial_def set_handle_def)
  then show ?thesis using assms False by (auto simp: active_def)
qed

text \<open>What one step of a process does to the clients.\<close>

definition keeps_clients :: "process \<Rightarrow> conn \<Rightarrow> process \<Rightarrow> conn \<Rightarrow> bool" where
  "keeps_clients p s q s' \<longleftrightarrow> extends_handles (cnHandles s) (cnHandles s') \<and> good_proc (cnHandles s') q \<and> sane s'
     \<and> (\<forall>h. active s' h \<longrightarrow> active s h \<or> holds q h)
     \<and> (\<forall>h. active s' h \<longrightarrow> active s h \<longrightarrow> cnClients s (hNetwork (cnHandles s ! h)) = Some h \<or> holds p h
          \<longrightarrow> cnClients s' (hNetwork (cnHandles s ! h)) = Some h \<or> holds q h)"

lemma returned_holds: "returned who ok s = (q, s') \<Longrightarrow> good_proc hs q \<and> \<not> holds q h"
  by (auto simp: returned_def good_proc_def holds_def split: caller.splits if_splits)

lemma sane_same: "sane s \<Longrightarrow> cnClients s' = cnClients s \<Longrightarrow> cnHandles s' = cnHandles s \<Longrightarrow> sane s'"
  by (simp add: sane_def)

lemma active_same: "cnHandles s' = cnHandles s \<Longrightarrow> active s' h = active s h"
  by (simp add: active_def)

lemma keeps_quiet:
  assumes "sane s" "good_proc (cnHandles s) q" "cnHandles s' = cnHandles s" "cnClients s' = cnClients s" "\<And>h. holds p h \<Longrightarrow> holds q h \<or> \<not> active s h"
  shows "keeps_clients p s q s'"
proof -
  note a = active_same [OF assms(3)]
  show ?thesis unfolding keeps_clients_def assms(3,4) a using sane_same [OF assms(1,4,3)] assms(2,5) by simp blast
qed

lemma keeps_retired:
  assumes "sane s" "good_proc (cnHandles s') q" "cnHandles s' = cnHandles (retire h s)" "cnClients s' = cnClients s"
    and "\<And>g. holds p g \<Longrightarrow> g = h \<or> holds q g"
  shows "keeps_clients p s q s'"
proof -
  note r = retire_good [OF assms(1), of h]
  have a: "active s' g \<longleftrightarrow> active s g \<and> g \<noteq> h" for g using r active_same [of s' "retire h s" g] assms(3) by simp
  have "sane s'" using r sane_same [of "retire h s" s'] assms(3,4) by simp
  then show ?thesis unfolding keeps_clients_def a assms(4) using r assms(2,3,5) by auto
qed

lemma keeps_dialing:
  assumes "connectNetwork ans who cfg r (CnDialing n rest h) s = (q, s')" "sane s" "good_proc (cnHandles s) (Connecting who cfg r (CnDialing n rest h))"
  shows "keeps_clients (Connecting who cfg r (CnDialing n rest h)) s q s'"
proof -
  note e = end_dial_good [OF assms(2), of h]
  have h: "h < length (cnHandles s)" "hNetwork (cnHandles s ! h) = nrID n" using assms(3) by (simp_all add: good_proc_def)
  consider "ans = TimedOut" | "ans \<noteq> TimedOut" "is_connected s h" | "ans = Failed" "\<not> is_connected s h" | "ans = Fine" "\<not> is_connected s h"
    by (cases ans) auto
  then show ?thesis
  proof cases
    case 1
    then show ?thesis using assms
      by (intro keeps_retired [of _ _ _ h]) (auto simp: connect_defs Let_def good_proc_def holds_def)
  next
    case 2
    then have q: "q = Connecting who cfg r (CnWon n h)" "s' = end_dial h s" using assms(1) by (auto simp: connect_defs Let_def)
    have "good_proc (cnHandles s') q" using q h by (simp add: good_proc_def end_dial_handles)
    then show ?thesis using e unfolding keeps_clients_def q by (auto simp: holds_def)
  next
    case 3
    then have q: "q = Connecting who cfg r (CnTry n rest)" "cnHandles s' = cnHandles (end_dial h s)" "cnClients s' = cnClients s"
      using assms(1) by (auto simp: connect_defs Let_def)
    have a: "active s' g \<longleftrightarrow> active s g \<and> g \<noteq> h" for g
      using e active_same [of s' "end_dial h s" g] q(2) 3(2) by auto
    have "sane s'" using e sane_same [of "end_dial h s" s'] q by simp
    then show ?thesis using e unfolding keeps_clients_def a q by (auto simp: holds_def good_proc_def)
  next
    case 4
    then have "q = Connecting who cfg r (CnDialing n rest h)" "s' = s" using assms(1) by (auto simp: connect_defs Let_def)
    then show ?thesis using keeps_quiet assms(2,3) by blast
  qed
qed

lemma keeps_removed:
  assumes "sane s" "good_proc (cnHandles s) q" "cnHandles s' = cnHandles s" "cnClients s' = (cnClients s)(i := None)"
    and "\<And>g. cnClients s i = Some g \<Longrightarrow> \<not> active s g \<or> holds q g" "\<And>g. holds p g \<Longrightarrow> holds q g"
  shows "keeps_clients p s q s'"
proof -
  note a = active_same [OF assms(3)]
  have "sane s'" using assms(1,3,4) by (auto simp: sane_def split: if_splits)
  then show ?thesis unfolding keeps_clients_def assms(3) a using assms(2,4,5,6) by (auto split: if_splits)
qed

lemma idle_slot: "sane s \<Longrightarrow> cnClients s i = Some g \<Longrightarrow> \<not> is_connected s g \<Longrightarrow> \<not> active s g"
  by (auto simp: sane_def active_def is_connected_def)

lemma keeps_returned:
  assumes "returned who ok t = (q, s')" "sane s" "cnHandles t = cnHandles s" "cnClients t = cnClients s" "\<And>h. holds p h \<Longrightarrow> \<not> active s h"
  shows "keeps_clients p s q s'"
  using assms(5) returned_all [OF assms(1)] returned_holds [OF assms(1)] assms(3,4) by (intro keeps_quiet [OF assms(2)]) auto

lemma idle_connect: "(case pc of CnDialing n ss h \<Rightarrow> False | CnWon n h \<Rightarrow> False | CnDuplicate h \<Rightarrow> False | _ \<Rightarrow> True) \<Longrightarrow>
    \<not> holds (Connecting who cfg r pc) h"
  by (auto simp: holds_def split: connect_pc.splits)

lemma keeps_guard:
  assumes "connectNetwork ans who cfg r (CnGuard n ss) s = (q, s')" "sane s"
  shows "keeps_clients (Connecting who cfg r (CnGuard n ss)) s q s'"
proof -
  let ?p = "Connecting who cfg r (CnGuard n ss)"
  have nh: "\<not> holds ?p g" for g by (simp add: holds_def)
  consider "returned who False s = (q, s')" | "q = Connecting who cfg r (CnCleanup n ss)" "cnHandles s' = cnHandles s" "cnClients s' = cnClients s"
    | h where "cnClients s (nrID n) = Some h" "\<not> is_connected s h" "q = Connecting who cfg r (CnStale n ss h)"
      "cnHandles s' = cnHandles s" "cnClients s' = (cnClients s)(nrID n := None)"
    using assms(1) by (auto simp: connect_defs Let_def split: if_splits option.splits)
  then show ?thesis
  proof cases
    case 1
    then show ?thesis using keeps_returned [OF 1 assms(2)] nh by blast
  next
    case 2
    then show ?thesis using nh by (intro keeps_quiet [OF assms(2)]) (simp_all add: good_proc_def)
  next
    case 3
    then show ?thesis using assms(2) idle_slot [OF assms(2) 3(1,2)] nh
      by (intro keeps_removed [where i = "nrID n"]) (auto simp: good_proc_def sane_def)
  qed
qed

lemma keeps_won:
  assumes "connectNetwork ans who cfg r (CnWon n h) s = (q, s')" "sane s" "good_proc (cnHandles s) (Connecting who cfg r (CnWon n h))"
  shows "keeps_clients (Connecting who cfg r (CnWon n h)) s q s'"
proof (cases "cnClients s (nrID n) \<noteq> Some h \<and> slot_connected s (nrID n)")
  case True
  then have "q = Connecting who cfg r (CnDuplicate h)" "cnHandles s' = cnHandles s" "cnClients s' = cnClients s"
    using assms(1) by (auto simp: connect_defs Let_def)
  then show ?thesis using assms(3) by (intro keeps_quiet [OF assms(2)]) (auto simp: good_proc_def holds_def)
next
  case False
  have h: "h < length (cnHandles s)" "hNetwork (cnHandles s ! h) = nrID n" "\<not> hDialing (cnHandles s ! h)"
    using assms(3) by (simp_all add: good_proc_def)
  let ?t = "writeNetworkStatus (nrID n) ''Connected'' (s\<lparr>cnClients := (cnClients s)(nrID n \<mapsto> h), cnConnecting := (cnConnecting s)(nrID n := False),
                    cnReconnecting := (cnReconnecting s)(nrID n := False)\<rparr>)"
  have r: "returned who True ?t = (q, s')" using assms(1) False by (auto simp: connect_defs Let_def)
  have f: "cnHandles s' = cnHandles s" "cnClients s' = (cnClients s)(nrID n \<mapsto> h)" using returned_all [OF r] by simp_all
  note a = active_same [OF f(1)]
  have "sane s'" using assms(2) h f by (auto simp: sane_def split: if_splits)
  moreover have "\<not> active s g" if "cnClients s (nrID n) = Some g" "g \<noteq> h" for g
    using idle_slot [OF assms(2) that(1)] False that by (auto simp: slot_connected_def)
  ultimately show ?thesis unfolding keeps_clients_def f a using returned_holds [OF r] h by (auto simp: holds_def)
qed

lemma keeps_try:
  assumes "connectNetwork ans who cfg r (CnTry n ss) s = (q, s')" "sane s"
  shows "keeps_clients (Connecting who cfg r (CnTry n ss)) s q s'"
proof (cases ss)
  case Nil
  let ?t = "writeNetworkStatus (nrID n) ''Failed to connect to any server'' (s\<lparr>cnConnecting := (cnConnecting s)(nrID n := False)\<rparr>)"
  have "returned who False ?t = (q, s')" using assms(1) Nil by (simp add: connect_defs Let_def)
  then show ?thesis by (rule keeps_returned [OF _ assms(2)]) (simp_all add: holds_def)
next
  case (Cons srv rest)
  obtain h t where d: "dial_server n srv s = (h, t)" by fastforce
  then have q: "q = Connecting who cfg r (CnDialing n rest h)" "s' = t" using assms(1) Cons by (auto simp: connect_defs Let_def)
  note f = dial_fields [OF d]
  have "sane t" using assms(2) f by (auto simp: sane_def nth_append intro: less_SucI)
  moreover have "active t g \<Longrightarrow> active s g \<or> g = h" for g using f by (auto simp: active_def nth_append split: if_splits)
  ultimately show ?thesis unfolding keeps_clients_def q using f by (auto simp: good_proc_def holds_def)
qed

lemma keeps_connect:
  assumes "connectNetwork ans who cfg r pc s = (q, s')" "sane s" "good_proc (cnHandles s) (Connecting who cfg r pc)"
  shows "keeps_clients (Connecting who cfg r pc) s q s'"
proof (cases pc)
  case CnBegin
  obtain x t where b: "connect_begin cfg r s = (x, t)" by fastforce
  note f = begin_all [OF b]
  show ?thesis
  proof (cases x)
    case None
    then have "returned who False t = (q, s')" using assms(1) b CnBegin by (simp add: connect_defs)
    then show ?thesis by (rule keeps_returned [OF _ assms(2)]) (use f CnBegin in \<open>auto simp: idle_connect\<close>)
  next
    case (Some y)
    then have "\<exists>n ss. q = Connecting who cfg r (CnGuard n ss)" "s' = t"
      using assms(1) b CnBegin by (auto simp: connect_defs Let_def split: prod.splits)
    then show ?thesis using f CnBegin by (intro keeps_quiet [OF assms(2)]) (auto simp: holds_def good_proc_def)
  qed
next
  case (CnGuard n ss)
  then show ?thesis using keeps_guard assms by blast
next
  case (CnStale n ss h)
  then show ?thesis using assms
    by (intro keeps_retired [OF assms(2), where h = h]) (auto simp: connect_defs Let_def good_proc_def holds_def)
next
  case (CnCleanup n ss)
  show ?thesis
  proof (cases "slot_connected s (nrID n)")
    case True
    then have "returned who False (s\<lparr>cnConnecting := (cnConnecting s)(nrID n := False)\<rparr>) = (q, s')"
      using assms(1) CnCleanup by (simp add: connect_defs)
    then show ?thesis by (rule keeps_returned [OF _ assms(2)]) (use CnCleanup in \<open>auto simp: idle_connect\<close>)
  next
    case False
    then have "\<exists>m. q = Connecting who cfg r (CnTry m ss)" "cnHandles s' = cnHandles s" "cnClients s' = cnClients s"
      using assms(1) CnCleanup by (auto simp: connect_defs Let_def split: prod.splits)
    then show ?thesis using CnCleanup by (intro keeps_quiet [OF assms(2)]) (auto simp: holds_def good_proc_def)
  qed
next
  case (CnTry n ss)
  then show ?thesis using keeps_try assms by blast
next
  case (CnDialing n ss h)
  then show ?thesis using keeps_dialing assms by blast
next
  case (CnWon n h)
  then show ?thesis using keeps_won assms by blast
next
  case (CnDuplicate h)
  then have "returned who False (retire h s) = (q, s')" using assms(1) by (simp add: connect_defs)
  note a = returned_all [OF this] and b = returned_holds [OF this]
  from CnDuplicate show ?thesis using a b by (intro keeps_retired [OF assms(2), where h = h]) (auto simp: holds_def)
qed

lemma idle_proc:
  assumes "proc_step ans p s = (q, s')" "case p of LostFlags i \<Rightarrow> True | LostMark i \<Rightarrow> True | DelRow i \<Rightarrow> True
     | UpgradeStart i \<Rightarrow> True | UpgradeConfig i \<Rightarrow> True | Finished \<Rightarrow> True | _ \<Rightarrow> False"
  shows "good_proc (cnHandles s) q \<and> cnHandles s' = cnHandles s \<and> cnClients s' = cnClients s \<and> (\<forall>h. \<not> holds p h)"
  using assms by (auto simp: lost_flags_def lost_mark_def delete_row_def upgrade_config_def good_proc_def holds_def
      split: process.splits option.splits if_splits prod.splits bool.splits)

lemma keeps_proc:
  assumes "proc_step ans p s = (q, s')" "sane s" "good_proc (cnHandles s) p"
    and "\<And>i h k. p = DiscForget i h k \<Longrightarrow> cnClients s i = None \<or> cnClients s i = Some h"
  shows "keeps_clients p s q s'"
proof (cases p)
  case (Connecting who cfg r pc)
  then show ?thesis using keeps_connect assms by simp
next
  case (Backoff i attempt delay)
  have "good_proc (cnHandles s) q" "cnHandles s' = cnHandles s" "cnClients s' = cnClients s"
    using assms(1) Backoff
    by (auto simp: reconnectWithBackoff_def stop_reconnect_def good_proc_def split: if_splits option.splits)
  then show ?thesis using Backoff by (intro keeps_quiet [OF assms(2)]) (auto simp: holds_def)
next
  case (LostDecide i)
  have "(cnHandles s' = cnHandles s \<or> (\<exists>h. cnHandles s' = cnHandles (retire h s))) \<and> cnClients s' = cnClients s"
    using assms(1) LostDecide by (auto simp: lost_decide_def stop_reconnect_def Let_def split: if_splits option.splits)
  then consider "cnHandles s' = cnHandles s" "cnClients s' = cnClients s" | h where "cnHandles s' = cnHandles (retire h s)" "cnClients s' = cnClients s"
    by blast
  moreover have "good_proc hs q" for hs
    using assms(1) LostDecide by (auto simp: lost_decide_def stop_reconnect_def Let_def good_proc_def split: if_splits option.splits)
  moreover have "\<not> holds p g" for g using LostDecide by (simp add: holds_def)
  ultimately show ?thesis
    using keeps_quiet [OF assms(2), of q s' p] keeps_retired [OF assms(2), of s' q _ p] by cases blast+
next
  case (DiscStop i h k)
  then show ?thesis using assms
    by (intro keeps_retired [OF assms(2), where h = h]) (auto simp: good_proc_def holds_def retire_handles)
next
  case (DiscForget i h k)
  have "\<not> active s h" using assms(2,3) DiscForget nth_mem [of h "cnHandles s"] by (auto simp: active_def sane_def good_proc_def)
  then show ?thesis using assms DiscForget
    by (intro keeps_removed [OF assms(2), where i = i]) (auto simp: disconnected_def good_proc_def holds_def split: option.splits)
next
  case (DelFlag i)
  show ?thesis
  proof (cases "cnClients s i")
    case None
    then show ?thesis using assms DelFlag by (intro keeps_quiet [OF assms(2)]) (auto simp: delete_flag_def good_proc_def holds_def)
  next
    case (Some h)
    then show ?thesis using assms DelFlag
      by (intro keeps_removed [OF assms(2), where i = i]) (auto simp: delete_flag_def good_proc_def holds_def sane_def)
  qed
next
  case (DelStop i h)
  then show ?thesis using assms
    by (intro keeps_retired [OF assms(2), where h = h]) (auto simp: good_proc_def holds_def)
next
  case (DiscFlag i k)
  then show ?thesis using assms
    by (intro keeps_quiet [OF assms(2)])
      (auto simp: disconnect_flag_def disconnected_def good_proc_def holds_def sane_def split: option.splits if_splits)
qed (use keeps_quiet [OF assms(2)] idle_proc [OF assms(1)] in \<open>force+\<close>)

section \<open>Every connected client is accounted for\<close>

definition tracked :: "conn \<Rightarrow> nat \<Rightarrow> bool" where
  "tracked s h \<longleftrightarrow> cnClients s (hNetwork (cnHandles s ! h)) = Some h \<or> (\<exists>p \<in> set (cnProcs s). holds p h)"

definition accounted :: "conn \<Rightarrow> bool" where
  "accounted s \<longleftrightarrow> sane s \<and> list_all (good_proc (cnHandles s)) (cnProcs s) \<and> (\<forall>h. active s h \<longrightarrow> tracked s h)"

text \<open>No \<open>DisconnectNetwork\<close> drops the client of a later connect.\<close>

definition clean_step :: "conn_action \<Rightarrow> conn \<Rightarrow> bool" where
  "clean_step a s = (case a of Run p ans \<Rightarrow> p < length (cnProcs s) \<longrightarrow> (case cnProcs s ! p of
       DiscForget i h k \<Rightarrow> cnClients s i = None \<or> cnClients s i = Some h | _ \<Rightarrow> True) | _ \<Rightarrow> True)"

lemma tracked_mono:
  assumes "tracked s h" "cnClients s' = cnClients s" "hNetwork (cnHandles s' ! h) = hNetwork (cnHandles s ! h)"
    and "set (cnProcs s) \<subseteq> set (cnProcs s')"
  shows "tracked s' h"
  using assms by (auto simp: tracked_def)

lemma accounted_quiet:
  assumes "accounted s" "cnHandles s' = cnHandles s" "cnClients s' = cnClients s" "cnProcs s' = cnProcs s"
  shows "accounted s'"
  using assms sane_same [of s s'] active_same [of s' s] by (simp add: accounted_def tracked_def)

lemma accounted_spawn:
  assumes "accounted s" "good_proc (cnHandles s) p" shows "accounted (spawn p s)"
proof -
  have "tracked s h \<Longrightarrow> tracked (spawn p s) h" for h by (auto simp: tracked_def)
  then show ?thesis using assms sane_same [of s "spawn p s"] active_same [of "spawn p s" s] by (simp add: accounted_def)
qed

lemma accounted_handle:
  assumes "accounted s" "hNetwork (f (cnHandles s ! h)) = hNetwork (cnHandles s ! h)"
    and "hAbandoned (cnHandles s ! h) \<Longrightarrow> hAbandoned (f (cnHandles s ! h))" "hDialing (f (cnHandles s ! h)) = hDialing (cnHandles s ! h)"
    and "hConnected (f (cnHandles s ! h)) \<Longrightarrow> \<not> hAbandoned (f (cnHandles s ! h))"
    and "hConnected (f (cnHandles s ! h)) \<Longrightarrow> hConnected (cnHandles s ! h) \<or> hDialing (cnHandles s ! h)"
  shows "accounted (set_handle h f s)"
proof (cases "h < length (cnHandles s)")
  case True
  let ?s = "set_handle h f s"
  have e: "cnHandles ?s = (cnHandles s)[h := f (cnHandles s ! h)]" using True by (simp add: set_handle_def)
  have x: "extends_handles (cnHandles s) (cnHandles ?s)" unfolding e by (rule extends_update) (use assms in auto)
  have sane: "sane ?s" using assms(1) by (intro sane_update [OF _ _ e]) (use assms in \<open>auto simp: accounted_def\<close>)
  have act: "active s g" if "active ?s g" for g
  proof (cases "g = h")
    case True
    have "hConnected (cnHandles s ! h) \<longrightarrow> \<not> hAbandoned (cnHandles s ! h)"
      using assms(1) \<open>h < length (cnHandles s)\<close> by (simp add: accounted_def sane_def)
    then show ?thesis using that True assms(3-6) \<open>h < length (cnHandles s)\<close> by (auto simp: active_def e)
  next
    case False
    then show ?thesis using that by (simp add: active_def e)
  qed
  have "tracked ?s g" if "active ?s g" for g
  proof (rule tracked_mono)
    show "tracked s g" using act [OF that] assms(1) by (simp add: accounted_def)
    show "hNetwork (cnHandles ?s ! g) = hNetwork (cnHandles s ! g)" using x that by (simp add: extends_handles_def active_def)
  qed simp_all
  moreover have "list_all (good_proc (cnHandles ?s)) (cnProcs ?s)"
    using assms(1) good_extends [OF _ x] by (auto simp: accounted_def list_all_iff)
  ultimately show ?thesis using sane by (simp add: accounted_def)
qed (use assms(1) in \<open>simp add: set_handle_def\<close>)

lemma accounted_run:
  assumes "accounted s" "p < length (cnProcs s)" "proc_step ans (cnProcs s ! p) s = (q, s')" "clean_step (Run p ans) s"
  shows "accounted (s'\<lparr>cnProcs := (cnProcs s')[p := q]\<rparr>)"
proof -
  let ?t = "s'\<lparr>cnProcs := (cnProcs s')[p := q]\<rparr>"
  have good: "good_proc (cnHandles s) (cnProcs s ! p)" "sane s" using assms(1,2) by (auto simp: accounted_def list_all_iff)
  have k: "keeps_clients (cnProcs s ! p) s q s'"
    by (rule keeps_proc [OF assms(3) good(2,1)]) (use assms(2,4) in \<open>auto simp: clean_step_def\<close>)
  have procs: "cnProcs s' = cnProcs s" using proc_entry [OF assms(3)] by simp
  have "list_all (good_proc (cnHandles s')) ((cnProcs s)[p := q])"
    unfolding list_all_iff
  proof
    fix x assume "x \<in> set ((cnProcs s)[p := q])"
    then consider "x = q" | "x \<in> set (cnProcs s)" using set_update_subset_insert [of "cnProcs s" p q] by blast
    then show "good_proc (cnHandles s') x"
      using k assms(1) good_extends [of "cnHandles s" x "cnHandles s'"] by cases (auto simp: accounted_def keeps_clients_def list_all_iff)
  qed
  moreover have "sane ?t" using k sane_same [of s' ?t] by (simp add: keeps_clients_def)
  moreover have "tracked ?t h" if "active ?t h" for h
  proof -
    have a: "active s' h" using that active_same [of ?t s'] by simp
    have mem: "q \<in> set ((cnProcs s)[p := q])" using assms(2) by (rule set_update_memI)
    show ?thesis
    proof (cases "active s h")
      case False
      then have "holds q h" using k a by (auto simp: keeps_clients_def)
      then show ?thesis using mem procs by (auto simp: tracked_def)
    next
      case True
      then have net: "hNetwork (cnHandles s' ! h) = hNetwork (cnHandles s ! h)"
        using k by (simp add: keeps_clients_def extends_handles_def active_def)
      have "tracked s h" using True assms(1) by (simp add: accounted_def)
      then consider "cnClients s (hNetwork (cnHandles s ! h)) = Some h \<or> holds (cnProcs s ! p) h"
        | j where "j < length (cnProcs s)" "j \<noteq> p" "holds (cnProcs s ! j) h"
        unfolding tracked_def by (metis in_set_conv_nth)
      then show ?thesis
      proof cases
        case 1
        then have "cnClients s' (hNetwork (cnHandles s ! h)) = Some h \<or> holds q h" using k a True unfolding keeps_clients_def by blast
        then show ?thesis using mem procs net by (auto simp: tracked_def)
      next
        case 2
        then have "(cnProcs s)[p := q] ! j = cnProcs s ! j" "j < length ((cnProcs s)[p := q])" by simp_all
        then have "cnProcs s ! j \<in> set ((cnProcs s)[p := q])" by (metis nth_mem)
        then show ?thesis using 2(3) procs by (auto simp: tracked_def)
      qed
    qed
  qed
  ultimately show ?thesis using procs by (simp add: accounted_def)
qed

lemma accounted_step:
  assumes "accounted s" "clean_step a s" shows "accounted (conn_step a s)"
proof (cases a)
  case (Run p ans)
  obtain q s' where st: "proc_step ans (cnProcs s ! p) s = (q, s')" by fastforce
  then show ?thesis using accounted_run [OF assms(1) _ st] assms Run by simp
next
  case (LinkUp h)
  have "hConnected (cnHandles s ! h) \<longrightarrow> \<not> hAbandoned (cnHandles s ! h)" if "h < length (cnHandles s)"
    using assms(1) that by (simp add: accounted_def sane_def)
  then have "accounted (link_up h s)" unfolding link_up_def
    by (cases "h < length (cnHandles s)", intro accounted_handle [OF assms(1)]) (auto simp: assms(1) set_handle_def)
  then show ?thesis using LinkUp by simp
next
  case (LinkDown h)
  have "accounted (set_handle h (\<lambda>c. c\<lparr>hLink := False, hConnected := False, hAbandoned := True\<rparr>) s)"
    by (rule accounted_handle [OF assms(1)]) simp_all
  then show ?thesis using LinkDown assms(1) by (simp add: link_down_def accounted_spawn good_proc_def)
next
  case (AuthFails h)
  have "hConnected (cnHandles s ! h) \<longrightarrow> \<not> hAbandoned (cnHandles s ! h)" if "h < length (cnHandles s)"
    using assms(1) that by (simp add: accounted_def sane_def)
  then have "accounted (set_handle h (\<lambda>c. c\<lparr>hAuthFailed := True\<rparr>) s)"
    by (cases "h < length (cnHandles s)", intro accounted_handle [OF assms(1)]) (auto simp: assms(1) set_handle_def)
  then show ?thesis using AuthFails by simp
next
  case (STSAdvertised i host secure port current duration)
  obtain u up db where r: "handleSTSPolicy i host secure port current duration (cnNow s) (cnUpgrades s, cnDB s) = (u, up, db)"
    by (cases "handleSTSPolicy i host secure port current duration (cnNow s) (cnUpgrades s, cnDB s)") auto
  have "accounted (s\<lparr>cnUpgrades := up, cnDB := db\<rparr>)" using accounted_quiet [OF assms(1)] by simp
  then show ?thesis using r STSAdvertised by (simp add: sts_advertised_def Let_def accounted_spawn good_proc_def)
qed (auto simp: saved_connect_def good_proc_def intro!: accounted_spawn assms(1) intro: accounted_quiet [OF assms(1)]
    split: option.split prod.split)

primrec clean_run :: "conn_action list \<Rightarrow> conn \<Rightarrow> bool" where
  "clean_run [] s = True"
| "clean_run (a # as) s = (clean_step a s \<and> clean_run as (conn_step a s))"

lemma accounted_clean: "accounted s \<Longrightarrow> clean_run as s \<Longrightarrow> accounted (conn_run as s)"
  unfolding conn_run_def by (induction as arbitrary: s) (auto intro: accounted_step)

lemma accounted_fresh: "accounted (fresh_conn db cs)"
  by (simp add: accounted_def sane_def active_def fresh_conn_def)

text \<open>
  C2: No connection outlives the application's knowledge of it: in every interleaving in which no
  \<open>DisconnectNetwork\<close> forgets the client of a later connect, a client that is connected is the one in
  \<open>ircClients\<close> for its network, or a goroutine still holds it and will store it or retire it. So a
  timeout, a duplicate, a stale client, a lost link and a deletion leave no connected client behind.
\<close>

theorem live_clients_tracked:
  assumes "clean_run as (fresh_conn db cs)" "is_connected (conn_run as (fresh_conn db cs)) h"
  shows "tracked (conn_run as (fresh_conn db cs)) h"
  using accounted_clean [OF accounted_fresh assms(1)] assms(2) by (auto simp: accounted_def active_def is_connected_def)

end
