(* ===== verification/Connection_Runs.thy ===== *)
theory Connection_Runs
  imports Connection_Props
begin

text \<open>
  Whole runs of the connection manager: the reconnect loop's schedule, why every process ends, the
  order in which the servers of a network are tried, a connect that nothing disturbs, the STS policy
  of a host, and two races that leave the application and its connections apart.
\<close>

section \<open>The reconnect loop\<close>

text \<open>The sleep after so many attempts: doubled from five seconds, at most five minutes.\<close>

definition scheduled_delay :: "nat \<Rightarrow> nat" where
  "scheduled_delay attempt = min maxDelay (firstDelay * 2 ^ (attempt - 2))"

definition on_schedule :: "process \<Rightarrow> bool" where
  "on_schedule p \<longleftrightarrow> (case p of
     Backoff i attempt delay \<Rightarrow> 1 \<le> attempt \<and> attempt \<le> Suc maxAttempts \<and> delay = scheduled_delay attempt
   | Connecting (ByBackoff i attempt delay) cfg r pc \<Rightarrow> 1 \<le> attempt \<and> attempt \<le> maxAttempts \<and> delay = scheduled_delay (Suc attempt)
   | _ \<Rightarrow> True)"

lemma next_scheduled: "1 \<le> attempt \<Longrightarrow> next_delay attempt (scheduled_delay attempt) = scheduled_delay (Suc attempt)"
proof (cases "attempt = 1")
  case False
  assume "1 \<le> attempt"
  with False have "Suc attempt - 2 = Suc (attempt - 2)" "1 < attempt" by auto
  then show ?thesis by (auto simp: next_delay_def scheduled_delay_def min_def)
qed (simp add: next_delay_def scheduled_delay_def)

lemma returned_schedule: "returned who ok s = (q, s') \<Longrightarrow> on_schedule (Connecting who cfg r pc) \<Longrightarrow> on_schedule q"
  by (auto simp: returned_def on_schedule_def split: caller.splits if_splits)

lemma connecting_schedule: "on_schedule (Connecting who cfg r pc) \<Longrightarrow> on_schedule (Connecting who cfg r pc')"
  by (simp add: on_schedule_def split: caller.splits)

lemma schedule_connect:
  assumes "connectNetwork ans who cfg r pc s = (q, s')" "on_schedule (Connecting who cfg r pc)"
  shows "on_schedule q"
proof -
  have r: "returned who ok t = (q, s') \<Longrightarrow> on_schedule q" for ok t using returned_schedule assms(2) by blast
  show ?thesis using assms(1) connecting_schedule [OF assms(2)]
    by (auto simp: connect_defs Let_def dest!: r split: connect_pc.splits prod.splits option.splits if_splits list.splits)
qed

lemma schedule_proc:
  assumes "proc_step ans p s = (q, s')" "on_schedule p"
  shows "on_schedule q"
proof (cases p)
  case (Connecting who cfg r pc)
  then show ?thesis using schedule_connect assms by simp
next
  case (Backoff i attempt delay)
  then show ?thesis using assms next_scheduled [of attempt]
    by (auto simp: reconnectWithBackoff_def stop_reconnect_def on_schedule_def split: if_splits option.splits)
next
  case (LostDecide i)
  then show ?thesis using assms
    by (auto simp: lost_decide_def stop_reconnect_def on_schedule_def scheduled_delay_def maxDelay_def firstDelay_def Let_def
        split: if_splits option.splits)
qed (use assms in \<open>auto simp: lost_flags_def lost_mark_def disconnect_flag_def delete_flag_def disconnected_def upgrade_config_def
    stop_reconnect_def on_schedule_def split: if_splits option.splits\<close>)

lemma procs_step:
  assumes "\<And>ans p s q s'. proc_step ans p s = (q, s') \<Longrightarrow> P p \<Longrightarrow> P q" "list_all P (cnProcs s)"
    and "\<And>cfg. P (Connecting ByUser cfg False CnBegin)" "\<And>i. P (LostFlags i)" "\<And>i. P (DiscFlag i None)" "\<And>i. P (DelFlag i)"
    "\<And>i. P (UpgradeStart i)"
  shows "list_all P (cnProcs (conn_step a s))"
proof (cases a)
  case (Run p ans)
  obtain q s' where st: "proc_step ans (cnProcs s ! p) s = (q, s')" by fastforce
  have "P q \<and> cnProcs s' = cnProcs s" if "p < length (cnProcs s)"
    using assms(1) [OF st] assms(2) proc_entry [OF st] that by (simp add: list_all_length)
  then show ?thesis using Run st assms(2) set_update_subset_insert [of "cnProcs s" p q] by (auto simp: list_all_iff)
next
  case (STSAdvertised i host secure port current duration)
  then show ?thesis using assms(2,7) by (simp add: sts_advertised_def Let_def split: prod.splits)
qed (use assms in \<open>simp_all add: saved_connect_def link_up_def link_down_def split: option.split prod.split\<close>)

lemma procs_run:
  assumes "\<And>a t. list_all P (cnProcs t) \<Longrightarrow> list_all P (cnProcs (conn_step a t))"
  shows "list_all P (cnProcs s) \<Longrightarrow> list_all P (cnProcs (conn_run as s))"
  unfolding conn_run_def by (induction as arbitrary: s) (simp_all add: assms)


section \<open>Every process ends\<close>

text \<open>What a process can still do: the calls ahead of it, the regions of its call, the servers left.\<close>

definition calls_left :: "process \<Rightarrow> nat" where
  "calls_left p = (case p of
     Connecting who cfg r pc \<Rightarrow> (case who of ByUser \<Rightarrow> 1 | ByUpgrade i \<Rightarrow> 1
       | ByBackoff i attempt delay \<Rightarrow> (if attempt \<le> maxAttempts then 2 * (Suc maxAttempts - attempt) + 1 else 3))
   | Backoff i attempt delay \<Rightarrow> 2 * (Suc maxAttempts - attempt) + 2
   | LostFlags i \<Rightarrow> 102 | LostMark i \<Rightarrow> 101 | LostDecide i \<Rightarrow> 100
   | DiscFlag i k \<Rightarrow> 4 | DiscStop i h k \<Rightarrow> 3 | DiscForget i h k \<Rightarrow> 2
   | DelFlag i \<Rightarrow> 4 | DelStop i h \<Rightarrow> 3 | DelRow i \<Rightarrow> 2
   | UpgradeStart i \<Rightarrow> 6 | UpgradeConfig i \<Rightarrow> 5 | Finished \<Rightarrow> 0)"

definition regions_left :: "process \<Rightarrow> nat" where
  "regions_left p = (case p of Connecting who cfg r pc \<Rightarrow> (case pc of
       CnBegin \<Rightarrow> 9 | CnGuard n ss \<Rightarrow> 8 | CnStale n ss h \<Rightarrow> 7 | CnCleanup n ss \<Rightarrow> 6 | CnTry n ss \<Rightarrow> 5 | CnDialing n ss h \<Rightarrow> 5
     | CnWon n h \<Rightarrow> 4 | CnDuplicate h \<Rightarrow> 3) | _ \<Rightarrow> 0)"

definition servers_left :: "process \<Rightarrow> nat" where
  "servers_left p = (case p of Connecting who cfg r pc \<Rightarrow> (case pc of
       CnTry n ss \<Rightarrow> 2 * length ss | CnDialing n ss h \<Rightarrow> 2 * length ss + 1 | _ \<Rightarrow> 0) | _ \<Rightarrow> 0)"

abbreviation "process_order \<equiv> measures [calls_left, regions_left, servers_left]"

lemma returned_less: "returned who ok s = (q, s') \<Longrightarrow> (q, Connecting who cfg r pc) \<in> process_order"
  by (auto simp: returned_def calls_left_def split: caller.splits if_splits)

lemma progress_connect:
  assumes "connectNetwork ans who cfg r pc s = (q, s')" "q \<noteq> Connecting who cfg r pc"
  shows "(q, Connecting who cfg r pc) \<in> process_order"
proof -
  have r: "returned who ok t = (q, s') \<Longrightarrow> (q, Connecting who cfg r pc) \<in> process_order" for ok t using returned_less by blast
  show ?thesis using assms
    by (cases pc) (auto simp: connect_defs Let_def calls_left_def regions_left_def servers_left_def dest!: r
        split: prod.splits option.splits if_splits list.splits)
qed

lemma progress_proc:
  assumes "proc_step ans p s = (q, s')" "q \<noteq> p"
  shows "(q, p) \<in> process_order"
proof (cases p)
  case (Connecting who cfg r pc)
  then show ?thesis using progress_connect assms by simp
qed (use assms in \<open>auto simp: reconnectWithBackoff_def lost_flags_def lost_mark_def lost_decide_def stop_reconnect_def disconnect_flag_def
    delete_flag_def disconnected_def upgrade_config_def calls_left_def maxAttempts_def Let_def split: if_splits option.splits\<close>)


section \<open>Trying the servers\<close>

lemma run_step: "p < length (cnProcs s) \<Longrightarrow> proc_step a (cnProcs s ! p) s = (q, s') \<Longrightarrow>
    conn_step (Run p a) s = s'\<lparr>cnProcs := (cnProcs s')[p := q]\<rparr>"
  by simp

lemma conn_run_simps [simp]: "conn_run [] s = s" "conn_run (a # as) s = conn_run as (conn_step a s)"
  "conn_run (as @ bs) s = conn_run bs (conn_run as s)"
  by (simp_all add: conn_run_def)

text \<open>The parts of the state a trial of a server leaves as they are.\<close>

definition untouched :: "conn \<Rightarrow> conn \<Rightarrow> bool" where
  "untouched s s' \<longleftrightarrow> cnClients s' = cnClients s \<and> cnConnecting s' = cnConnecting s \<and> cnIntentional s' = cnIntentional s
     \<and> cnDB s' = cnDB s \<and> cnSecrets s' = cnSecrets s"

lemma untouched_trans: "untouched s t \<Longrightarrow> untouched t u \<Longrightarrow> untouched s u" by (simp add: untouched_def)

lemma untouched_simps [simp]: "untouched s s" "untouched s (writeNetworkStatus i x t) = untouched s t"
  "untouched s (set_handle h f t) = untouched s t" "untouched s (t\<lparr>cnProcs := ps\<rparr>) = untouched s t"
  "untouched s (t\<lparr>cnHandles := hs\<rparr>) = untouched s t" "untouched s (t\<lparr>cnDials := ds\<rparr>) = untouched s t"
  by (simp_all add: untouched_def writeNetworkStatus_def set_handle_def)

definition fresh_handle :: "nat \<Rightarrow> handle" where
  "fresh_handle i = \<lparr>hNetwork = i, hDialing = True, hLink = False, hConnected = False, hAbandoned = False, hAuthFailed = False\<rparr>"

lemma server_host: "nrAddress (snd (server_network s n srv)) = srAddress srv"
  by (simp add: server_network_def applySTS_def hydrateNetworkSecrets_def Let_def split: option.split prod.split)

text \<open>One server is dialled.\<close>

lemma dials_next:
  assumes "p < length (cnProcs s)" "cnProcs s ! p = Connecting who cfg r (CnTry n (srv # rest))"
  shows "\<exists>t d. conn_step (Run p a) s = t \<and> untouched s t \<and> cnHandles t = cnHandles s @ [fresh_handle (nrID n)]
    \<and> cnProcs t = (cnProcs s)[p := Connecting who cfg r (CnDialing n rest (length (cnHandles s)))]
    \<and> cnDials t = cnDials s @ [d] \<and> dlHost d = srAddress srv"
proof -
  obtain h t where d: "dial_server n srv s = (h, t)" by fastforce
  have f: "h = length (cnHandles s)" "cnProcs t = cnProcs s" "cnHandles t = cnHandles s @ [fresh_handle (nrID n)]"
    using dial_fields [OF d] by (simp_all add: fresh_handle_def)
  have t: "t = snd (dial_server n srv s)" using d by simp
  have u: "untouched s t" unfolding t by (simp add: dial_server_def Let_def case_prod_beta)
  have dl: "\<exists>x. cnDials t = cnDials s @ [x] \<and> dlHost x = srAddress srv"
    unfolding t by (simp add: dial_server_def Let_def case_prod_beta server_host)
  have "proc_step a (cnProcs s ! p) s = (Connecting who cfg r (CnDialing n rest h), t)"
    using d assms(2) by (simp add: connect_defs Let_def)
  note st = run_step [OF assms(1) this]
  show ?thesis unfolding st using f u dl by auto
qed

lemma try_bad:
  assumes "p < length (cnProcs s)" "cnProcs s ! p = Connecting who cfg r (CnTry n (srv # rest))" "a \<noteq> Fine"
  shows "\<exists>t d c. conn_run [Run p Fine, Run p a] s = t \<and> untouched s t \<and> cnHandles t = cnHandles s @ [c] \<and> \<not> hConnected c
    \<and> cnProcs t = (cnProcs s)[p := Connecting who cfg r (CnTry n rest)] \<and> cnDials t = cnDials s @ [d] \<and> dlHost d = srAddress srv"
proof -
  let ?h = "length (cnHandles s)"
  obtain t d where t: "conn_step (Run p Fine) s = t" "untouched s t" "cnHandles t = cnHandles s @ [fresh_handle (nrID n)]"
    "cnProcs t = (cnProcs s)[p := Connecting who cfg r (CnDialing n rest ?h)]" "cnDials t = cnDials s @ [d]" "dlHost d = srAddress srv"
    using dials_next [OF assms(1,2), of Fine] by blast
  have p: "p < length (cnProcs t)" "cnProcs t ! p = Connecting who cfg r (CnDialing n rest ?h)" using t(4) assms(1) by simp_all
  have off: "\<not> is_connected t ?h" using t(3) by (simp add: is_connected_def fresh_handle_def)
  let ?u = "writeNetworkStatus (nrID n) ''Failed to connect'' (if a = TimedOut then retire ?h t else end_dial ?h t)"
  have "proc_step a (cnProcs t ! p) t = (Connecting who cfg r (CnTry n rest), ?u)"
    using p(2) off assms(3) by (cases a) (simp_all add: connect_defs Let_def)
  note st = run_step [OF p(1) this]
  have run: "conn_run [Run p Fine, Run p a] s = ?u\<lparr>cnProcs := (cnProcs ?u)[p := Connecting who cfg r (CnTry n rest)]\<rparr>"
    using st t(1) by simp
  have h: "\<exists>c. cnHandles ?u = cnHandles s @ [c] \<and> \<not> hConnected c"
    using t(3) by (simp add: retire_handles end_dial_handles fresh_handle_def)
  have "untouched t ?u" by (simp add: retire_def end_dial_def)
  then have u: "untouched s ?u" by (rule untouched_trans [OF t(2)])
  have f: "cnProcs ?u = cnProcs t" "cnDials ?u = cnDials t" by simp_all
  show ?thesis unfolding run using h u f t(4,5,6) by simp
qed

definition tries :: "nat \<Rightarrow> answer list \<Rightarrow> conn_action list" where
  "tries p answers = concat (map (\<lambda>a. [Run p Fine, Run p a]) answers)"

lemma tries_bad:
  assumes "p < length (cnProcs s)" "cnProcs s ! p = Connecting who cfg r (CnTry n (bad @ rest))" "length answers = length bad" "Fine \<notin> set answers"
  shows "\<exists>t ds cs. conn_run (tries p answers) s = t \<and> untouched s t \<and> cnHandles t = cnHandles s @ cs \<and> length cs = length bad
    \<and> list_all (\<lambda>c. \<not> hConnected c) cs \<and> cnProcs t = (cnProcs s)[p := Connecting who cfg r (CnTry n rest)]
    \<and> cnDials t = cnDials s @ ds \<and> map dlHost ds = map srAddress bad"
  using assms
proof (induction bad arbitrary: s answers)
  case Nil
  then have "(cnProcs s)[p := Connecting who cfg r (CnTry n rest)] = cnProcs s" by (metis append_Nil list_update_id)
  then show ?case using Nil by (simp add: tries_def)
next
  case (Cons srv bad)
  obtain a as where as: "answers = a # as" "a \<noteq> Fine" "length as = length bad" "Fine \<notin> set as"
    using Cons.prems(3,4) by (cases answers) auto
  obtain t d c where t: "conn_run [Run p Fine, Run p a] s = t" "untouched s t" "cnHandles t = cnHandles s @ [c]" "\<not> hConnected c"
    "cnProcs t = (cnProcs s)[p := Connecting who cfg r (CnTry n (bad @ rest))]" "cnDials t = cnDials s @ [d]" "dlHost d = srAddress srv"
    using try_bad [OF Cons.prems(1), of who cfg r n srv "bad @ rest" a] Cons.prems(2) as(2) by auto
  have pt: "p < length (cnProcs t)" "cnProcs t ! p = Connecting who cfg r (CnTry n (bad @ rest))" using t(5) Cons.prems(1) by simp_all
  obtain u ds cs where u: "conn_run (tries p as) t = u" "untouched t u" "cnHandles u = cnHandles t @ cs" "length cs = length bad"
    "list_all (\<lambda>c. \<not> hConnected c) cs" "cnProcs u = (cnProcs t)[p := Connecting who cfg r (CnTry n rest)]"
    "cnDials u = cnDials t @ ds" "map dlHost ds = map srAddress bad"
    using Cons.IH [OF pt as(3,4)] by auto
  have run: "conn_run (tries p answers) s = u" using u(1) t(1) as(1) by (simp add: tries_def)
  show ?case
    by (intro exI [of _ u] exI [of _ "d # ds"] exI [of _ "c # cs"] conjI) (use run t u in \<open>auto intro: untouched_trans\<close>)
qed

text \<open>The state after a connect has stored its client.\<close>

definition connected_by :: "nat \<Rightarrow> nat \<Rightarrow> conn \<Rightarrow> conn \<Rightarrow> bool" where
  "connected_by p i s s' \<longleftrightarrow> (\<exists>c. cnHandles s' = cnHandles s @ [c] \<and> hConnected c \<and> hLink c \<and> \<not> hAbandoned c \<and> hNetwork c = i)
     \<and> cnClients s' = (cnClients s)(i \<mapsto> length (cnHandles s)) \<and> cnConnecting s' = (cnConnecting s)(i := False)
     \<and> cnProcs s' = (cnProcs s)[p := Finished] \<and> cnIntentional s' = cnIntentional s \<and> cnDB s' = cnDB s \<and> cnSecrets s' = cnSecrets s"

lemma returned_ok: "\<exists>t. returned who True s = (Finished, t) \<and> untouched s t \<and> cnHandles t = cnHandles s \<and> cnProcs t = cnProcs s
    \<and> cnDials t = cnDials s"
  by (cases who) (simp_all add: returned_def writeNetworkStatus_def untouched_def)

lemma try_good:
  assumes "p < length (cnProcs s)" "cnProcs s ! p = Connecting who cfg r (CnTry n (srv # rest))" "\<not> slot_connected s (nrID n)"
  shows "\<exists>u d. conn_run [Run p Fine, LinkUp (length (cnHandles s)), Run p Fine, Run p Fine] s = u \<and> connected_by p (nrID n) s u
    \<and> cnDials u = cnDials s @ [d] \<and> dlHost d = srAddress srv"
proof -
  let ?h = "length (cnHandles s)" and ?go = "Connecting who cfg r"
  obtain t d where t: "conn_step (Run p Fine) s = t" "untouched s t" "cnHandles t = cnHandles s @ [fresh_handle (nrID n)]"
    "cnProcs t = (cnProcs s)[p := ?go (CnDialing n rest ?h)]" "cnDials t = cnDials s @ [d]" "dlHost d = srAddress srv"
    using dials_next [OF assms(1,2), of Fine] by blast
  let ?c = "(fresh_handle (nrID n))\<lparr>hLink := True, hConnected := True\<rparr>"
  have t1: "cnHandles (link_up ?h t) = cnHandles s @ [?c]" "untouched s (link_up ?h t)" "cnProcs (link_up ?h t) = cnProcs t"
    "cnDials (link_up ?h t) = cnDials t"
    using t(2,3) by (simp_all add: link_up_def set_handle_def fresh_handle_def untouched_def)
  let ?t = "link_up ?h t"
  have p1: "p < length (cnProcs ?t)" "cnProcs ?t ! p = ?go (CnDialing n rest ?h)" using t1(3) t(4) assms(1) by simp_all
  have on: "is_connected ?t ?h" using t1(1) by (simp add: is_connected_def)
  have st1: "proc_step Fine (cnProcs ?t ! p) ?t = (?go (CnWon n ?h), end_dial ?h ?t)"
    using p1(2) on by (simp add: connect_defs Let_def)
  let ?v = "(end_dial ?h ?t)\<lparr>cnProcs := (cnProcs s)[p := ?go (CnWon n ?h)]\<rparr>"
  have run1: "conn_step (Run p Fine) ?t = ?v" using run_step [OF p1(1) st1] t1(3) t(4) by simp
  have v: "cnHandles ?v = cnHandles s @ [?c\<lparr>hDialing := False\<rparr>]" "untouched s ?v"
    using t1(1,2) by (simp_all add: end_dial_handles) (simp add: end_dial_def)
  have p2: "p < length (cnProcs ?v)" "cnProcs ?v ! p = ?go (CnWon n ?h)" using assms(1) by simp_all
  have slot: "\<not> (cnClients ?v (nrID n) \<noteq> Some ?h \<and> slot_connected ?v (nrID n))"
  proof
    assume "cnClients ?v (nrID n) \<noteq> Some ?h \<and> slot_connected ?v (nrID n)"
    moreover have "cnClients ?v = cnClients s" using v(2) by (simp add: untouched_def)
    ultimately obtain g where "cnClients s (nrID n) = Some g" "g \<noteq> ?h" "is_connected ?v g"
      by (auto simp: slot_connected_def split: option.splits)
    then show False using assms(3) v(1) by (auto simp: slot_connected_def is_connected_def nth_append less_Suc_eq)
  qed
  let ?w = "writeNetworkStatus (nrID n) ''Connected'' (?v\<lparr>cnClients := (cnClients ?v)(nrID n \<mapsto> ?h),
      cnConnecting := (cnConnecting ?v)(nrID n := False), cnReconnecting := (cnReconnecting ?v)(nrID n := False)\<rparr>)"
  obtain x where x: "returned who True ?w = (Finished, x)" "untouched ?w x" "cnHandles x = cnHandles ?w" "cnProcs x = cnProcs ?w" "cnDials x = cnDials ?w"
    using returned_ok by blast
  have st2: "proc_step Fine (cnProcs ?v ! p) ?v = (Finished, x)" unfolding p2(2) proc_step.simps connect_defs Let_def connect_pc.case if_not_P [OF slot] x(1) ..
  have run2: "conn_step (Run p Fine) ?v = x\<lparr>cnProcs := (cnProcs s)[p := Finished]\<rparr>" using run_step [OF p2(1) st2] x(4) by simp
  have w: "cnClients x = (cnClients s)(nrID n \<mapsto> ?h)" "cnConnecting x = (cnConnecting s)(nrID n := False)"
    "cnIntentional x = cnIntentional s" "cnDB x = cnDB s" "cnSecrets x = cnSecrets s" "cnHandles x = cnHandles ?v" "cnDials x = cnDials ?v"
    using x(2,3,5) v(2) by (simp_all add: untouched_def writeNetworkStatus_def)
  have "cnDials ?v = cnDials s @ [d]" using t1(4) t(5) by simp
  moreover have "connected_by p (nrID n) s (x\<lparr>cnProcs := (cnProcs s)[p := Finished]\<rparr>)"
    using w v(1) by (simp add: connected_by_def fresh_handle_def)
  moreover have "conn_run [Run p Fine, LinkUp ?h, Run p Fine, Run p Fine] s = x\<lparr>cnProcs := (cnProcs s)[p := Finished]\<rparr>"
    by (simp only: conn_run_simps t(1) conn_step.simps(8) run1 run2)
  moreover have "cnDials (x\<lparr>cnProcs := (cnProcs s)[p := Finished]\<rparr>) = cnDials s @ [d]" using w(7) \<open>cnDials ?v = cnDials s @ [d]\<close> by simp
  ultimately show ?thesis using t(6) by blast
qed

text \<open>
  C6: The servers of a network are tried in the order of its list: if the dials to the first ones fail
  or time out and the next one answers, exactly those are dialled, in that order, the client of the one
  that answered is the network's, no further server is touched and the attempt is over. Nothing is left
  of the failed dials that is connected.
\<close>

theorem servers_tried_in_order:
  assumes "p < length (cnProcs s)" "cnProcs s ! p = Connecting who cfg r (CnTry n (bad @ srv # rest))"
    and "length answers = length bad" "Fine \<notin> set answers" "\<not> slot_connected s (nrID n)"
  shows "\<exists>s' ds cs. conn_run (tries p answers @ [Run p Fine, LinkUp (length (cnHandles s) + length bad), Run p Fine, Run p Fine]) s = s'
    \<and> cnDials s' = cnDials s @ ds \<and> map dlHost ds = map srAddress bad @ [srAddress srv]
    \<and> cnClients s' (nrID n) = Some (length (cnHandles s) + length bad) \<and> GetConnectionStatus (nrID n) s'
    \<and> cnHandles s' = cnHandles s @ cs \<and> map hConnected cs = replicate (length bad) False @ [True]
    \<and> \<not> cnConnecting s' (nrID n) \<and> cnProcs s' ! p = Finished"
proof -
  obtain t ds cs where t: "conn_run (tries p answers) s = t" "untouched s t" "cnHandles t = cnHandles s @ cs" "length cs = length bad"
    "list_all (\<lambda>c. \<not> hConnected c) cs" "cnProcs t = (cnProcs s)[p := Connecting who cfg r (CnTry n (srv # rest))]"
    "cnDials t = cnDials s @ ds" "map dlHost ds = map srAddress bad"
    using tries_bad [OF assms(1-4)] by blast
  have pt: "p < length (cnProcs t)" "cnProcs t ! p = Connecting who cfg r (CnTry n (srv # rest))" using t(6) assms(1) by simp_all
  have "\<not> is_connected t g" if "cnClients s (nrID n) = Some g" for g
  proof
    assume g: "is_connected t g"
    show False
    proof (cases "g < length (cnHandles s)")
      case True
      then show False using g that assms(5) t(3) by (simp add: is_connected_def slot_connected_def nth_append)
    next
      case False
      then have "\<not> hConnected (cs ! (g - length (cnHandles s)))"
        using g t(3,5) by (auto simp: is_connected_def list_all_length)
      then show False using g t(3) False by (simp add: is_connected_def nth_append)
    qed
  qed
  then have "\<not> slot_connected t (nrID n)" using t(2) by (simp add: slot_connected_def untouched_def split: option.split)
  from try_good [OF pt this] obtain u d where u: "conn_run [Run p Fine, LinkUp (length (cnHandles t)), Run p Fine, Run p Fine] t = u"
    "connected_by p (nrID n) t u" "cnDials u = cnDials t @ [d]" "dlHost d = srAddress srv" by blast
  have len: "length (cnHandles t) = length (cnHandles s) + length bad" using t(3,4) by simp
  have run: "conn_run (tries p answers @ [Run p Fine, LinkUp (length (cnHandles s) + length bad), Run p Fine, Run p Fine]) s = u"
    using u(1) t(1) len by simp
  obtain c where c: "cnHandles u = cnHandles t @ [c]" "hConnected c" using u(2) by (auto simp: connected_by_def)
  have cl: "cnClients u (nrID n) = Some (length (cnHandles s) + length bad)" using u(2) len by (simp add: connected_by_def)
  have "map hConnected cs = replicate (length bad) False"
    using t(4,5) by (intro nth_equalityI) (simp_all add: list_all_length)
  moreover have "GetConnectionStatus (nrID n) u"
    using cl c len by (simp add: GetConnectionStatus_def slot_connected_def is_connected_def nth_append)
  moreover have "cnProcs u ! p = Finished" "\<not> cnConnecting u (nrID n)" using u(2) pt(1) by (simp_all add: connected_by_def)
  moreover have "cnDials u = cnDials s @ ds @ [d]" "map dlHost (ds @ [d]) = map srAddress bad @ [srAddress srv]"
    "cnHandles u = cnHandles s @ cs @ [c]" using u(3,4) t(3,7,8) c(1) by simp_all
  ultimately show ?thesis using run cl c(2)
    by (intro exI [of _ u] exI [of _ "ds @ [d]"] exI [of _ "cs @ [c]"] conjI) (simp_all only: map_append list.map not_False_eq_True)
qed

section \<open>An undisturbed connect\<close>

text \<open>The configuration is valid and saved, and the stores work.\<close>

definition ready :: "network_config \<Rightarrow> nat \<Rightarrow> config_db \<Rightarrow> file_backend option \<Rightarrow> bool" where
  "ready cfg i db cs \<longleftrightarrow> db_ok db \<and> (case cs of Some b \<Rightarrow> healthy b | None \<Rightarrow> False)
     \<and> ValidateNetworkConfig cfg (normalizeServers cfg) = None
     \<and> (case named_network (ncName cfg) db of Some m \<Rightarrow> nrID m = i | None \<Rightarrow> False)"

lemma valid_servers: "ValidateNetworkConfig cfg ss = None \<Longrightarrow> ss \<noteq> []"
  by (auto simp: ValidateNetworkConfig_def split: if_splits)

lemma begin_ok:
  assumes "ready cfg i (cnDB s) (cnSecrets s)"
  shows "\<exists>n ss db cs. connect_begin cfg r s = (Some (n, ss), s\<lparr>cnDB := db, cnSecrets := cs\<rparr>) \<and> ready cfg i db cs \<and> nrID n = i
    \<and> ss \<noteq> [] \<and> nrPassword n = [] \<and> nrSASLPassword n = None"
proof -
  obtain b m where b: "cnSecrets s = Some b" "healthy b" "db_ok (cnDB s)" and v: "ValidateNetworkConfig cfg (normalizeServers cfg) = None"
    and m: "named_network (ncName cfg) (cnDB s) = Some m" "nrID m = i"
    using assms by (auto simp: ready_def split: option.splits)
  obtain n db b' where run: "buildNetworkFromConfig FileBackend cfg (normalizeServers cfg) False (cnDB s, Some b) = (Ok n, db, Some b')"
    and h: "healthy b'" and ok: "built_ok FileBackend cfg (normalizeServers cfg) False (cnDB s) (Some b) n db (Some b')"
    using fr.built [OF b(3) valid_servers [OF v] b(2)] by blast
  obtain rows where rows: "GetServers (nrID n) db = Some rows" "map server_of_row rows = sort_key scOrder (normalizeServers cfg)"
    using ok by (auto simp: built_ok_def)
  have "rows \<noteq> []" using rows(2) valid_servers [OF v] by (metis length_0_conv length_map length_sort)
  then obtain x xs where x: "rows = x # xs" by (cases rows) auto
  have "connect_begin cfg r s = (Some (n, rows), s\<lparr>cnDB := db, cnSecrets := Some b'\<rparr>)"
    using run v m b(1) rows(1) x by (simp add: connect_begin_def Let_def)
  moreover have "ready cfg i db (Some b')" "nrID n = i" "nrPassword n = []" "nrSASLPassword n = None"
    using ok h v m by (auto simp: ready_def built_ok_def)
  ultimately show ?thesis using x by blast
qed

lemma migrate_clean: "nrPassword n = [] \<Longrightarrow> nrSASLPassword n = None \<Longrightarrow>
    migrateNetworkSecrets B n (db, cs) = (n, db, snd (Migrate B (nrID n) FieldPassword [] cs))"
  by (simp add: migrateNetworkSecrets_def Let_def derefStr_def split: prod.split)

lemma migrate_empty: "snd (Migrate B i f [] cs) = cs"
  by (simp add: Migrate_def split: option.split)

text \<open>The schedule of a connect that is left alone, its first server answering.\<close>

definition connect_script :: "nat \<Rightarrow> nat \<Rightarrow> bool \<Rightarrow> conn_action list" where
  "connect_script p h stale = [Run p Fine, Run p Fine] @ (if stale then [Run p Fine] else [])
     @ [Run p Fine, Run p Fine, LinkUp h, Run p Fine, Run p Fine]"

definition connected_as :: "nat \<Rightarrow> nat \<Rightarrow> conn \<Rightarrow> conn \<Rightarrow> bool" where
  "connected_as p i s s' \<longleftrightarrow> is_connected s' (length (cnHandles s)) \<and> length (cnHandles s') = Suc (length (cnHandles s))
     \<and> hLink (cnHandles s' ! length (cnHandles s)) \<and> hNetwork (cnHandles s' ! length (cnHandles s)) = i
     \<and> cnClients s' = (cnClients s)(i \<mapsto> length (cnHandles s)) \<and> cnConnecting s' = (cnConnecting s)(i := False)
     \<and> cnProcs s' = (cnProcs s)[p := Finished] \<and> cnIntentional s' = cnIntentional s"

lemma connects:
  assumes "p < length (cnProcs s)" "cnProcs s ! p = Connecting who cfg r CnBegin" "ready cfg i (cnDB s) (cnSecrets s)"
    and "\<not> cnConnecting s i" "\<not> slot_connected s i"
  shows "\<exists>u. conn_run (connect_script p (length (cnHandles s)) (cnClients s i \<noteq> None)) s = u \<and> connected_as p i s u
    \<and> ready cfg i (cnDB u) (cnSecrets u)"
proof -
  let ?go = "Connecting who cfg r"
  obtain n ss db cs where b: "connect_begin cfg r s = (Some (n, ss), s\<lparr>cnDB := db, cnSecrets := cs\<rparr>)" "ready cfg i db cs" "nrID n = i"
    "ss \<noteq> []" "nrPassword n = []" "nrSASLPassword n = None"
    using begin_ok [OF assms(3), of r] by blast
  let ?s1 = "s\<lparr>cnDB := db, cnSecrets := cs, cnProcs := (cnProcs s)[p := ?go (CnGuard n ss)]\<rparr>"
  have "proc_step Fine (cnProcs s ! p) s = (?go (CnGuard n ss), s\<lparr>cnDB := db, cnSecrets := cs\<rparr>)"
    unfolding assms(2) by (simp add: connect_defs Let_def b(1))
  from run_step [OF assms(1) this] have r1: "conn_step (Run p Fine) s = ?s1" by simp
  have p1: "p < length (cnProcs ?s1)" "cnProcs ?s1 ! p = ?go (CnGuard n ss)" using assms(1) by simp_all
  have "\<exists>t. conn_run (Run p Fine # (if cnClients s i \<noteq> None then [Run p Fine] else [])) ?s1 = t
      \<and> cnProcs t = (cnProcs s)[p := ?go (CnCleanup n ss)] \<and> cnClients t = (cnClients s)(i := None)
      \<and> cnConnecting t = (cnConnecting s)(i := True) \<and> length (cnHandles t) = length (cnHandles s) \<and> cnIntentional t = cnIntentional s
      \<and> cnDB t = db \<and> cnSecrets t = cs"
  proof (cases "cnClients s i")
    case None
    let ?t = "?s1\<lparr>cnConnecting := (cnConnecting s)(i := True)\<rparr>"
    have "proc_step Fine (cnProcs ?s1 ! p) ?s1 = (?go (CnCleanup n ss), ?t)"
      unfolding p1(2) using assms(4) None b(3) by (simp add: connect_defs)
    from run_step [OF p1(1) this] show ?thesis using None by (auto simp: fun_upd_idem)
  next
    case (Some h)
    let ?t = "?s1\<lparr>cnClients := (cnClients s)(i := None), cnConnecting := (cnConnecting s)(i := True)\<rparr>"
    have "\<not> is_connected ?s1 h" using assms(5) Some by (simp add: slot_connected_def is_connected_def)
    then have "proc_step Fine (cnProcs ?s1 ! p) ?s1 = (?go (CnStale n ss h), ?t)"
      unfolding p1(2) using assms(4) Some b(3) by (simp add: connect_defs)
    from run_step [OF p1(1) this] have r2: "conn_step (Run p Fine) ?s1 = ?t\<lparr>cnProcs := (cnProcs s)[p := ?go (CnStale n ss h)]\<rparr>" by simp
    let ?t2 = "?t\<lparr>cnProcs := (cnProcs s)[p := ?go (CnStale n ss h)]\<rparr>"
    have "p < length (cnProcs ?t2)" "proc_step Fine (cnProcs ?t2 ! p) ?t2 = (?go (CnCleanup n ss), retire h ?t2)"
      using assms(1) by (simp_all add: connect_defs)
    from run_step [OF this] r2 Some show ?thesis
      by (simp del: conn_step.simps) (simp add: retire_def set_handle_def)
  qed
  then obtain t where t: "conn_run (Run p Fine # (if cnClients s i \<noteq> None then [Run p Fine] else [])) ?s1 = t"
      "cnProcs t = (cnProcs s)[p := ?go (CnCleanup n ss)]" "cnClients t = (cnClients s)(i := None)"
      "cnConnecting t = (cnConnecting s)(i := True)" "length (cnHandles t) = length (cnHandles s)" "cnIntentional t = cnIntentional s"
      "cnDB t = db" "cnSecrets t = cs" by blast
  have pt: "p < length (cnProcs t)" "cnProcs t ! p = ?go (CnCleanup n ss)" using assms(1) t(2) by simp_all
  have "\<not> slot_connected t (nrID n)" using t(3) b(3) by (simp add: slot_connected_def)
  then have "proc_step Fine (cnProcs t ! p) t = (?go (CnTry n ss), t\<lparr>cnDB := db, cnSecrets := cs\<rparr>)"
    unfolding pt(2) using t(7,8) b(5,6) by (simp add: connect_defs migrate_clean migrate_empty)
  moreover have "t\<lparr>cnDB := db, cnSecrets := cs\<rparr> = t" using t(7,8) by simp
  ultimately have r3: "conn_step (Run p Fine) t = t\<lparr>cnProcs := (cnProcs t)[p := ?go (CnTry n ss)]\<rparr>" using run_step [OF pt(1)] by simp
  let ?t3 = "t\<lparr>cnProcs := (cnProcs t)[p := ?go (CnTry n ss)]\<rparr>"
  obtain srv rest where ss: "ss = srv # rest" using b(4) by (cases ss) auto
  have p3: "p < length (cnProcs ?t3)" "cnProcs ?t3 ! p = ?go (CnTry n (srv # rest))" "\<not> slot_connected ?t3 (nrID n)"
    using assms(1) t(2,3) b(3) ss by (simp_all add: slot_connected_def)
  obtain u where u: "conn_run [Run p Fine, LinkUp (length (cnHandles ?t3)), Run p Fine, Run p Fine] ?t3 = u" "connected_by p (nrID n) ?t3 u"
    using try_good [OF p3] by blast
  have "connect_script p (length (cnHandles s)) (cnClients s i \<noteq> None)
      = [Run p Fine] @ (Run p Fine # (if cnClients s i \<noteq> None then [Run p Fine] else [])) @ [Run p Fine]
        @ [Run p Fine, LinkUp (length (cnHandles ?t3)), Run p Fine, Run p Fine]"
    using t(5) by (simp add: connect_script_def)
  then have "conn_run (connect_script p (length (cnHandles s)) (cnClients s i \<noteq> None)) s = u"
    by (simp only: conn_run_simps(1,3) conn_run_simps(2) [of _ "[]"] r1 t(1) r3 u(1))
  moreover have "connected_as p i s u"
    using u(2) t(2-6) b(3) by (auto simp: connected_by_def connected_as_def is_connected_def nth_append)
  moreover have "ready cfg i (cnDB u) (cnSecrets u)" using u(2) t(7,8) b(2) by (simp add: connected_by_def)
  ultimately show ?thesis by blast
qed

lemma slot_spawn [simp]: "slot_connected (spawn p s) i = slot_connected s i" "is_connected (spawn p s) h = is_connected s h"
  by (simp_all add: slot_connected_def is_connected_def split: option.split)

text \<open>
  A saved network that is neither connected nor connecting can be connected: if its configuration is
  valid, the stores work and its first server answers, the attempt ends with a connected client in the
  map, the guard's entry given back, and the configuration still saved.
\<close>

theorem undisturbed_connect:
  assumes "ready cfg i (cnDB s) (cnSecrets s)" "\<not> cnConnecting s i" "\<not> GetConnectionStatus i s"
  shows "\<exists>u. conn_run (UserConnect cfg # connect_script (length (cnProcs s)) (length (cnHandles s)) (cnClients s i \<noteq> None)) s = u
    \<and> GetConnectionStatus i u \<and> cnClients u = (cnClients s)(i \<mapsto> length (cnHandles s)) \<and> cnConnecting u = cnConnecting s
    \<and> cnProcs u = cnProcs s @ [Finished] \<and> ready cfg i (cnDB u) (cnSecrets u)"
proof -
  let ?s = "spawn (Connecting ByUser cfg False CnBegin) s"
  have "\<not> slot_connected ?s i" using assms(3) by (simp add: GetConnectionStatus_def)
  then obtain u where u: "conn_run (connect_script (length (cnProcs s)) (length (cnHandles ?s)) (cnClients ?s i \<noteq> None)) ?s = u"
    "connected_as (length (cnProcs s)) i ?s u" "ready cfg i (cnDB u) (cnSecrets u)"
    using connects [of "length (cnProcs s)" ?s ByUser cfg False i] assms(1,2) by (auto simp: spawn_def)
  have "cnConnecting u = cnConnecting s" using u(2) assms(2) by (simp add: connected_as_def fun_upd_idem)
  moreover have "cnClients u = (cnClients s)(i \<mapsto> length (cnHandles s))" "GetConnectionStatus i u" "cnProcs u = cnProcs s @ [Finished]"
    using u(2) by (simp_all add: connected_as_def GetConnectionStatus_def slot_connected_def)
  ultimately show ?thesis using u(1,3) by simp
qed

section \<open>Two races\<close>

lemma run_disc: "p < length (cnProcs s) \<Longrightarrow> cnProcs s ! p = DiscFlag i k \<Longrightarrow> cnClients s i = Some h \<Longrightarrow>
    \<exists>t. conn_run [Run p Fine, Run p Fine] s = t \<and> cnProcs t = (cnProcs s)[p := DiscForget i h k] \<and> cnClients t = cnClients s
      \<and> cnConnecting t = cnConnecting s \<and> cnHandles t = cnHandles (retire h s) \<and> cnDB t = cnDB s \<and> cnSecrets t = cnSecrets s"
  by (simp add: disconnect_flag_def Let_def) (simp add: retire_def set_handle_def is_connected_def)


text \<open>
  A disconnect does not stop a reconnect loop: between two attempts only the dead client is in the
  map, \<open>DisconnectNetwork\<close> drops it and reports success, and the loop, which is never told, connects
  the network again.
\<close>

theorem disconnect_during_backoff_ignored:
  assumes "p < length (cnProcs s)" "cnProcs s ! p = Backoff i attempt delay" "attempt \<le> 10"
    and "cnClients s i = Some g" "\<not> is_connected s g" "\<not> cnConnecting s i"
    and "GetNetwork i (cnDB s) = Some n" "nrAutoConnect n" "buildReconnectConfig FileBackend n (cnDB s, cnSecrets s) = Some cfg"
    and "ready cfg i (cnDB s) (cnSecrets s)"
  shows "\<exists>mid fin. conn_run (UserDisconnect i # replicate 3 (Run (length (cnProcs s)) Fine)) s = mid
    \<and> cnProcs mid ! length (cnProcs s) = Finished \<and> cnClients mid i = None
    \<and> conn_run (Run p Fine # connect_script p (length (cnHandles s)) False) mid = fin \<and> GetConnectionStatus i fin"
proof -
  let ?d = "length (cnProcs s)"
  let ?s = "spawn (DiscFlag i None) s"
  obtain v where v: "conn_run [Run ?d Fine, Run ?d Fine] ?s = v" "cnProcs v = (cnProcs ?s)[?d := DiscForget i g None]" "cnClients v = cnClients s"
      "cnConnecting v = cnConnecting s" "cnHandles v = cnHandles (retire g ?s)" "cnDB v = cnDB s" "cnSecrets v = cnSecrets s"
    using run_disc [of ?d ?s i None g] assms(4) by (auto simp: spawn_def)
  let ?m = "v\<lparr>cnClients := (cnClients v)(i := None), cnProcs := (cnProcs ?s)[?d := Finished]\<rparr>"
  have "conn_step (Run ?d Fine) v = ?m" using v(2) by (simp add: disconnected_def)
  then have mid: "conn_run (UserDisconnect i # replicate 3 (Run ?d Fine)) s = ?m"
    by (simp only: numeral_3_eq_3 replicate.simps conn_run_simps conn_step.simps(4) v(1) [unfolded conn_run_simps])
  have p: "p < length (cnProcs ?m)" "cnProcs ?m ! p = Backoff i attempt delay" using assms(1,2) by (simp_all add: nth_append)
  let ?go = "Connecting (ByBackoff i attempt (next_delay attempt delay)) cfg True CnBegin"
  let ?m1 = "writeNetworkStatus i (''Attempting to reconnect (attempt '' @ nat_str attempt @ ''/'' @ nat_str maxAttempts @ '')...'') ?m"
  have "\<not> slot_connected ?m i" by (simp add: slot_connected_def)
  then have "proc_step Fine (cnProcs ?m ! p) ?m = (?go, ?m1)"
    unfolding p(2) using assms(3,7,8,9) v(6,7) by (simp add: reconnectWithBackoff_def maxAttempts_def)
  note r = run_step [OF p(1) this]
  let ?n = "?m1\<lparr>cnProcs := (cnProcs ?m1)[p := ?go]\<rparr>"
  have n: "p < length (cnProcs ?n)" "cnProcs ?n ! p = ?go" "ready cfg i (cnDB ?n) (cnSecrets ?n)" "\<not> cnConnecting ?n i" "\<not> slot_connected ?n i"
    "length (cnHandles ?n) = length (cnHandles s)" "cnClients ?n i = None"
    using p(1) assms(6,10) v by (simp_all add: writeNetworkStatus_def slot_connected_def)
  obtain u where u: "conn_run (connect_script p (length (cnHandles s)) False) ?n = u" "connected_as p i ?n u"
    using connects [OF n(1-5)] n(6,7) by auto
  have "conn_run (Run p Fine # connect_script p (length (cnHandles s)) False) ?m = u"
    by (simp only: conn_run_simps r u(1))
  moreover have "GetConnectionStatus i u" using u(2) by (simp add: connected_as_def GetConnectionStatus_def slot_connected_def)
  moreover have "cnProcs ?m ! ?d = Finished" "cnClients ?m i = None" by simp_all
  ultimately show ?thesis using mid by blast
qed

section \<open>Witnesses\<close>

lemma demo_ready: "ready demo_config 1 demo_db (Some (demo_secrets True))"
proof -
  have "trim_space ''Libera'' = ''Libera''" "trim_space ''me'' = ''me''" "trim_space ''Me'' = ''Me''"
    "trim_space ''irc.libera.chat'' = ''irc.libera.chat''"
    by (rule trim_space_solid; simp add: solid_def go_text)+
  then have "ValidateNetworkConfig demo_config (normalizeServers demo_config) = None"
    by (simp add: ValidateNetworkConfig_def demo_config_def normalizeServers_def ValidateServerAddress_def)
  then show ?thesis using demo_db_ok demo_facts(1,6) demo_named by (simp add: ready_def)
qed

definition demo_conn :: conn where
  "demo_conn = fresh_conn demo_db (Some (demo_secrets True))"

theorem undisturbed_connect_witness:
  "\<exists>u. conn_run (UserConnect demo_config # connect_script 0 0 False) demo_conn = u \<and> GetConnectionStatus 1 u \<and> cnProcs u = [Finished]"
proof -
  have "ready demo_config 1 (cnDB demo_conn) (cnSecrets demo_conn)" using demo_ready by (simp add: demo_conn_def fresh_conn_def)
  moreover have "\<not> cnConnecting demo_conn 1" "\<not> GetConnectionStatus 1 demo_conn" "cnProcs demo_conn = []" "cnHandles demo_conn = []"
    "cnClients demo_conn 1 = None"
    by (simp_all add: demo_conn_def fresh_conn_def GetConnectionStatus_def slot_connected_def)
  ultimately show ?thesis using undisturbed_connect [of demo_config 1 demo_conn] by auto
qed

definition demo_server :: "string \<Rightarrow> server_row" where
  "demo_server host = \<lparr>srID = 0, srNetwork = 1, srAddress = host, srPort = 6667, srTLS = False, srOrder = 0\<rparr>"

text \<open>An attempt with two servers left.\<close>

definition demo_trying :: "string list \<Rightarrow> conn" where
  "demo_trying hosts = demo_conn\<lparr>cnProcs := [Connecting ByUser demo_config False (CnTry demo_saved (map demo_server hosts))]\<rparr>"

theorem servers_tried_in_order_witness:
  "\<exists>s'. conn_run (tries 0 [TimedOut] @ [Run 0 Fine, LinkUp 1, Run 0 Fine, Run 0 Fine]) (demo_trying [''a.net'', ''b.net'']) = s'
     \<and> map dlHost (cnDials s') = [''a.net'', ''b.net''] \<and> cnClients s' 1 = Some 1 \<and> map hConnected (cnHandles s') = [False, True]"
proof -
  let ?s = "demo_trying [''a.net'', ''b.net'']"
  have "0 < length (cnProcs ?s)" "cnProcs ?s ! 0
      = Connecting ByUser demo_config False (CnTry demo_saved ([demo_server ''a.net''] @ demo_server ''b.net'' # []))"
    "length [TimedOut] = length [demo_server ''a.net'']" "Fine \<notin> set [TimedOut]" "\<not> slot_connected ?s (nrID demo_saved)"
    by (simp_all add: demo_trying_def demo_conn_def fresh_conn_def slot_connected_def)
  note r = servers_tried_in_order [OF this]
  have e: "cnHandles ?s = []" "cnDials ?s = []" "nrID demo_saved = 1" "srAddress (demo_server h) = h" for h
    by (simp_all add: demo_trying_def demo_conn_def fresh_conn_def demo_facts demo_server_def)
  from r obtain s' ds cs where "conn_run (tries 0 [TimedOut] @ [Run 0 Fine, LinkUp (length (cnHandles ?s) + length [demo_server ''a.net'']), Run 0 Fine, Run 0 Fine]) ?s = s'"
    "cnDials s' = cnDials ?s @ ds" "map dlHost ds = map srAddress [demo_server ''a.net''] @ [srAddress (demo_server ''b.net'')]"
    "cnClients s' (nrID demo_saved) = Some (length (cnHandles ?s) + length [demo_server ''a.net''])"
    "cnHandles s' = cnHandles ?s @ cs" "map hConnected cs = replicate (length [demo_server ''a.net'']) False @ [True]" by blast
  then show ?thesis unfolding e by (intro exI [of _ s'] conjI) (simp_all only: list.size append_Nil list.map e append.simps replicate.simps One_nat_def add_0 plus_nat.simps)
qed


theorem one_attempt_at_a_time_witness:
  "\<exists>as. owner (cnProcs (conn_run as demo_conn) ! 0) = Some 1 \<and> owner (cnProcs (conn_run as demo_conn) ! 1) \<noteq> Some 1
     \<and> cnConnecting (conn_run as demo_conn) 1"
proof -
  let ?as = "[UserConnect demo_config, UserConnect demo_config, Run 0 Fine, Run 0 Fine]"
  let ?c = "Connecting ByUser demo_config False"
  let ?s = "spawn (?c CnBegin) (spawn (?c CnBegin) demo_conn)"
  have p: "cnProcs ?s = [?c CnBegin, ?c CnBegin]" by (simp add: demo_conn_def fresh_conn_def)
  have "ready demo_config 1 (cnDB ?s) (cnSecrets ?s)" using demo_ready by (simp add: demo_conn_def fresh_conn_def spawn_def)
  from begin_ok [OF this] obtain n ss db cs where b: "connect_begin demo_config False ?s = (Some (n, ss), ?s\<lparr>cnDB := db, cnSecrets := cs\<rparr>)"
    "nrID n = 1" by blast
  have f: "\<not> cnConnecting ?s 1" "cnClients ?s 1 = None" by (simp_all add: demo_conn_def fresh_conn_def)
  let ?t = "?s\<lparr>cnDB := db, cnSecrets := cs, cnProcs := [?c (CnGuard n ss), ?c CnBegin]\<rparr>"
  have "proc_step Fine (cnProcs ?s ! 0) ?s = (?c (CnGuard n ss), ?s\<lparr>cnDB := db, cnSecrets := cs\<rparr>)"
    unfolding p by (simp add: connect_defs Let_def b(1))
  then have r1: "conn_step (Run 0 Fine) ?s = ?t" using run_step [of 0 ?s Fine] p by simp
  have "proc_step Fine (cnProcs ?t ! 0) ?t = (?c (CnCleanup n ss), ?t\<lparr>cnConnecting := (cnConnecting ?t)(1 := True)\<rparr>)"
    using f b(2) by (simp add: connect_defs Let_def)
  then have r2: "conn_step (Run 0 Fine) ?t = ?t\<lparr>cnConnecting := (cnConnecting ?t)(1 := True), cnProcs := [?c (CnCleanup n ss), ?c CnBegin]\<rparr>"
    using run_step [of 0 ?t Fine] by simp
  have "conn_run ?as demo_conn = ?t\<lparr>cnConnecting := (cnConnecting ?t)(1 := True), cnProcs := [?c (CnCleanup n ss), ?c CnBegin]\<rparr>"
    by (simp only: conn_run_simps, simp only: conn_step.simps(2) r1 r2)
  then have o: "cnProcs (conn_run ?as demo_conn) = [?c (CnCleanup n ss), ?c CnBegin]" by simp
  have "0 < length (cnProcs (conn_run ?as demo_conn))" "1 < length (cnProcs (conn_run ?as demo_conn))" "(0::nat) \<noteq> 1"
    "owner (cnProcs (conn_run ?as demo_conn) ! 0) = Some 1" unfolding o by (simp_all add: owner_def b(2))
  with one_attempt_at_a_time [of 0 ?as demo_db "Some (demo_secrets True)" 1 1, folded demo_conn_def] show ?thesis by blast
qed

text \<open>A saved network whose client has died, its reconnect loop before the first attempt.\<close>

definition demo_row_config :: network_config where
  "demo_row_config = config_of_row FileBackend (Some (demo_secrets True)) demo_saved [demo_server ''a.net'']"

definition demo_lost :: conn where
  "demo_lost = demo_conn\<lparr>cnDB := demo_db\<lparr>dbServers := [demo_server ''a.net'']\<rparr>, cnClients := [1 \<mapsto> 0],
     cnHandles := [\<lparr>hNetwork = 1, hDialing = False, hLink = False, hConnected = False, hAbandoned = True, hAuthFailed = False\<rparr>],
     cnProcs := [Backoff 1 1 5]\<rparr>"

lemma demo_lost_ready: "ready demo_row_config 1 (cnDB demo_lost) (cnSecrets demo_lost)"
proof -
  have "trim_space ''Libera'' = ''Libera''" "trim_space ''me'' = ''me''" "trim_space ''Me'' = ''Me''" "trim_space ''a.net'' = ''a.net''"
    by (rule trim_space_solid; simp add: solid_def go_text)+
  then have "ValidateNetworkConfig demo_row_config (normalizeServers demo_row_config) = None"
    by (simp add: ValidateNetworkConfig_def demo_row_config_def config_of_row_def normalizeServers_def ValidateServerAddress_def
        demo_saved_def new_row_def demo_config_def demo_server_def server_of_row_def)
  moreover have "named_network (ncName demo_row_config) (cnDB demo_lost) = Some demo_saved"
    using demo_named by (simp add: demo_lost_def demo_row_config_def config_of_row_def named_network_def GetNetworks_def demo_db_def
        demo_saved_def new_row_def demo_config_def)
  moreover have "db_ok (cnDB demo_lost)"
    by (simp add: demo_lost_def demo_db_def db_ok_def demo_saved_def demo_server_def)
  ultimately show ?thesis using demo_facts(1,6) by (simp add: ready_def demo_lost_def demo_conn_def fresh_conn_def)
qed

theorem disconnect_during_backoff_ignored_witness:
  "\<exists>mid fin. conn_run (UserDisconnect 1 # replicate 3 (Run 1 Fine)) demo_lost = mid \<and> cnProcs mid ! 1 = Finished
     \<and> conn_run (Run 0 Fine # connect_script 0 1 False) mid = fin \<and> GetConnectionStatus 1 fin"
proof -
  have "0 < length (cnProcs demo_lost)" "cnProcs demo_lost ! 0 = Backoff 1 1 5" "(1::nat) \<le> 10" "cnClients demo_lost 1 = Some 0"
    "\<not> is_connected demo_lost 0" "\<not> cnConnecting demo_lost 1" "GetNetwork 1 (cnDB demo_lost) = Some demo_saved" "nrAutoConnect demo_saved"
    "buildReconnectConfig FileBackend demo_saved (cnDB demo_lost, cnSecrets demo_lost) = Some demo_row_config"
    by (simp_all add: demo_lost_def demo_conn_def fresh_conn_def is_connected_def GetNetwork_def demo_db_def demo_saved_def new_row_def
        demo_config_def buildReconnectConfig_def GetServers_def demo_row_config_def demo_server_def)
  note r = disconnect_during_backoff_ignored [OF this demo_lost_ready]
  have l: "length (cnProcs demo_lost) = 1" "length (cnHandles demo_lost) = 1" by (simp_all add: demo_lost_def)
  from r show ?thesis unfolding l by blast
qed

text \<open>Without disconnects and upgrades a run is clean.\<close>

primrec connect_only :: "conn_action \<Rightarrow> bool" where
  "connect_only (Run p a) = True" | "connect_only (UserConnect cfg) = True" | "connect_only (LinkUp h) = True"
| "connect_only (UserSave cfg) = False" | "connect_only (UserDisconnect i) = False" | "connect_only (UserDelete i) = False"
| "connect_only (UserToggle i) = False" | "connect_only (SavedConnect i) = False" | "connect_only (LinkDown h) = False"
| "connect_only (AuthFails h) = False" | "connect_only (STSAdvertised i h s p c d) = False" | "connect_only (Clock n) = False"

definition user_connect :: "process \<Rightarrow> bool" where
  "user_connect p \<longleftrightarrow> (case p of Connecting who cfg r pc \<Rightarrow> who = ByUser | Finished \<Rightarrow> True | _ \<Rightarrow> False)"

lemma user_connect_step:
  assumes "user_connect p" "proc_step ans p s = (q, s')" shows "user_connect q"
proof (cases p)
  case (Connecting who cfg r pc)
  have w: "user_connect (Connecting who cfg r pc')" for pc' using assms(1) Connecting by (simp add: user_connect_def)
  have r: "returned who ok t = (q, s') \<Longrightarrow> user_connect q" for ok t
    using assms(1) Connecting by (auto simp: returned_def user_connect_def)
  have "connectNetwork ans who cfg r pc s = (q, s')" using assms(2) Connecting by simp
  then show ?thesis using w
    by (auto simp: connect_defs Let_def dest!: r split: connect_pc.splits prod.splits option.splits if_splits list.splits)
qed (use assms in \<open>simp_all add: user_connect_def\<close>)

lemma connects_clean: "list_all user_connect (cnProcs s) \<Longrightarrow> list_all connect_only as \<Longrightarrow> clean_run as s"
proof (induction as arbitrary: s)
  case (Cons a as)
  have starts: "user_connect (Connecting ByUser cfg False CnBegin)" for cfg by (simp add: user_connect_def)
  have "clean_step a s" using Cons.prems(1) by (cases a) (auto simp: clean_step_def list_all_length user_connect_def split: process.splits)
  moreover have "list_all user_connect (cnProcs (conn_step a s))"
  proof (cases a)
    case (Run p ans)
    obtain q s' where st: "proc_step ans (cnProcs s ! p) s = (q, s')" by fastforce
    show ?thesis
    proof (cases "p < length (cnProcs s)")
      case True
      then have "user_connect q" using user_connect_step [OF _ st] Cons.prems(1) by (simp add: list_all_length)
      then show ?thesis using Run True st proc_entry [OF st] Cons.prems(1) set_update_subset_insert [of "cnProcs s" p q]
        by (auto simp: list_all_iff)
    qed (use Run Cons.prems(1) in simp)
  qed (use Cons.prems starts in \<open>simp_all add: link_up_def\<close>)
  ultimately show ?case using Cons by simp
qed simp

theorem live_clients_tracked_witness:
  "\<exists>as. is_connected (conn_run as demo_conn) 0 \<and> tracked (conn_run as demo_conn) 0"
proof -
  let ?as = "UserConnect demo_config # connect_script 0 0 False"
  have c: "clean_run ?as demo_conn" by (rule connects_clean) (simp_all add: demo_conn_def fresh_conn_def connect_script_def)
  let ?s = "spawn (Connecting ByUser demo_config False CnBegin) demo_conn"
  have "\<not> slot_connected ?s 1" by (simp add: demo_conn_def fresh_conn_def slot_connected_def)
  then obtain u where u: "conn_run (connect_script 0 0 False) ?s = u" "connected_as 0 1 ?s u"
    using connects [of 0 ?s ByUser demo_config False 1] demo_ready by (auto simp: spawn_def demo_conn_def fresh_conn_def)
  have "conn_run ?as demo_conn = u" by (simp only: conn_run_simps conn_step.simps(2) u(1))
  moreover have "is_connected u 0" using u(2) by (simp add: connected_as_def demo_conn_def fresh_conn_def)
  ultimately show ?thesis
    using live_clients_tracked [OF c [unfolded demo_conn_def], of 0, folded demo_conn_def] by (intro exI [of _ ?as]) simp
qed

end
