(* ===== verification/Connection_Sts.thy ===== *)
theory Connection_Sts
  imports Connection_Runs
begin

text \<open>
  Strict transport security over whole runs of the connection manager: which operations leave the
  policies as they are, and that no dial of a protected host is in plaintext.
\<close>

section \<open>Strict transport security\<close>

definition same_policies :: "config_db \<Rightarrow> config_db \<Rightarrow> bool" where
  "same_policies db db' \<longleftrightarrow> dbOpen db' = dbOpen db \<and> dbPolicies db' = dbPolicies db"

lemma same_policies_trans: "same_policies a b \<Longrightarrow> same_policies b c \<Longrightarrow> same_policies a c" by (simp add: same_policies_def)

lemma update_policies: "UpdateNetwork n db = (ok, db') \<Longrightarrow> same_policies db db'"
  by (auto simp: UpdateNetwork_def same_policies_def split: if_splits)

lemma secure_policies: "secureNetworkSecrets B n pw spw (db, cs) = (x, db', cs') \<Longrightarrow> same_policies db db'"
  by (auto simp: secureNetworkSecrets_def Let_def dest: update_policies split: prod.splits)

lemma upsert_policies: "upsert_network B cfg ss persist db cs = (x, db') \<Longrightarrow> same_policies db db'"
  by (auto simp: upsert_network_def CreateNetwork_def UpdateNetwork_def same_policies_def Let_def
      split: option.splits list.splits if_splits prod.splits)

lemma servers_policies: "create_servers i ss db = (ok, db') \<Longrightarrow> same_policies db db'"
  by (induction ss arbitrary: db) (fastforce simp: CreateServer_def same_policies_def split: prod.splits bool.splits if_splits)+

lemma build_policies: "buildNetworkFromConfig B cfg ss persist (db, cs) = (x, db', cs') \<Longrightarrow> same_policies db db'"
  by (auto simp: buildNetworkFromConfig_def DeleteAllServers_def same_policies_def
      dest!: upsert_policies secure_policies servers_policies split: sum.splits prod.splits bool.splits if_splits)

lemma begin_policies: "connect_begin cfg r s = (x, s') \<Longrightarrow> same_policies (cnDB s) (cnDB s')"
  by (auto simp: connect_begin_def Let_def same_policies_def
      dest!: build_policies [unfolded same_policies_def] split: if_splits sum.splits prod.splits)

lemma migrate_policies: "migrateNetworkSecrets B n (db, cs) = (n', db', cs') \<Longrightarrow> same_policies db db'"
  using update_policies by (auto simp: migrateNetworkSecrets_def Let_def same_policies_def split: prod.splits if_splits)
    (metis prod.collapse)+

text \<open>The host has a policy that has not expired.\<close>

definition protected :: "string \<Rightarrow> int \<Rightarrow> int \<Rightarrow> conn \<Rightarrow> bool" where
  "protected host port expires s \<longleftrightarrow> dbOpen (cnDB s) \<and> dbPolicies (cnDB s) host = Some (port, expires) \<and> cnNow s < expires"

definition secure_dials :: "string \<Rightarrow> conn \<Rightarrow> conn \<Rightarrow> bool" where
  "secure_dials host s s' \<longleftrightarrow> (\<exists>ds. cnDials s' = cnDials s @ ds \<and> list_all (\<lambda>d. dlHost d = host \<longrightarrow> dlTLS d) ds)"

lemma secure_none: "cnDials s' = cnDials s \<Longrightarrow> secure_dials host s s'"
  by (simp add: secure_dials_def)

lemma secure_dial:
  assumes "protected host port expires s" "0 < port" "\<not> IsIPLiteral host" "dial_server n srv s = (h, s')"
  shows "secure_dials host s s' \<and> cnDB s' = cnDB s \<and> cnNow s' = cnNow s"
proof -
  have "nrTLS (snd (server_network s n srv))" if "srAddress srv = host"
    using assms(1-3) that
    by (auto simp: server_network_def applySTS_def hydrateNetworkSecrets_def GetSTSPolicy_def protected_def Let_def split: option.splits)
  moreover have s': "s' = snd (dial_server n srv s)" using assms(4) by simp
  ultimately show ?thesis unfolding s'
    by (simp add: secure_dials_def dial_server_def Let_def case_prod_beta server_host writeNetworkStatus_def)
qed

lemma returned_now: "returned who ok s = (q, s') \<Longrightarrow> cnNow s' = cnNow s"
  by (auto simp: returned_def writeNetworkStatus_def split: caller.splits if_splits)

lemma begin_now: "connect_begin cfg r s = (x, s') \<Longrightarrow> cnNow s' = cnNow s"
  by (auto simp: connect_begin_def Let_def split: if_splits sum.splits prod.splits)

lemma now_fields [simp]: "cnNow (writeNetworkStatus i x s) = cnNow s" "cnNow (retire h s) = cnNow s" "cnNow (end_dial h s) = cnNow s"
  "cnNow (set_handle h f s) = cnNow s" "cnNow (spawn p s) = cnNow s"
  by (simp_all add: writeNetworkStatus_def retire_def end_dial_def set_handle_def spawn_def)

definition secure_step :: "string \<Rightarrow> conn \<Rightarrow> conn \<Rightarrow> bool" where
  "secure_step host s s' \<longleftrightarrow> secure_dials host s s' \<and> same_policies (cnDB s) (cnDB s') \<and> cnNow s' = cnNow s"

lemma secure_connect:
  assumes "protected host port expires s" "0 < port" "\<not> IsIPLiteral host" "connectNetwork ans who cfg r pc s = (q, s')"
  shows "secure_step host s s'"
proof -
  have r: "returned who ok t = (q, s') \<Longrightarrow> cnDials t = cnDials s \<Longrightarrow> same_policies (cnDB s) (cnDB t) \<Longrightarrow> cnNow t = cnNow s \<Longrightarrow>
      secure_step host s s'" for ok t
    using returned_all [of who ok t q s'] returned_now [of who ok t q s'] by (simp add: secure_step_def secure_none)
  have id: "same_policies db db" for db by (simp add: same_policies_def)
  show ?thesis
  proof (cases pc)
    case CnBegin
    obtain x t where b: "connect_begin cfg r s = (x, t)" by fastforce
    have f: "cnDials t = cnDials s" "same_policies (cnDB s) (cnDB t)" "cnNow t = cnNow s"
      using begin_all [OF b] begin_policies [OF b] begin_now [OF b] by simp_all
    show ?thesis
    proof (cases x)
      case None
      then have "returned who False t = (q, s')" using assms(4) CnBegin b by (simp add: connect_defs)
      then show ?thesis using r f by blast
    next
      case (Some y)
      then have "s' = t" using assms(4) CnBegin b by (simp add: connect_defs Let_def split: prod.splits)
      then show ?thesis using f by (simp add: secure_step_def secure_none)
    qed
  next
    case (CnCleanup n ss)
    then show ?thesis using assms(4) r migrate_policies [of FileBackend n "cnDB s" "cnSecrets s"] id
      by (auto simp: connect_defs Let_def secure_step_def secure_none split: if_splits prod.splits)
  next
    case (CnTry n ss)
    then show ?thesis using assms(4) r secure_dial [OF assms(1-3)] id
      by (auto simp: connect_defs Let_def secure_step_def split: list.splits prod.splits)
  qed (use assms(4) r id in \<open>auto simp: connect_defs Let_def secure_step_def secure_none split: if_splits option.splits\<close>)
qed

lemma secure_proc:
  assumes "protected host port expires s" "0 < port" "\<not> IsIPLiteral host" "proc_step ans p s = (q, s')"
  shows "secure_step host s s'"
proof (cases p)
  case (Connecting who cfg r pc)
  then show ?thesis using secure_connect assms by simp
next
  case (DelRow i)
  then show ?thesis using assms(4)
    by (auto simp: delete_row_def DeleteNetworkRow_def secure_step_def secure_none same_policies_def split: prod.splits bool.splits if_splits)
qed (use assms(4) in \<open>auto simp: reconnectWithBackoff_def lost_flags_def lost_mark_def lost_decide_def stop_reconnect_def disconnect_flag_def
    delete_flag_def upgrade_config_def Let_def secure_step_def secure_none same_policies_def split: if_splits option.splits\<close>)

text \<open>What can end a policy: a secure advertisement of the host itself, and time.\<close>

definition keeps_policy :: "string \<Rightarrow> int \<Rightarrow> conn_action \<Rightarrow> bool" where
  "keeps_policy host expires a \<longleftrightarrow> (case a of STSAdvertised i h secure port current duration \<Rightarrow> h \<noteq> host \<or> \<not> secure
     | Clock now \<Rightarrow> now < expires | _ \<Rightarrow> True)"

lemma secure_action:
  assumes "protected host port expires s" "0 < port" "\<not> IsIPLiteral host" "keeps_policy host expires a"
  shows "secure_dials host s (conn_step a s) \<and> protected host port expires (conn_step a s)"
proof -
  have step: "secure_step host s s' \<Longrightarrow> secure_dials host s s' \<and> protected host port expires s'" for s'
    using assms(1) by (auto simp: secure_step_def protected_def same_policies_def)
  have procs: "secure_step host s s' \<Longrightarrow> secure_step host s (s'\<lparr>cnProcs := ps\<rparr>)" for s' ps
    by (simp add: secure_step_def secure_dials_def)
  have id: "same_policies db db" for db by (simp add: same_policies_def)
  show ?thesis
  proof (cases a)
    case (Run p ans)
    then show ?thesis using secure_proc [OF assms(1-3)] step procs step [of s] id
      by (auto simp: secure_step_def secure_none split: prod.split)
  next
    case (UserSave cfg)
    obtain x db cs where sv: "SaveNetwork FileBackend cfg (cnDB s, cnSecrets s) = (x, db, cs)"
      by (cases "SaveNetwork FileBackend cfg (cnDB s, cnSecrets s)") auto
    then have "same_policies (cnDB s) db"
      by (auto simp: SaveNetwork_def same_policies_def dest!: build_policies [unfolded same_policies_def]
          split: if_splits prod.splits sum.splits)
    then show ?thesis using UserSave sv by (intro step) (simp add: secure_step_def secure_none)
  next
    case (UserToggle i)
    then show ?thesis
      by (intro step) (auto simp: secure_step_def secure_none same_policies_def ToggleNetworkAutoConnect_def UpdateNetworkAutoConnect_def
          update_row_def split: option.split prod.split)
  next
    case (STSAdvertised i h secure pt current duration)
    then show ?thesis using assms(1,4)
      by (auto simp: sts_advertised_def Let_def handleSTSPolicy_def keeps_policy_def protected_def secure_none UpsertSTSPolicy_def
          DeleteSTSPolicy_def split: prod.splits bool.splits if_splits)
  next
    case (Clock now)
    then show ?thesis using assms(1,4) by (simp add: keeps_policy_def protected_def secure_none)
  next
    case (SavedConnect i)
    then show ?thesis by (intro step) (simp add: saved_connect_def secure_step_def secure_none id split: option.split)
  next
    case (LinkDown h)
    then show ?thesis by (intro step) (simp add: link_down_def secure_step_def secure_none id)
  qed (use assms(1) in \<open>simp_all add: protected_def secure_none link_up_def\<close>)
qed

lemma secure_dials_trans: "secure_dials host s t \<Longrightarrow> secure_dials host t u \<Longrightarrow> secure_dials host s u"
  by (auto simp: secure_dials_def)

lemma secure_run:
  assumes "protected host port expires s" "0 < port" "\<not> IsIPLiteral host" "list_all (keeps_policy host expires) as"
  shows "secure_dials host s (conn_run as s)"
  using assms(1,4)
proof (induction as arbitrary: s)
  case Nil
  then show ?case by (simp add: secure_none)
next
  case (Cons a as)
  from Cons.prems(2) have k: "keeps_policy host expires a" "list_all (keeps_policy host expires) as" by simp_all
  note st = secure_action [OF Cons.prems(1) assms(2,3) k(1)]
  then have "secure_dials host (conn_step a s) (conn_run as (conn_step a s))" using Cons.IH k(2) by blast
  then show ?case using st secure_dials_trans by (simp only: conn_run_simps) blast
qed

text \<open>
  C5: A host with a live STS policy is not dialled in plaintext: until the policy expires or a secure
  connection to the host changes it, every dial to the host uses TLS, whatever the saved servers say,
  whoever connects, and whatever is saved, toggled or deleted meanwhile.
\<close>

theorem sts_policy_enforced:
  assumes "protected host port expires s" "0 < port" "\<not> IsIPLiteral host" "list_all (keeps_policy host expires) as"
    and "d \<in> set (drop (length (cnDials s)) (cnDials (conn_run as s)))" "dlHost d = host"
  shows "dlTLS d"
proof -
  obtain ds where "cnDials (conn_run as s) = cnDials s @ ds" "list_all (\<lambda>d. dlHost d = host \<longrightarrow> dlTLS d) ds"
    using secure_run [OF assms(1-4)] by (auto simp: secure_dials_def)
  then show ?thesis using assms(5,6) by (simp add: list_all_iff)
qed

definition demo_policy :: conn where
  "demo_policy = demo_trying [''a.net'']\<lparr>cnDB := demo_db\<lparr>dbPolicies := [''a.net'' \<mapsto> (6697, 1000)]\<rparr>\<rparr>"

theorem sts_policy_enforced_witness:
  "dlHost (hd (cnDials (conn_run [Run 0 Fine] demo_policy))) = ''a.net'' \<and> \<not> srTLS (demo_server ''a.net'')
     \<and> dlTLS (hd (cnDials (conn_run [Run 0 Fine] demo_policy)))"
proof -
  have p: "0 < length (cnProcs demo_policy)" "cnProcs demo_policy ! 0
      = Connecting ByUser demo_config False (CnTry demo_saved (demo_server ''a.net'' # []))" and e: "cnDials demo_policy = []"
    by (simp_all add: demo_policy_def demo_trying_def demo_conn_def fresh_conn_def)
  obtain d where d: "cnDials (conn_run [Run 0 Fine] demo_policy) = [d]" "dlHost d = ''a.net''"
    using dials_next [OF p, of Fine] e by (auto simp: demo_server_def simp del: conn_step.simps)
  have prot: "protected ''a.net'' 6697 1000 demo_policy"
    by (simp add: protected_def demo_policy_def demo_trying_def demo_conn_def fresh_conn_def demo_db_def)
  have port: "(0::int) < 6697" by simp
  have "trim_space ''a.net'' = ''a.net''" by (rule trim_space_solid; simp add: solid_def go_text)
  then have host: "\<not> IsIPLiteral ''a.net''" by (simp add: IsIPLiteral_def ParseIP_def ParseAddr_def parse_ipv4_def parse_octet_def go_text char_eval split: option.split)
  have keep: "list_all (keeps_policy ''a.net'' 1000) [Run 0 Fine]" by (simp add: keeps_policy_def)
  have mem: "d \<in> set (drop (length (cnDials demo_policy)) (cnDials (conn_run [Run 0 Fine] demo_policy)))" unfolding d e by simp
  have "dlTLS d" by (rule sts_policy_enforced [OF prot port host keep mem d(2)])
  then show ?thesis unfolding d(1) using d(2) by (simp add: demo_server_def)
qed

section \<open>How long a policy lasts\<close>

text \<open>
  A policy advertised for a very long time protects nothing: a secure connection that advertises a
  duration whose sum with the clock passes the range of int64 stores a policy that has already expired,
  so the host counts as having none; one second less and it is protected as long as asked.
\<close>

theorem sts_long_duration_expires_at_once:
  assumes "0 \<le> now" "0 \<le> later" "0 < duration" "duration < 2 ^ 63" "now < 2 ^ 63" "dbOpen db" "host \<noteq> []" "0 < port"
  shows "GetSTSPolicy host later (snd (snd (handleSTSPolicy i host True port current duration now (up, db))))
    = (if now + duration < 2 ^ 63 \<and> later < now + duration then Some port else None)"
proof -
  let ?t = "int64 (now + duration)"
  have g: "GetSTSPolicy host later (snd (snd (handleSTSPolicy i host True port current duration now (up, db))))
      = (if ?t \<le> later then None else Some port)"
    using assms(3,6,7,8) by (simp add: handleSTSPolicy_def GetSTSPolicy_def UpsertSTSPolicy_def)
  show ?thesis
  proof (cases "now + duration < 2 ^ 63")
    case True
    then have "?t = now + duration" using assms(1,3) by (intro int64_id) auto
    then show ?thesis unfolding g using True by auto
  next
    case False
    then have "?t = now + duration - 2 ^ 64" using assms(4,5) by (intro int64_wraps) auto
    then have "?t \<le> later" using assms(2,4,5) by simp
    then show ?thesis unfolding g using False by simp
  qed
qed

theorem sts_long_duration_expires_at_once_witness:
  "GetSTSPolicy ''a.net'' 1700000001 (snd (snd (handleSTSPolicy 1 ''a.net'' True 6697 6697 9223372036854775807 1700000000 (Map.empty, demo_db)))) = None
     \<and> GetSTSPolicy ''a.net'' 1700000001 (snd (snd (handleSTSPolicy 1 ''a.net'' True 6697 6697 2592000 1700000000 (Map.empty, demo_db)))) = Some 6697"
proof -
  have db: "dbOpen demo_db" by (simp add: demo_db_def)
  show ?thesis
    using sts_long_duration_expires_at_once [of 1700000000 1700000001 9223372036854775807 demo_db "''a.net''" 6697 1 6697 Map.empty]
      sts_long_duration_expires_at_once [of 1700000000 1700000001 2592000 demo_db "''a.net''" 6697 1 6697 Map.empty] db
    by simp
qed

end
