(* ===== verification/Activity.thy ===== *)
theory Activity
  imports Roster_Store Irc_Names Go_Int
begin

text \<open>
  The activity inbox: the rows of \<open>internal/storage/activity.go\<close> and the ignore list of
  \<open>activity_ignored_senders.go\<close>, the classification of \<open>internal/irc/activity.go\<close>, and the operations of
  \<open>app_activity.go\<close> and \<open>app_invites.go\<close> on them. A closed database fails every query; one operation of
  the application is one step. The stored settings are what their JSON decodes to, or do not decode.
\<close>

section \<open>Rows\<close>

record activity_row =
  arID :: nat
  arNetwork :: int
  arSource :: string
  arTarget :: string
  arActor :: string
  arPreview :: string
  arMsgID :: string
  arKeyword :: string
  arSeen :: bool
  arTime :: int
  arTrusted :: bool
  arExpires :: "int option"

record activity_db =
  adOpen :: bool
  adRows :: "activity_row list"
  adNext :: nat
  adIgnored :: "(int \<times> string) list"

definition WriteActivityItem :: "activity_row \<Rightarrow> activity_db \<Rightarrow> bool \<times> activity_db" where
  "WriteActivityItem item db = (if \<not> adOpen db then (False, db)
     else (True, db\<lparr>adRows := adRows db @ [item\<lparr>arID := adNext db\<rparr>], adNext := Suc (adNext db)\<rparr>))"

text \<open>\<open>ORDER BY timestamp DESC, id DESC\<close>.\<close>

definition newest_first :: "activity_row list \<Rightarrow> activity_row list" where
  "newest_first rows = rev (sort_key arTime (sort_key arID rows))"

definition ListActivityItems :: "nat \<Rightarrow> activity_db \<Rightarrow> activity_row list option" where
  "ListActivityItems limit db = (if adOpen db then Some (take limit (newest_first (adRows db))) else None)"

definition update_rows :: "(activity_row list \<Rightarrow> activity_row list) \<Rightarrow> activity_db \<Rightarrow> bool \<times> activity_db" where
  "update_rows f db = (if adOpen db then (True, db\<lparr>adRows := f (adRows db)\<rparr>) else (False, db))"

definition MarkActivitySeen :: "nat \<Rightarrow> activity_db \<Rightarrow> bool \<times> activity_db" where
  "MarkActivitySeen i = update_rows (map (\<lambda>r. if arID r = i then r\<lparr>arSeen := True\<rparr> else r))"

definition MarkAllActivitySeen :: "activity_db \<Rightarrow> bool \<times> activity_db" where
  "MarkAllActivitySeen = update_rows (map (\<lambda>r. r\<lparr>arSeen := True\<rparr>))"

definition DismissActivity :: "nat \<Rightarrow> activity_db \<Rightarrow> bool \<times> activity_db" where
  "DismissActivity i = update_rows (filter (\<lambda>r. arID r \<noteq> i))"

definition ClearSeenActivity :: "activity_db \<Rightarrow> bool \<times> activity_db" where
  "ClearSeenActivity = update_rows (filter (\<lambda>r. \<not> arSeen r))"

definition ClearAllActivity :: "activity_db \<Rightarrow> bool \<times> activity_db" where
  "ClearAllActivity = update_rows (\<lambda>_. [])"

definition ActivityInvite :: string where "ActivityInvite = ''invite''"

definition from_sender :: "int \<Rightarrow> string \<Rightarrow> activity_row \<Rightarrow> bool" where
  "from_sender net nick r \<longleftrightarrow> arNetwork r = net \<and> sql_lower (arActor r) = sql_lower nick"

definition same_invite :: "int \<Rightarrow> string \<Rightarrow> string \<Rightarrow> activity_row \<Rightarrow> bool" where
  "same_invite net inviter channel r \<longleftrightarrow> arSource r = ActivityInvite \<and> from_sender net inviter r
     \<and> sql_lower (arTarget r) = sql_lower channel"

definition invite_expired :: "int \<Rightarrow> activity_row \<Rightarrow> bool" where
  "invite_expired now r \<longleftrightarrow> arSource r = ActivityInvite \<and> (case arExpires r of Some t \<Rightarrow> t \<le> now | None \<Rightarrow> False)"

definition ListInviteActivity :: "int \<Rightarrow> int \<Rightarrow> activity_db \<Rightarrow> activity_row list option" where
  "ListInviteActivity net now db = (if adOpen db
     then Some (newest_first (filter (\<lambda>r. arSource r = ActivityInvite \<and> arNetwork r = net \<and> \<not> invite_expired now r) (adRows db)))
     else None)"

definition DeleteInviteActivity :: "int \<Rightarrow> string \<Rightarrow> string \<Rightarrow> activity_db \<Rightarrow> bool \<times> activity_db" where
  "DeleteInviteActivity net inviter channel = update_rows (filter (\<lambda>r. \<not> same_invite net inviter channel r))"

definition DeleteInviteActivityFromSender :: "int \<Rightarrow> string \<Rightarrow> activity_db \<Rightarrow> bool \<times> activity_db" where
  "DeleteInviteActivityFromSender net inviter = update_rows (filter (\<lambda>r. \<not> (arSource r = ActivityInvite \<and> from_sender net inviter r)))"

definition DeleteActivityFromSender :: "int \<Rightarrow> string \<Rightarrow> activity_db \<Rightarrow> bool \<times> activity_db" where
  "DeleteActivityFromSender net actor = update_rows (filter (\<lambda>r. \<not> from_sender net actor r))"

text \<open>The networks of the expired invites, each once, and the rows without them.\<close>

definition SweepExpiredInvites :: "int \<Rightarrow> activity_db \<Rightarrow> int list option \<times> activity_db" where
  "SweepExpiredInvites now db = (if \<not> adOpen db then (None, db)
     else (Some (remdups (map arNetwork (filter (invite_expired now) (adRows db)))),
           db\<lparr>adRows := filter (\<lambda>r. \<not> invite_expired now r) (adRows db)\<rparr>))"

section \<open>The ignore list\<close>

text \<open>The primary key compares the nick exactly, the queries without regard to (ASCII) case.\<close>

definition AddIgnoredSender :: "int \<Rightarrow> string \<Rightarrow> activity_db \<Rightarrow> bool \<times> activity_db" where
  "AddIgnoredSender net nick db = (if \<not> adOpen db then (False, db)
     else (True, if (net, nick) \<in> set (adIgnored db) then db else db\<lparr>adIgnored := adIgnored db @ [(net, nick)]\<rparr>))"

definition ignores :: "(int \<times> string) list \<Rightarrow> int \<Rightarrow> string \<Rightarrow> bool" where
  "ignores ig net nick \<longleftrightarrow> list_ex (\<lambda>(n, x). n = net \<and> sql_lower x = sql_lower nick) ig"

definition RemoveIgnoredSender :: "int \<Rightarrow> string \<Rightarrow> activity_db \<Rightarrow> bool \<times> activity_db" where
  "RemoveIgnoredSender net nick db = (if \<not> adOpen db then (False, db)
     else (True, db\<lparr>adIgnored := filter (\<lambda>(n, x). \<not> (n = net \<and> sql_lower x = sql_lower nick)) (adIgnored db)\<rparr>))"

definition IsSenderIgnored :: "int \<Rightarrow> string \<Rightarrow> activity_db \<Rightarrow> bool option" where
  "IsSenderIgnored net nick db = (if adOpen db then Some (ignores (adIgnored db) net nick) else None)"

section \<open>Classification\<close>

record ActivityConfig =
  acHighlights :: bool
  acKeywords :: bool
  acInvites :: bool
  acPMs :: bool
  acNotices :: bool
  acPrivmsgs :: bool
  acKeywordList :: "string list"

definition IsChannelName :: "string \<Rightarrow> bool" where
  "IsChannelName s \<longleftrightarrow> has_prefix s ''#'' \<or> has_prefix s ''&''"

text \<open>\<open>[a-zA-Z0-9_]\<close> under \<open>(?i)\<close>.\<close>

definition word_rune :: "rune \<Rightarrow> bool" where
  "word_rune r \<longleftrightarrow> (let f = fold_rune r in 97 \<le> f \<and> f \<le> 122 \<or> 48 \<le> f \<and> f \<le> 57 \<or> f = 95)"

definition boundary :: "rune list \<Rightarrow> bool" where
  "boundary rs \<longleftrightarrow> (case rs of [] \<Rightarrow> True | r # _ \<Rightarrow> \<not> word_rune r)"

fun find_word :: "bool \<Rightarrow> rune list \<Rightarrow> rune list \<Rightarrow> bool" where
  "find_word start w rs =
     (start \<and> map fold_rune (take (length w) rs) = map fold_rune w \<and> boundary (drop (length w) rs)
      \<or> (case rs of [] \<Rightarrow> False | r # rs' \<Rightarrow> find_word (\<not> word_rune r) w rs'))"

declare find_word.simps [simp del]

text \<open>\<open>regexp.MustCompile\<close> panics (\<open>None\<close>) on a pattern that is not UTF-8.\<close>

definition matchHighlight :: "string \<Rightarrow> string \<Rightarrow> bool option" where
  "matchHighlight txt word = (if word = [] then Some False
     else if \<not> valid_utf8 word then None else Some (find_word True (runes word) (runes txt)))"

primrec matchKeyword :: "string \<Rightarrow> string list \<Rightarrow> string option option" where
  "matchKeyword txt [] = Some None"
| "matchKeyword txt (kw # kws) = (if kw = [] then matchKeyword txt kws
     else case matchHighlight txt kw of None \<Rightarrow> None | Some True \<Rightarrow> Some (Some (to_lower kw)) | Some False \<Rightarrow> matchKeyword txt kws)"

text \<open>The source and the keyword of an inbound message, if it is activity; \<open>None\<close> is a panic.\<close>

definition ClassifyMessageActivity :: "ActivityConfig \<Rightarrow> string \<Rightarrow> string \<Rightarrow> string \<Rightarrow> bool \<Rightarrow> (string \<times> string) option option" where
  "ClassifyMessageActivity cfg nick txt typ isPM =
     (if typ = ''notice'' \<and> \<not> acNotices cfg then Some None
      else if (typ = ''privmsg'' \<or> typ = ''action'') \<and> \<not> acPrivmsgs cfg then Some None
      else if isPM then Some (if acPMs cfg then Some (''pm'', []) else None)
      else case (if acHighlights cfg then matchHighlight txt nick else Some False) of
        None \<Rightarrow> None
      | Some True \<Rightarrow> Some (Some (''highlight'', []))
      | Some False \<Rightarrow> (if acKeywords cfg
          then map_option (map_option (\<lambda>kw. (''keyword'', kw))) (matchKeyword txt (acKeywordList cfg)) else Some None))"

definition activityPreviewMax :: nat where "activityPreviewMax = 140"

definition truncatePreview :: "string \<Rightarrow> string" where
  "truncatePreview s = (let rs = runes s in if length rs \<le> activityPreviewMax then s
     else unrunes (take activityPreviewMax rs) @ encode_rune 0x2026)"

definition ActivityItemFromMessage :: "int \<Rightarrow> string \<Rightarrow> string \<Rightarrow> string \<Rightarrow> string \<Rightarrow> string \<Rightarrow> string \<Rightarrow> bool \<Rightarrow> int \<Rightarrow> activity_row" where
  "ActivityItemFromMessage net src keyword channel sender txt msgid isPM ts =
     \<lparr>arID = 0, arNetwork = net, arSource = src, arTarget = (if isPM then sender else channel), arActor = sender,
      arPreview = truncatePreview txt, arMsgID = msgid, arKeyword = keyword, arSeen = False, arTime = ts,
      arTrusted = False, arExpires = None\<rparr>"

section \<open>The inbox of the application\<close>

datatype stored_settings = NoSettings | BadSettings | GoodSettings ActivityConfig

text \<open>What the inbox reads and writes; \<open>ibNick\<close> the nicks of the live clients, \<open>ibBuddies\<close> the MONITOR
  lists (\<open>None\<close> cannot be read), \<open>ibTTL\<close> and \<open>ibLevel\<close> two settings, empty when unset.\<close>

datatype inbox_out = ActivityChanged | InvitesChanged int | NotifyInvite int string string

record inbox =
  ibDB :: activity_db
  ibSettings :: stored_settings
  ibNick :: "int \<Rightarrow> string option"
  ibBuddies :: "int \<Rightarrow> string list option"
  ibTTL :: string
  ibLevel :: string
  ibEnabled :: bool
  ibNow :: int
  ibOut :: "inbox_out list"

definition defaultActivitySettings :: ActivityConfig where
  "defaultActivitySettings = \<lparr>acHighlights = True, acKeywords = True, acInvites = True, acPMs = True, acNotices = True,
     acPrivmsgs = True, acKeywordList = []\<rparr>"

text \<open>The flag says whether the settings could be read.\<close>

definition GetActivitySettings :: "inbox \<Rightarrow> ActivityConfig \<times> bool" where
  "GetActivitySettings s = (if \<not> adOpen (ibDB s) then (defaultActivitySettings, True)
     else case ibSettings s of
       NoSettings \<Rightarrow> (defaultActivitySettings, True) | BadSettings \<Rightarrow> (defaultActivitySettings, False) | GoodSettings cfg \<Rightarrow> (cfg, True))"

definition SetActivitySettings :: "ActivityConfig \<Rightarrow> inbox \<Rightarrow> inbox" where
  "SetActivitySettings cfg s = (if adOpen (ibDB s) then s\<lparr>ibSettings := GoodSettings cfg\<rparr> else s)"

definition tell :: "inbox_out \<Rightarrow> inbox \<Rightarrow> inbox" where "tell x s = s\<lparr>ibOut := ibOut s @ [x]\<rparr>"

definition recordMessageActivity :: "ActivityConfig \<Rightarrow> string \<Rightarrow> int \<Rightarrow> string \<Rightarrow> string \<Rightarrow> string \<Rightarrow> string \<Rightarrow> string \<Rightarrow> bool \<Rightarrow> int \<Rightarrow>
    inbox \<Rightarrow> inbox option" where
  "recordMessageActivity cfg nick net channel sender txt msgid typ isPM ts s =
     (if nick \<noteq> [] \<and> equal_fold sender nick then Some s
      else if IsSenderIgnored net sender (ibDB s) = Some True then Some s
      else case ClassifyMessageActivity cfg nick txt typ isPM of
        None \<Rightarrow> None
      | Some None \<Rightarrow> Some s
      | Some (Some (src, keyword)) \<Rightarrow>
          (case WriteActivityItem (ActivityItemFromMessage net src keyword channel sender txt msgid isPM ts) (ibDB s) of
             (ok, db) \<Rightarrow> Some (if ok then tell ActivityChanged (s\<lparr>ibDB := db\<rparr>) else s)))"

text \<open>The channel of the event, its sender, text, message id and type, and its time.\<close>

definition dispatchMessageActivity :: "int \<Rightarrow> string \<Rightarrow> string \<Rightarrow> string \<Rightarrow> string \<Rightarrow> string \<Rightarrow> int \<Rightarrow> inbox \<Rightarrow> inbox option" where
  "dispatchMessageActivity net channel sender txt msgid typ ts s =
     (case GetActivitySettings s of
        (_, False) \<Rightarrow> Some s
      | (cfg, True) \<Rightarrow> (case ibNick s net of None \<Rightarrow> Some s
          | Some nick \<Rightarrow> recordMessageActivity cfg nick net channel sender txt msgid typ
              (channel \<noteq> [] \<and> \<not> IsChannelName channel) ts s))"

definition activityItemsLimit :: nat where "activityItemsLimit = 500"

definition GetActivityItems :: "inbox \<Rightarrow> activity_row list option" where
  "GetActivityItems s = ListActivityItems activityItemsLimit (ibDB s)"

definition IgnoreActivitySender :: "int \<Rightarrow> string \<Rightarrow> inbox \<Rightarrow> inbox" where
  "IgnoreActivitySender net nick s = (case AddIgnoredSender net nick (ibDB s) of
     (False, db) \<Rightarrow> s
   | (True, db) \<Rightarrow> (case DeleteActivityFromSender net nick db of
       (False, db') \<Rightarrow> s\<lparr>ibDB := db\<rparr>
     | (True, db') \<Rightarrow> tell ActivityChanged (tell (InvitesChanged net) (s\<lparr>ibDB := db'\<rparr>))))"

definition UnignoreActivitySender :: "int \<Rightarrow> string \<Rightarrow> inbox \<Rightarrow> inbox" where
  "UnignoreActivitySender net nick s = (case RemoveIgnoredSender net nick (ibDB s) of
     (ok, db) \<Rightarrow> if ok then tell ActivityChanged (s\<lparr>ibDB := db\<rparr>) else s)"

definition change_rows :: "(activity_db \<Rightarrow> bool \<times> activity_db) \<Rightarrow> inbox \<Rightarrow> inbox" where
  "change_rows f s = s\<lparr>ibDB := snd (f (ibDB s))\<rparr>"

section \<open>Invites\<close>

text \<open>\<open>time.Duration(h) * time.Hour\<close> in nanoseconds is an int64; a result that is not positive sets no expiry.\<close>

definition hour :: int where "hour = 3600 * 10 ^ 9"

definition inviteTTL :: "string \<Rightarrow> int" where
  "inviteTTL v = (case (if v = [] then None else parse_int64 v) of
     None \<Rightarrow> 24 * hour
   | Some h \<Rightarrow> if h \<le> 0 then 24 * hour else int64 (h * hour))"

definition isBuddy :: "int \<Rightarrow> string \<Rightarrow> inbox \<Rightarrow> bool" where
  "isBuddy net inviter s = (case ibBuddies s net of None \<Rightarrow> False | Some ns \<Rightarrow> list_ex (\<lambda>n. equal_fold n inviter) ns)"

definition inviteNotifyDecision :: "string \<Rightarrow> bool \<Rightarrow> bool \<Rightarrow> bool" where
  "inviteNotifyDecision level enabled trusted \<longleftrightarrow> enabled \<and> level \<noteq> ''quiet'' \<and> (level = ''all'' \<or> trusted)"

definition invite_row :: "int \<Rightarrow> string \<Rightarrow> string \<Rightarrow> inbox \<Rightarrow> activity_row" where
  "invite_row net inviter channel s =
     \<lparr>arID = 0, arNetwork = net, arSource = ActivityInvite, arTarget = channel, arActor = inviter,
      arPreview = inviter @ '' invited you to '' @ channel, arMsgID = [], arKeyword = [], arSeen = False, arTime = ibNow s,
      arTrusted = isBuddy net inviter s,
      arExpires = (if 0 < inviteTTL (ibTTL s) then Some (ibNow s + inviteTTL (ibTTL s)) else None)\<rparr>"

definition handleInviteReceived :: "int \<Rightarrow> string \<Rightarrow> string \<Rightarrow> inbox \<Rightarrow> inbox" where
  "handleInviteReceived net inviter channel s =
     (if inviter = [] \<or> channel = [] then s
      else if IsSenderIgnored net inviter (ibDB s) = Some True then s
      else if snd (GetActivitySettings s) \<and> \<not> acInvites (fst (GetActivitySettings s)) then s
      else let row = invite_row net inviter channel s;
               db = snd (DeleteInviteActivity net inviter channel (ibDB s))
        in (case WriteActivityItem row db of
              (False, db) \<Rightarrow> s\<lparr>ibDB := db\<rparr>
            | (True, db) \<Rightarrow>
                (let s = tell ActivityChanged (tell (InvitesChanged net) (s\<lparr>ibDB := db\<rparr>))
                 in if inviteNotifyDecision (ibLevel s) (ibEnabled s) (arTrusted row) then tell (NotifyInvite net inviter channel) s else s)))"

definition GetInvites :: "int \<Rightarrow> inbox \<Rightarrow> activity_row list option" where
  "GetInvites net s = ListInviteActivity net (ibNow s) (ibDB s)"

definition dismiss_with :: "int \<Rightarrow> (activity_db \<Rightarrow> bool \<times> activity_db) \<Rightarrow> inbox \<Rightarrow> inbox" where
  "dismiss_with net f s = (case f (ibDB s) of
     (ok, db) \<Rightarrow> if ok then tell ActivityChanged (tell (InvitesChanged net) (s\<lparr>ibDB := db\<rparr>)) else s)"

definition DismissInvite :: "int \<Rightarrow> string \<Rightarrow> string \<Rightarrow> inbox \<Rightarrow> inbox" where
  "DismissInvite net inviter channel = dismiss_with net (DeleteInviteActivity net inviter channel)"

definition DismissInvitesFrom :: "int \<Rightarrow> string \<Rightarrow> inbox \<Rightarrow> inbox" where
  "DismissInvitesFrom net inviter = dismiss_with net (DeleteInviteActivityFromSender net inviter)"

definition sweepInvitesOnce :: "inbox \<Rightarrow> inbox" where
  "sweepInvitesOnce s = (case SweepExpiredInvites (ibNow s) (ibDB s) of
     (None, db) \<Rightarrow> s
   | (Some nets, db) \<Rightarrow> (let s = fold (\<lambda>n. tell (InvitesChanged n)) nets (s\<lparr>ibDB := db\<rparr>)
       in if nets \<noteq> [] then tell ActivityChanged s else s))"

section \<open>Steps\<close>

datatype inbox_op =
    Message int string string string string string int
  | Invited int string string
  | Ignore int string
  | Unignore int string
  | Seen nat
  | AllSeen
  | Dismissed nat
  | ClearSeen
  | ClearAll
  | DismissedInvite int string string
  | DismissedFrom int string
  | Sweep
  | Configure ActivityConfig
  | Environment "int \<Rightarrow> string option" "int \<Rightarrow> string list option" string string bool int bool

text \<open>The environment sets the nicks, buddy lists, settings and the clock, and may close the database. A
  panic ends the run.\<close>

fun inbox_step :: "inbox_op \<Rightarrow> inbox \<Rightarrow> inbox option" where
  "inbox_step (Message net channel sender txt msgid typ ts) s = dispatchMessageActivity net channel sender txt msgid typ ts s"
| "inbox_step (Invited net inviter channel) s = Some (handleInviteReceived net inviter channel s)"
| "inbox_step (Ignore net nick) s = Some (IgnoreActivitySender net nick s)"
| "inbox_step (Unignore net nick) s = Some (UnignoreActivitySender net nick s)"
| "inbox_step (Seen i) s = Some (change_rows (MarkActivitySeen i) s)"
| "inbox_step AllSeen s = Some (change_rows MarkAllActivitySeen s)"
| "inbox_step (Dismissed i) s = Some (change_rows (DismissActivity i) s)"
| "inbox_step ClearSeen s = Some (change_rows ClearSeenActivity s)"
| "inbox_step ClearAll s = Some (change_rows ClearAllActivity s)"
| "inbox_step (DismissedInvite net inviter channel) s = Some (DismissInvite net inviter channel s)"
| "inbox_step (DismissedFrom net inviter) s = Some (DismissInvitesFrom net inviter s)"
| "inbox_step Sweep s = Some (sweepInvitesOnce s)"
| "inbox_step (Configure cfg) s = Some (SetActivitySettings cfg s)"
| "inbox_step (Environment nicks buddies ttl level enabled now close) s =
     Some (s\<lparr>ibNick := nicks, ibBuddies := buddies, ibTTL := ttl, ibLevel := level, ibEnabled := enabled, ibNow := now,
       ibDB := (if close then (ibDB s)\<lparr>adOpen := False\<rparr> else ibDB s)\<rparr>)"

primrec inbox_run :: "inbox_op list \<Rightarrow> inbox \<Rightarrow> inbox option" where
  "inbox_run [] s = Some s"
| "inbox_run (op # ops) s = Option.bind (inbox_step op s) (inbox_run ops)"

definition empty_inbox :: inbox where
  "empty_inbox = \<lparr>ibDB = \<lparr>adOpen = True, adRows = [], adNext = 1, adIgnored = []\<rparr>, ibSettings = NoSettings, ibNick = (\<lambda>_. None),
     ibBuddies = (\<lambda>_. Some []), ibTTL = [], ibLevel = [], ibEnabled = False, ibNow = 0, ibOut = []\<rparr>"

end
