(* ===== verification/Activity_Props.thy ===== *)
theory Activity_Props
  imports Activity
begin

text \<open>
  What the inbox keeps in every run: nothing from ignored senders, one invite per sender and channel;
  that a highlight is a whole word; the life of an invite; and a nick that stops the program.
\<close>

section \<open>The rows\<close>

definition invite_key :: "activity_row \<Rightarrow> int \<times> string \<times> string" where
  "invite_key r = (arNetwork r, sql_lower (arActor r), sql_lower (arTarget r))"

definition invites :: "activity_row list \<Rightarrow> activity_row list" where
  "invites = filter (\<lambda>r. arSource r = ActivityInvite)"

definition inbox_ok :: "activity_db \<Rightarrow> bool" where
  "inbox_ok db \<longleftrightarrow> (\<forall>r \<in> set (adRows db). \<not> ignores (adIgnored db) (arNetwork r) (arActor r) \<and> arID r < adNext db)
     \<and> distinct (map arID (adRows db)) \<and> distinct (map invite_key (invites (adRows db)))"

lemma ignores_alt: "ignores ig net nick \<longleftrightarrow> (\<exists>x. (net, x) \<in> set ig \<and> sql_lower x = sql_lower nick)"
  by (force simp: ignores_def list_ex_iff)

lemma invites_filter: "invites (filter P rows) = filter P (invites rows)"
  by (auto simp: invites_def intro: filter_cong)

lemma ok_filter: "inbox_ok db \<Longrightarrow> inbox_ok (db\<lparr>adRows := filter P (adRows db)\<rparr>)"
  by (auto simp: inbox_ok_def invites_filter distinct_map_filter)

lemma ok_map:
  assumes "inbox_ok db" "\<And>r. arID (f r) = arID r \<and> arNetwork (f r) = arNetwork r \<and> arActor (f r) = arActor r \<and> arTarget (f r) = arTarget r
    \<and> arSource (f r) = arSource r"
  shows "inbox_ok (db\<lparr>adRows := map f (adRows db)\<rparr>)"
proof -
  have "invites (map f rows) = map f (invites rows)" for rows by (simp add: invites_def filter_map o_def assms(2))
  moreover have "invite_key \<circ> f = invite_key" "arID \<circ> f = arID" by (auto simp: invite_key_def assms(2))
  ultimately show ?thesis using assms by (auto simp: inbox_ok_def)
qed

lemma ok_update_filter: "inbox_ok db \<Longrightarrow> update_rows (filter P) db = (ok, db') \<Longrightarrow> inbox_ok db'"
  by (auto simp: update_rows_def ok_filter split: if_splits)

lemma ok_write:
  assumes "inbox_ok db" "\<not> ignores (adIgnored db) (arNetwork r) (arActor r)"
    and "arSource r = ActivityInvite \<Longrightarrow> invite_key r \<notin> invite_key ` set (invites (adRows db))"
    and "WriteActivityItem r db = (ok, db')"
  shows "inbox_ok db'"
proof (cases "adOpen db")
  case True
  let ?r = "r\<lparr>arID := adNext db\<rparr>"
  have db': "db' = db\<lparr>adRows := adRows db @ [?r], adNext := Suc (adNext db)\<rparr>" using assms(4) True by (simp add: WriteActivityItem_def)
  have "invite_key ?r = invite_key r" by (simp add: invite_key_def)
  then have "distinct (map invite_key (invites (adRows db @ [?r])))"
    using assms(1,3) by (auto simp: invites_def inbox_ok_def)
  moreover have "distinct (map arID (adRows db @ [?r]))" using assms(1) by (auto simp: inbox_ok_def)
  ultimately show ?thesis using assms(1,2) by (auto simp: db' inbox_ok_def less_Suc_eq)
qed (use assms(1,4) in \<open>simp add: WriteActivityItem_def\<close>)

lemma ok_ignore:
  assumes "inbox_ok db" "AddIgnoredSender net nick db = (ok, db1)" "DeleteActivityFromSender net nick db1 = (ok', db2)" "ok"
  shows "inbox_ok db2 \<and> ok'"
proof -
  have o: "adOpen db" "db1 = (if (net, nick) \<in> set (adIgnored db) then db else db\<lparr>adIgnored := adIgnored db @ [(net, nick)]\<rparr>)"
    using assms(2,4) by (auto simp: AddIgnoredSender_def split: if_splits)
  then have rows: "adRows db1 = adRows db" "adNext db1 = adNext db" "adOpen db1" by auto
  have ig: "ignores (adIgnored db1) n x \<longleftrightarrow> ignores (adIgnored db) n x \<or> n = net \<and> sql_lower nick = sql_lower x" for n x
    unfolding o(2) by (auto simp: ignores_alt)
  have "db2 = db1\<lparr>adRows := filter (\<lambda>r. \<not> from_sender net nick r) (adRows db)\<rparr>" "ok'"
    using assms(3) rows by (auto simp: DeleteActivityFromSender_def update_rows_def)
  then show ?thesis using assms(1) rows ig
    by (auto simp: inbox_ok_def from_sender_def invites_filter distinct_map_filter)
qed

lemma ok_unignore:
  assumes "inbox_ok db" shows "inbox_ok (snd (RemoveIgnoredSender net nick db))"
  using assms by (fastforce simp: RemoveIgnoredSender_def inbox_ok_def ignores_alt)

lemma ok_sweep: "inbox_ok db \<Longrightarrow> inbox_ok (snd (SweepExpiredInvites now db))"
  by (simp add: SweepExpiredInvites_def ok_filter)

section \<open>Every step\<close>

lemma tell_db [simp]: "ibDB (tell x s) = ibDB s" by (simp add: tell_def)

lemma tells_db: "ibDB (fold (\<lambda>n. tell (f n)) ns s) = ibDB s"
  by (induction ns arbitrary: s) simp_all

lemma ok_message:
  assumes "inbox_ok (ibDB s)" "dispatchMessageActivity net channel sender txt msgid typ ts s = Some s'"
  shows "inbox_ok (ibDB s')"
proof (cases "ibDB s' = ibDB s")
  case False
  then obtain cfg nick src keyword db where n: "IsSenderIgnored net sender (ibDB s) \<noteq> Some True"
    and c: "ClassifyMessageActivity cfg nick txt typ (channel \<noteq> [] \<and> \<not> IsChannelName channel) = Some (Some (src, keyword))"
    and w: "WriteActivityItem (ActivityItemFromMessage net src keyword channel sender txt msgid (channel \<noteq> [] \<and> \<not> IsChannelName channel) ts) (ibDB s)
      = (True, db)" and s': "ibDB s' = db"
    using assms(2) by (auto simp: dispatchMessageActivity_def recordMessageActivity_def split: prod.splits bool.splits option.splits if_splits)
  have "adOpen (ibDB s)" using w by (auto simp: WriteActivityItem_def split: if_splits)
  then have "\<not> ignores (adIgnored (ibDB s)) net sender" using n by (simp add: IsSenderIgnored_def)
  moreover have "src \<noteq> ActivityInvite"
    using c by (auto simp: ClassifyMessageActivity_def ActivityInvite_def split: if_splits option.splits bool.splits)
  ultimately show ?thesis using ok_write [OF assms(1) _ _ w] s' by (simp add: ActivityItemFromMessage_def)
qed (use assms(1) in simp)

lemma ok_invite:
  assumes "inbox_ok (ibDB s)" shows "inbox_ok (ibDB (handleInviteReceived net inviter channel s))"
proof (cases "ibDB (handleInviteReceived net inviter channel s) = ibDB s")
  case False
  obtain k db where d: "DeleteInviteActivity net inviter channel (ibDB s) = (k, db)" by fastforce
  obtain ok db' where w: "WriteActivityItem (invite_row net inviter channel s) db = (ok, db')" by fastforce
  have r: "ibDB (handleInviteReceived net inviter channel s) = db'" "IsSenderIgnored net inviter (ibDB s) \<noteq> Some True"
    using False d w by (auto simp: handleInviteReceived_def Let_def split: if_splits bool.splits)
  have ok: "inbox_ok db" using ok_update_filter assms d unfolding DeleteInviteActivity_def by blast
  show ?thesis
  proof (cases "adOpen (ibDB s)")
    case True
    then have db: "db = (ibDB s)\<lparr>adRows := filter (\<lambda>r. \<not> same_invite net inviter channel r) (adRows (ibDB s))\<rparr>"
      using d by (simp add: DeleteInviteActivity_def update_rows_def)
    have "\<not> ignores (adIgnored db) net inviter" using r(2) True db by (simp add: IsSenderIgnored_def)
    moreover have "invite_key (invite_row net inviter channel s) \<notin> invite_key ` set (invites (adRows db))"
      unfolding db by (auto simp: invites_def invite_key_def invite_row_def same_invite_def from_sender_def)
    ultimately show ?thesis using ok_write [OF ok _ _ w] r(1) by (simp add: invite_row_def)
  next
    case False
    then have "db' = ibDB s" using d w by (simp add: DeleteInviteActivity_def update_rows_def WriteActivityItem_def)
    then show ?thesis using assms r(1) by simp
  qed
qed (use assms in simp)

lemma ok_dismiss: "inbox_ok (ibDB s) \<Longrightarrow> f = update_rows (filter P) \<Longrightarrow> inbox_ok (ibDB (dismiss_with net f s))"
  by (auto simp: dismiss_with_def dest: ok_update_filter split: prod.split)

lemma ok_step: "inbox_ok (ibDB s) \<Longrightarrow> inbox_step op s = Some s' \<Longrightarrow> inbox_ok (ibDB s')"
proof (cases op)
  case (Ignore net nick)
  assume a: "inbox_ok (ibDB s)" "inbox_step op s = Some s'"
  obtain ok db1 where b: "AddIgnoredSender net nick (ibDB s) = (ok, db1)" by fastforce
  obtain ok' db2 where c: "DeleteActivityFromSender net nick db1 = (ok', db2)" by fastforce
  show ?thesis using a b c Ignore ok_ignore [OF a(1) b c] by (cases ok) (auto simp: IgnoreActivitySender_def)
next
  case (Unignore net nick)
  assume a: "inbox_ok (ibDB s)" "inbox_step op s = Some s'"
  then show ?thesis using Unignore ok_unignore [OF a(1), of net nick]
    by (auto simp: UnignoreActivitySender_def split: prod.splits if_splits)
next
  case Sweep
  assume a: "inbox_ok (ibDB s)" "inbox_step op s = Some s'"
  then show ?thesis using Sweep ok_sweep [OF a(1), of "ibNow s"]
    by (auto simp: sweepInvitesOnce_def Let_def tells_db split: prod.splits option.splits if_splits)
next
  case (Seen i)
  assume "inbox_ok (ibDB s)" "inbox_step op s = Some s'"
  then show ?thesis using Seen by (auto simp: change_rows_def MarkActivitySeen_def update_rows_def intro!: ok_map)
next
  case AllSeen
  assume "inbox_ok (ibDB s)" "inbox_step op s = Some s'"
  then show ?thesis using AllSeen by (auto simp: change_rows_def MarkAllActivitySeen_def update_rows_def intro!: ok_map)
next
  case (Environment nicks buddies ttl level enabled now close)
  assume "inbox_ok (ibDB s)" "inbox_step op s = Some s'"
  then show ?thesis using Environment by (auto simp: inbox_ok_def split: if_splits)
qed (auto simp: ok_message ok_invite change_rows_def SetActivitySettings_def DismissInvite_def DismissInvitesFrom_def
    DismissActivity_def ClearSeenActivity_def ClearAllActivity_def
    DeleteInviteActivity_def DeleteInviteActivityFromSender_def update_rows_def intro: ok_filter ok_dismiss
    ok_filter [where P = "\<lambda>_. False", simplified] split: if_splits)

lemma ok_run: "inbox_ok (ibDB s) \<Longrightarrow> inbox_run ops s = Some s' \<Longrightarrow> inbox_ok (ibDB s')"
  by (induction ops arbitrary: s) (auto intro: ok_step split: bind_splits)


text \<open>An invite, and the same one again in another case.\<close>

definition invited :: "string \<Rightarrow> string \<Rightarrow> activity_row" where
  "invited inviter channel = invite_row 1 inviter channel empty_inbox"

lemma invited_row: "invite_row 1 inviter channel s = (invited inviter channel)\<lparr>arTime := ibNow s, arTrusted := isBuddy 1 inviter s,
    arExpires := if 0 < inviteTTL (ibTTL s) then Some (ibNow s + inviteTTL (ibTTL s)) else None\<rparr>"
  by (simp add: invited_def invite_row_def)

definition demo_inbox :: inbox where
  "demo_inbox = empty_inbox\<lparr>ibDB := \<lparr>adOpen = True, adRows = [(invited ''bob'' ''#a'')\<lparr>arID := 1\<rparr>], adNext = 2, adIgnored = []\<rparr>,
     ibOut := [InvitesChanged 1, ActivityChanged]\<rparr>"

lemma demo_invited: "inbox_step (Invited 1 ''bob'' ''#a'') empty_inbox = Some demo_inbox"
  by (simp add: handleInviteReceived_def empty_inbox_def IsSenderIgnored_def ignores_def GetActivitySettings_def defaultActivitySettings_def
      Let_def DeleteInviteActivity_def update_rows_def WriteActivityItem_def tell_def inviteNotifyDecision_def demo_inbox_def invited_def)


section \<open>Highlights\<close>

definition ends_word :: "bool \<Rightarrow> rune list \<Rightarrow> bool" where
  "ends_word start pre \<longleftrightarrow> (if pre = [] then start else \<not> word_rune (last pre))"

lemma find_word_iff: "find_word start w rs \<longleftrightarrow>
    (\<exists>pre mid post. rs = pre @ mid @ post \<and> map fold_rune mid = map fold_rune w \<and> ends_word start pre \<and> boundary post)"
proof (induction rs arbitrary: start)
  case Nil
  have "(\<exists>pre mid post. [] = pre @ mid @ post \<and> map fold_rune mid = map fold_rune w \<and> ends_word start pre \<and> boundary post)
      \<longleftrightarrow> w = [] \<and> start" by (auto simp: ends_word_def boundary_def)
  then show ?case by (subst find_word.simps) (auto simp: boundary_def)
next
  case (Cons r rs)
  let ?E = "\<lambda>b rs pre. \<exists>mid post. rs = pre @ mid @ post \<and> map fold_rune mid = map fold_rune w \<and> ends_word b pre \<and> boundary post"
  have here: "?E start (r # rs) [] \<longleftrightarrow> start \<and> map fold_rune (take (length w) (r # rs)) = map fold_rune w \<and> boundary (drop (length w) (r # rs))"
  proof
    assume "?E start (r # rs) []"
    then obtain mid post where m: "r # rs = mid @ post" "map fold_rune mid = map fold_rune w" "start" "boundary post"
      by (auto simp: ends_word_def)
    from m(2) have "length mid = length w" by (metis length_map)
    then show "start \<and> map fold_rune (take (length w) (r # rs)) = map fold_rune w \<and> boundary (drop (length w) (r # rs))"
      using m by simp
  next
    assume "start \<and> map fold_rune (take (length w) (r # rs)) = map fold_rune w \<and> boundary (drop (length w) (r # rs))"
    then show "?E start (r # rs) []"
      by (intro exI [of _ "take (length w) (r # rs)"] exI [of _ "drop (length w) (r # rs)"]) (simp add: ends_word_def)
  qed
  have later: "?E start (r # rs) (r # pre) \<longleftrightarrow> ?E (\<not> word_rune r) rs pre" for pre
    by (auto simp: ends_word_def)
  have "(\<exists>pre. ?E start (r # rs) pre) \<longleftrightarrow> ?E start (r # rs) [] \<or> (\<exists>pre. ?E start (r # rs) (r # pre))"
  proof
    assume "\<exists>pre. ?E start (r # rs) pre"
    then obtain pre where p: "?E start (r # rs) pre" by blast
    then show "?E start (r # rs) [] \<or> (\<exists>pre. ?E start (r # rs) (r # pre))" by (cases pre) auto
  qed blast
  then show ?case unfolding here later using Cons.IH [of "\<not> word_rune r"] by (subst find_word.simps) simp
qed

text \<open>
  A highlight is a whole word: a text is a highlight of a nick exactly when the nick occurs in it, in
  any case, with the text's ends or something other than an ASCII letter, digit or underscore on both
  sides.
\<close>

theorem highlight_is_whole_word:
  assumes "valid_utf8 nick" "nick \<noteq> []"
  shows "matchHighlight txt nick = Some (\<exists>pre mid post. runes txt = pre @ mid @ post \<and> map fold_rune mid = map fold_rune (runes nick)
    \<and> boundary (rev pre) \<and> boundary post)"
proof -
  have "ends_word True pre \<longleftrightarrow> boundary (rev pre)" for pre
    by (cases pre rule: rev_cases) (auto simp: ends_word_def boundary_def)
  then show ?thesis using assms by (simp add: matchHighlight_def find_word_iff)
qed

theorem highlight_is_whole_word_witness:
  "matchHighlight ''hi Bob!'' ''bob'' = Some True"
proof -
  have v: "valid_utf8 ''bob''" by (rule valid_utf8_ascii) (simp add: ascii_def char_eval)
  have n: "''bob'' \<noteq> []" by simp
  have r: "runes ''hi Bob!'' = [104, 105, 32] @ [66, 111, 98] @ [33]" "runes ''bob'' = [98, 111, 98]"
    by (simp_all add: runes_ascii ascii_def char_eval)
  have "\<exists>pre mid post. runes ''hi Bob!'' = pre @ mid @ post \<and> map fold_rune mid = map fold_rune (runes ''bob'')
      \<and> boundary (rev pre) \<and> boundary post"
    unfolding r by (rule exI [of _ "[104, 105, 32]"], rule exI [of _ "[66, 111, 98]"], rule exI [of _ "[33]"])
      (simp add: fold_rune_def boundary_def word_rune_def)
  then show ?thesis unfolding highlight_is_whole_word [OF v n] by simp
qed

text \<open>
  A nick that is not UTF-8 stops the program: the first message of a channel that reaches the
  classification compiles the nick into a regular expression, which panics, and nothing on the way to
  the dispatcher's goroutine recovers.
\<close>

theorem invalid_nick_panics:
  assumes "ibNick s net = Some nick" "nick \<noteq> []" "\<not> valid_utf8 nick" "GetActivitySettings s = (cfg, True)" "acHighlights cfg" "acPrivmsgs cfg"
    and "\<not> equal_fold sender nick" "IsSenderIgnored net sender (ibDB s) = Some False" "IsChannelName channel"
  shows "inbox_step (Message net channel sender txt msgid ''privmsg'' ts) s = None"
  using assms by (simp add: dispatchMessageActivity_def recordMessageActivity_def ClassifyMessageActivity_def matchHighlight_def)

theorem invalid_nick_panics_witness:
  "\<exists>nick. inbox_step (Message 1 ''#a'' ''bob'' ''hi'' [] ''privmsg'' 0) (empty_inbox\<lparr>ibNick := (\<lambda>_. Some nick)\<rparr>) = None"
proof -
  let ?n = "[CHR 0xE9]" and ?s = "\<lambda>n. empty_inbox\<lparr>ibNick := (\<lambda>_. Some n)\<rparr>"
  have v: "\<not> valid_utf8 ?n" by (simp add: valid_utf8_def runes.simps decode_rune_def char_eval rune_error_def unrunes_def encode_rune_def)
  have a: "ibNick (?s ?n) 1 = Some ?n" "?n \<noteq> []" by simp_all
  have g: "GetActivitySettings (?s ?n) = (defaultActivitySettings, True)" "acHighlights defaultActivitySettings" "acPrivmsgs defaultActivitySettings"
    by (simp_all add: GetActivitySettings_def empty_inbox_def defaultActivitySettings_def)
  have e: "\<not> equal_fold ''bob'' ?n"
    by (simp add: equal_fold_def runes_ascii ascii_def char_eval runes.simps decode_rune_def)
  have i: "IsSenderIgnored 1 ''bob'' (ibDB (?s ?n)) = Some False" by (simp add: IsSenderIgnored_def empty_inbox_def ignores_def)
  have c: "IsChannelName ''#a''" by (simp add: IsChannelName_def has_prefix_def)
  show ?thesis by (rule exI [of _ ?n]) (rule invalid_nick_panics [OF a(1,2) v g e i c])
qed

section \<open>The life of an invite\<close>

lemma ttl_hours:
  assumes "0 < h" "h \<le> 5124095"
  shows "inviteTTL (int_str h) = (if h \<le> 2562047 then h * hour else h * hour - 2 ^ 64)"
proof -
  have "parse_int64 (int_str h) = Some h" by (rule parse_int64_int_str) (use assms in auto)
  moreover have "int_str h \<noteq> []" using assms by (simp add: int_str_def nat_str_not_Nil)
  ultimately have "inviteTTL (int_str h) = int64 (h * hour)" using assms(1) by (simp add: inviteTTL_def)
  moreover have "int64 (h * hour) = (if h \<le> 2562047 then h * hour else h * hour - 2 ^ 64)"
  proof (cases "h \<le> 2562047")
    case True
    then show ?thesis using assms by (simp add: hour_def int64_id)
  next
    case False
    then show ?thesis using assms by (simp add: hour_def int64_wraps)
  qed
  ultimately show ?thesis by simp
qed

lemma invite_listed:
  "list_ex (same_invite net inviter channel) (the (GetInvites net (s\<lparr>ibNow := t\<rparr>)))
    \<longleftrightarrow> (\<exists>r \<in> set (adRows (ibDB s)). same_invite net inviter channel r \<and> \<not> invite_expired t r)" if "adOpen (ibDB s)"
  using that by (auto simp: GetInvites_def ListInviteActivity_def newest_first_def list_ex_iff same_invite_def from_sender_def)

text \<open>
  An invite is listed for as long as the setting says, in whole hours, and no longer: up to 2562047
  hours. Beyond, the duration wraps to a negative number, and the invite never expires.
\<close>

theorem invite_lives_for_its_hours:
  assumes "adOpen (ibDB s)" "inviter \<noteq> []" "channel \<noteq> []" "\<not> ignores (adIgnored (ibDB s)) net inviter"
    and "GetActivitySettings s = (cfg, True)" "acInvites cfg" "ibTTL s = int_str h" "0 < h" "h \<le> 5124095"
  shows "list_ex (same_invite net inviter channel) (the (GetInvites net ((handleInviteReceived net inviter channel s)\<lparr>ibNow := t\<rparr>)))
    \<longleftrightarrow> h > 2562047 \<or> t < ibNow s + h * hour"
proof -
  let ?row = "(invite_row net inviter channel s)\<lparr>arID := adNext (ibDB s)\<rparr>"
  let ?old = "filter (\<lambda>r. \<not> same_invite net inviter channel r) (adRows (ibDB s))"
  let ?s = "handleInviteReceived net inviter channel s"
  have db: "ibDB ?s = (ibDB s)\<lparr>adRows := ?old @ [?row], adNext := Suc (adNext (ibDB s))\<rparr>"
    using assms(1-6) by (simp add: handleInviteReceived_def IsSenderIgnored_def DeleteInviteActivity_def update_rows_def
        WriteActivityItem_def Let_def)
  have same: "same_invite net inviter channel ?row" by (simp add: same_invite_def from_sender_def invite_row_def)
  have "list_ex (same_invite net inviter channel) (the (GetInvites net (?s\<lparr>ibNow := t\<rparr>))) \<longleftrightarrow> \<not> invite_expired t ?row"
    using invite_listed [of ?s net inviter channel t] db same assms(1) by auto
  also have "\<dots> \<longleftrightarrow> h > 2562047 \<or> t < ibNow s + h * hour"
    using ttl_hours [OF assms(8,9)] assms(7,8,9) by (auto simp: invite_expired_def invite_row_def hour_def)
  finally show ?thesis .
qed

theorem invite_lives_for_its_hours_witness:
  "list_ex (same_invite 1 ''bob'' ''#a'') (the (GetInvites 1 ((handleInviteReceived 1 ''bob'' ''#a'' (empty_inbox\<lparr>ibTTL := int_str 2\<rparr>))\<lparr>ibNow := 10 ^ 9\<rparr>)))
    \<and> list_ex (same_invite 1 ''bob'' ''#a'') (the (GetInvites 1 ((handleInviteReceived 1 ''bob'' ''#a'' (empty_inbox\<lparr>ibTTL := int_str 2562048\<rparr>))\<lparr>ibNow := 10 ^ 40\<rparr>)))"
proof -
  let ?s = "\<lambda>h. empty_inbox\<lparr>ibTTL := int_str h\<rparr>"
  have a: "adOpen (ibDB (?s h))" "''bob'' \<noteq> []" "''#a'' \<noteq> []" "\<not> ignores (adIgnored (ibDB (?s h))) 1 ''bob''"
    "GetActivitySettings (?s h) = (defaultActivitySettings, True)" "acInvites defaultActivitySettings" "ibTTL (?s h) = int_str h" "ibNow (?s h) = 0" for h
    by (simp_all add: empty_inbox_def ignores_def GetActivitySettings_def defaultActivitySettings_def)
  show ?thesis
    using invite_lives_for_its_hours [OF a(1-7), of 2 "10 ^ 9"] invite_lives_for_its_hours [OF a(1-7), of 2562048 "10 ^ 40"] a(8)
    by (simp add: hour_def)
qed

end
