(* ===== verification/App_Events.thy ===== *)
theory App_Events
  imports Event_Bus Network_Config Activity "HOL-Library.AList"
begin

text \<open>
  What the application does with an event of the bus: \<open>app_events.go\<close> (the routing of \<open>OnEvent\<close>, the two
  coalescers and the desktop notifications), the gate of \<open>internal/notification/notification.go\<close> and the
  routing of a notification's response in \<open>app_notifications.go\<close>. The transfer manager, the connection
  manager and the STS store have models of their own; here a call of one is an output. A panic is \<open>None\<close>.
\<close>

section \<open>Events\<close>

type_synonym event_data = "string \<rightharpoonup> event_value"
type_synonym app_ev = "(event_data \<times> int) Event"

definition EventMessageReceived :: string where "EventMessageReceived = ''message.received''"
definition EventMessageSent :: string where "EventMessageSent = ''message.sent''"
definition EventUserJoined :: string where "EventUserJoined = ''user.joined''"
definition EventUserParted :: string where "EventUserParted = ''user.parted''"
definition EventUserQuit :: string where "EventUserQuit = ''user.quit''"
definition EventUserKicked :: string where "EventUserKicked = ''user.kicked''"
definition EventUserNick :: string where "EventUserNick = ''user.nick''"
definition EventNickChanged :: string where "EventNickChanged = ''nick.changed''"
definition EventChannelTopic :: string where "EventChannelTopic = ''channel.topic''"
definition EventChannelMode :: string where "EventChannelMode = ''channel.mode''"
definition EventChannelUserMode :: string where "EventChannelUserMode = ''channel.usermode''"
definition EventChannelBanList :: string where "EventChannelBanList = ''channel.banlist''"
definition EventChannelNamesComplete :: string where "EventChannelNamesComplete = ''channel.names.complete''"
definition EventChannelsChanged :: string where "EventChannelsChanged = ''channels.changed''"
definition EventConnectionEstablished :: string where "EventConnectionEstablished = ''connection.established''"
definition EventConnectionLost :: string where "EventConnectionLost = ''connection.lost''"
definition EventError :: string where "EventError = ''error''"
definition EventSASLFailed :: string where "EventSASLFailed = ''sasl.failed''"
definition EventWhoisReceived :: string where "EventWhoisReceived = ''whois.received''"
definition EventChannelListEnd :: string where "EventChannelListEnd = ''channel.list.end''"
definition EventHistoryReceived :: string where "EventHistoryReceived = ''history.received''"
definition EventBotDetected :: string where "EventBotDetected = ''bot.detected''"
definition EventUserMetaChanged :: string where "EventUserMetaChanged = ''user.meta''"
definition EventSTSPolicy :: string where "EventSTSPolicy = ''sts.policy''"
definition EventMonitorChanged :: string where "EventMonitorChanged = ''monitor.changed''"
definition EventTypingReceived :: string where "EventTypingReceived = ''typing.received''"
definition EventInviteReceived :: string where "EventInviteReceived = ''invite.received''"
definition EventStatusMessage :: string where "EventStatusMessage = ''status.message''"
definition EventDCCControl :: string where "EventDCCControl = ''dcc.control''"
definition EventMetadataUpdated :: string where "EventMetadataUpdated = ''metadata.updated''"
definition EventPluginLifecycle :: string where "EventPluginLifecycle = ''plugin.lifecycle''"
definition EventUIPaneFocused :: string where "EventUIPaneFocused = ''ui.pane.focused''"
definition EventUIPaneBlurred :: string where "EventUIPaneBlurred = ''ui.pane.blurred''"

lemmas event_names = EventMessageReceived_def EventMessageSent_def EventUserJoined_def EventUserParted_def
  EventUserQuit_def EventUserKicked_def EventUserNick_def EventNickChanged_def EventChannelTopic_def
  EventChannelMode_def EventChannelUserMode_def EventChannelBanList_def EventChannelNamesComplete_def
  EventChannelsChanged_def EventConnectionEstablished_def EventConnectionLost_def EventError_def EventSASLFailed_def
  EventWhoisReceived_def EventChannelListEnd_def EventHistoryReceived_def EventBotDetected_def
  EventUserMetaChanged_def EventSTSPolicy_def EventMonitorChanged_def EventTypingReceived_def
  EventInviteReceived_def EventStatusMessage_def EventDCCControl_def EventMetadataUpdated_def
  EventPluginLifecycle_def EventUIPaneFocused_def EventUIPaneBlurred_def

definition appForwardedEventTypes :: "string list" where
  "appForwardedEventTypes =
     [EventMessageSent, EventMessageReceived, EventConnectionEstablished, EventConnectionLost, EventChannelsChanged,
      EventUserJoined, EventUserParted, EventUserQuit, EventUserKicked, EventUserNick, EventNickChanged,
      EventChannelTopic, EventChannelMode, EventChannelUserMode, EventChannelBanList, EventError,
      EventChannelNamesComplete, EventWhoisReceived, EventChannelListEnd, EventHistoryReceived, EventTypingReceived,
      EventBotDetected, EventMonitorChanged, EventUserMetaChanged, EventSASLFailed, EventSTSPolicy,
      EventInviteReceived, EventStatusMessage, EventDCCControl]"

text \<open>The bus as \<open>NewApp\<close> leaves it, with the application as the subscriber \<open>()\<close>.\<close>

definition app_bus :: "(event_data \<times> int, unit) EventBus" where
  "app_bus = fold (\<lambda>ty. Subscribe ty ()) appForwardedEventTypes NewEventBus"

text \<open>A type assertion with a discarded flag gives the zero value.\<close>

definition text_of :: "event_data \<Rightarrow> string \<Rightarrow> string" where
  "text_of data k = (case data k of Some (TextValue t) \<Rightarrow> t | _ \<Rightarrow> [])"

definition int_of_data :: "event_data \<Rightarrow> string \<Rightarrow> int" where
  "int_of_data data k = (case data k of Some (IntValue i) \<Rightarrow> i | _ \<Rightarrow> 0)"

definition bool_of :: "event_data \<Rightarrow> string \<Rightarrow> bool" where
  "bool_of data k = (case data k of Some (BoolValue b) \<Rightarrow> b | _ \<Rightarrow> False)"

text \<open>\<open>%v\<close>.\<close>

definition fmt_v :: "event_value \<Rightarrow> string" where
  "fmt_v v = (case v of IntValue i \<Rightarrow> int_str i | TextValue t \<Rightarrow> t | BoolValue b \<Rightarrow> (if b then ''true'' else ''false'')
     | OtherValue s \<Rightarrow> s)"

section \<open>Outputs\<close>

datatype wire = Absent | Value event_value | Stamp int | Payload event_data | Batch "event_data list"

definition field :: "event_data \<Rightarrow> string \<Rightarrow> wire" where
  "field data k = (case data k of None \<Rightarrow> Absent | Some v \<Rightarrow> Value v)"

definition text_wire :: "string \<Rightarrow> wire" where "text_wire t = Value (TextValue t)"

text \<open>RFC 3339 to the second; the other stamps carry nanoseconds.\<close>

definition to_second :: "int \<Rightarrow> wire" where "to_second ts = Stamp (ts div 10 ^ 9 * 10 ^ 9)"

record Notification =
  nTitle :: string
  nBody :: string
  nCategory :: string
  nInfo :: event_data

datatype hub_out =
    Emitted string "(string \<times> wire) list"
  | DccControl int string string string
  | Lost int
  | STSAdvert int string bool int int int
  | Notified Notification
  | FromInbox inbox_out

record Prefs =
  pfEnabled :: bool
  pfPrivateMessages :: bool
  pfMentions :: bool
  pfConnectionLost :: bool
  pfOnlyWhenUnfocused :: bool

record Notifier =
  nfFocused :: bool
  nfPrefs :: Prefs

section \<open>Coalescing user snapshots\<close>

text \<open>\<open>mqTimers\<close> counts the armed timers; \<open>mqTaken\<close> is the batches taken under the lock and not yet emitted.\<close>

record meta_queue =
  mqPending :: "(string \<times> event_data) list"
  mqSet :: bool
  mqTimers :: nat
  mqTaken :: "event_data list list"

definition userMetaFrontendBatchSize :: nat where "userMetaFrontendBatchSize = 256"

definition meta_key :: "event_data \<Rightarrow> string option" where
  "meta_key data = (case data ''networkId'' of None \<Rightarrow> None
     | Some v \<Rightarrow> if text_of data ''nickname'' = [] then None
         else Some (fmt_v v @ '':'' @ to_lower (text_of data ''nickname'')))"

definition queueUserMetaFrontend :: "event_data \<Rightarrow> meta_queue \<Rightarrow> meta_queue" where
  "queueUserMetaFrontend data q = (case meta_key data of None \<Rightarrow> q
     | Some key \<Rightarrow>
         (let q = q\<lparr>mqPending := AList.update key data (mqPending q)\<rparr>
          in if mqSet q then q else q\<lparr>mqSet := True, mqTimers := Suc (mqTimers q)\<rparr>))"

text \<open>The keys in the order Go iterates over the map, chosen by the argument.\<close>

definition iteration :: "string list \<Rightarrow> (string \<times> 'a) list \<Rightarrow> (string \<times> 'a) list" where
  "iteration order m = map (\<lambda>k. (k, the (map_of m k)))
     (filter (\<lambda>k. k \<in> set (map fst m)) (remdups order) @ filter (\<lambda>k. k \<notin> set order) (map fst m))"

definition flushUserMetaFrontend :: "string list \<Rightarrow> meta_queue \<Rightarrow> meta_queue" where
  "flushUserMetaFrontend order q =
     (let all = iteration order (mqPending q);
          rest = drop userMetaFrontendBatchSize all
      in q\<lparr>mqPending := rest, mqTaken := mqTaken q @ [map snd (take userMetaFrontendBatchSize all)],
           mqSet := mqSet q \<and> rest \<noteq> [], mqTimers := (if rest \<noteq> [] then mqTimers q else mqTimers q - 1)\<rparr>)"

section \<open>Debouncing rosters\<close>

text \<open>\<open>rqTimers\<close> is when the armed timers are due. Time is in nanoseconds.\<close>

record roster_queue =
  rqPending :: "(string \<times> (wire \<times> string)) list"
  rqLast :: int
  rqSet :: bool
  rqTimers :: "int list"

definition channelRosterFrontendDelay :: int where "channelRosterFrontendDelay = 250 * 10 ^ 6"

definition roster_key :: "event_data \<Rightarrow> (string \<times> (wire \<times> string)) option" where
  "roster_key data = (case data ''networkId'' of None \<Rightarrow> None
     | Some v \<Rightarrow> if text_of data ''channel'' = [] then None
         else Some (fmt_v v @ '':'' @ to_lower (text_of data ''channel''), Value v, text_of data ''channel''))"

definition queueChannelRosterFrontend :: "event_data \<Rightarrow> int \<Rightarrow> roster_queue \<Rightarrow> roster_queue" where
  "queueChannelRosterFrontend data now q = (case roster_key data of None \<Rightarrow> q
     | Some (key, marker) \<Rightarrow>
         (let q = q\<lparr>rqPending := AList.update key marker (rqPending q), rqLast := now\<rparr>
          in if rqSet q then q else q\<lparr>rqSet := True, rqTimers := rqTimers q @ [now + channelRosterFrontendDelay]\<rparr>))"

text \<open>The timer that fired is not in the list any more; the markers to emit, if any.\<close>

definition flushChannelRosterFrontend :: "int \<Rightarrow> roster_queue \<Rightarrow> (wire \<times> string) list \<times> roster_queue" where
  "flushChannelRosterFrontend now q =
     (let quietFor = now - rqLast q
      in if quietFor < channelRosterFrontendDelay
         then ([], q\<lparr>rqTimers := rqTimers q @ [now + (channelRosterFrontendDelay - quietFor)]\<rparr>)
         else (map snd (rqPending q), q\<lparr>rqPending := [], rqSet := False\<rparr>))"

section \<open>The application as the bus sees it\<close>

text \<open>\<open>hubLists\<close> is the cache of channel lists: the \<open>channels\<close> of the event, which the client sends as the
  list the cache keeps.\<close>

record hub =
  hubReady :: bool
  hubDB :: config_db
  hubInbox :: inbox
  hubDcc :: bool
  hubNotifier :: "Notifier option"
  hubMeta :: meta_queue
  hubRoster :: roster_queue
  hubNow :: int
  hubLists :: "int \<rightharpoonup> wire \<times> int"
  hubOut :: "hub_out list"

definition put :: "hub_out \<Rightarrow> hub \<Rightarrow> hub" where "put x s = s\<lparr>hubOut := hubOut s @ [x]\<rparr>"

definition emit_typed :: "string \<Rightarrow> app_ev \<Rightarrow> hub \<Rightarrow> hub" where
  "emit_typed name e = put (Emitted name
     [(''type'', text_wire (eType e)), (''data'', Payload (fst (eData e))), (''timestamp'', to_second (snd (eData e)))])"

text \<open>One operation of the inbox; what it tells the frontend and the desktop follows in the outputs.\<close>

definition with_inbox :: "(inbox \<Rightarrow> inbox option) \<Rightarrow> hub \<Rightarrow> hub option" where
  "with_inbox f s = (case f ((hubInbox s)\<lparr>ibOut := []\<rparr>) of
     None \<Rightarrow> None
   | Some ib \<Rightarrow> Some (s\<lparr>hubInbox := ib\<lparr>ibOut := []\<rparr>, hubOut := hubOut s @ map FromInbox (ibOut ib)\<rparr>))"

section \<open>Desktop notifications\<close>

definition ShouldNotify :: "Notifier \<Rightarrow> string \<Rightarrow> bool" where
  "ShouldNotify n ty = (let p = nfPrefs n in
     if \<not> pfEnabled p then False
     else if pfOnlyWhenUnfocused p \<and> nfFocused n then False
     else if ty = EventMessageReceived then pfPrivateMessages p \<or> pfMentions p
     else if ty = EventConnectionLost then pfConnectionLost p
     else False)"

definition IsPrivateMessage :: "event_data \<Rightarrow> bool" where
  "IsPrivateMessage data = (case text_of data ''channel'' of [] \<Rightarrow> False | c # _ \<Rightarrow> c \<noteq> CHR ''#'' \<and> c \<noteq> CHR ''&'')"

definition IsMention :: "string \<Rightarrow> string \<Rightarrow> bool" where
  "IsMention message nickname \<longleftrightarrow> nickname \<noteq> [] \<and> contains_str (to_lower message) (to_lower nickname)"

definition notifyCategoryMessage :: string where "notifyCategoryMessage = ''message''"
definition notifyCategoryConnection :: string where "notifyCategoryConnection = ''connection''"

definition notify_info :: "int \<Rightarrow> string \<Rightarrow> string \<Rightarrow> event_data" where
  "notify_info networkID target kind =
     [''networkId'' \<mapsto> TextValue (int_str networkID), ''target'' \<mapsto> TextValue target, ''kind'' \<mapsto> TextValue kind]"

definition notify_message :: "event_data \<Rightarrow> Prefs \<Rightarrow> config_db \<Rightarrow> Notification option" where
  "notify_message data prefs db =
     (let user = text_of data ''user''; channel = text_of data ''channel''; message = text_of data ''message''
      in case resolveNetworkID data db of
        None \<Rightarrow> None
      | Some networkID \<Rightarrow> (case (if networkID < 0 then None else GetNetwork (nat networkID) db) of
          None \<Rightarrow> None
        | Some network \<Rightarrow>
            (let myNick = nrNickname network
             in if equal_fold user myNick then None
                else if text_of data ''messageType'' = ''notice'' then None
                else if IsPrivateMessage data
                then if \<not> pfPrivateMessages prefs then None
                     else Some \<lparr>nTitle = ''PM from '' @ user, nBody = message, nCategory = notifyCategoryMessage,
                                nInfo = notify_info networkID (''pm:'' @ user) ''pm''\<rparr>
                else if IsMention message myNick
                then if \<not> pfMentions prefs then None
                     else Some \<lparr>nTitle = ''Mention in '' @ channel, nBody = user @ '': '' @ message, nCategory = notifyCategoryMessage,
                                nInfo = notify_info networkID channel ''mention''\<rparr>
                else None)))"

definition notify_lost :: "event_data \<Rightarrow> Notification" where
  "notify_lost data = \<lparr>nTitle = ''Connection Lost: '' @ text_of data ''network'',
     nBody = ''Cascade Chat lost connection to the server.'', nCategory = notifyCategoryConnection,
     nInfo = notify_info (int_of_data data ''networkId'') [] ''connection''\<rparr>"

definition handleDesktopNotification :: "app_ev \<Rightarrow> hub \<Rightarrow> hub" where
  "handleDesktopNotification e s = (case hubNotifier s of
     None \<Rightarrow> s
   | Some n \<Rightarrow>
       if \<not> ShouldNotify n (eType e) then s
       else if eType e = EventMessageReceived
       then (case notify_message (fst (eData e)) (nfPrefs n) (hubDB s) of None \<Rightarrow> s | Some x \<Rightarrow> put (Notified x) s)
       else if eType e = EventConnectionLost then put (Notified (notify_lost (fst (eData e)))) s
       else s)"

section \<open>Routing\<close>

definition on_dcc_control :: "event_data \<Rightarrow> hub \<Rightarrow> hub" where
  "on_dcc_control data s = (case resolveNetworkID data (hubDB s) of
     Some networkID \<Rightarrow> if text_of data ''peer'' \<noteq> [] \<and> text_of data ''payload'' \<noteq> [] \<and> hubDcc s
       then put (DccControl networkID (text_of data ''networkName'') (text_of data ''peer'') (text_of data ''payload'')) s else s
   | None \<Rightarrow> s)"

definition on_connection :: "bool \<Rightarrow> event_data \<Rightarrow> int \<Rightarrow> hub \<Rightarrow> hub" where
  "on_connection isConnected data ts s = (case resolveNetworkID data (hubDB s) of
     None \<Rightarrow> s
   | Some networkID \<Rightarrow>
       (let s = put (Emitted ''connection-status'' [(''networkId'', Value (IntValue networkID)),
              (''connected'', Value (BoolValue isConnected)), (''timestamp'', Stamp ts)]) s
        in if isConnected then s else put (Lost networkID) s))"

definition on_sasl_failed :: "event_data \<Rightarrow> int \<Rightarrow> hub \<Rightarrow> hub" where
  "on_sasl_failed data ts s = (case resolveNetworkID data (hubDB s) of
     None \<Rightarrow> s
   | Some networkID \<Rightarrow> put (Emitted ''auth-failed'' [(''networkId'', Value (IntValue networkID)),
        (''reason'', text_wire (text_of data ''error'')), (''timestamp'', Stamp ts)]) s)"

definition on_sts_policy :: "event_data \<Rightarrow> hub \<Rightarrow> hub" where
  "on_sts_policy data s = (case resolveNetworkID data (hubDB s) of
     None \<Rightarrow> s
   | Some networkID \<Rightarrow> put (STSAdvert networkID (text_of data ''host'') (bool_of data ''secure'') (int_of_data data ''port'')
        (int_of_data data ''currentPort'') (int_of_data data ''duration'')) s)"

definition on_nick_changed :: "event_data \<Rightarrow> int \<Rightarrow> hub \<Rightarrow> hub" where
  "on_nick_changed data ts s = (case resolveNetworkID data (hubDB s) of
     None \<Rightarrow> s
   | Some networkID \<Rightarrow> put (Emitted ''current-nick'' [(''networkId'', Value (IntValue networkID)), (''nick'', field data ''nick''),
        (''desired'', field data ''desired''), (''isPreferred'', field data ''isPreferred''), (''timestamp'', to_second ts)]) s)"

definition on_channels_changed :: "event_data \<Rightarrow> int \<Rightarrow> hub \<Rightarrow> hub" where
  "on_channels_changed data ts s =
     (let networkID = (case data ''networkId'' of Some (IntValue i) \<Rightarrow> i
            | _ \<Rightarrow> (case data ''network'' of
                Some (TextValue a) \<Rightarrow> (case findNetworkIDByAddress a (hubDB s) of Some n \<Rightarrow> int n | None \<Rightarrow> 0)
              | _ \<Rightarrow> 0))
      in put (Emitted ''channels-changed'' [(''networkId'', Value (IntValue networkID)), (''timestamp'', to_second ts)]) s)"

definition messageEvents :: "string list" where
  "messageEvents = [EventMessageSent, EventMessageReceived, EventUserJoined, EventUserParted, EventUserQuit, EventUserKicked,
     EventUserNick, EventChannelTopic, EventChannelMode, EventChannelUserMode, EventChannelBanList, EventError,
     EventStatusMessage]"

definition record_activity :: "event_data \<Rightarrow> int \<Rightarrow> hub \<Rightarrow> hub option" where
  "record_activity data ts s = (case resolveNetworkID data (hubDB s) of
     None \<Rightarrow> Some s
   | Some networkID \<Rightarrow> with_inbox (dispatchMessageActivity networkID (text_of data ''channel'') (text_of data ''user'')
        (text_of data ''message'') (text_of data ''msgid'') (text_of data ''messageType'') ts) s)"

definition receive_invite :: "event_data \<Rightarrow> hub \<Rightarrow> hub option" where
  "receive_invite data s = (case resolveNetworkID data (hubDB s) of
     None \<Rightarrow> Some s
   | Some networkID \<Rightarrow> with_inbox (\<lambda>ib. Some (handleInviteReceived networkID (text_of data ''inviter'') (text_of data ''channel'') ib)) s)"

definition cacheChannelList :: "event_data \<Rightarrow> hub \<Rightarrow> hub" where
  "cacheChannelList data s = (case data ''networkId'' of
     Some (IntValue i) \<Rightarrow> s\<lparr>hubLists := (hubLists s)(i \<mapsto> (field data ''channels'', hubNow s))\<rparr> | _ \<Rightarrow> s)"

definition on_typing :: "event_data \<Rightarrow> hub \<Rightarrow> hub" where
  "on_typing data = put (Emitted ''typing-event'' [(''networkId'', field data ''networkId''), (''target'', field data ''target''),
     (''nick'', field data ''nick''), (''state'', field data ''state'')])"

definition on_lifecycle :: "event_data \<Rightarrow> hub \<Rightarrow> hub" where
  "on_lifecycle data = put (Emitted ''plugin-lifecycle'' [(''action'', field data ''action''), (''plugin'', field data ''plugin'')])"

definition on_metadata :: "event_data \<Rightarrow> hub \<Rightarrow> hub" where
  "on_metadata data = put (Emitted ''metadata-updated'' (case data ''updates'' of
     Some v \<Rightarrow> [(''updates'', Value v)]
   | None \<Rightarrow> map (\<lambda>k. (k, field data k)) [''type'', ''network_id'', ''channel'', ''key'', ''value'']))"

definition on_pane :: "app_ev \<Rightarrow> hub \<Rightarrow> hub" where
  "on_pane e = (let data = fst (eData e) in put (Emitted ''ui-pane-event'' [(''type'', text_wire (eType e)),
     (''networkId'', field data ''networkId''), (''paneType'', field data ''type''), (''paneName'', field data ''name''),
     (''timestamp'', to_second (snd (eData e)))]))"

text \<open>The branches that do not return, in the order of the code.\<close>

definition show_message :: "app_ev \<Rightarrow> hub \<Rightarrow> hub" where
  "show_message e s = (if eType e \<in> set messageEvents then emit_typed ''message-event'' e s else s)"

definition show_queries :: "app_ev \<Rightarrow> hub \<Rightarrow> hub" where
  "show_queries e s =
     (let s = (if eType e = EventChannelListEnd then emit_typed ''channel-list'' e (cacheChannelList (fst (eData e)) s) else s);
          s = (if eType e = EventWhoisReceived then emit_typed ''whois-event'' e s else s);
          s = (if eType e = EventBotDetected then emit_typed ''bot-event'' e s else s)
      in if eType e = EventMonitorChanged then emit_typed ''monitor-event'' e s else s)"

definition forward_rest :: "app_ev \<Rightarrow> hub \<Rightarrow> hub option" where
  "forward_rest e s =
     (let data = fst (eData e)
      in if eType e = EventUserMetaChanged then Some (s\<lparr>hubMeta := queueUserMetaFrontend data (hubMeta s)\<rparr>)
         else if eType e = EventPluginLifecycle then Some (on_lifecycle data s)
         else if eType e = EventMetadataUpdated then Some (on_metadata data s)
         else if eType e = EventUIPaneFocused \<or> eType e = EventUIPaneBlurred then Some (on_pane e s)
         else if eType e = EventInviteReceived then receive_invite data s
         else Some (handleDesktopNotification e s))"

definition forward_event :: "app_ev \<Rightarrow> hub \<Rightarrow> hub option" where
  "forward_event e s =
     (let data = fst (eData e); ts = snd (eData e)
      in if eType e = EventMessageReceived
         then Option.bind (record_activity data ts (show_message e s)) (\<lambda>s. forward_rest e (show_queries e s))
         else if eType e = EventHistoryReceived then Some (emit_typed ''history-event'' e (show_message e s))
         else if eType e = EventTypingReceived then Some (on_typing data (show_message e s))
         else forward_rest e (show_queries e (show_message e s)))"

definition OnEvent :: "app_ev \<Rightarrow> hub \<Rightarrow> hub option" where
  "OnEvent e s =
     (let data = fst (eData e); ts = snd (eData e)
      in if \<not> hubReady s then Some s
         else if eType e = EventDCCControl then Some (on_dcc_control data s)
         else if eType e = EventConnectionEstablished \<or> eType e = EventConnectionLost
         then Some (on_connection (eType e = EventConnectionEstablished) data ts s)
         else if eType e = EventSASLFailed then Some (on_sasl_failed data ts s)
         else if eType e = EventSTSPolicy then Some (on_sts_policy data s)
         else if eType e = EventNickChanged then Some (on_nick_changed data ts s)
         else if eType e = EventChannelsChanged then Some (on_channels_changed data ts s)
         else if eType e = EventChannelNamesComplete
         then Some (s\<lparr>hubRoster := queueChannelRosterFrontend data (hubNow s) (hubRoster s)\<rparr>)
         else forward_event e s)"

section \<open>Steps\<close>

text \<open>An event, the timer of the user snapshots, the emission of a batch it took (with the lock released),
  the timer of the rosters, and the clock.\<close>

datatype hub_op = Deliver app_ev | MetaTimer "string list" | MetaEmit nat | RosterTimer | Clock int

definition emit_meta :: "nat \<Rightarrow> hub \<Rightarrow> hub" where
  "emit_meta i s = (let q = hubMeta s in if length (mqTaken q) \<le> i then s
     else let updates = mqTaken q ! i; s = s\<lparr>hubMeta := q\<lparr>mqTaken := take i (mqTaken q) @ drop (Suc i) (mqTaken q)\<rparr>\<rparr>
          in if updates = [] then s
             else put (Emitted ''usermeta-event'' [(''type'', text_wire EventUserMetaChanged), (''updates'', Batch updates)]) s)"

definition roster_wire :: "wire \<times> string \<Rightarrow> event_data" where
  "roster_wire m = (case m of (Value v, c) \<Rightarrow> [''networkId'' \<mapsto> v, ''channel'' \<mapsto> TextValue c] | _ \<Rightarrow> Map.empty)"

definition roster_timer :: "hub \<Rightarrow> hub" where
  "roster_timer s = (case rqTimers (hubRoster s) of
     [] \<Rightarrow> s
   | due # timers \<Rightarrow> if hubNow s < due then s
       else (case flushChannelRosterFrontend (hubNow s) ((hubRoster s)\<lparr>rqTimers := timers\<rparr>) of
         (updates, q) \<Rightarrow> (let s = s\<lparr>hubRoster := q\<rparr>
            in if updates = [] then s
               else put (Emitted ''channel-rosters-complete'' [(''updates'', Batch (map roster_wire updates))]) s)))"

fun hub_step :: "hub_op \<Rightarrow> hub \<Rightarrow> hub option" where
  "hub_step (Deliver e) s = OnEvent e s"
| "hub_step (MetaTimer order) s = Some (if mqTimers (hubMeta s) = 0 then s
     else s\<lparr>hubMeta := flushUserMetaFrontend order (hubMeta s)\<rparr>)"
| "hub_step (MetaEmit i) s = Some (emit_meta i s)"
| "hub_step RosterTimer s = Some (roster_timer s)"
| "hub_step (Clock t) s = Some (s\<lparr>hubNow := max t (hubNow s)\<rparr>)"

primrec hub_run :: "hub_op list \<Rightarrow> hub \<Rightarrow> hub option" where
  "hub_run [] s = Some s"
| "hub_run (op # ops) s = Option.bind (hub_step op s) (hub_run ops)"

definition fresh_hub :: "config_db \<Rightarrow> inbox \<Rightarrow> bool \<Rightarrow> Notifier option \<Rightarrow> hub" where
  "fresh_hub db ib dcc notifier = \<lparr>hubReady = True, hubDB = db, hubInbox = ib, hubDcc = dcc, hubNotifier = notifier,
     hubMeta = \<lparr>mqPending = [], mqSet = False, mqTimers = 0, mqTaken = []\<rparr>,
     hubRoster = \<lparr>rqPending = [], rqLast = 0, rqSet = False, rqTimers = []\<rparr>,
     hubNow = 0, hubLists = Map.empty, hubOut = []\<rparr>"

section \<open>The response to a notification\<close>

datatype response_out = Navigate int string | MarkRead int string | SendReply int string string | Reconnect int

text \<open>\<open>strconv.ParseInt\<close> gives the nearest int64 with a range error, and 0 with a syntax error.\<close>

definition parse_int_near :: "string \<Rightarrow> int \<times> bool" where
  "parse_int_near t = (case parse_int64 t of
     Some n \<Rightarrow> (n, True)
   | None \<Rightarrow> (case (if has_prefix t ''-'' \<or> has_prefix t ''+'' then parse_digits (tl t) else parse_digits t) of
       None \<Rightarrow> (0, False)
     | Some _ \<Rightarrow> (if has_prefix t ''-'' then - (2 ^ 63) else 2 ^ 63 - 1, False)))"

definition parseNetworkID :: "event_value option \<Rightarrow> int \<times> bool" where
  "parseNetworkID v = (case v of
     Some (TextValue t) \<Rightarrow> parse_int_near t
   | Some (IntValue i) \<Rightarrow> (i, True)
   | _ \<Rightarrow> (0, False))"

text \<open>\<open>defaultAction\<close> is the identifier the notification library gives a click on the body.\<close>

definition routeNotificationResponse :: "string \<Rightarrow> string \<Rightarrow> string \<Rightarrow> event_data \<Rightarrow> response_out list" where
  "routeNotificationResponse defaultAction action userText info =
     (let networkID = fst (parseNetworkID (info ''networkId'')); target = text_of info ''target''
      in if action = defaultAction then [Navigate networkID target]
         else if action = ''MARK_READ'' then [MarkRead networkID target]
         else if action = ''REPLY'' then if userText = [] then [] else [SendReply networkID (trim_prefix target ''pm:'') userText]
         else if action = ''RECONNECT'' then [Reconnect networkID]
         else [])"

end
