(* ===== verification/App_Events_Props.thy ===== *)
theory App_Events_Props
  imports App_Events
begin

text \<open>
  What reaches the frontend and the desktop: the subscriptions against the branches of \<open>OnEvent\<close>, the
  notifications and the replies to them, and what an event does to the coalescers.
\<close>

section \<open>Outputs of a kind\<close>

text \<open>The batches an output carries under a name, and the desktop notifications.\<close>

definition batches_of :: "string \<Rightarrow> hub_out \<Rightarrow> event_data list list" where
  "batches_of name x = (case x of
     Emitted nm fs \<Rightarrow> if nm = name then (case map_of fs ''updates'' of Some (Batch ds) \<Rightarrow> [ds] | _ \<Rightarrow> []) else []
   | _ \<Rightarrow> [])"

definition batches :: "string \<Rightarrow> hub \<Rightarrow> event_data list list" where
  "batches name s = concat (map (batches_of name) (hubOut s))"

definition notices :: "hub \<Rightarrow> Notification list" where
  "notices s = concat (map (\<lambda>x. case x of Notified n \<Rightarrow> [n] | _ \<Rightarrow> []) (hubOut s))"

abbreviation meta_name :: string where "meta_name \<equiv> ''usermeta-event''"
abbreviation roster_name :: string where "roster_name \<equiv> ''channel-rosters-complete''"

text \<open>A change of the hub the coalescers do not see.\<close>

definition unseen :: "hub \<Rightarrow> hub \<Rightarrow> bool" where
  "unseen s s' \<longleftrightarrow> hubReady s' = hubReady s \<and> hubDB s' = hubDB s \<and> hubNow s' = hubNow s \<and> hubMeta s' = hubMeta s
     \<and> hubRoster s' = hubRoster s \<and> batches meta_name s' = batches meta_name s \<and> batches roster_name s' = batches roster_name s"

named_theorems unseens

lemma unseen_refl [simp]: "unseen s s" by (simp add: unseen_def)

lemma unseen_trans: "unseen a b \<Longrightarrow> unseen b c \<Longrightarrow> unseen a c" by (simp add: unseen_def)

lemma unseen_put: "batches_of meta_name x = [] \<Longrightarrow> batches_of roster_name x = [] \<Longrightarrow> unseen s (put x s)"
  by (simp add: unseen_def put_def batches_def)

lemma unseen_emit: "nm \<noteq> meta_name \<Longrightarrow> nm \<noteq> roster_name \<Longrightarrow> unseen s (put (Emitted nm fs) s)"
  by (rule unseen_put) (simp_all add: batches_of_def)

lemma unseen_typed: "nm \<noteq> meta_name \<Longrightarrow> nm \<noteq> roster_name \<Longrightarrow> unseen s (emit_typed nm e s)"
  by (simp add: emit_typed_def unseen_emit)

lemma no_batches_inbox: "concat (map (batches_of nm) (map FromInbox xs)) = []"
  by (induction xs) (simp_all add: batches_of_def)

lemma unseen_inbox: "with_inbox f s = Some s' \<Longrightarrow> unseen s s'"
  by (auto simp: with_inbox_def unseen_def batches_def no_batches_inbox simp del: map_map split: option.splits)

lemma unseen_notify: "unseen s (handleDesktopNotification e s)"
  by (auto simp: handleDesktopNotification_def batches_of_def intro!: unseen_put split: option.splits)

lemma unseen_activity: "record_activity data ts s = Some s' \<Longrightarrow> unseen s s'"
  by (auto simp: record_activity_def intro: unseen_inbox split: option.splits)

lemma unseen_invite: "receive_invite data s = Some s' \<Longrightarrow> unseen s s'"
  by (auto simp: receive_invite_def intro: unseen_inbox split: option.splits)

lemma unseen_cache: "unseen s (cacheChannelList data s)"
  by (auto simp: cacheChannelList_def unseen_def batches_def split: option.splits event_value.splits)

lemma unseen_routes:
  "unseen s (on_dcc_control data s)" "unseen s (on_connection c data ts s)" "unseen s (on_sasl_failed data ts s)"
  "unseen s (on_sts_policy data s)" "unseen s (on_nick_changed data ts s)" "unseen s (on_channels_changed data ts s)"
  "unseen s (on_typing data s)" "unseen s (on_lifecycle data s)" "unseen s (on_metadata data s)" "unseen s (on_pane e s)"
  by (auto simp: on_dcc_control_def on_sasl_failed_def on_sts_policy_def on_nick_changed_def on_channels_changed_def
      on_typing_def on_lifecycle_def on_metadata_def on_pane_def on_connection_def Let_def batches_of_def
      intro!: unseen_put unseen_trans [OF unseen_put unseen_put] split: option.splits)

lemma unseen_message: "unseen s (show_message e s)" by (simp add: show_message_def unseen_typed)

lemma unseen_queries: "unseen s (show_queries e s)"
proof -
  have opt: "unseen s (if c then emit_typed nm e' t else t)" if "unseen s t" "nm \<noteq> meta_name" "nm \<noteq> roster_name"
    for c nm t and e' :: app_ev using that by (auto intro: unseen_trans [OF _ unseen_typed])
  have "unseen s (if c then emit_typed ''channel-list'' e (cacheChannelList d s) else s)" for c d
    by (auto intro: unseen_trans [OF unseen_cache unseen_typed])
  then show ?thesis unfolding show_queries_def Let_def by (intro opt) simp_all
qed

lemma unseen_rest:
  assumes "forward_rest e s = Some s'" "eType e \<noteq> EventUserMetaChanged"
  shows "unseen s s'"
  using assms unseen_routes unseen_notify unseen_invite unfolding forward_rest_def Let_def by (auto split: if_splits)

lemma unseen_forward:
  assumes "forward_event e s = Some s'" "eType e \<noteq> EventUserMetaChanged"
  shows "unseen s s'"
proof -
  note tr = unseen_trans [OF unseen_message]
  have rest: "unseen t s'" if "forward_rest e (show_queries e t) = Some s'" for t
    using unseen_trans [OF unseen_queries unseen_rest [OF that assms(2)]] .
  show ?thesis
  proof (cases "eType e = EventMessageReceived")
    case True
    then have "Option.bind (record_activity (fst (eData e)) (snd (eData e)) (show_message e s)) (\<lambda>s. forward_rest e (show_queries e s)) = Some s'"
      using assms(1) by (simp only: forward_event_def Let_def if_True simp_thms)
    then obtain t where t: "record_activity (fst (eData e)) (snd (eData e)) (show_message e s) = Some t" "forward_rest e (show_queries e t) = Some s'"
      by (auto simp: bind_eq_Some_conv)
    show ?thesis by (rule tr, rule unseen_trans [OF unseen_activity [OF t(1)]], rule rest, rule t(2))
  next
    case False
    note f = assms(1) [unfolded forward_event_def Let_def if_not_P [OF False]]
    show ?thesis
    proof (cases "eType e = EventHistoryReceived")
      case True
      then have "s' = emit_typed ''history-event'' e (show_message e s)" using f by simp
      then show ?thesis using tr [OF unseen_typed [of "''history-event''"]] by simp
    next
      case h: False
      note f = f [unfolded if_not_P [OF h]]
      show ?thesis
      proof (cases "eType e = EventTypingReceived")
        case True
        then have "s' = on_typing (fst (eData e)) (show_message e s)" using f by simp
        then show ?thesis using tr [OF unseen_routes(7)] by simp
      next
        case False
        show ?thesis by (rule tr, rule rest, rule f [unfolded if_not_P [OF False]])
      qed
    qed
  qed
qed

text \<open>What an event does to the coalescers.\<close>

lemma queries_same:
  assumes "eType e = EventUserMetaChanged"
  shows "show_queries e s = s" "show_message e s = s"
  using assms by (simp_all add: show_queries_def show_message_def messageEvents_def event_names)

lemma OnEvent_cases:
  assumes "OnEvent e s = Some s'" "hubReady s"
  shows "if eType e = EventUserMetaChanged then s' = s\<lparr>hubMeta := queueUserMetaFrontend (fst (eData e)) (hubMeta s)\<rparr>
    else if eType e = EventChannelNamesComplete
    then s' = s\<lparr>hubRoster := queueChannelRosterFrontend (fst (eData e)) (hubNow s) (hubRoster s)\<rparr>
    else unseen s s'"
proof (cases "eType e = EventUserMetaChanged")
  case True
  then show ?thesis using assms
    by (simp add: OnEvent_def forward_event_def forward_rest_def queries_same Let_def) (simp add: forward_event_def forward_rest_def queries_same Let_def event_names)
next
  case False
  have names: "EventChannelNamesComplete \<notin> {EventDCCControl, EventConnectionEstablished, EventConnectionLost, EventSASLFailed,
      EventSTSPolicy, EventNickChanged, EventChannelsChanged, EventUserMetaChanged}" by (simp add: event_names)
  show ?thesis
  proof (cases "eType e = EventChannelNamesComplete")
    case True
    then show ?thesis using assms names by (simp add: OnEvent_def Let_def)
  next
    case False
    then show ?thesis
      using assms unseen_routes unseen_forward \<open>eType e \<noteq> EventUserMetaChanged\<close> unfolding OnEvent_def Let_def
      by (auto split: if_splits)
  qed
qed

lemma OnEvent_ready: "OnEvent e s = Some s' \<Longrightarrow> hubReady s \<Longrightarrow> hubReady s'"
  using OnEvent_cases [of e s s'] by (auto simp: unseen_def split: if_splits)

section \<open>Handled and never delivered\<close>

lemma bSubs_fold: "bSubs (fold (\<lambda>ty. Subscribe ty ()) tys b) ty = bSubs b ty @ replicate (count_list tys ty) ()"
  by (induction tys arbitrary: b) (auto simp: Subscribe_def replicate_app_Cons_same)

lemma delivered_iff: "bOut (deliver e app_bus) = [] \<longleftrightarrow> eType e \<notin> set appForwardedEventTypes"
proof -
  have "count_list appForwardedEventTypes ''*'' = 0" by (simp add: appForwardedEventTypes_def event_names)
  moreover have "bSubs app_bus ty = replicate (count_list appForwardedEventTypes ty) ()" for ty
    by (simp add: app_bus_def bSubs_fold NewEventBus_def)
  moreover have "bOut app_bus = []"
    unfolding app_bus_def by (rule fold_invariant [where Q = "\<lambda>_. True"]) (auto simp: NewEventBus_def Subscribe_def)
  ultimately show ?thesis by (auto simp: deliver_def count_list_0_iff)
qed

definition dead_types :: "string list" where
  "dead_types = [EventPluginLifecycle, EventMetadataUpdated, EventUIPaneFocused, EventUIPaneBlurred]"

lemma other_types_ignored:
  assumes "eType e \<notin> set appForwardedEventTypes" "eType e \<notin> set dead_types"
  shows "OnEvent e s = Some s"
proof -
  note ns = assms [unfolded appForwardedEventTypes_def dead_types_def, simplified]
  have "eType e \<notin> set messageEvents" using ns by (auto simp: messageEvents_def)
  then have same: "show_queries e s = s" "show_message e s = s" using ns by (auto simp: show_queries_def show_message_def)
  have "handleDesktopNotification e s = s"
    using ns by (auto simp: handleDesktopNotification_def ShouldNotify_def Let_def split: option.splits)
  then show ?thesis using ns same by (simp add: OnEvent_def forward_event_def forward_rest_def Let_def)
qed

lemma put_changes: "put x s \<noteq> s"
proof -
  have "hubOut (put x s) \<noteq> hubOut s" by (simp add: put_def)
  then show ?thesis by metis
qed

lemma dead_types_disjoint: "set dead_types \<inter> set appForwardedEventTypes = {}"
  by (simp add: dead_types_def appForwardedEventTypes_def event_names)

lemma dead_types_handled:
  assumes "eType e \<in> set dead_types" "hubReady s"
  shows "OnEvent e s \<noteq> Some s"
proof -
  have "eType e \<notin> set appForwardedEventTypes" using assms(1) dead_types_disjoint by blast
  note ns = this [unfolded appForwardedEventTypes_def, simplified]
  have "eType e \<notin> set messageEvents" using ns by (auto simp: messageEvents_def)
  then have same: "show_queries e s = s" "show_message e s = s" using ns by (auto simp: show_queries_def show_message_def)
  have "OnEvent e s = forward_rest e s" using ns same assms(2) by (simp add: OnEvent_def forward_event_def Let_def)
  moreover have "forward_rest e s \<in> Some ` {on_lifecycle (fst (eData e)) s, on_metadata (fst (eData e)) s, on_pane e s}"
    using assms(1) ns by (auto simp: forward_rest_def dead_types_def Let_def)
  ultimately show ?thesis by (auto simp: on_lifecycle_def on_metadata_def on_pane_def Let_def put_changes)
qed


section \<open>Notifications\<close>

lemma notices_put: "notices (put x s) = notices s @ (case x of Notified n \<Rightarrow> [n] | _ \<Rightarrow> [])"
  by (simp add: notices_def put_def)

text \<open>
  The desktop notification for a lost connection is dead code: \<open>OnEvent\<close> returns before it gets
  there, so no such event ever notifies, whatever the preferences, although the notification code has
  a branch that would.
\<close>

theorem lost_connection_never_notified:
  "map_option notices (OnEvent \<lparr>eType = EventConnectionLost, eData = (data, ts)\<rparr> s) = Some (notices s)
    \<and> (\<exists>s. notices (handleDesktopNotification \<lparr>eType = EventConnectionLost, eData = (data, ts)\<rparr> s) = notices s @ [notify_lost data])"
proof
  show "map_option notices (OnEvent \<lparr>eType = EventConnectionLost, eData = (data, ts)\<rparr> s) = Some (notices s)"
    by (simp add: OnEvent_def on_connection_def notices_put event_names Let_def split: option.splits)
  let ?n = "\<lparr>nfFocused = False, nfPrefs = \<lparr>pfEnabled = True, pfPrivateMessages = True, pfMentions = True,
      pfConnectionLost = True, pfOnlyWhenUnfocused = False\<rparr>\<rparr>"
  have "notices (handleDesktopNotification \<lparr>eType = EventConnectionLost, eData = (data, ts)\<rparr> (s\<lparr>hubNotifier := Some ?n\<rparr>))
      = notices (s\<lparr>hubNotifier := Some ?n\<rparr>) @ [notify_lost data]"
    by (simp add: handleDesktopNotification_def ShouldNotify_def notices_put event_names)
  then show "\<exists>s. notices (handleDesktopNotification \<lparr>eType = EventConnectionLost, eData = (data, ts)\<rparr> s) = notices s @ [notify_lost data]"
    by blast
qed

text \<open>The steps of a message before its notification leave the notifications and what they read alone.\<close>

definition unnoticed :: "hub \<Rightarrow> hub \<Rightarrow> bool" where
  "unnoticed s s' \<longleftrightarrow> hubDB s' = hubDB s \<and> hubNotifier s' = hubNotifier s \<and> notices s' = notices s"

lemma unnoticed_activity: "record_activity data ts s = Some s' \<Longrightarrow> unnoticed s s'"
proof -
  have "concat (map (\<lambda>x. case x of Notified n \<Rightarrow> [n] | _ \<Rightarrow> []) (map FromInbox xs)) = []" for xs by (induction xs) simp_all
  then show "record_activity data ts s = Some s' \<Longrightarrow> unnoticed s s'"
    by (auto simp: record_activity_def with_inbox_def unnoticed_def notices_def simp del: map_map split: option.splits)
qed

lemma received_step:
  assumes "hubReady s" "eType e = EventMessageReceived"
  shows "OnEvent e s = map_option (handleDesktopNotification e) (record_activity (fst (eData e)) (snd (eData e)) (show_message e s))"
proof -
  have n: "EventMessageReceived \<notin> {EventDCCControl, EventConnectionEstablished, EventConnectionLost, EventSASLFailed,
      EventSTSPolicy, EventNickChanged, EventChannelsChanged, EventUserMetaChanged, EventChannelNamesComplete, EventPluginLifecycle,
      EventMetadataUpdated, EventUIPaneFocused, EventUIPaneBlurred, EventInviteReceived, EventChannelListEnd, EventWhoisReceived,
      EventBotDetected, EventMonitorChanged}" by (simp add: event_names)
  then have "show_queries e t = t" "forward_rest e t = Some (handleDesktopNotification e t)" for t
    using assms by (simp_all add: show_queries_def forward_rest_def)
  then show ?thesis using n assms
    by (cases "record_activity (fst (eData e)) (snd (eData e)) (show_message e s)") (simp_all add: OnEvent_def forward_event_def Let_def)
qed

lemma message_notifies:
  assumes "OnEvent \<lparr>eType = EventMessageReceived, eData = (data, ts)\<rparr> s = Some s'" "notices s' = notices s @ [n]"
  shows "\<exists>nf. hubNotifier s = Some nf \<and> notify_message data (nfPrefs nf) (hubDB s) = Some n"
proof -
  let ?e = "\<lparr>eType = EventMessageReceived, eData = (data, ts)\<rparr>"
  have "hubReady s" using assms by (auto simp: OnEvent_def split: if_splits)
  have "unnoticed s (show_message ?e s)" by (simp add: show_message_def emit_typed_def unnoticed_def notices_put) (simp add: put_def)
  moreover obtain t where t: "record_activity data ts (show_message ?e s) = Some t" "s' = handleDesktopNotification ?e t"
    using assms(1) received_step [OF \<open>hubReady s\<close>, of ?e] by auto
  ultimately have u: "hubDB t = hubDB s" "hubNotifier t = hubNotifier s" "notices t = notices s"
    using unnoticed_activity [OF t(1)] by (simp_all add: unnoticed_def)
  have "notices (handleDesktopNotification ?e t) \<noteq> notices t" using assms(2) t u by simp
  then obtain nf x where "hubNotifier t = Some nf" "notify_message data (nfPrefs nf) (hubDB t) = Some x"
      "handleDesktopNotification ?e t = put (Notified x) t"
    by (auto simp: handleDesktopNotification_def split: option.splits if_splits)
  then show ?thesis using assms(2) t u by (simp add: notices_put)
qed

lemma trim_prefix_channel: "\<not> IsPrivateMessage data \<Longrightarrow> trim_prefix (text_of data ''channel'') ''pm:'' = text_of data ''channel''"
  by (auto simp: IsPrivateMessage_def trim_prefix_def split: list.splits)

lemma notify_message_info:
  assumes "notify_message data prefs db = Some n" "resolveNetworkID data db = Some i"
  shows "0 \<le> i \<and> (\<exists>kind. nInfo n = notify_info i (if IsPrivateMessage data then ''pm:'' @ text_of data ''user'' else text_of data ''channel'') kind)"
  using assms by (auto simp: notify_message_def Let_def split: if_splits option.splits)

text \<open>
  A reply typed into a notification goes to the conversation that raised it: to the sender of a
  private message, and to the channel of a mention, on the network of the message.
\<close>

theorem reply_reaches_conversation:
  assumes "OnEvent \<lparr>eType = EventMessageReceived, eData = (data, ts)\<rparr> s = Some s'" "notices s' = notices s @ [n]"
    and "resolveNetworkID data (hubDB s) = Some i" "i < 2 ^ 63" "dflt \<noteq> ''REPLY''" "reply \<noteq> []"
  shows "routeNotificationResponse dflt ''REPLY'' reply (nInfo n)
    = [SendReply i (if IsPrivateMessage data then text_of data ''user'' else text_of data ''channel'') reply]"
proof -
  obtain nf where "hubNotifier s = Some nf" "notify_message data (nfPrefs nf) (hubDB s) = Some n" using message_notifies [OF assms(1,2)] by blast
  then obtain kind where i: "0 \<le> i" and n: "nInfo n = notify_info i (if IsPrivateMessage data then ''pm:'' @ text_of data ''user'' else text_of data ''channel'') kind"
    using notify_message_info assms(3) by blast
  have "parse_int64 (int_str i) = Some i" using i assms(4) by (intro parse_int64_int_str) auto
  then have "parseNetworkID (nInfo n ''networkId'') = (i, True)"
    by (simp add: n notify_info_def parseNetworkID_def parse_int_near_def)
  moreover have "text_of (nInfo n) ''target'' = (if IsPrivateMessage data then ''pm:'' @ text_of data ''user'' else text_of data ''channel'')"
    by (simp add: n notify_info_def text_of_def)
  moreover have "trim_prefix (''pm:'' @ u) ''pm:'' = u" for u by (simp add: trim_prefix_def)
  ultimately show ?thesis using assms(5,6) trim_prefix_channel by (simp add: routeNotificationResponse_def)
qed

definition demo_network :: network_row where
  "demo_network = undefined\<lparr>nrID := 1, nrNickname := ''me''\<rparr>"

definition demo_hub :: hub where
  "demo_hub = fresh_hub \<lparr>dbOpen = True, dbNetworks = [demo_network], dbServers = [], dbNextNetwork = 2, dbNextServer = 1,
       dbPolicies = Map.empty\<rparr> empty_inbox False (Some \<lparr>nfFocused = False, nfPrefs = \<lparr>pfEnabled = True,
       pfPrivateMessages = True, pfMentions = True, pfConnectionLost = True, pfOnlyWhenUnfocused = True\<rparr>\<rparr>)"

definition demo_data :: event_data where
  "demo_data = [''networkId'' \<mapsto> IntValue 1, ''user'' \<mapsto> TextValue ''bob'', ''channel'' \<mapsto> TextValue ''me'',
     ''message'' \<mapsto> TextValue ''hi'']"

theorem reply_reaches_conversation_witness:
  "\<exists>n :: Notification. routeNotificationResponse ''DEFAULT'' ''REPLY'' ''yo'' (nInfo n) = [SendReply 1 ''bob'' ''yo'']"
proof -
  let ?e = "\<lparr>eType = EventMessageReceived, eData = (demo_data, 0)\<rparr>"
  have act: "record_activity demo_data 0 (show_message ?e demo_hub) = Some ((show_message ?e demo_hub)\<lparr>hubInbox := empty_inbox\<rparr>)"
    by (simp add: record_activity_def demo_data_def demo_hub_def fresh_hub_def resolveNetworkID_def with_inbox_def show_message_def
        dispatchMessageActivity_def GetActivitySettings_def empty_inbox_def emit_typed_def put_def)
  have eq: "equal_fold ''bob'' ''me'' = False" by code_simp
  let ?t = "(show_message ?e demo_hub)\<lparr>hubInbox := empty_inbox\<rparr>"
  have msg: "notify_message demo_data (nfPrefs (the (hubNotifier demo_hub))) (hubDB demo_hub) \<noteq> None"
    by (simp add: notify_message_def demo_data_def demo_hub_def fresh_hub_def resolveNetworkID_def GetNetwork_def demo_network_def
        text_of_def eq IsPrivateMessage_def Let_def)
  then obtain n where n: "notify_message demo_data (nfPrefs (the (hubNotifier demo_hub))) (hubDB demo_hub) = Some n" by blast
  have same: "hubDB ?t = hubDB demo_hub" "hubNotifier ?t = hubNotifier demo_hub" "notices ?t = notices demo_hub" "hubReady demo_hub"
    by (simp_all add: show_message_def emit_typed_def put_def notices_def demo_hub_def fresh_hub_def)
  have "OnEvent ?e demo_hub = Some (handleDesktopNotification ?e ?t)"
    using act received_step [OF same(4), of ?e] by simp
  moreover have "handleDesktopNotification ?e ?t = put (Notified n) ?t"
    using n same by (simp add: handleDesktopNotification_def ShouldNotify_def demo_hub_def fresh_hub_def)
  moreover have "resolveNetworkID demo_data (hubDB demo_hub) = Some 1" by (simp add: resolveNetworkID_def demo_data_def)
  moreover have "IsPrivateMessage demo_data" "text_of demo_data ''user'' = ''bob''"
    by (simp_all add: demo_data_def IsPrivateMessage_def text_of_def)
  ultimately have "routeNotificationResponse ''DEFAULT'' ''REPLY'' ''yo'' (nInfo n) = [SendReply 1 ''bob'' ''yo'']"
    using reply_reaches_conversation [of demo_data 0 demo_hub "put (Notified n) ?t" n 1 "''DEFAULT''" "''yo''"] same
    by (simp add: notices_put)
  then show ?thesis by blast
qed

end
