(* ===== verification/App_Coalesce.thy ===== *)
theory App_Coalesce
  imports App_Events_Props
begin

text \<open>
  The two coalescers between the bus and the frontend in any run of events, timers and the clock: user
  snapshots in batches, channel rosters after 250 ms of quiet.
\<close>

section \<open>Snapshots of users\<close>

text \<open>What a list of snapshots says about each user.\<close>

definition learn :: "event_data list \<Rightarrow> (string \<rightharpoonup> event_data) \<Rightarrow> (string \<rightharpoonup> event_data)" where
  "learn ds m = fold (\<lambda>d m. case meta_key d of None \<Rightarrow> m | Some k \<Rightarrow> m(k \<mapsto> d)) ds m"

definition users_told :: "hub \<Rightarrow> string \<rightharpoonup> event_data" where
  "users_told s = learn (concat (batches meta_name s)) Map.empty"

definition user_snapshots :: "hub_op list \<Rightarrow> event_data list" where
  "user_snapshots ops = concat (map (\<lambda>op. case op of Deliver e \<Rightarrow> if eType e = EventUserMetaChanged then [fst (eData e)] else []
     | _ \<Rightarrow> []) ops)"

definition users_known :: "hub_op list \<Rightarrow> string \<rightharpoonup> event_data" where
  "users_known ops = learn (user_snapshots ops) Map.empty"

definition in_order :: "hub_op \<Rightarrow> bool" where
  "in_order op = (case op of MetaEmit i \<Rightarrow> i = 0 | _ \<Rightarrow> True)"

lemma learn_simps [simp]:
  "learn [] m = m"
  "learn (d # ds) m = learn ds (case meta_key d of None \<Rightarrow> m | Some k \<Rightarrow> m(k \<mapsto> d))"
  "learn (xs @ ys) m = learn ys (learn xs m)"
  by (simp_all add: learn_def)

definition keyed :: "(string \<times> event_data) list \<Rightarrow> bool" where
  "keyed m \<longleftrightarrow> distinct (map fst m) \<and> (\<forall>(k, d) \<in> set m. meta_key d = Some k)"

lemma learn_keyed: "keyed xs \<Longrightarrow> learn (map snd xs) m = m ++ map_of xs"
proof (induction xs arbitrary: m)
  case (Cons x xs)
  obtain k d where x: "x = (k, d)" by (cases x)
  have k: "meta_key d = Some k" "k \<notin> fst ` set xs" and xs: "keyed xs" using Cons.prems by (auto simp: keyed_def x)
  have "learn (map snd (x # xs)) m = learn (map snd xs) (m(k \<mapsto> d))" by (simp only: x list.map snd_conv learn_simps k(1) option.case)
  also have "\<dots> = m(k \<mapsto> d) ++ map_of xs" by (rule Cons.IH [OF xs])
  also have "\<dots> = (m ++ map_of xs)(k \<mapsto> d)" by (rule map_add_upd_left) (simp add: k(2) dom_map_of_conv_image_fst)
  also have "\<dots> = m ++ map_of (x # xs)" by (simp only: x map_of.simps fst_conv snd_conv map_add_upd)
  finally show ?case .
qed simp

lemma update_keyed:
  assumes "keyed m" "meta_key d = Some k"
  shows "keyed (AList.update k d m)"
proof -
  have "distinct (map fst (AList.update k d m))" using assms(1) distinct_update by (auto simp: keyed_def)
  moreover have "meta_key d' = Some k'" if "(k', d') \<in> set (AList.update k d m)" for k' d'
  proof -
    have "map_of (AList.update k d m) k' = Some d'" using that calculation by simp
    then show ?thesis using assms by (auto simp: update_conv keyed_def split: if_splits dest: map_of_SomeD)
  qed
  ultimately show ?thesis by (auto simp: keyed_def)
qed

lemma map_fst_iteration: "map fst (iteration order m) = filter (\<lambda>k. k \<in> set (map fst m)) (remdups order) @ filter (\<lambda>k. k \<notin> set order) (map fst m)"
  by (simp add: iteration_def o_def)

lemma iteration_same:
  assumes "distinct (map fst m)"
  shows "distinct (map fst (iteration order m))" "set (iteration order m) = set m" "length (iteration order m) = length m"
proof -
  have keys: "set (map fst (iteration order m)) = set (map fst m)" by (auto simp: map_fst_iteration)
  show d: "distinct (map fst (iteration order m))" using assms by (auto simp: map_fst_iteration distinct_filter simp del: set_map)
  have "set (iteration order m) = (\<lambda>k. (k, the (map_of m k))) ` set (map fst (iteration order m))"
    unfolding iteration_def by (simp add: image_image image_Un)
  also have "\<dots> = (\<lambda>k. (k, the (map_of m k))) ` set (map fst m)" using keys by simp
  also have "\<dots> = set m" using assms by (force simp: image_image)
  finally show "set (iteration order m) = set m" .
  have "length (map fst (iteration order m)) = length (map fst m)"
    using distinct_card [OF d] distinct_card [OF assms] keys by metis
  then show "length (iteration order m) = length m" by simp
qed

lemma iteration_keyed: "keyed m \<Longrightarrow> keyed (iteration order m)"
  using iteration_same [of m order] by (simp add: keyed_def)

lemma map_of_iteration: "keyed m \<Longrightarrow> map_of (iteration order m) = map_of m"
  using iteration_same [of m order] map_of_inject_set [of "iteration order m" m] by (simp add: keyed_def)

lemma keyed_take_drop: "keyed m \<Longrightarrow> keyed (take n m)" "keyed m \<Longrightarrow> keyed (drop n m)"
  by (auto simp: keyed_def take_map [symmetric] drop_map [symmetric] dest: in_set_takeD in_set_dropD)

lemma map_of_take_drop:
  assumes "keyed m"
  shows "map_of (take n m) ++ map_of (drop n m) = map_of m"
proof -
  have "distinct (map fst (drop n m @ take n m))"
  proof -
    have "map fst (take n m) @ map fst (drop n m) = map fst m" by (simp flip: map_append)
    then have "distinct (map fst (take n m) @ map fst (drop n m))" using assms by (simp add: keyed_def)
    then show ?thesis by auto
  qed
  moreover have "set (drop n m @ take n m) = set m" using set_append [of "take n m" "drop n m"] by (simp add: Un_commute)
  ultimately have "map_of (drop n m @ take n m) = map_of m"
    using assms map_of_inject_set [of "drop n m @ take n m" m] unfolding keyed_def by blast
  then show ?thesis by simp
qed

lemma batches_put: "batches nm (put x s) = batches nm s @ batches_of nm x"
  by (simp add: batches_def put_def)

definition meta_ok :: "event_data list \<Rightarrow> hub \<Rightarrow> bool" where
  "meta_ok qs s \<longleftrightarrow> hubReady s \<and> keyed (mqPending (hubMeta s)) \<and> mqTimers (hubMeta s) = (if mqSet (hubMeta s) then 1 else 0)
     \<and> (mqPending (hubMeta s) \<noteq> [] \<longrightarrow> mqSet (hubMeta s))
     \<and> list_all (\<lambda>b. length b \<le> userMetaFrontendBatchSize) (mqTaken (hubMeta s) @ batches meta_name s)
     \<and> learn (concat (mqTaken (hubMeta s))) (users_told s) ++ map_of (mqPending (hubMeta s)) = learn qs Map.empty"

lemma meta_ok_same:
  assumes "meta_ok qs s" "hubReady s' = hubReady s" "hubMeta s' = hubMeta s" "batches meta_name s' = batches meta_name s"
  shows "meta_ok qs s'"
  using assms by (simp add: meta_ok_def users_told_def)

lemma meta_ok_queue:
  assumes "meta_ok qs s"
  shows "meta_ok (qs @ [d]) (s\<lparr>hubMeta := queueUserMetaFrontend d (hubMeta s)\<rparr>)"
proof (cases "meta_key d")
  case None
  then show ?thesis using assms by (simp add: queueUserMetaFrontend_def meta_ok_def users_told_def batches_def)
next
  case (Some k)
  let ?p = "mqPending (hubMeta s)" and ?told = "learn (concat (mqTaken (hubMeta s))) (users_told s)"
  let ?s = "s\<lparr>hubMeta := queueUserMetaFrontend d (hubMeta s)\<rparr>"
  have q: "mqPending (queueUserMetaFrontend d (hubMeta s)) = AList.update k d ?p" "mqSet (queueUserMetaFrontend d (hubMeta s))"
      "mqTaken (queueUserMetaFrontend d (hubMeta s)) = mqTaken (hubMeta s)" "mqTimers (queueUserMetaFrontend d (hubMeta s)) = 1"
    using assms by (simp_all add: queueUserMetaFrontend_def Some Let_def meta_ok_def)
  have "keyed (AList.update k d ?p)" using assms Some by (simp add: meta_ok_def update_keyed)
  moreover have "?told ++ map_of (AList.update k d ?p) = (?told ++ map_of ?p)(k \<mapsto> d)" by (simp only: update_conv' map_add_upd)
  moreover have "?told ++ map_of ?p = learn qs Map.empty" using assms by (simp add: meta_ok_def)
  moreover have "learn (qs @ [d]) Map.empty = (learn qs Map.empty)(k \<mapsto> d)" by (simp only: learn_simps Some option.case)
  moreover have "hubMeta ?s = queueUserMetaFrontend d (hubMeta s)" "hubReady ?s = hubReady s" "batches meta_name ?s = batches meta_name s"
    by (simp_all add: batches_def)
  moreover have "users_told ?s = users_told s" by (simp add: users_told_def batches_def)
  ultimately show ?thesis using assms q unfolding meta_ok_def by (simp only: if_True simp_thms)
qed

lemma meta_ok_flush:
  assumes "meta_ok qs s" "mqTimers (hubMeta s) \<noteq> 0"
  shows "meta_ok qs (s\<lparr>hubMeta := flushUserMetaFrontend order (hubMeta s)\<rparr>)"
proof -
  let ?p = "mqPending (hubMeta s)" and ?told = "learn (concat (mqTaken (hubMeta s))) (users_told s)"
  let ?all = "iteration order ?p"
  let ?b = "take userMetaFrontendBatchSize ?all" and ?r = "drop userMetaFrontendBatchSize ?all"
  have set: "mqSet (hubMeta s)" "mqTimers (hubMeta s) = 1" using assms by (auto simp: meta_ok_def split: if_splits)
  have all: "keyed ?all" using assms(1) by (simp add: meta_ok_def iteration_keyed)
  have "learn (concat (mqTaken (hubMeta s) @ [map snd ?b])) (users_told s) ++ map_of ?r = ?told ++ map_of ?b ++ map_of ?r"
    by (simp only: concat_append concat.simps append_Nil2 learn_simps learn_keyed [OF keyed_take_drop(1) [OF all]])
  also have "\<dots> = ?told ++ map_of ?p"
    using map_of_take_drop [OF all] map_of_iteration [of ?p order] assms(1) by (simp add: meta_ok_def flip: map_add_assoc)
  also have "\<dots> = learn qs Map.empty" using assms(1) by (simp add: meta_ok_def)
  finally have "learn (concat (mqTaken (hubMeta s) @ [map snd ?b])) (users_told s) ++ map_of ?r = learn qs Map.empty" .
  moreover have "keyed ?r" by (rule keyed_take_drop(2) [OF all])
  moreover have "length (map snd ?b) \<le> userMetaFrontendBatchSize" by simp
  ultimately show ?thesis using assms(1) set
    by (simp add: meta_ok_def flushUserMetaFrontend_def Let_def users_told_def batches_def del: concat_append)
qed

lemma meta_ok_emit:
  assumes "meta_ok qs s"
  shows "meta_ok qs (emit_meta 0 s)"
proof (cases "mqTaken (hubMeta s)")
  case Nil
  then show ?thesis using assms by (simp add: emit_meta_def)
next
  case (Cons b bs)
  let ?s = "s\<lparr>hubMeta := (hubMeta s)\<lparr>mqTaken := bs\<rparr>\<rparr>"
  have b: "batches nm ?s = batches nm s" for nm by (simp add: batches_def)
  show ?thesis
  proof (cases "b = []")
    case True
    then have "emit_meta 0 s = ?s" using Cons by (simp add: emit_meta_def)
    then show ?thesis using assms True Cons b by (simp add: meta_ok_def users_told_def)
  next
    case False
    let ?x = "Emitted meta_name [(''type'', text_wire EventUserMetaChanged), (''updates'', Batch b)]"
    have e: "emit_meta 0 s = put ?x ?s" using Cons False by (simp add: emit_meta_def)
    have "batches_of meta_name ?x = [b]" by (simp add: batches_of_def)
    then have "batches meta_name (emit_meta 0 s) = batches meta_name s @ [b]" by (simp only: e batches_put b)
    moreover have "hubMeta (emit_meta 0 s) = (hubMeta s)\<lparr>mqTaken := bs\<rparr>" "hubReady (emit_meta 0 s) = hubReady s"
      by (simp_all add: e put_def)
    ultimately show ?thesis using assms Cons by (simp add: meta_ok_def users_told_def)
  qed
qed

lemma roster_timer_meta:
  "hubMeta (roster_timer s) = hubMeta s" "hubReady (roster_timer s) = hubReady s" "batches meta_name (roster_timer s) = batches meta_name s"
  by (simp_all add: roster_timer_def put_def batches_def batches_of_def Let_def split: list.splits prod.splits)

lemma user_snapshots_append [simp]: "user_snapshots (xs @ ys) = user_snapshots xs @ user_snapshots ys"
  by (simp add: user_snapshots_def)

lemma meta_ok_step:
  assumes "meta_ok qs s" "hub_step op s = Some s'" "in_order op"
  shows "meta_ok (qs @ user_snapshots [op]) s'"
proof (cases op)
  case (Deliver e)
  have r: "hubReady s" using assms(1) by (simp add: meta_ok_def)
  note c = OnEvent_cases [OF _ r, of e s']
  show ?thesis
  proof (cases "eType e = EventUserMetaChanged")
    case True
    then show ?thesis using c assms Deliver meta_ok_queue by (simp add: user_snapshots_def)
  next
    case False
    then have "user_snapshots [op] = []" using Deliver by (simp add: user_snapshots_def)
    moreover have "hubReady s' = hubReady s \<and> hubMeta s' = hubMeta s \<and> batches meta_name s' = batches meta_name s"
      using c assms(2) Deliver False by (auto simp: unseen_def batches_def split: if_splits)
    ultimately show ?thesis using meta_ok_same [OF assms(1)] by simp
  qed
next
  case (MetaTimer order)
  then show ?thesis using assms meta_ok_flush by (auto simp: user_snapshots_def split: if_splits)
next
  case (MetaEmit i)
  then show ?thesis using assms meta_ok_emit by (auto simp: user_snapshots_def in_order_def)
next
  case RosterTimer
  then have "s' = roster_timer s" using assms(2) by simp
  then show ?thesis using RosterTimer meta_ok_same [OF assms(1), of "roster_timer s"] by (simp add: user_snapshots_def roster_timer_meta)
next
  case (Clock t)
  then have "s' = s\<lparr>hubNow := max t (hubNow s)\<rparr>" using assms(2) by simp
  then show ?thesis using Clock meta_ok_same [OF assms(1), of s'] by (simp add: user_snapshots_def batches_def)
qed

lemma meta_ok_run: "meta_ok qs s \<Longrightarrow> hub_run ops s = Some s' \<Longrightarrow> list_all in_order ops \<Longrightarrow> meta_ok (qs @ user_snapshots ops) s'"
proof (induction ops arbitrary: qs s)
  case (Cons op ops)
  obtain t where "hub_step op s = Some t" "hub_run ops t = Some s'" using Cons.prems(2) by (auto simp: bind_eq_Some_conv)
  then have "meta_ok ((qs @ user_snapshots [op]) @ user_snapshots ops) s'"
    using Cons.IH [OF meta_ok_step [OF Cons.prems(1)]] Cons.prems(3) by (simp del: append_assoc)
  then show ?case using user_snapshots_append [of "[op]" ops] by simp
qed (simp add: user_snapshots_def)

lemma meta_ok_fresh: "meta_ok [] (fresh_hub db ib dcc nf)"
  by (simp add: meta_ok_def fresh_hub_def keyed_def users_told_def batches_def)

lemma hub_run_append: "hub_run (xs @ ys) s = Option.bind (hub_run xs s) (hub_run ys)"
proof (induction xs arbitrary: s)
  case (Cons op xs)
  then show ?case by (cases "hub_step op s") simp_all
qed simp

text \<open>Emitting what is taken, and then a timer and an emission for each of the orders.\<close>

definition drain_taken :: "hub \<Rightarrow> hub_op list" where
  "drain_taken s = replicate (length (mqTaken (hubMeta s))) (MetaEmit 0)"

definition drain_pending :: "string list list \<Rightarrow> hub_op list" where
  "drain_pending orders = concat (map (\<lambda>order. [MetaTimer order, MetaEmit 0]) orders)"

lemma emit_meta_taken:
  "mqTaken (hubMeta (emit_meta 0 s)) = tl (mqTaken (hubMeta s)) \<and> mqPending (hubMeta (emit_meta 0 s)) = mqPending (hubMeta s)"
  by (cases "mqTaken (hubMeta s)") (simp_all add: emit_meta_def put_def Let_def)

lemma drain_taken_run:
  "length (mqTaken (hubMeta s)) \<le> n \<Longrightarrow> \<exists>s'. hub_run (replicate n (MetaEmit 0)) s = Some s' \<and> mqTaken (hubMeta s') = []
     \<and> mqPending (hubMeta s') = mqPending (hubMeta s)"
proof (induction n arbitrary: s)
  case (Suc n)
  then show ?case using Suc.IH [of "emit_meta 0 s"] emit_meta_taken [of s] by simp
qed simp

lemma drain_pending_run:
  assumes "meta_ok qs s" "mqTaken (hubMeta s) = []" "length (mqPending (hubMeta s)) \<le> userMetaFrontendBatchSize * length orders"
  shows "\<exists>s'. hub_run (drain_pending orders) s = Some s' \<and> mqTaken (hubMeta s') = [] \<and> mqPending (hubMeta s') = []"
  using assms
proof (induction orders arbitrary: s)
  case (Cons order orders)
  let ?t = "if mqTimers (hubMeta s) = 0 then s else s\<lparr>hubMeta := flushUserMetaFrontend order (hubMeta s)\<rparr>"
  have step: "hub_step (MetaTimer order) s = Some ?t" by simp
  then have ok: "meta_ok qs ?t" using meta_ok_step [OF Cons.prems(1) step] by (simp add: in_order_def user_snapshots_def)
  have "mqTimers (hubMeta s) = 0 \<Longrightarrow> mqPending (hubMeta s) = []" using Cons.prems(1) by (auto simp: meta_ok_def split: if_splits)
  moreover have "length (iteration order (mqPending (hubMeta s))) = length (mqPending (hubMeta s))"
    using Cons.prems(1) iteration_same(3) [of "mqPending (hubMeta s)" order] by (simp add: meta_ok_def keyed_def)
  ultimately have "length (mqPending (hubMeta ?t)) \<le> userMetaFrontendBatchSize * length orders" "length (mqTaken (hubMeta ?t)) \<le> 1"
    using Cons.prems(2,3) by (auto simp: flushUserMetaFrontend_def Let_def)
  then have "mqTaken (hubMeta (emit_meta 0 ?t)) = []" "length (mqPending (hubMeta (emit_meta 0 ?t))) \<le> userMetaFrontendBatchSize * length orders"
    using emit_meta_taken [of ?t] by (cases "mqTaken (hubMeta ?t)"; simp)+
  then have "\<exists>s'. hub_run (drain_pending orders) (emit_meta 0 ?t) = Some s' \<and> mqTaken (hubMeta s') = [] \<and> mqPending (hubMeta s') = []"
    by (intro Cons.IH meta_ok_emit ok)
  moreover have "hub_run (drain_pending (order # orders)) s = hub_run (drain_pending orders) (emit_meta 0 ?t)"
    by (simp add: drain_pending_def)
  ultimately show ?case by metis
qed (simp add: drain_pending_def)

lemma drains_in_order: "list_all in_order (drain_taken s @ drain_pending orders)" "user_snapshots (drain_taken s @ drain_pending orders) = []"
  by (auto simp: drain_taken_def drain_pending_def in_order_def user_snapshots_def list_all_iff)


definition demo_user :: "string \<Rightarrow> app_ev" where
  "demo_user host = \<lparr>eType = EventUserMetaChanged, eData = ([''networkId'' \<mapsto> IntValue 1, ''nickname'' \<mapsto> TextValue ''bob'',
     ''host'' \<mapsto> TextValue host], 0)\<rparr>"

lemma demo_user_step:
  assumes "hubReady s"
  shows "OnEvent (demo_user h) s = Some (s\<lparr>hubMeta := queueUserMetaFrontend (fst (eData (demo_user h))) (hubMeta s)\<rparr>)"
proof -
  have "eType (demo_user h) = EventUserMetaChanged" by (simp add: demo_user_def)
  moreover from this have "OnEvent (demo_user h) s \<noteq> None" using assms
    by (simp add: OnEvent_def forward_event_def forward_rest_def queries_same Let_def) (simp add: forward_event_def forward_rest_def queries_same Let_def event_names)
  ultimately show ?thesis using OnEvent_cases [of "demo_user h" s, OF _ assms] by auto
qed

lemma demo_hub_ready: "hubReady demo_hub" by (simp add: demo_hub_def fresh_hub_def)


section \<open>Rosters\<close>

definition roster_names :: "event_data list \<Rightarrow> string set" where
  "roster_names ds = {k. \<exists>d \<in> set ds. \<exists>m. roster_key d = Some (k, m)}"

definition rosters_told :: "hub \<Rightarrow> string set" where
  "rosters_told s = roster_names (concat (batches roster_name s))"

definition completions :: "hub_op list \<Rightarrow> event_data list" where
  "completions ops = concat (map (\<lambda>op. case op of Deliver e \<Rightarrow> if eType e = EventChannelNamesComplete then [fst (eData e)] else []
     | _ \<Rightarrow> []) ops)"

definition roster_ok :: "event_data list \<Rightarrow> hub \<Rightarrow> bool" where
  "roster_ok cs s \<longleftrightarrow> hubReady s \<and> rosters_told s \<union> fst ` set (rqPending (hubRoster s)) = roster_names cs
     \<and> (\<forall>(k, m) \<in> set (rqPending (hubRoster s)). roster_key (roster_wire m) = Some (k, m))
     \<and> distinct (map fst (rqPending (hubRoster s)))
     \<and> rqSet (hubRoster s) = (rqPending (hubRoster s) \<noteq> [])
     \<and> (if rqSet (hubRoster s) then \<exists>t. rqTimers (hubRoster s) = [t] \<and> t \<le> rqLast (hubRoster s) + channelRosterFrontendDelay
        else rqTimers (hubRoster s) = [])
     \<and> rqLast (hubRoster s) \<le> hubNow s"

lemma roster_names_simps [simp]:
  "roster_names [] = {}"
  "roster_names (xs @ ys) = roster_names xs \<union> roster_names ys"
  "roster_names [d] = (case roster_key d of None \<Rightarrow> {} | Some (k, m) \<Rightarrow> {k})"
  by (auto simp: roster_names_def split: option.splits)

lemma roster_ok_same:
  assumes "roster_ok cs s" "hubReady s' = hubReady s" "hubRoster s' = hubRoster s" "batches roster_name s' = batches roster_name s"
    and "hubNow s \<le> hubNow s'"
  shows "roster_ok cs s'"
  using assms by (auto simp: roster_ok_def rosters_told_def)

lemma roster_wire_key: "roster_key d = Some (k, m) \<Longrightarrow> roster_key (roster_wire m) = Some (k, m)"
  by (auto simp: roster_key_def roster_wire_def text_of_def split: option.splits if_splits)

lemma roster_ok_queue:
  assumes "roster_ok cs s"
  shows "roster_ok (cs @ [d]) (s\<lparr>hubRoster := queueChannelRosterFrontend d (hubNow s) (hubRoster s)\<rparr>)"
proof (cases "roster_key d")
  case None
  then show ?thesis using assms by (simp add: queueChannelRosterFrontend_def roster_ok_def rosters_told_def batches_def)
next
  case (Some km)
  obtain k m where km: "km = (k, m)" by (cases km)
  let ?p = "rqPending (hubRoster s)" and ?s = "s\<lparr>hubRoster := queueChannelRosterFrontend d (hubNow s) (hubRoster s)\<rparr>"
  have q: "rqPending (hubRoster ?s) = AList.update k m ?p" "rqSet (hubRoster ?s)" "rqLast (hubRoster ?s) = hubNow s"
    by (simp_all add: queueChannelRosterFrontend_def Some km Let_def)
  have t: "\<exists>t. rqTimers (hubRoster ?s) = [t] \<and> t \<le> hubNow s + channelRosterFrontendDelay"
    using assms by (auto simp: queueChannelRosterFrontend_def Some km Let_def roster_ok_def)
  have d: "distinct (map fst (AList.update k m ?p))" using assms distinct_update by (auto simp: roster_ok_def)
  have keys: "fst ` set (AList.update k m ?p) = insert k (fst ` set ?p)" using dom_update [of k m ?p] by simp
  have "roster_key (roster_wire m') = Some (k', m')" if "(k', m') \<in> set (AList.update k m ?p)" for k' m'
  proof -
    have "map_of (AList.update k m ?p) k' = Some m'" using that d by simp
    then show ?thesis using assms roster_wire_key Some km by (auto simp: update_conv roster_ok_def split: if_splits dest: map_of_SomeD)
  qed
  moreover have "rosters_told ?s = rosters_told s" by (simp add: rosters_told_def batches_def)
  moreover have "AList.update k m ?p \<noteq> []" using keys by auto
  ultimately show ?thesis using assms q t d keys by (auto simp: roster_ok_def Some km)
qed

text \<open>What the timer does, before and after 250 ms of quiet.\<close>

lemma roster_timer_early:
  assumes "roster_ok cs s" "hubNow s < rqLast (hubRoster s) + channelRosterFrontendDelay"
  shows "roster_ok cs (roster_timer s) \<and> batches roster_name (roster_timer s) = batches roster_name s
    \<and> rqPending (hubRoster (roster_timer s)) = rqPending (hubRoster s)"
  using assms by (auto simp: roster_timer_def flushChannelRosterFrontend_def roster_ok_def rosters_told_def batches_def Let_def split: list.splits)

lemma roster_timer_quiet:
  assumes "roster_ok cs s" "rqLast (hubRoster s) + channelRosterFrontendDelay \<le> hubNow s"
  shows "roster_ok cs (roster_timer s) \<and> rosters_told (roster_timer s) = roster_names cs \<and> rqTimers (hubRoster (roster_timer s)) = []"
proof (cases "rqPending (hubRoster s) = []")
  case True
  then have "roster_timer s = s" "rosters_told s = roster_names cs" "rqTimers (hubRoster s) = []"
    using assms by (auto simp: roster_ok_def roster_timer_def)
  then show ?thesis using assms by simp
next
  case False
  let ?p = "rqPending (hubRoster s)"
  obtain t where t: "rqTimers (hubRoster s) = [t]" "t \<le> hubNow s" using assms False by (auto simp: roster_ok_def)
  let ?x = "Emitted roster_name [(''updates'', Batch (map roster_wire (map snd ?p)))]"
  let ?s = "s\<lparr>hubRoster := (hubRoster s)\<lparr>rqTimers := [], rqPending := [], rqSet := False\<rparr>\<rparr>"
  have r: "roster_timer s = put ?x ?s" using t False assms(2) by (simp add: roster_timer_def flushChannelRosterFrontend_def Let_def)
  have "batches_of roster_name ?x = [map roster_wire (map snd ?p)]" by (simp add: batches_of_def)
  then have "batches roster_name (roster_timer s) = batches roster_name s @ [map roster_wire (map snd ?p)]"
    unfolding r batches_put by (simp add: batches_def)
  then have "rosters_told (roster_timer s) = rosters_told s \<union> roster_names (map (roster_wire \<circ> snd) ?p)" by (simp add: rosters_told_def)
  moreover have "roster_names (map (roster_wire \<circ> snd) ?p) = fst ` set ?p"
  proof -
    have key: "roster_key (roster_wire (snd km)) = Some km" if "km \<in> set ?p" for km
      using assms(1) that by (cases km) (auto simp: roster_ok_def)
    have "roster_names (map (roster_wire \<circ> snd) ?p) = {k. \<exists>km \<in> set ?p. \<exists>m. roster_key (roster_wire (snd km)) = Some (k, m)}"
      by (simp add: roster_names_def)
    also have "\<dots> = {k. \<exists>km \<in> set ?p. \<exists>m. km = (k, m)}" using key by (intro Collect_cong bex_cong refl) simp
    also have "\<dots> = {k. \<exists>km \<in> set ?p. k = fst km}" by (intro Collect_cong bex_cong refl) (auto simp: prod_eq_iff)
    also have "\<dots> = fst ` set ?p" by (simp only: image_def)
    finally show ?thesis .
  qed
  ultimately have told: "rosters_told (roster_timer s) = roster_names cs" using assms(1) by (simp add: roster_ok_def)
  have "hubRoster (roster_timer s) = (hubRoster s)\<lparr>rqTimers := [], rqPending := [], rqSet := False\<rparr>" "hubReady (roster_timer s) = hubReady s"
      "hubNow (roster_timer s) = hubNow s" by (simp_all add: r put_def)
  then show ?thesis using told assms(1) by (simp add: roster_ok_def)
qed

lemma completions_append [simp]: "completions (xs @ ys) = completions xs @ completions ys"
  by (simp add: completions_def)

lemma emit_meta_roster:
  "hubRoster (emit_meta i s) = hubRoster s" "hubReady (emit_meta i s) = hubReady s" "hubNow (emit_meta i s) = hubNow s"
  "batches roster_name (emit_meta i s) = batches roster_name s"
  by (simp_all add: emit_meta_def put_def batches_def batches_of_def Let_def)

lemma roster_ok_step:
  assumes "roster_ok cs s" "hub_step op s = Some s'"
  shows "roster_ok (cs @ completions [op]) s'"
proof (cases op)
  case (Deliver e)
  have r: "hubReady s" using assms(1) by (simp add: roster_ok_def)
  note c = OnEvent_cases [OF _ r, of e s']
  have ne: "EventChannelNamesComplete \<noteq> EventUserMetaChanged" by (simp add: event_names)
  show ?thesis
  proof (cases "eType e = EventChannelNamesComplete")
    case True
    then show ?thesis using c assms Deliver roster_ok_queue [OF assms(1)] ne by (simp add: completions_def)
  next
    case False
    then have "completions [op] = []" using Deliver by (simp add: completions_def)
    moreover have "hubReady s' = hubReady s \<and> hubRoster s' = hubRoster s \<and> batches roster_name s' = batches roster_name s \<and> hubNow s' = hubNow s"
      using c assms(2) Deliver False by (auto simp: unseen_def batches_def split: if_splits)
    ultimately show ?thesis using roster_ok_same [OF assms(1)] by simp
  qed
next
  case (MetaTimer order)
  then show ?thesis using assms roster_ok_same [OF assms(1), of s'] by (auto simp: completions_def batches_def split: if_splits)
next
  case (MetaEmit i)
  then have "s' = emit_meta i s" using assms(2) by simp
  then show ?thesis using MetaEmit roster_ok_same [OF assms(1), of s'] by (simp add: completions_def emit_meta_roster)
next
  case RosterTimer
  then have "s' = roster_timer s" using assms(2) by simp
  then show ?thesis using RosterTimer roster_timer_early [OF assms(1)] roster_timer_quiet [OF assms(1)]
    by (cases "hubNow s < rqLast (hubRoster s) + channelRosterFrontendDelay") (simp_all add: completions_def)
next
  case (Clock t)
  then have "s' = s\<lparr>hubNow := max t (hubNow s)\<rparr>" using assms(2) by simp
  then show ?thesis using Clock roster_ok_same [OF assms(1), of s'] by (simp add: completions_def batches_def)
qed

lemma roster_ok_run: "roster_ok cs s \<Longrightarrow> hub_run ops s = Some s' \<Longrightarrow> roster_ok (cs @ completions ops) s'"
proof (induction ops arbitrary: cs s)
  case (Cons op ops)
  obtain t where "hub_step op s = Some t" "hub_run ops t = Some s'" using Cons.prems(2) by (auto simp: bind_eq_Some_conv)
  then have "roster_ok ((cs @ completions [op]) @ completions ops) s'"
    using Cons.IH [OF roster_ok_step [OF Cons.prems(1)]] by (simp del: append_assoc)
  then show ?case using completions_append [of "[op]" ops] by simp
qed (simp add: completions_def)

text \<open>
  A burst of channel rosters refreshes the frontend once, at its end: while the last completion is
  less than 250 ms old, the timer emits nothing; from then on it is due, and it tells the frontend every
  channel whose roster was ever completed that it had not been told, leaving no timer behind.
\<close>

theorem rosters_told_after_quiet:
  assumes "hub_run ops (fresh_hub db ib dcc nf) = Some s"
  shows "if rqLast (hubRoster s) + channelRosterFrontendDelay \<le> hubNow s
    then rosters_told (roster_timer s) = roster_names (completions ops) \<and> rqTimers (hubRoster (roster_timer s)) = []
    else batches roster_name (roster_timer s) = batches roster_name s \<and> rqPending (hubRoster (roster_timer s)) = rqPending (hubRoster s)"
proof -
  have "roster_ok [] (fresh_hub db ib dcc nf)" by (simp add: roster_ok_def fresh_hub_def rosters_told_def batches_def)
  then have "roster_ok (completions ops) s" using roster_ok_run assms by fastforce
  then show ?thesis using roster_timer_early roster_timer_quiet by (simp add: not_le)
qed

definition demo_names :: app_ev where
  "demo_names = \<lparr>eType = EventChannelNamesComplete, eData = ([''networkId'' \<mapsto> IntValue 1, ''channel'' \<mapsto> TextValue ''#a''], 0)\<rparr>"

theorem rosters_told_after_quiet_witness:
  "\<exists>s. hub_run [Deliver demo_names, Clock (3 * 10 ^ 8)] demo_hub = Some s
     \<and> rosters_told (roster_timer s) = roster_names (completions [Deliver demo_names, Clock (3 * 10 ^ 8)])"
proof -
  let ?d = "fst (eData demo_names)"
  have "hub_step (Deliver demo_names) demo_hub = Some (demo_hub\<lparr>hubRoster := queueChannelRosterFrontend ?d 0 (hubRoster demo_hub)\<rparr>)"
    by (simp add: OnEvent_def demo_hub_def fresh_hub_def demo_names_def event_names)
  then have run: "hub_run [Deliver demo_names, Clock (3 * 10 ^ 8)] demo_hub
      = Some (demo_hub\<lparr>hubRoster := queueChannelRosterFrontend ?d 0 (hubRoster demo_hub), hubNow := 3 * 10 ^ 8\<rparr>)"
    (is "_ = Some ?s") by (simp add: demo_hub_def fresh_hub_def)
  have "rqLast (hubRoster ?s) = 0" by (simp add: queueChannelRosterFrontend_def demo_hub_def fresh_hub_def Let_def split: option.splits)
  then show ?thesis using run rosters_told_after_quiet [OF run [unfolded demo_hub_def]] unfolding demo_hub_def
    by (simp add: channelRosterFrontendDelay_def)
qed

end
