(* ===== verification/Deep_Links.thy ===== *)
theory Deep_Links
  imports Network_Config
begin

text \<open>
  Deep links: \<open>internal/ircurl/ircurl.go\<close> and \<open>app_deeplink.go\<close>. \<open>net/url\<close> is outside the repository and a
  parameter: what it makes of a URL, and the \<open>key\<close> of a query string. The webview is what drains the
  buffered link; the events it is sent are a list.
\<close>

section \<open>Parsing\<close>

record url =
  uScheme :: string
  uHostname :: string
  uPort :: string
  uPath :: string
  uFragment :: string
  uKey :: string

record url_library =
  ulParse :: "string \<Rightarrow> url option"
  ulQueryKey :: "string \<Rightarrow> string option"

record Target =
  tName :: string
  tKey :: string
  tIsNick :: bool

record Link =
  lScheme :: string
  lHost :: string
  lPort :: int
  lTLS :: bool
  lTargets :: "Target list"

datatype link_err = BadURL | ErrBadScheme | ErrNoHost | BadPort | ErrBadTarget

definition maxTargetLen :: nat where "maxTargetLen = 200"

text \<open>The flag segments after a name: whether one marks a nick, and what follows them.\<close>

fun take_flags :: "bool \<Rightarrow> string list \<Rightarrow> bool \<times> string list" where
  "take_flags isNick [] = (isNick, [])"
| "take_flags isNick (seg # segs) = (let w = to_lower seg in
     if w = ''isnick'' \<or> w = ''isuser'' then take_flags True segs
     else if w = ''needkey'' \<or> w = ''needpass'' then take_flags isNick segs
     else (isNick, seg # segs))"

lemma take_flags_shorter: "take_flags b segs = (n, rest) \<Longrightarrow> length rest \<le> length segs"
  by (induction b segs rule: take_flags.induct) (auto simp: Let_def split: if_splits)

definition bad_name :: "string \<Rightarrow> bool" where
  "bad_name name \<longleftrightarrow> contains_any name [CHR '' '', CHR 0x09, CHR 0x0D, CHR 0x0A, CHR 0x00] \<or> maxTargetLen < length name"

definition make_target :: "string \<Rightarrow> string \<Rightarrow> bool \<Rightarrow> Target" where
  "make_target queryKey name isNick =
     \<lparr>tName = (if \<not> isNick \<and> \<not> has_prefix name ''#'' \<and> \<not> has_prefix name ''&'' then CHR ''#'' # name else name),
      tKey = (if isNick then [] else queryKey), tIsNick = isNick\<rparr>"

function parse_targets :: "string \<Rightarrow> string list \<Rightarrow> Target list option" where
  "parse_targets queryKey [] = Some []"
| "parse_targets queryKey (name # segs) = (if name = [] then parse_targets queryKey segs
     else case take_flags False segs of (isNick, rest) \<Rightarrow>
       if bad_name name then None
       else map_option ((#) (make_target queryKey name isNick)) (parse_targets queryKey rest))"
  by pat_completeness auto
termination
  by (relation "measure (\<lambda>(_, segs). length segs)") (auto dest!: take_flags_shorter [OF sym])

text \<open>The target list of a URL, from its path or else its fragment, and the key.\<close>

definition link_targets :: "url \<Rightarrow> string" where
  "link_targets u = (let p = trim_prefix (uPath u) ''/''
     in if p = [] \<and> uFragment u \<noteq> [] then fst (cut_byte (CHR ''?'') (uFragment u)) else p)"

definition link_key :: "url_library \<Rightarrow> url \<Rightarrow> string" where
  "link_key L u = (if uKey u = [] \<and> uFragment u \<noteq> []
     then (case cut_byte (CHR ''?'') (uFragment u) of (_, querySuffix, True) \<Rightarrow>
             (case ulQueryKey L querySuffix of Some k \<Rightarrow> k | None \<Rightarrow> uKey u)
           | _ \<Rightarrow> uKey u)
     else uKey u)"

definition link_port :: "string \<Rightarrow> int \<Rightarrow> int option" where
  "link_port p defPort = (if p = [] then Some defPort
     else case parse_int64 p of None \<Rightarrow> None | Some n \<Rightarrow> if n \<le> 0 \<or> 65535 < n then None else Some n)"

definition parse_link :: "url_library \<Rightarrow> string \<Rightarrow> link_err + Link" where
  "parse_link L raw = (case ulParse L (trim_space raw) of
     None \<Rightarrow> Err BadURL
   | Some u \<Rightarrow>
       (let scheme = to_lower (uScheme u); tls = (scheme = ''ircs'')
        in if scheme \<noteq> ''irc'' \<and> scheme \<noteq> ''ircs'' then Err ErrBadScheme
           else if uHostname u = [] then Err ErrNoHost
           else case link_port (uPort u) (if tls then 6697 else 6667) of
             None \<Rightarrow> Err BadPort
           | Some port \<Rightarrow>
               (let link = \<lparr>lScheme = scheme, lHost = uHostname u, lPort = port, lTLS = tls, lTargets = []\<rparr>
                in if link_targets u = [] then Ok link
                   else case parse_targets (link_key L u) (split_byte (CHR '','') (link_targets u)) of
                     None \<Rightarrow> Err ErrBadTarget
                   | Some ts \<Rightarrow> Ok (link\<lparr>lTargets := ts\<rparr>))))"

section \<open>Acting on a link\<close>

datatype deep_event =
    AddNetwork string int bool string
  | JoinTargets nat "Target list"
  | Disambiguate "(nat \<times> string) list" "Target list"

record NetworkPrefill =
  pfHost :: string
  pfPort :: int
  pfTLS :: bool
  pfChannel :: string

record deep_state =
  dlDB :: config_db
  dlPrefill :: "NetworkPrefill option"
  dlPending :: "deep_event option"
  dlReady :: bool
  dlEmitted :: "deep_event list"

definition setPendingNetworkPrefill :: "NetworkPrefill option \<Rightarrow> deep_state \<Rightarrow> deep_state" where
  "setPendingNetworkPrefill p s = s\<lparr>dlPrefill := p\<rparr>"

definition GetPendingNetworkPrefill :: "deep_state \<Rightarrow> NetworkPrefill option \<times> deep_state" where
  "GetPendingNetworkPrefill s = (dlPrefill s, s\<lparr>dlPrefill := None\<rparr>)"

definition dispatchOrBuffer :: "deep_event \<Rightarrow> deep_state \<Rightarrow> deep_state" where
  "dispatchOrBuffer e s = (let s = s\<lparr>dlEmitted := dlEmitted s @ [e]\<rparr> in if dlReady s then s else s\<lparr>dlPending := Some e\<rparr>)"

definition DrainPendingDeepLink :: "deep_state \<Rightarrow> deep_event option \<times> deep_state" where
  "DrainPendingDeepLink s = (dlPending s, s\<lparr>dlReady := True, dlPending := None\<rparr>)"

definition isDeepLinkArg :: "string \<Rightarrow> bool" where
  "isDeepLinkArg arg \<longleftrightarrow> has_prefix arg ''irc://'' \<or> has_prefix arg ''ircs://''"

definition resolveMatches :: "string \<Rightarrow> config_db \<Rightarrow> (nat \<times> string) list" where
  "resolveMatches host db = map (\<lambda>i. (i, case GetNetworks db of
       Some ns \<Rightarrow> (case List.find (\<lambda>n. nrID n = i) (rev ns) of Some n \<Rightarrow> nrName n | None \<Rightarrow> [])
     | None \<Rightarrow> [])) (findNetworksByAddress host db)"

definition first_channel :: "Target list \<Rightarrow> string" where
  "first_channel ts = (case List.find (\<lambda>t. \<not> tIsNick t) ts of Some t \<Rightarrow> tName t | None \<Rightarrow> [])"

definition link_event :: "config_db \<Rightarrow> Link \<Rightarrow> deep_event" where
  "link_event db l = (case resolveMatches (lHost l) db of
     [] \<Rightarrow> AddNetwork (lHost l) (lPort l) (lTLS l) (first_channel (lTargets l))
   | [m] \<Rightarrow> JoinTargets (fst m) (lTargets l)
   | ms \<Rightarrow> Disambiguate ms (lTargets l))"

definition handleDeepLink :: "url_library \<Rightarrow> string \<Rightarrow> deep_state \<Rightarrow> deep_state" where
  "handleDeepLink L raw s = (case parse_link L raw of
     Err _ \<Rightarrow> s
   | Ok l \<Rightarrow>
       (let s = (if resolveMatches (lHost l) (dlDB s) = []
                 then setPendingNetworkPrefill (Some \<lparr>pfHost = lHost l, pfPort = lPort l, pfTLS = lTLS l, pfChannel = first_channel (lTargets l)\<rparr>) s
                 else s)
        in dispatchOrBuffer (link_event (dlDB s) l) s))"

definition processStartupArgs :: "url_library \<Rightarrow> string list \<Rightarrow> deep_state \<Rightarrow> deep_state" where
  "processStartupArgs L args s = fold (handleDeepLink L) (filter isDeepLinkArg args) s"

section \<open>What a parsed link may hold\<close>

lemma parse_targets_safe:
  assumes "parse_targets key segs = Some ts" "t \<in> set ts"
  shows "tName t \<noteq> [] \<and> \<not> contains_any (tName t) [CHR '' '', CHR 0x09, CHR 0x0D, CHR 0x0A, CHR 0x00] \<and> length (tName t) \<le> 201
    \<and> (tIsNick t \<or> hd (tName t) = CHR ''#'' \<or> hd (tName t) = CHR ''&'')"
  using assms
proof (induction key segs arbitrary: ts rule: parse_targets.induct)
  case (2 key name segs)
  obtain isNick rest where fl: "take_flags False segs = (isNick, rest)" by (cases "take_flags False segs")
  show ?case
  proof (cases "name = []")
    case True
    then show ?thesis using 2 by simp
  next
    case False
    then have ok: "\<not> bad_name name" using 2(3) fl by (auto split: if_splits)
    then obtain ts' where ts': "parse_targets key rest = Some ts'" "ts = make_target key name isNick # ts'"
      using 2(3) False fl by auto
    have "tName (make_target key name isNick) \<noteq> [] \<and> \<not> contains_any (tName (make_target key name isNick)) [CHR '' '', CHR 0x09, CHR 0x0D, CHR 0x0A, CHR 0x00]
        \<and> length (tName (make_target key name isNick)) \<le> 201 \<and> (isNick \<or> hd (tName (make_target key name isNick)) = CHR ''#'' \<or> hd (tName (make_target key name isNick)) = CHR ''&'')"
      using ok False by (cases name) (auto simp: make_target_def bad_name_def maxTargetLen_def contains_any_def has_prefix_def)
    moreover have "t = make_target key name isNick \<or> t \<in> set ts'" using 2(4) ts'(2) by simp
    ultimately show ?thesis using 2(2) [OF False fl [symmetric] ok ts'(1)] by (auto simp: make_target_def)
  qed
qed simp

text \<open>
  C36: A link that parses is safe to act on: it names a host and a port of 1 to 65535, and each of its
  targets has a name without a space or a control character the protocol reads, of at most 201
  bytes, that begins with a channel prefix unless the link says it is a nick.
\<close>

theorem parsed_link_safe:
  assumes "parse_link L raw = Ok l"
  shows "lHost l \<noteq> [] \<and> 0 < lPort l \<and> lPort l < 65536
    \<and> list_all (\<lambda>t. tName t \<noteq> [] \<and> \<not> contains_any (tName t) [CHR '' '', CHR 0x09, CHR 0x0D, CHR 0x0A, CHR 0x00]
        \<and> length (tName t) \<le> 201 \<and> (tIsNick t \<or> hd (tName t) = CHR ''#'' \<or> hd (tName t) = CHR ''&'')) (lTargets l)"
proof -
  obtain u where u: "ulParse L (trim_space raw) = Some u" using assms by (auto simp: parse_link_def split: option.splits)
  have "0 < lPort l \<and> lPort l < 65536 \<and> lHost l \<noteq> []"
    using assms u by (auto simp: parse_link_def link_port_def Let_def split: option.splits if_splits)
  moreover have "lTargets l = [] \<or> (\<exists>segs. parse_targets (link_key L u) segs = Some (lTargets l))"
    using assms u by (auto simp: parse_link_def Let_def split: option.splits if_splits)
  ultimately show ?thesis using parse_targets_safe by (fastforce simp: list_all_iff)
qed

definition demo_library :: url_library where
  "demo_library = \<lparr>ulParse = (\<lambda>_. Some \<lparr>uScheme = ''IRC'', uHostname = ''h'', uPort = [], uPath = ''/a,bob,isnick'', uFragment = [],
     uKey = []\<rparr>), ulQueryKey = (\<lambda>_. None)\<rparr>"

definition demo_link :: Link where
  "demo_link = \<lparr>lScheme = ''irc'', lHost = ''h'', lPort = 6667, lTLS = False,
     lTargets = [\<lparr>tName = ''#a'', tKey = [], tIsNick = False\<rparr>, \<lparr>tName = ''bob'', tKey = [], tIsNick = True\<rparr>]\<rparr>"

lemma demo_parses: "parse_link demo_library [] = Ok demo_link"
  by (simp add: parse_link_def demo_library_def demo_link_def link_port_def link_targets_def link_key_def to_lower_id ascii_def
      trim_prefix_def Let_def bad_name_def contains_any_def make_target_def has_prefix_def maxTargetLen_def
      to_lower_def lower_rune_def char_eval)

theorem parsed_link_safe_witness: "lHost demo_link \<noteq> [] \<and> 0 < lPort demo_link"
  using parsed_link_safe [OF demo_parses] by blast

section \<open>Writing a target list\<close>

definition render_targets :: "(string \<times> bool) list \<Rightarrow> string" where
  "render_targets es = join '','' (concat (map (\<lambda>(name, isNick). name # (if isNick then [''isnick''] else [])) es))"

definition plain_entry :: "string \<times> bool \<Rightarrow> bool" where
  "plain_entry e \<longleftrightarrow> fst e \<noteq> [] \<and> CHR '','' \<notin> set (fst e) \<and> \<not> bad_name (fst e)
     \<and> to_lower (fst e) \<notin> {''isnick'', ''isuser'', ''needkey'', ''needpass''}"

lemma parse_rendered:
  assumes "list_all plain_entry es"
  shows "parse_targets key (concat (map (\<lambda>(name, isNick). name # (if isNick then [''isnick''] else [])) es))
    = Some (map (\<lambda>(name, isNick). make_target key name isNick) es)"
  using assms
proof (induction es)
  case (Cons e es)
  obtain name isNick where e: "e = (name, isNick)" by (cases e)
  let ?rest = "concat (map (\<lambda>(name, isNick). name # (if isNick then [''isnick''] else [])) es)"
  have low: "to_lower ''isnick'' = ''isnick''" by (simp add: to_lower_def lower_rune_def char_eval)
  have "take_flags b ?rest = (b, ?rest)" for b
    using Cons.prems by (cases es) (auto simp: plain_entry_def Let_def split: prod.splits)
  then have "take_flags False ((if isNick then [''isnick''] else []) @ ?rest) = (isNick, ?rest)" by (simp add: low Let_def)
  then show ?case using Cons by (simp add: e plain_entry_def)
qed simp

text \<open>
  A target list written out, channels and nicks, is read back as written: each name once and in
  order, the nicks as nicks, the others as channels with the key.
\<close>

theorem targets_roundtrip:
  assumes "es \<noteq> []" "list_all plain_entry es"
  shows "parse_targets key (split_byte (CHR '','') (render_targets es)) = Some (map (\<lambda>(name, isNick). make_target key name isNick) es)"
proof -
  let ?segs = "concat (map (\<lambda>(name, isNick). name # (if isNick then [''isnick''] else [])) es)"
  have "?segs \<noteq> []" using assms(1) by (cases es) (auto split: prod.splits)
  moreover have "\<forall>w \<in> set ?segs. CHR '','' \<notin> set w" using assms(2) by (fastforce simp: list_all_iff plain_entry_def split: if_splits)
  ultimately show ?thesis unfolding render_targets_def using split_join parse_rendered [OF assms(2)] by simp
qed

theorem targets_roundtrip_witness:
  "parse_targets ''k'' (split_byte (CHR '','') (render_targets [(''a'', False), (''bob'', True)]))
    = Some [\<lparr>tName = ''#a'', tKey = ''k'', tIsNick = False\<rparr>, \<lparr>tName = ''bob'', tKey = [], tIsNick = True\<rparr>]"
  using targets_roundtrip [of "[(''a'', False), (''bob'', True)]" "''k''"]
  by (simp add: plain_entry_def bad_name_def contains_any_def maxTargetLen_def to_lower_def lower_rune_def char_eval make_target_def has_prefix_def)

section \<open>Cold start\<close>

definition link_events :: "url_library \<Rightarrow> config_db \<Rightarrow> string list \<Rightarrow> deep_event list" where
  "link_events L db args = concat (map (\<lambda>arg. case parse_link L arg of Ok l \<Rightarrow> [link_event db l] | Err _ \<Rightarrow> []) args)"

lemma handleDeepLink_effect:
  "dlEmitted (handleDeepLink L raw s) = dlEmitted s @ link_events L (dlDB s) [raw]"
  "dlDB (handleDeepLink L raw s) = dlDB s" "dlReady (handleDeepLink L raw s) = dlReady s"
  "\<not> dlReady s \<Longrightarrow> dlPending (handleDeepLink L raw s) = (if link_events L (dlDB s) [raw] = [] then dlPending s else Some (last (link_events L (dlDB s) [raw])))"
  by (auto simp: handleDeepLink_def dispatchOrBuffer_def setPendingNetworkPrefill_def link_events_def Let_def split: sum.splits)

lemma links_effect:
  assumes "\<not> dlReady s"
  shows "dlEmitted (fold (handleDeepLink L) args s) = dlEmitted s @ link_events L (dlDB s) args
    \<and> dlPending (fold (handleDeepLink L) args s) = (if link_events L (dlDB s) args = [] then dlPending s else Some (last (link_events L (dlDB s) args)))"
  using assms
proof (induction args arbitrary: s)
  case (Cons arg args)
  have app: "link_events L db (arg # args) = link_events L db [arg] @ link_events L db args" for db by (simp add: link_events_def)
  show ?case using Cons.IH [of "handleDeepLink L arg s"] Cons.prems by (simp add: handleDeepLink_effect app)
qed (simp add: link_events_def)

text \<open>
  Only one link survives a cold start: every link among the arguments is sent to a frontend that
  does not listen yet, and what it drains when it is there is the last of them alone.
\<close>

theorem last_cold_link_wins:
  assumes "\<not> dlReady s" "dlPending s = None"
  shows "dlEmitted (processStartupArgs L args s) = dlEmitted s @ link_events L (dlDB s) (filter isDeepLinkArg args)
    \<and> fst (DrainPendingDeepLink (processStartupArgs L args s))
      = (case link_events L (dlDB s) (filter isDeepLinkArg args) of [] \<Rightarrow> None | es \<Rightarrow> Some (last es))"
  using links_effect [OF assms(1), of L "filter isDeepLinkArg args"] assms(2)
  by (simp add: processStartupArgs_def DrainPendingDeepLink_def split: list.splits)

theorem last_cold_link_wins_witness:
  "\<exists>s. dlEmitted (processStartupArgs demo_library [''irc://a'', ''irc://b''] s) \<noteq> []
     \<and> fst (DrainPendingDeepLink (processStartupArgs demo_library [''irc://a'', ''irc://b''] s)) \<noteq> None"
proof -
  let ?s = "\<lparr>dlDB = \<lparr>dbOpen = True, dbNetworks = [], dbServers = [], dbNextNetwork = 1, dbNextServer = 1, dbPolicies = Map.empty\<rparr>,
      dlPrefill = None, dlPending = None, dlReady = False, dlEmitted = []\<rparr>"
  have "parse_link demo_library raw = Ok demo_link" for raw using demo_parses by (simp add: parse_link_def demo_library_def)
  then have "link_events demo_library db (filter isDeepLinkArg [''irc://a'', ''irc://b'']) \<noteq> []" for db
    by (simp add: link_events_def isDeepLinkArg_def has_prefix_def)
  then obtain x xs where es: "link_events demo_library (dlDB ?s) (filter isDeepLinkArg [''irc://a'', ''irc://b'']) = x # xs"
    by (meson list.exhaust)
  have "\<not> dlReady ?s" "dlPending ?s = None" by simp_all
  note w = last_cold_link_wins [OF this, of demo_library "[''irc://a'', ''irc://b'']", unfolded es list.case]
  show ?thesis by (rule exI [of _ ?s]) (use w in simp)
qed

end
