(* ===== verification/Releases.thy ===== *)
theory Releases
  imports Irc_Names Ip_Addr
begin

text \<open>
  The updater's own logic: the prerelease provider of \<open>app_updater_semvermax.go\<close>, the channel and the prompt
  of \<open>app_updater.go\<close>, and the asset choice of \<open>main.go\<close>. Parameters: \<open>semver.Compare\<close> of golang.org/x/mod,
  what the HTTP requests return, and the environment and file system the Linux check looks at.
\<close>

section \<open>Releases\<close>

record ghAsset =
  gaID :: int
  gaName :: string
  gaContentType :: string
  gaSize :: int
  gaURL :: string

record ghRelease =
  grTag :: string
  grName :: string
  grBody :: string
  grPrerelease :: bool
  grDraft :: bool
  grPublished :: int
  grHTML :: string
  grAssets :: "ghAsset list"

definition trimVPrefix :: "string \<Rightarrow> string" where
  "trimVPrefix tag = (case tag of c # t \<Rightarrow> if c = CHR ''v'' \<or> c = CHR ''V'' then t else tag | [] \<Rightarrow> [])"

definition canonicalTag :: "string \<Rightarrow> string" where
  "canonicalTag tag = (let t = trimVPrefix tag in if t = [] then [] else CHR ''v'' # t)"

definition better :: "(string \<Rightarrow> string \<Rightarrow> int) \<Rightarrow> ghRelease \<Rightarrow> ghRelease option \<Rightarrow> ghRelease option" where
  "better cmp r best = (if grDraft r then best
     else case best of
       None \<Rightarrow> Some r
     | Some b \<Rightarrow> if 0 < cmp (canonicalTag (grTag r)) (canonicalTag (grTag b)) then Some r else best)"

definition selectLatestRelease :: "(string \<Rightarrow> string \<Rightarrow> int) \<Rightarrow> ghRelease list \<Rightarrow> ghRelease option" where
  "selectLatestRelease cmp rels = fold (better cmp) rels None"

definition isNewerTag :: "(string \<Rightarrow> string \<Rightarrow> int) \<Rightarrow> string \<Rightarrow> string \<Rightarrow> bool" where
  "isNewerTag cmp tag current \<longleftrightarrow>
     (if trimVPrefix tag = [] then False
      else if trimVPrefix current = [] then True
      else 0 < cmp (canonicalTag tag) (canonicalTag current))"

text \<open>\<open>strings.LastIndex\<close>.\<close>

definition fileExtOf :: "string \<Rightarrow> string" where
  "fileExtOf name = (if CHR ''.'' \<in> set name then to_lower (rev (takeWhile (\<lambda>c. c \<noteq> CHR ''.'') (rev name))) else [])"

section \<open>Checksums\<close>

text \<open>\<open>hex.DecodeString\<close>; the bytes as a string.\<close>

fun decode_hex :: "string \<Rightarrow> string option" where
  "decode_hex [] = Some []"
| "decode_hex [c] = None"
| "decode_hex (c # d # s) = (case (hex_val c, hex_val d, decode_hex s) of
     (Some h, Some l, Some t) \<Rightarrow> Some (char_of (16 * h + l) # t) | _ \<Rightarrow> None)"

datatype update_err = ApiRequest | ApiStatus nat | BadReleases | NoAsset | BadSidecar | MalformedDigest

definition listed_name :: "string list \<Rightarrow> string" where
  "listed_name fs = trim_prefix (trim_prefix (last fs) ''*'') ''./''"

primrec checksum_in :: "string list \<Rightarrow> string \<Rightarrow> update_err + string option" where
  "checksum_in [] target = Ok None"
| "checksum_in (l # ls) target =
     (let line = trim_space l; fs = str_fields line
      in if line = [] \<or> has_prefix line ''#'' then checksum_in ls target
         else if length fs < 2 then checksum_in ls target
         else if listed_name fs \<noteq> target then checksum_in ls target
         else case decode_hex (hd fs) of None \<Rightarrow> Err MalformedDigest | Some d \<Rightarrow> Ok (Some d))"

definition parseChecksumFor :: "string \<Rightarrow> string \<Rightarrow> update_err + string option" where
  "parseChecksumFor body target = checksum_in (split_byte (CHR 0x0A) body) target"

section \<open>The provider\<close>

text \<open>A request fails, or has a status and a body, which may not be readable.\<close>

datatype 'a response = RequestFailed | Response nat "'a option"

definition fetchReleases :: "ghRelease list response \<Rightarrow> update_err + ghRelease list" where
  "fetchReleases r = (case r of
     RequestFailed \<Rightarrow> Err ApiRequest
   | Response st body \<Rightarrow> if st = 200 then (case body of Some l \<Rightarrow> Ok l | None \<Rightarrow> Err BadReleases)
       else if st = 404 then Ok [] else Err (ApiStatus st))"

definition fetchChecksum :: "string \<Rightarrow> (string \<Rightarrow> string response) \<Rightarrow> ghAsset list \<Rightarrow> string \<Rightarrow> update_err + string option" where
  "fetchChecksum checksumName get assets targetName =
     (let url = (case List.find (\<lambda>a. gaName a = checksumName) assets of Some a \<Rightarrow> gaURL a | None \<Rightarrow> [])
      in if url = [] then Ok None
         else case get url of
           RequestFailed \<Rightarrow> Err BadSidecar
         | Response st body \<Rightarrow> if st < 200 \<or> 300 \<le> st then Err BadSidecar
             else (case body of None \<Rightarrow> Err BadSidecar | Some b \<Rightarrow> parseChecksumFor (take (2 ^ 20) b) targetName))"

record CheckRequest =
  crPlatform :: string
  crArch :: string
  crCurrent :: string

record Release =
  rlVersion :: string
  rlName :: string
  rlNotes :: string
  rlPublished :: int
  rlFilename :: string
  rlFiletype :: string
  rlSize :: int
  rlPlatform :: string
  rlArch :: string
  rlURL :: string
  rlTag :: string
  rlDigest :: "string option"

definition ends_with :: "string \<Rightarrow> string \<Rightarrow> bool" where "ends_with s t \<longleftrightarrow> prefix (rev t) (rev s)"

definition archMatches :: "string \<Rightarrow> string \<Rightarrow> bool" where
  "archMatches lowerName arch \<longleftrightarrow> contains_str lowerName arch
     \<or> arch = ''amd64'' \<and> (contains_str lowerName ''x86_64'' \<or> contains_str lowerName ''x64'')
     \<or> arch = ''arm64'' \<and> contains_str lowerName ''aarch64''"

definition update_asset :: "CheckRequest \<Rightarrow> ghAsset \<Rightarrow> bool" where
  "update_asset req a = (let name = to_lower (gaName a); p = crPlatform req
     in if p = ''darwin'' then contains_str name ''universal'' \<and> ends_with name ''.zip''
        else if p = ''windows'' then contains_str name ''windows'' \<and> ends_with name ''.zip'' \<and> archMatches name (crArch req)
        else if p = ''linux'' then contains_str name ''linux'' \<and> ends_with name ''.tar.gz'' \<and> archMatches name (crArch req)
        else False)"

definition matchUpdateAsset :: "CheckRequest \<Rightarrow> ghAsset list \<Rightarrow> ghAsset option" where
  "matchUpdateAsset req assets = List.find (update_asset req) assets"

definition make_release :: "CheckRequest \<Rightarrow> ghRelease \<Rightarrow> ghAsset \<Rightarrow> string option \<Rightarrow> Release" where
  "make_release req best picked digest =
     \<lparr>rlVersion = trimVPrefix (grTag best), rlName = grName best, rlNotes = grBody best, rlPublished = grPublished best,
      rlFilename = gaName picked, rlFiletype = fileExtOf (gaName picked), rlSize = gaSize picked, rlPlatform = crPlatform req,
      rlArch = crArch req, rlURL = gaURL picked, rlTag = grTag best, rlDigest = digest\<rparr>"

text \<open>\<open>None\<close> is up to date. The checksum asset is the one the application configures.\<close>

definition check_update :: "(string \<Rightarrow> string \<Rightarrow> int) \<Rightarrow> ghRelease list response \<Rightarrow> (string \<Rightarrow> string response) \<Rightarrow> CheckRequest \<Rightarrow>
    update_err + Release option" where
  "check_update cmp rels get req = (case fetchReleases rels of
     Err e \<Rightarrow> Err e
   | Ok l \<Rightarrow> (case selectLatestRelease cmp l of
       None \<Rightarrow> Ok None
     | Some best \<Rightarrow> if \<not> isNewerTag cmp (grTag best) (crCurrent req) then Ok None
         else case matchUpdateAsset req (grAssets best) of
           None \<Rightarrow> Err NoAsset
         | Some picked \<Rightarrow> (case fetchChecksum ''SHA256SUMS'' get (grAssets best) (gaName picked) of
             Err _ \<Rightarrow> Err BadSidecar
           | Ok digest \<Rightarrow> Ok (Some (make_release req best picked digest)))))"

section \<open>Prompting\<close>

definition isReleaseVersion :: "string \<Rightarrow> bool" where
  "isReleaseVersion v \<longleftrightarrow> v \<noteq> [] \<and> v \<noteq> ''dev'' \<and> \<not> has_prefix v ''dev-''"

definition shouldSurfaceUpdate :: "string \<Rightarrow> string \<Rightarrow> bool" where
  "shouldSurfaceUpdate found skipped \<longleftrightarrow> found \<noteq> [] \<and> found \<noteq> skipped"

text \<open>The settings, by key; \<open>None\<close> cannot be read. A setting that is not there is empty.\<close>

type_synonym settings = "(string \<Rightarrow> string) option"

definition updateChannelPrerelease :: "settings \<Rightarrow> bool" where
  "updateChannelPrerelease s = (case s of Some f \<Rightarrow> f ''updateChannel'' = ''prerelease'' | None \<Rightarrow> False)"

definition active_provider :: "settings \<Rightarrow> 'p \<Rightarrow> 'p \<Rightarrow> 'p" where
  "active_provider s onStable onPrerelease = (if updateChannelPrerelease s then onPrerelease else onStable)"

definition SkipUpdateVersion :: "string \<Rightarrow> settings \<Rightarrow> settings" where
  "SkipUpdateVersion version s = (if version = [] then s else map_option (\<lambda>f. f(''updater.skippedVersion'' := version)) s)"

definition surfaceUpdateIfAvailable :: "update_err + Release option \<Rightarrow> settings \<Rightarrow> (string \<times> string) option" where
  "surfaceUpdateIfAvailable check s = (case check of
     Ok (Some rel) \<Rightarrow>
       (let skipped = (case s of Some f \<Rightarrow> f ''updater.skippedVersion'' | None \<Rightarrow> [])
        in if shouldSurfaceUpdate (rlVersion rel) skipped then Some (rlVersion rel, rlNotes rel) else None)
   | _ \<Rightarrow> None)"

text \<open>The executable's path, if known, with its links resolved where they can be.\<close>

definition linuxSelfUpdateEligible :: "string \<Rightarrow> string option \<Rightarrow> (string \<Rightarrow> string option) \<Rightarrow> (string \<Rightarrow> bool) \<Rightarrow> bool \<times> string" where
  "linuxSelfUpdateEligible appimage exe resolve dirWritable =
     (if appimage \<noteq> [] then (False, ''appimage'')
      else case exe of None \<Rightarrow> (False, ''unknown'')
      | Some e \<Rightarrow> (let path = (case resolve e of Some r \<Rightarrow> r | None \<Rightarrow> e)
          in if has_prefix path ''/tmp/.mount_'' then (False, ''appimage'')
             else if \<not> dirWritable path then (False, ''system'')
             else (True, [])))"

section \<open>The newest release\<close>

text \<open>What the documentation of \<open>semver.Compare\<close> says: a total preorder.\<close>

definition semver_laws :: "(string \<Rightarrow> string \<Rightarrow> int) \<Rightarrow> bool" where
  "semver_laws cmp \<longleftrightarrow> (\<forall>a b. (0 < cmp a b) = (cmp b a < 0)) \<and> (\<forall>a b c. 0 \<le> cmp a b \<longrightarrow> 0 \<le> cmp b c \<longrightarrow> 0 \<le> cmp a c)"

lemma semver_le: "semver_laws cmp \<Longrightarrow> \<not> 0 < cmp a b \<longleftrightarrow> 0 \<le> cmp b a"
  unfolding semver_laws_def by (metis not_less)

lemma semver_trans: "semver_laws cmp \<Longrightarrow> 0 \<le> cmp a b \<Longrightarrow> 0 \<le> cmp b c \<Longrightarrow> 0 \<le> cmp a c"
  unfolding semver_laws_def by blast

lemma semver_refl: "semver_laws cmp \<Longrightarrow> 0 \<le> cmp a a"
  unfolding semver_laws_def by (metis linorder_not_le order_less_asym)

definition at_least :: "(string \<Rightarrow> string \<Rightarrow> int) \<Rightarrow> ghRelease \<Rightarrow> ghRelease \<Rightarrow> bool" where
  "at_least cmp a b \<longleftrightarrow> 0 \<le> cmp (canonicalTag (grTag a)) (canonicalTag (grTag b))"

lemma select_None: "selectLatestRelease cmp rels = None \<longleftrightarrow> (\<forall>r \<in> set rels. grDraft r)"
proof -
  have "fold (better cmp) rels best = None \<longleftrightarrow> best = None \<and> (\<forall>r \<in> set rels. grDraft r)" for best
  proof (induction rels arbitrary: best)
    case (Cons r rels)
    have "better cmp r best = None \<longleftrightarrow> best = None \<and> grDraft r" by (auto simp: better_def split: option.splits)
    then show ?case using Cons.IH by simp
  qed simp
  then show ?thesis by (simp add: selectLatestRelease_def)
qed

text \<open>The best so far is at least all that was seen.\<close>

definition best_of :: "(string \<Rightarrow> string \<Rightarrow> int) \<Rightarrow> ghRelease list \<Rightarrow> ghRelease option \<Rightarrow> bool" where
  "best_of cmp seen best \<longleftrightarrow> (case best of None \<Rightarrow> \<forall>r \<in> set seen. grDraft r
     | Some b \<Rightarrow> b \<in> set seen \<and> \<not> grDraft b \<and> (\<forall>r \<in> set seen. \<not> grDraft r \<longrightarrow> at_least cmp b r))"

lemma better_best:
  assumes "semver_laws cmp" "best_of cmp seen best"
  shows "best_of cmp (seen @ [r]) (better cmp r best)"
proof -
  note le = semver_le [OF assms(1)] and tr = semver_trans [OF assms(1)] and rf = semver_refl [OF assms(1)]
  show ?thesis
  proof (cases "grDraft r")
    case True
    then show ?thesis using assms(2) by (cases best) (auto simp: better_def best_of_def)
  next
    case False
    show ?thesis
    proof (cases best)
      case None
      then show ?thesis using False assms(2) rf by (auto simp: better_def best_of_def at_least_def)
    next
      case (Some b)
      show ?thesis
      proof (cases "0 < cmp (canonicalTag (grTag r)) (canonicalTag (grTag b))")
        case True
        have "at_least cmp r x" if "at_least cmp b x" for x using tr [of "canonicalTag (grTag r)" "canonicalTag (grTag b)"] True that
          by (auto simp: at_least_def)
        then show ?thesis using True False Some assms(2) rf by (auto simp: better_def best_of_def at_least_def)
      next
        case no: False
        then show ?thesis using False Some assms(2) le by (auto simp: better_def best_of_def at_least_def)
      qed
    qed
  qed
qed

lemma select_best:
  assumes "semver_laws cmp"
  shows "best_of cmp rels (selectLatestRelease cmp rels)"
proof -
  have "best_of cmp (seen @ rels) (fold (better cmp) rels best)" if "best_of cmp seen best" for seen best
    using that
  proof (induction rels arbitrary: seen best)
    case (Cons r rels)
    then show ?case using Cons.IH [OF better_best [OF assms Cons.prems]] by simp
  qed simp
  from this [of "[]" None] show ?thesis by (simp add: selectLatestRelease_def best_of_def)
qed


text \<open>An order for the witnesses: by length, then as the texts compare.\<close>

definition demo_cmp :: "string \<Rightarrow> string \<Rightarrow> int" where "demo_cmp a b = int (length a) - int (length b)"

lemma demo_cmp_laws: "semver_laws demo_cmp" by (simp add: semver_laws_def demo_cmp_def)

definition demo_rel :: "string \<Rightarrow> ghAsset list \<Rightarrow> ghRelease" where
  "demo_rel tag assets = \<lparr>grTag = tag, grName = tag, grBody = [], grPrerelease = True, grDraft = False, grPublished = 0, grHTML = [],
     grAssets = assets\<rparr>"

definition demo_asset :: "string \<Rightarrow> ghAsset" where
  "demo_asset name = \<lparr>gaID = 1, gaName = name, gaContentType = [], gaSize = 1, gaURL = ''u''\<rparr>"

definition demo_rels :: "ghRelease list" where
  "demo_rels = [demo_rel ''v1.1'' [], demo_rel ''v1.1.1'' [demo_asset ''universal.zip'']]"

definition demo_request :: CheckRequest where
  "demo_request = \<lparr>crPlatform = ''darwin'', crArch = ''arm64'', crCurrent = ''1.1''\<rparr>"

lemma demo_offer:
  "check_update demo_cmp (Response 200 (Some demo_rels)) get demo_request
    = Ok (Some (make_release demo_request (demo_rel ''v1.1.1'' [demo_asset ''universal.zip'']) (demo_asset ''universal.zip'') None))"
proof -
  have "to_lower ''universal.zip'' = ''universal.zip''" by (rule to_lower_id) (simp add: char_eval)
  moreover have "sublist ''universal'' (''universal'' @ ''.zip'')" by simp
  ultimately have m: "update_asset demo_request (demo_asset ''universal.zip'')"
    by (simp add: update_asset_def demo_request_def demo_asset_def ends_with_def contains_str_def Let_def del: sublist_code)
  have best: "selectLatestRelease demo_cmp demo_rels = Some (demo_rel ''v1.1.1'' [demo_asset ''universal.zip''])"
    by (simp add: demo_rels_def selectLatestRelease_def better_def demo_rel_def canonicalTag_def trimVPrefix_def demo_cmp_def)
  have "isNewerTag demo_cmp ''v1.1.1'' (crCurrent demo_request)"
    by (simp add: isNewerTag_def demo_request_def trimVPrefix_def canonicalTag_def demo_cmp_def)
  moreover have "fetchChecksum ''SHA256SUMS'' get [demo_asset ''universal.zip''] t = Ok None" for t
    by (simp add: fetchChecksum_def demo_asset_def)
  moreover have "matchUpdateAsset demo_request [demo_asset ''universal.zip''] = Some (demo_asset ''universal.zip'')"
    using m by (simp add: matchUpdateAsset_def)
  ultimately show ?thesis by (simp add: check_update_def fetchReleases_def best demo_rel_def)
qed


text \<open>
  A release without a usable entry in its checksum list is offered without verification: when the
  list is not among the assets, or does not name the chosen asset, the offer carries no digest and is
  no error.
\<close>

theorem unlisted_asset_unverified:
  assumes "check_update cmp rels get req = Ok (Some r)" "rels = Response 200 (Some l)" "selectLatestRelease cmp l = Some best"
    and "list_all (\<lambda>a. gaName a \<noteq> ''SHA256SUMS'') (grAssets best)
      \<or> (\<exists>a b. List.find (\<lambda>a. gaName a = ''SHA256SUMS'') (grAssets best) = Some a \<and> get (gaURL a) = Response 200 (Some b)
          \<and> parseChecksumFor (take (2 ^ 20) b) (rlFilename r) = Ok None)"
  shows "rlDigest r = None"
proof -
  obtain picked digest where p: "fetchChecksum ''SHA256SUMS'' get (grAssets best) (gaName picked) = Ok digest" "r = make_release req best picked digest"
    using assms by (auto simp: check_update_def fetchReleases_def split: option.splits sum.splits if_splits)
  have "digest = None" using assms(4)
  proof
    assume "list_all (\<lambda>a. gaName a \<noteq> ''SHA256SUMS'') (grAssets best)"
    then have "List.find (\<lambda>a. gaName a = ''SHA256SUMS'') (grAssets best) = None" by (auto simp: find_None_iff list_all_iff)
    then show ?thesis using p(1) by (simp add: fetchChecksum_def)
  next
    assume "\<exists>a b. List.find (\<lambda>a. gaName a = ''SHA256SUMS'') (grAssets best) = Some a \<and> get (gaURL a) = Response 200 (Some b)
          \<and> parseChecksumFor (take (2 ^ 20) b) (rlFilename r) = Ok None"
    then show ?thesis using p by (auto simp: fetchChecksum_def make_release_def Let_def split: if_splits)
  qed
  then show ?thesis by (simp add: p(2) make_release_def)
qed

theorem unlisted_asset_unverified_witness:
  "\<exists>r :: Release. check_update demo_cmp (Response 200 (Some demo_rels)) (\<lambda>_. RequestFailed) demo_request = Ok (Some r) \<and> rlDigest r = None"
proof -
  have "selectLatestRelease demo_cmp demo_rels = Some (demo_rel ''v1.1.1'' [demo_asset ''universal.zip''])"
    by (simp add: demo_rels_def selectLatestRelease_def better_def demo_rel_def canonicalTag_def trimVPrefix_def demo_cmp_def)
  then have "rlDigest (make_release demo_request (demo_rel ''v1.1.1'' [demo_asset ''universal.zip'']) (demo_asset ''universal.zip'') None) = None"
    using unlisted_asset_unverified [OF demo_offer [of "\<lambda>_. RequestFailed"] refl] by (simp add: demo_rel_def demo_asset_def)
  then show ?thesis using demo_offer by blast
qed

section \<open>A checksum list\<close>

definition hex_digit :: "nat \<Rightarrow> char" where "hex_digit n = (if n < 10 then char_of (48 + n) else char_of (87 + n))"

definition encode_hex :: "string \<Rightarrow> string" where
  "encode_hex d = concat (map (\<lambda>c. [hex_digit (byte c div 16), hex_digit (byte c mod 16)]) d)"

definition render_sums :: "(string \<times> string) list \<Rightarrow> string" where
  "render_sums es = join [CHR 0x0A] (map (\<lambda>(d, name). encode_hex d @ ''  '' @ name) es)"

definition sums_entry :: "string \<times> string \<Rightarrow> bool" where
  "sums_entry e \<longleftrightarrow> fst e \<noteq> [] \<and> snd e \<noteq> [] \<and> (\<forall>c \<in> set (snd e). solid c) \<and> \<not> has_prefix (snd e) ''*'' \<and> \<not> has_prefix (snd e) ''./''"

lemma byte_hex_digit: "n < 16 \<Longrightarrow> byte (hex_digit n) = (if n < 10 then 48 + n else 87 + n)"
  by (simp add: hex_digit_def)

lemma hex_val_digit: "n < 16 \<Longrightarrow> hex_val (hex_digit n) = Some n"
  by (auto simp: hex_val_def byte_hex_digit Let_def)

lemma solid_hex_digit: "n < 16 \<Longrightarrow> solid (hex_digit n)"
  by (auto simp: solid_def byte_hex_digit is_space_def space_runes_def)

lemma byte_nibbles: "byte c div 16 < 16" "byte c mod 16 < 16" for c :: char
proof -
  have "byte c mod 256 = byte c" by (rule of_char_mod_256)
  then have "byte c < 256" by (metis mod_less_divisor zero_less_numeral)
  then show "byte c div 16 < 16" by (simp add: less_mult_imp_div_less)
  show "byte c mod 16 < 16" by simp
qed

lemma decode_encode_hex: "decode_hex (encode_hex d) = Some d"
  by (induction d) (simp_all add: encode_hex_def hex_val_digit byte_nibbles)

lemma encode_hex_solid: "c \<in> set (encode_hex d) \<Longrightarrow> solid c"
  by (auto simp: encode_hex_def solid_hex_digit byte_nibbles)

lemma str_fields_solid: "w \<noteq> [] \<Longrightarrow> \<forall>c \<in> set w. solid c \<Longrightarrow> str_fields w = [w]"
  using str_fields_aux_word [of w "[]" "[]"] by (simp add: str_fields_def ascii_def solid_def)

lemma sums_line:
  assumes "sums_entry (d, name)"
  shows "trim_space (encode_hex d @ ''  '' @ name) = encode_hex d @ ''  '' @ name"
    "str_fields (encode_hex d @ ''  '' @ name) = [encode_hex d, name]"
    "\<not> has_prefix (encode_hex d @ ''  '' @ name) ''#''" "CHR 0x0A \<notin> set (encode_hex d @ ''  '' @ name)" "listed_name [encode_hex d, name] = name"
proof -
  have d: "encode_hex d \<noteq> []" "\<forall>c \<in> set (encode_hex d). solid c"
    using assms encode_hex_solid by (auto simp: sums_entry_def encode_hex_def)
  have n: "name \<noteq> []" "\<forall>c \<in> set name. solid c" using assms by (auto simp: sums_entry_def)
  show "trim_space (encode_hex d @ ''  '' @ name) = encode_hex d @ ''  '' @ name"
    using d n by (intro trim_space_solid) (simp_all add: last_append)
  have "str_fields (encode_hex d @ CHR '' '' # ([] @ CHR '' '' # name)) = [encode_hex d] @ [] @ [name]"
    unfolding str_fields_append using d n by (simp add: str_fields_solid)
  then show "str_fields (encode_hex d @ ''  '' @ name) = [encode_hex d, name]" by simp
  obtain c t where "d = c # t" using assms by (cases d) (auto simp: sums_entry_def)
  then have "hd (encode_hex d) = hex_digit (byte c div 16)" "byte (hex_digit (byte c div 16)) \<noteq> 35"
    using byte_nibbles [of c] by (auto simp: encode_hex_def byte_hex_digit)
  moreover have "byte (CHR ''#'') = (35 :: nat)" by simp
  ultimately have "hd (encode_hex d) \<noteq> CHR ''#''" by metis
  then show "\<not> has_prefix (encode_hex d @ ''  '' @ name) ''#''" using d(1) by (cases "encode_hex d") (auto simp: has_prefix_def)
  have "\<not> solid (CHR 0x0A)" by (simp add: solid_def is_space_def space_runes_def)
  then show "CHR 0x0A \<notin> set (encode_hex d @ ''  '' @ name)" using d n by auto
  show "listed_name [encode_hex d, name] = name" using assms by (simp add: listed_name_def trim_prefix_def sums_entry_def has_prefix_def)
qed

lemma checksum_found:
  assumes "list_all sums_entry es" "distinct (map snd es)" "(d, name) \<in> set es"
  shows "checksum_in (map (\<lambda>(d, name). encode_hex d @ ''  '' @ name) es) name = Ok (Some d)"
  using assms
proof (induction es)
  case (Cons e es)
  obtain d' name' where e: "e = (d', name')" by (cases e)
  note l = sums_line [of d' name']
  show ?case
  proof (cases "name' = name")
    case True
    then have "d' = d" using Cons.prems(2,3) e by (force simp: image_iff)
    then show ?thesis using Cons.prems(1) l True by (simp add: e decode_encode_hex Let_def)
  next
    case False
    then show ?thesis using Cons l by (simp add: e Let_def)
  qed
qed simp

text \<open>
  A checksum list as \<open>sha256sum\<close> writes it gives every file its own digest, whatever the other lines,
  as long as the names differ and have no space.
\<close>

theorem checksums_roundtrip:
  assumes "list_all sums_entry es" "distinct (map snd es)" "(d, name) \<in> set es"
  shows "parseChecksumFor (render_sums es) name = Ok (Some d)"
proof -
  let ?lines = "map (\<lambda>(d, name). encode_hex d @ ''  '' @ name) es"
  have "\<forall>w \<in> set ?lines. CHR 0x0A \<notin> set w" using assms(1) sums_line(4) by (auto simp: list_all_iff)
  moreover have "?lines \<noteq> []" using assms(3) by auto
  ultimately have "split_byte (CHR 0x0A) (join [CHR 0x0A] ?lines) = ?lines" by (intro split_join) auto
  then show ?thesis using checksum_found [OF assms] by (simp add: parseChecksumFor_def render_sums_def)
qed

theorem checksums_roundtrip_witness:
  "parseChecksumFor (render_sums [(''ab'', ''x.zip''), (''cd'', ''y.zip'')]) ''y.zip'' = Ok (Some ''cd'')"
  using checksums_roundtrip [of "[(''ab'', ''x.zip''), (''cd'', ''y.zip'')]" "''cd''" "''y.zip''"]
  by (simp add: sums_entry_def solid_def is_space_def space_runes_def has_prefix_def)

end
