(* ===== verification/Plugin_Ipc.thy ===== *)
theory Plugin_Ipc
  imports Network_Config
begin

text \<open>
  The connection to a plugin process, \<open>internal/plugin/ipc.go\<close>: requests that wait for their response, the
  bounded queue in front of the one writer, the read loop, and closing. A step is what one goroutine does
  between two points where another may run. The process, its pipes and JSON are outside; what the read
  loop sees is a line as it decodes. Environment, stderr and logging are left out.
\<close>

datatype call_result = Got string | PluginError string | CallClosed | CallTimeout | EnqueueTimeout | Unmarshalable

text \<open>A caller of \<open>SendRequest\<close>: waiting for room in the queue, for the response, or done.\<close>

datatype call_pc = Enqueueing int string | Awaiting int | Returned call_result

datatype reply = Result string | Failure string

text \<open>The channel of a request, which holds one response.\<close>

datatype slot = Waiting | Filled reply | ClosedSlot

datatype plugin_line =
    Answer event_value reply
  | Note string
  | Unreadable

record ipc =
  ipRequests :: "int \<rightharpoonup> unit"
  ipSlots :: "int \<rightharpoonup> slot"
  ipNext :: int
  ipClosed :: bool
  ipQueue :: "string list"
  ipDone :: bool
  ipStdinClosed :: bool
  ipReader :: bool
  ipWriter :: bool
  ipCalls :: "nat \<rightharpoonup> call_pc"
  ipWritten :: "string list"
  ipNotes :: "string list"

definition writeBuffer :: nat where "writeBuffer = 256"
definition maxPluginLogPreview :: nat where "maxPluginLogPreview = 512"
definition maxPluginNotificationBytes :: nat where "maxPluginNotificationBytes = 48 * 1024"

definition pluginLogPreview :: "string \<Rightarrow> string" where
  "pluginLogPreview line = (if length line \<le> maxPluginLogPreview then line else take maxPluginLogPreview line @ encode_rune 0x2026)"

definition new_ipc :: ipc where
  "new_ipc = \<lparr>ipRequests = Map.empty, ipSlots = Map.empty, ipNext = 1, ipClosed = False, ipQueue = [], ipDone = False,
     ipStdinClosed = False, ipReader = True, ipWriter = True, ipCalls = Map.empty, ipWritten = [], ipNotes = []\<rparr>"

definition normalizeID :: "event_value \<Rightarrow> int option" where
  "normalizeID v = (case v of IntValue i \<Rightarrow> Some i | _ \<Rightarrow> None)"

section \<open>Requests\<close>

definition call_returned :: "nat \<Rightarrow> call_result \<Rightarrow> ipc \<Rightarrow> ipc" where
  "call_returned c r p = p\<lparr>ipCalls := (ipCalls p)(c \<mapsto> Returned r)\<rparr>"

definition forget :: "int \<Rightarrow> ipc \<Rightarrow> ipc" where
  "forget i p = p\<lparr>ipRequests := (ipRequests p)(i := None)\<rparr>"

text \<open>The start of \<open>SendRequest\<close>, with the line for the next id unless it does not marshal.\<close>

definition begin_request :: "nat \<Rightarrow> (int \<Rightarrow> string option) \<Rightarrow> ipc \<Rightarrow> ipc" where
  "begin_request c frame p = (if ipClosed p then call_returned c CallClosed p
     else let i = ipNext p;
              p = p\<lparr>ipNext := i + 1, ipRequests := (ipRequests p)(i \<mapsto> ()), ipSlots := (ipSlots p)(i \<mapsto> Waiting)\<rparr>
          in case frame i of
               None \<Rightarrow> call_returned c Unmarshalable (forget i p)
             | Some line \<Rightarrow> p\<lparr>ipCalls := (ipCalls p)(c \<mapsto> Enqueueing i line)\<rparr>)"

text \<open>\<open>enqueueWrite\<close> that waits: room, \<open>done\<close> or two seconds, whichever the select takes.\<close>

definition enqueue_request :: "nat \<Rightarrow> ipc \<Rightarrow> ipc" where
  "enqueue_request c p = (case ipCalls p c of
     Some (Enqueueing i line) \<Rightarrow> if length (ipQueue p) < writeBuffer
       then p\<lparr>ipQueue := ipQueue p @ [line], ipCalls := (ipCalls p)(c \<mapsto> Awaiting i)\<rparr> else p
   | _ \<Rightarrow> p)"

definition enqueue_closed :: "nat \<Rightarrow> ipc \<Rightarrow> ipc" where
  "enqueue_closed c p = (case ipCalls p c of
     Some (Enqueueing i line) \<Rightarrow> if ipDone p then call_returned c CallClosed (forget i p) else p | _ \<Rightarrow> p)"

definition enqueue_timeout :: "nat \<Rightarrow> ipc \<Rightarrow> ipc" where
  "enqueue_timeout c p = (case ipCalls p c of
     Some (Enqueueing i line) \<Rightarrow> call_returned c EnqueueTimeout (forget i p) | _ \<Rightarrow> p)"

definition await_response :: "nat \<Rightarrow> ipc \<Rightarrow> ipc" where
  "await_response c p = (case ipCalls p c of
     Some (Awaiting i) \<Rightarrow> (case ipSlots p i of
         Some (Filled (Result r)) \<Rightarrow> call_returned c (Got r) p
       | Some (Filled (Failure e)) \<Rightarrow> call_returned c (PluginError e) p
       | Some ClosedSlot \<Rightarrow> call_returned c CallClosed p
       | _ \<Rightarrow> p)
   | _ \<Rightarrow> p)"

definition await_timeout :: "nat \<Rightarrow> ipc \<Rightarrow> ipc" where
  "await_timeout c p = (case ipCalls p c of Some (Awaiting i) \<Rightarrow> call_returned c CallTimeout (forget i p) | _ \<Rightarrow> p)"

section \<open>Notifications\<close>

text \<open>Whether the call returned no error; a full buffer drops the line and is no error.\<close>

definition SendNotification :: "string option \<Rightarrow> ipc \<Rightarrow> bool \<times> ipc" where
  "SendNotification frame p = (if ipClosed p then (False, p)
     else case frame of None \<Rightarrow> (False, p)
     | Some line \<Rightarrow> if maxPluginNotificationBytes < length line then (False, p)
         else if length (ipQueue p) < writeBuffer then (True, p\<lparr>ipQueue := ipQueue p @ [line]\<rparr>)
         else (\<not> ipDone p, p))"

section \<open>The loops\<close>

definition answer :: "event_value \<Rightarrow> reply \<Rightarrow> ipc \<Rightarrow> ipc" where
  "answer v r p = (case normalizeID v of None \<Rightarrow> p
     | Some i \<Rightarrow> if ipRequests p i = None then p else (forget i p)\<lparr>ipSlots := (ipSlots p)(i \<mapsto> Filled r)\<rparr>)"

definition read_line :: "plugin_line \<Rightarrow> ipc \<Rightarrow> ipc" where
  "read_line l p = (if \<not> ipReader p then p else case l of
     Answer v r \<Rightarrow> answer v r p | Note n \<Rightarrow> p\<lparr>ipNotes := ipNotes p @ [n]\<rparr> | Unreadable \<Rightarrow> p)"

text \<open>The end of the read loop, when the plugin's output ends.\<close>

definition read_end :: "ipc \<Rightarrow> ipc" where
  "read_end p = (if \<not> ipReader p then p
     else p\<lparr>ipReader := False, ipClosed := True, ipRequests := Map.empty,
            ipSlots := (\<lambda>i. if ipRequests p i = None then ipSlots p i else Some ClosedSlot)\<rparr>)"

text \<open>The writer takes a line, whose write may fail, or sees \<open>done\<close>.\<close>

definition write_line :: "bool \<Rightarrow> ipc \<Rightarrow> ipc" where
  "write_line ok p = (if \<not> ipWriter p then p
     else case ipQueue p of [] \<Rightarrow> p
     | line # rest \<Rightarrow> if ok \<and> \<not> ipStdinClosed p then p\<lparr>ipQueue := rest, ipWritten := ipWritten p @ [line]\<rparr>
         else p\<lparr>ipQueue := rest, ipWriter := False\<rparr>)"

definition write_done :: "ipc \<Rightarrow> ipc" where
  "write_done p = (if ipDone p then p\<lparr>ipWriter := False\<rparr> else p)"

definition close_ipc :: "ipc \<Rightarrow> ipc" where
  "close_ipc p = (if ipClosed p then p else p\<lparr>ipClosed := True, ipDone := True, ipStdinClosed := True\<rparr>)"

datatype ipc_op =
    Request nat "int \<Rightarrow> string option"
  | Enqueue nat | EnqueueClosed nat | EnqueueTimesOut nat
  | Await nat | AwaitTimesOut nat
  | Notify "string option"
  | ReadLine plugin_line | ReadEnd
  | WriteLine bool | WriteDone
  | CloseIpc

fun ipc_step :: "ipc_op \<Rightarrow> ipc \<Rightarrow> ipc" where
  "ipc_step (Request c frame) p = (if ipCalls p c = None then begin_request c frame p else p)"
| "ipc_step (Enqueue c) p = enqueue_request c p"
| "ipc_step (EnqueueClosed c) p = enqueue_closed c p"
| "ipc_step (EnqueueTimesOut c) p = enqueue_timeout c p"
| "ipc_step (Await c) p = await_response c p"
| "ipc_step (AwaitTimesOut c) p = await_timeout c p"
| "ipc_step (Notify frame) p = snd (SendNotification frame p)"
| "ipc_step (ReadLine l) p = read_line l p"
| "ipc_step ReadEnd p = read_end p"
| "ipc_step (WriteLine ok) p = write_line ok p"
| "ipc_step WriteDone p = write_done p"
| "ipc_step CloseIpc p = close_ipc p"

definition ipc_run :: "ipc_op list \<Rightarrow> ipc \<Rightarrow> ipc" where "ipc_run ops p = fold ipc_step ops p"

lemma ipc_run_simps [simp]: "ipc_run [] p = p" "ipc_run (op # ops) p = ipc_run ops (ipc_step op p)"
  "ipc_run (xs @ ys) p = ipc_run ys (ipc_run xs p)"
  by (simp_all add: ipc_run_def)

section \<open>A response reaches its request\<close>

text \<open>The id of a call, as its begin step gave it out: the ids go up by one from 1.\<close>

definition call_id :: "call_pc option \<Rightarrow> int option" where
  "call_id pc = (case pc of Some (Enqueueing i _) \<Rightarrow> Some i | Some (Awaiting i) \<Rightarrow> Some i | _ \<Rightarrow> None)"

text \<open>The answers read so far, and what has been returned, tagged with the id of the request.\<close>

definition answers_of :: "ipc_op list \<Rightarrow> (int \<times> reply) set" where
  "answers_of ops = {(i, r). \<exists>v. normalizeID v = Some i \<and> ReadLine (Answer v r) \<in> set ops}"

definition matched :: "ipc_op list \<Rightarrow> ipc \<Rightarrow> bool" where
  "matched ops p \<longleftrightarrow> (\<forall>i r. ipSlots p i = Some (Filled r) \<longrightarrow> (i, r) \<in> answers_of ops)
     \<and> (\<forall>c d i. call_id (ipCalls p c) = Some i \<longrightarrow> call_id (ipCalls p d) = Some i \<longrightarrow> c = d)
     \<and> (\<forall>c i. call_id (ipCalls p c) = Some i \<longrightarrow> i < ipNext p)
     \<and> (\<forall>i. ipNext p \<le> i \<longrightarrow> ipRequests p i = None)
     \<and> (\<forall>i. ipRequests p i \<noteq> None \<longrightarrow> ipSlots p i = Some Waiting)"

lemmas ipc_defs = begin_request_def enqueue_request_def enqueue_closed_def enqueue_timeout_def await_response_def await_timeout_def
  call_returned_def forget_def SendNotification_def read_line_def answer_def read_end_def write_line_def write_done_def close_ipc_def

lemma answers_mono: "answers_of ops \<subseteq> answers_of (ops @ [op])" by (auto simp: answers_of_def)

lemma matched_frame:
  assumes "matched ops p" "ipSlots p' = ipSlots p" "ipNext p' = ipNext p" "\<And>c. call_id (ipCalls p' c) \<in> {None, call_id (ipCalls p c)}"
    and "\<And>i. ipRequests p' i \<in> {None, ipRequests p i}"
  shows "matched (ops @ [op]) p'"
proof -
  have c: "call_id (ipCalls p' c) = Some i \<Longrightarrow> call_id (ipCalls p c) = Some i" for c i using assms(4) [of c] by auto
  have r: "ipRequests p' i \<noteq> None \<Longrightarrow> ipRequests p i \<noteq> None" for i using assms(5) [of i] by auto
  show ?thesis unfolding matched_def assms(2,3)
  proof (intro conjI allI impI)
    fix i assume "ipNext p \<le> i"
    then have "ipRequests p i = None" using assms(1) by (simp add: matched_def)
    then show "ipRequests p' i = None" using r by blast
  next
    fix i assume "ipRequests p' i \<noteq> None"
    then show "ipSlots p i = Some Waiting" using assms(1) r by (simp add: matched_def)
  qed (use assms(1) answers_mono [of ops op] in \<open>auto simp: matched_def dest!: c r\<close>)
qed

lemma matched_step:
  assumes "matched ops p"
  shows "matched (ops @ [op]) (ipc_step op p)"
proof (cases op)
  case (Request c frame)
  show ?thesis
  proof (cases "ipCalls p c = None \<and> \<not> ipClosed p")
    case False
    then show ?thesis unfolding Request
      by (intro matched_frame [OF assms]) (auto simp: begin_request_def call_returned_def call_id_def)
  next
    case True
    let ?p = "p\<lparr>ipNext := ipNext p + 1, ipRequests := (ipRequests p)(ipNext p \<mapsto> ()), ipSlots := (ipSlots p)(ipNext p \<mapsto> Waiting)\<rparr>"
    have less: "i < ipNext p" if "call_id (ipCalls p d) = Some i" for d i using assms that by (auto simp: matched_def)
    show ?thesis
    proof (cases "frame (ipNext p)")
      case None
      then have "ipc_step op p = call_returned c Unmarshalable (forget (ipNext p) ?p)" using True by (simp add: Request begin_request_def Let_def)
      moreover have "matched (ops @ [op]) (call_returned c Unmarshalable (forget (ipNext p) ?p))"
        using assms answers_mono [of ops op] less unfolding matched_def call_returned_def forget_def
        by (auto simp: call_id_def split: if_splits) (force simp: less_le)+
      ultimately show ?thesis by simp
    next
      case (Some line)
      then have "ipc_step op p = ?p\<lparr>ipCalls := (ipCalls p)(c \<mapsto> Enqueueing (ipNext p) line)\<rparr>"
        using True by (simp add: Request begin_request_def Let_def)
      moreover have "matched (ops @ [op]) (?p\<lparr>ipCalls := (ipCalls p)(c \<mapsto> Enqueueing (ipNext p) line)\<rparr>)"
        using assms answers_mono [of ops op] less unfolding matched_def
        by (auto simp: call_id_def split: if_splits) (force simp: less_le)+
      ultimately show ?thesis by simp
    qed
  qed
next
  case (ReadLine l)
  show ?thesis
  proof (cases "\<exists>v r i. l = Answer v r \<and> normalizeID v = Some i \<and> ipRequests p i \<noteq> None \<and> ipReader p")
    case True
    then obtain v r i where l: "l = Answer v r" "normalizeID v = Some i" "ipRequests p i \<noteq> None" "ipReader p" by blast
    then have "ipc_step op p = (forget i p)\<lparr>ipSlots := (ipSlots p)(i \<mapsto> Filled r)\<rparr>"
      by (simp add: ReadLine read_line_def answer_def)
    moreover have "(i, r) \<in> answers_of (ops @ [op])" using l by (auto simp: answers_of_def ReadLine)
    moreover have "matched (ops @ [op]) ((forget i p)\<lparr>ipSlots := (ipSlots p)(i \<mapsto> Filled r)\<rparr>)"
      using assms answers_mono [of ops op] calculation(2) unfolding matched_def forget_def by auto
    ultimately show ?thesis by simp
  next
    case False
    then have "ipc_step op p = p \<or> (\<exists>n. ipc_step op p = p\<lparr>ipNotes := ipNotes p @ [n]\<rparr>)"
      by (auto simp: ReadLine read_line_def answer_def split: plugin_line.splits option.splits)
    then show ?thesis using matched_frame [OF assms] by auto
  qed
next
  case ReadEnd
  then show ?thesis using assms answers_mono [of ops op] by (auto simp: matched_def read_end_def)
qed (use matched_frame [OF assms] in \<open>auto simp: ipc_defs call_id_def split: option.splits call_pc.splits slot.splits reply.splits list.splits if_splits\<close>)

lemma matched_run: "matched ops (ipc_run ops new_ipc)"
proof (induction ops rule: rev_induct)
  case Nil
  show ?case by (simp add: matched_def new_ipc_def call_id_def)
next
  case (snoc op ops)
  then show ?case using matched_step [of ops "ipc_run ops new_ipc" op] by simp
qed

lemma step_got:
  assumes "ipCalls (ipc_step op p) c = Some (Returned (Got r))"
  shows "ipCalls p c = Some (Returned (Got r))
    \<or> op = Await c \<and> (\<exists>i. ipCalls p c = Some (Awaiting i) \<and> ipSlots p i = Some (Filled (Result r)))"
  using assms by (cases op) (auto simp: ipc_defs Let_def split: option.splits call_pc.splits slot.splits reply.splits list.splits if_splits plugin_line.splits)

text \<open>
  C29: A caller gets the response to its own request: what a call returns as a result was read from the
  plugin under the id that call was given, before it returned, and no other call has that id.
\<close>

theorem response_reaches_its_request:
  assumes "ipCalls (ipc_run ops new_ipc) c = Some (Returned (Got r))"
  shows "\<exists>pre post i. ops = pre @ Await c # post \<and> ipCalls (ipc_run pre new_ipc) c = Some (Awaiting i)
    \<and> (i, Result r) \<in> answers_of pre \<and> (\<forall>d. call_id (ipCalls (ipc_run pre new_ipc) d) = Some i \<longrightarrow> d = c)"
  using assms
proof (induction ops rule: rev_induct)
  case Nil
  then show ?case by (simp add: new_ipc_def)
next
  case (snoc op ops)
  let ?p = "ipc_run ops new_ipc"
  consider "ipCalls ?p c = Some (Returned (Got r))"
    | i where "op = Await c" "ipCalls ?p c = Some (Awaiting i)" "ipSlots ?p i = Some (Filled (Result r))"
    using step_got [of op ?p c r] snoc.prems by auto
  then show ?case
  proof cases
    case 1
    then obtain pre post i where h: "ops = pre @ Await c # post" "ipCalls (ipc_run pre new_ipc) c = Some (Awaiting i)"
        "(i, Result r) \<in> answers_of pre" "\<forall>d. call_id (ipCalls (ipc_run pre new_ipc) d) = Some i \<longrightarrow> d = c"
      using snoc.IH by blast
    then have "ops @ [op] = pre @ Await c # (post @ [op])" by simp
    then show ?thesis using h(2-4) by blast
  next
    case 2
    have m: "matched ops ?p" by (rule matched_run)
    then have "(i, Result r) \<in> answers_of ops" using 2(3) by (simp add: matched_def)
    moreover have "\<forall>d. call_id (ipCalls ?p d) = Some i \<longrightarrow> d = c" using m 2(2) by (auto simp: matched_def call_id_def)
    moreover have "ops @ [op] = ops @ Await c # []" using 2(1) by simp
    ultimately show ?thesis using 2(2) by blast
  qed
qed

definition demo_call :: "ipc_op list" where
  "demo_call = [Request 0 (\<lambda>_. Some ''a''), Enqueue 0, WriteLine True, ReadLine (Answer (IntValue 1) (Result ''ok'')), Await 0]"

theorem response_reaches_its_request_witness:
  "\<exists>pre i. ipCalls (ipc_run pre new_ipc) 0 = Some (Awaiting i) \<and> (i, Result ''ok'') \<in> answers_of pre"
proof -
  have "ipCalls (ipc_run demo_call new_ipc) 0 = Some (Returned (Got ''ok''))"
    by (simp add: demo_call_def new_ipc_def ipc_defs writeBuffer_def normalizeID_def)
  from response_reaches_its_request [OF this] show ?thesis by blast
qed

section \<open>A plugin that ends\<close>

text \<open>Nothing waits for room and the queue is empty.\<close>

definition idle :: "ipc \<Rightarrow> bool" where
  "idle p \<longleftrightarrow> ipQueue p = [] \<and> (\<forall>c i l. ipCalls p c \<noteq> Some (Enqueueing i l))"

definition orphaned :: "ipc \<Rightarrow> bool" where
  "orphaned p \<longleftrightarrow> idle p \<and> ipClosed p \<and> \<not> ipReader p \<and> ipWriter p \<and> \<not> ipDone p \<and> \<not> ipStdinClosed p"

lemma orphaned_step: "orphaned p \<Longrightarrow> orphaned (ipc_step op p)"
  by (cases op) (auto simp: orphaned_def idle_def ipc_defs split: option.splits call_pc.splits slot.splits reply.splits)

text \<open>
  When a plugin process ends by itself, its writer is never told: the read loop marks the connection
  closed, so that \<open>Close\<close> returns at once without closing \<open>done\<close> and the pipe, and if nothing was
  queued the writer's goroutine waits for ever, whatever happens afterwards.
\<close>

theorem ended_plugin_leaks_writer:
  assumes "idle p" "ipReader p" "ipWriter p" "\<not> ipDone p" "\<not> ipStdinClosed p"
  shows "ipWriter (ipc_run (ReadEnd # ops @ [CloseIpc]) p) \<and> \<not> ipDone (ipc_run (ReadEnd # ops @ [CloseIpc]) p)
    \<and> \<not> ipStdinClosed (ipc_run (ReadEnd # ops @ [CloseIpc]) p)"
proof -
  have "orphaned (ipc_step ReadEnd p)" using assms by (auto simp: orphaned_def read_end_def idle_def)
  then have "orphaned (ipc_run qs (ipc_step ReadEnd p))" for qs
    by (induction qs rule: rev_induct) (auto simp: orphaned_step simp del: ipc_step.simps)
  from this [of "ops @ [CloseIpc]"] have "orphaned (ipc_run (ReadEnd # ops @ [CloseIpc]) p)" by (simp only: ipc_run_simps)
  then show ?thesis by (simp add: orphaned_def)
qed

theorem ended_plugin_leaks_writer_witness:
  "ipWriter (ipc_run (ReadEnd # [] @ [CloseIpc]) new_ipc) \<and> \<not> ipDone (ipc_run (ReadEnd # [] @ [CloseIpc]) new_ipc)"
  using ended_plugin_leaks_writer [of new_ipc "[]"] by (simp add: idle_def new_ipc_def)

end
