(* ===== verification/Plugin_Metadata.thy ===== *)
theory Plugin_Metadata
  imports Network_Config "HOL-Library.AList"
begin

text \<open>
  The metadata plugins attach to the user interface: the registry of \<open>internal/plugin/metadata.go\<close>, and how
  the manager takes an update and coalesces the events (\<open>manager.go\<close>). A value is what JSON decodes to,
  \<open>None\<close> for null. The registry's two nested maps are one map on pairs: an empty inner map and no inner map are
  the same to every operation.
\<close>

section \<open>The registry\<close>

record Scope =
  scNetwork :: "int option"
  scChannel :: "string option"
  scKey :: string

definition scope_string :: "Scope \<Rightarrow> string" where
  "scope_string s = join '':''
     ((case scNetwork s of Some i \<Rightarrow> [''network:'' @ int_str i] | None \<Rightarrow> [])
      @ (case scChannel s of Some c \<Rightarrow> [''channel:'' @ c] | None \<Rightarrow> [])
      @ [''key:'' @ scKey s])"

record MetadataEntry =
  meValue :: "event_value option"
  mePlugin :: string
  mePriority :: int
  meTime :: int

record MetadataUpdate =
  muScope :: Scope
  muType :: string
  muValue :: "event_value option"
  muPriority :: int

type_synonym registry = "string \<times> string \<rightharpoonup> MetadataEntry"

definition update_place :: "MetadataUpdate \<Rightarrow> string \<times> string" where
  "update_place u = (scope_string (muScope u), muType u)"

definition update_entry :: "string \<Rightarrow> MetadataUpdate \<Rightarrow> int \<Rightarrow> MetadataEntry" where
  "update_entry plugin u now = \<lparr>meValue = muValue u, mePlugin = plugin, mePriority = muPriority u, meTime = now\<rparr>"

definition setMetadataLocked :: "string \<Rightarrow> MetadataUpdate \<Rightarrow> int \<Rightarrow> registry \<Rightarrow> bool \<times> registry" where
  "setMetadataLocked plugin u now reg = (case reg (update_place u) of
     Some e \<Rightarrow> if muPriority u < mePriority e \<or> muPriority u = mePriority e \<and> now \<le> meTime e then (False, reg)
       else (True, reg(update_place u \<mapsto> update_entry plugin u now))
   | None \<Rightarrow> (True, reg(update_place u \<mapsto> update_entry plugin u now)))"

text \<open>Each update of a batch with its reading of the clock; how many were stored.\<close>

definition SetMetadataBatch :: "string \<Rightarrow> (MetadataUpdate \<times> int) list \<Rightarrow> registry \<Rightarrow> nat \<times> registry" where
  "SetMetadataBatch plugin us reg = fold (\<lambda>(u, now) (stored, reg).
     case setMetadataLocked plugin u now reg of (ok, reg) \<Rightarrow> (if ok then Suc stored else stored, reg)) us (0, reg)"

definition getEntry :: "Scope \<Rightarrow> string \<Rightarrow> registry \<Rightarrow> MetadataEntry option" where
  "getEntry s mtype reg = reg (scope_string s, mtype)"

definition GetMetadata :: "int \<Rightarrow> string option \<Rightarrow> string \<Rightarrow> string \<Rightarrow> registry \<Rightarrow> event_value option" where
  "GetMetadata networkID channel key mtype reg =
     (let global = (case getEntry \<lparr>scNetwork = None, scChannel = None, scKey = key\<rparr> mtype reg of Some e \<Rightarrow> meValue e | None \<Rightarrow> None);
          wide = (case getEntry \<lparr>scNetwork = Some networkID, scChannel = None, scKey = key\<rparr> mtype reg of Some e \<Rightarrow> meValue e | None \<Rightarrow> global)
      in case channel of
           None \<Rightarrow> wide
         | Some c \<Rightarrow> (case getEntry \<lparr>scNetwork = Some networkID, scChannel = Some c, scKey = key\<rparr> mtype reg of
             Some e \<Rightarrow> meValue e | None \<Rightarrow> wide))"

definition GetMetadataBatch :: "int \<Rightarrow> string option \<Rightarrow> string list \<Rightarrow> string \<Rightarrow> registry \<Rightarrow> (string \<times> event_value) list" where
  "GetMetadataBatch networkID channel keys mtype reg =
     concat (map (\<lambda>k. case GetMetadata networkID channel k mtype reg of Some v \<Rightarrow> [(k, v)] | None \<Rightarrow> []) (remdups keys))"

definition ClearPluginMetadata :: "string \<Rightarrow> registry \<Rightarrow> registry" where
  "ClearPluginMetadata plugin reg = (\<lambda>p. case reg p of Some e \<Rightarrow> if mePlugin e = plugin then None else Some e | None \<Rightarrow> None)"

definition nick_key :: "string \<Rightarrow> string" where "nick_key nick = ''nickname:'' @ nick"

definition GetNicknameColor :: "int \<Rightarrow> string \<Rightarrow> registry \<Rightarrow> string" where
  "GetNicknameColor networkID nickname reg = (case GetMetadata networkID None (nick_key nickname) ''nickname_color'' reg of
     Some (TextValue t) \<Rightarrow> t | _ \<Rightarrow> [])"

definition GetNicknameColorsBatch :: "int \<Rightarrow> string list \<Rightarrow> registry \<Rightarrow> (string \<times> string) list" where
  "GetNicknameColorsBatch networkID nicks reg =
     concat (map (\<lambda>(k, v). case v of TextValue t \<Rightarrow> [(trim_prefix k ''nickname:'', t)] | _ \<Rightarrow> [])
       (GetMetadataBatch networkID None (map nick_key nicks) ''nickname_color'' reg))"

section \<open>Taking an update\<close>

type_synonym params = "string \<rightharpoonup> event_value"

definition parse_scope :: "params \<Rightarrow> string \<Rightarrow> Scope" where
  "parse_scope p key = \<lparr>scNetwork = (case p ''network_id'' of Some (IntValue i) \<Rightarrow> if i \<noteq> 0 then Some i else None | _ \<Rightarrow> None),
     scChannel = (case p ''channel'' of Some (TextValue c) \<Rightarrow> Some c | _ \<Rightarrow> None), scKey = key\<rparr>"

definition update_event :: "string \<Rightarrow> Scope \<Rightarrow> event_value option \<Rightarrow> params" where
  "update_event mtype s v = (\<lambda>k. if k = ''type'' then Some (TextValue mtype) else if k = ''key'' then Some (TextValue (scKey s))
     else if k = ''value'' then v else if k = ''network_id'' then map_option IntValue (scNetwork s)
     else if k = ''channel'' then map_option TextValue (scChannel s) else None)"

definition parseMetadataUpdate :: "params \<Rightarrow> (MetadataUpdate \<times> params) option" where
  "parseMetadataUpdate p = (case (p ''type'', p ''key'') of
     (Some (TextValue mtype), Some (TextValue key)) \<Rightarrow>
       (let s = parse_scope p key
        in Some (\<lparr>muScope = s, muType = mtype, muValue = p ''value'',
                  muPriority = (case p ''priority'' of Some (IntValue i) \<Rightarrow> i | _ \<Rightarrow> 0)\<rparr>,
                 update_event mtype s (p ''value'')))
   | _ \<Rightarrow> None)"

text \<open>\<open>%v\<close> of a key that is not there is \<open><nil>\<close>.\<close>

definition fmt_field :: "params \<Rightarrow> string \<Rightarrow> string" where
  "fmt_field u k = (case u k of None \<Rightarrow> ''<nil>'' | Some (IntValue i) \<Rightarrow> int_str i | Some (TextValue t) \<Rightarrow> t
     | Some (BoolValue b) \<Rightarrow> (if b then ''true'' else ''false'') | Some (OtherValue s) \<Rightarrow> s)"

definition metadataEventKey :: "params \<Rightarrow> string" where
  "metadataEventKey u = join [CHR 0x00] (map (fmt_field u) [''network_id'', ''channel'', ''type'', ''key''])"

text \<open>\<open>msTimers\<close> is when the armed timers are due; times are in nanoseconds. \<open>msEvents\<close> is the updates of each
  event published.\<close>

record metadata_state =
  msRegistry :: registry
  msPending :: "(string \<times> params) list"
  msFlushSet :: bool
  msLast :: int
  msTimers :: "int list"
  msEvents :: "params list list"

definition metadataEventFlushDelay :: int where "metadataEventFlushDelay = 10 * 10 ^ 6"

definition queueMetadataEvents :: "params list \<Rightarrow> int \<Rightarrow> metadata_state \<Rightarrow> metadata_state" where
  "queueMetadataEvents us now s =
     (let s = s\<lparr>msPending := fold (\<lambda>u. AList.update (metadataEventKey u) u) us (msPending s), msLast := now\<rparr>
      in if msFlushSet s then s else s\<lparr>msFlushSet := True, msTimers := msTimers s @ [now + metadataEventFlushDelay]\<rparr>)"

text \<open>The timer that fired is not in the list any more.\<close>

definition flushMetadataEvents :: "int \<Rightarrow> metadata_state \<Rightarrow> metadata_state" where
  "flushMetadataEvents now s =
     (let quietFor = now - msLast s
      in if quietFor < metadataEventFlushDelay
         then s\<lparr>msTimers := msTimers s @ [now + (metadataEventFlushDelay - quietFor)]\<rparr>
         else let updates = map snd (msPending s); s = s\<lparr>msPending := [], msFlushSet := False\<rparr>
              in if updates = [] then s else s\<lparr>msEvents := msEvents s @ [updates]\<rparr>)"

definition HandleMetadataRequest :: "string \<Rightarrow> params \<Rightarrow> int \<Rightarrow> metadata_state \<Rightarrow> bool \<times> metadata_state" where
  "HandleMetadataRequest plugin p now s = (case parseMetadataUpdate p of
     None \<Rightarrow> (False, s)
   | Some (u, ev) \<Rightarrow>
       (True, queueMetadataEvents [ev] now (s\<lparr>msRegistry := snd (setMetadataLocked plugin u now (msRegistry s))\<rparr>)))"

primrec parse_all :: "params list \<Rightarrow> (MetadataUpdate \<times> params) list option" where
  "parse_all [] = Some []"
| "parse_all (p # ps) = (case (parseMetadataUpdate p, parse_all ps) of (Some u, Some us) \<Rightarrow> Some (u # us) | _ \<Rightarrow> None)"

text \<open>The entries, if the field is there and decodes; one reading of the clock per entry.\<close>

definition HandleMetadataBatchRequest :: "string \<Rightarrow> params list option \<Rightarrow> int list \<Rightarrow> metadata_state \<Rightarrow> bool \<times> metadata_state" where
  "HandleMetadataBatchRequest plugin entries clock s = (case entries of
     None \<Rightarrow> (False, s)
   | Some [] \<Rightarrow> (True, s)
   | Some ps \<Rightarrow> (case parse_all ps of
       None \<Rightarrow> (False, s)
     | Some us \<Rightarrow> (True, queueMetadataEvents (map snd us) (last clock)
         (s\<lparr>msRegistry := snd (SetMetadataBatch plugin (zip (map fst us) clock) (msRegistry s))\<rparr>))))"

section \<open>The entry that wins\<close>

text \<open>A write: its plugin, update and time.\<close>

type_synonym meta_write = "string \<times> MetadataUpdate \<times> int"

definition meta_written :: "meta_write list \<Rightarrow> registry" where
  "meta_written ws = fold (\<lambda>(plugin, u, now) reg. snd (setMetadataLocked plugin u now reg)) ws Map.empty"

definition write_at :: "string \<times> string \<Rightarrow> meta_write \<Rightarrow> bool" where "write_at p w \<longleftrightarrow> update_place (fst (snd w)) = p"

definition write_rank :: "meta_write \<Rightarrow> int \<times> int" where "write_rank w = (muPriority (fst (snd w)), snd (snd w))"

definition rank_less :: "int \<times> int \<Rightarrow> int \<times> int \<Rightarrow> bool" where
  "rank_less a b \<longleftrightarrow> fst a < fst b \<or> fst a = fst b \<and> snd a < snd b"

definition write_entry :: "meta_write \<Rightarrow> MetadataEntry" where
  "write_entry w = update_entry (fst w) (fst (snd w)) (snd (snd w))"

lemma written_snoc: "meta_written (ws @ [(plugin, u, now)]) = snd (setMetadataLocked plugin u now (meta_written ws))"
  by (simp add: meta_written_def)

definition first_best :: "string \<times> string \<Rightarrow> meta_write list \<Rightarrow> meta_write option \<Rightarrow> bool" where
  "first_best p ws best \<longleftrightarrow> (case best of
     None \<Rightarrow> list_all (\<lambda>w. \<not> write_at p w) ws
   | Some b \<Rightarrow> \<exists>pre post. ws = pre @ b # post \<and> write_at p b
       \<and> list_all (\<lambda>w. \<not> write_at p w \<or> rank_less (write_rank w) (write_rank b)) pre
       \<and> list_all (\<lambda>w. \<not> write_at p w \<or> \<not> rank_less (write_rank b) (write_rank w)) post)"

lemma rank_not_less_trans: "\<not> rank_less b w \<Longrightarrow> rank_less b v \<Longrightarrow> rank_less w v"
  by (auto simp: rank_less_def)

lemma rank_less_trans: "rank_less a b \<Longrightarrow> rank_less b c \<Longrightarrow> rank_less a c"
  by (auto simp: rank_less_def)

lemma first_bestI:
  assumes "ws = pre @ b # post" "write_at p b" "list_all (\<lambda>w. \<not> write_at p w \<or> rank_less (write_rank w) (write_rank b)) pre"
    and "list_all (\<lambda>w. \<not> write_at p w \<or> \<not> rank_less (write_rank b) (write_rank w)) post"
  shows "first_best p ws (Some b)"
  unfolding first_best_def option.case using assms by blast

lemma first_best_other:
  assumes "first_best p ws best" "\<not> write_at p w"
  shows "first_best p (ws @ [w]) best"
proof (cases best)
  case (Some b)
  then obtain pre post where "ws @ [w] = pre @ b # (post @ [w])" "write_at p b"
      "list_all (\<lambda>w. \<not> write_at p w \<or> rank_less (write_rank w) (write_rank b)) pre"
      "list_all (\<lambda>w. \<not> write_at p w \<or> \<not> rank_less (write_rank b) (write_rank w)) (post @ [w])"
    using assms by (auto simp: first_best_def)
  then show ?thesis unfolding Some by (rule first_bestI)
qed (use assms in \<open>simp add: first_best_def\<close>)

lemma written_first_best: "\<exists>best. first_best p ws best \<and> meta_written ws p = map_option write_entry best"
proof (induction ws rule: rev_induct)
  case Nil
  then show ?case by (intro exI [of _ None]) (simp add: first_best_def meta_written_def)
next
  case (snoc w ws)
  obtain plugin u now where w: "w = (plugin, u, now)" by (cases w)
  obtain best where best: "first_best p ws best" "meta_written ws p = map_option write_entry best" using snoc by blast
  show ?case
  proof (cases "write_at p w")
    case False
    then have "meta_written (ws @ [w]) p = meta_written ws p"
      by (auto simp: w written_snoc setMetadataLocked_def write_at_def split: option.splits)
    moreover have "first_best p (ws @ [w]) best" by (rule first_best_other [OF best(1) False])
    ultimately show ?thesis using best(2) by metis
  next
    case True
    show ?thesis
    proof (cases best)
      case None
      then have "meta_written (ws @ [w]) p = Some (write_entry w)"
        using best(2) True by (auto simp: w written_snoc setMetadataLocked_def write_at_def write_entry_def)
      moreover have "first_best p (ws @ [w]) (Some w)" using best(1) None True
        by (intro first_bestI [of _ ws w "[]"]) (auto simp: first_best_def list_all_iff)
      ultimately show ?thesis by (intro exI [of _ "Some w"]) simp
    next
      case (Some b)
      then obtain pre post where b: "ws = pre @ b # post" "write_at p b"
          "list_all (\<lambda>w. \<not> write_at p w \<or> rank_less (write_rank w) (write_rank b)) pre"
          "list_all (\<lambda>w. \<not> write_at p w \<or> \<not> rank_less (write_rank b) (write_rank w)) post"
        using best(1) by (auto simp: first_best_def)
      have e: "meta_written ws p = Some (write_entry b)" using best(2) Some by simp
      have rank: "mePriority (write_entry b) = fst (write_rank b)" "meTime (write_entry b) = snd (write_rank b)"
        by (simp_all add: write_entry_def update_entry_def write_rank_def)
      have stored: "meta_written (ws @ [w]) p = (if rank_less (write_rank b) (write_rank w) then Some (write_entry w) else Some (write_entry b))"
      proof -
        have place: "update_place u = p" using True by (simp add: w write_at_def)
        have wr: "write_rank w = (muPriority u, now)" "write_entry w = update_entry plugin u now"
          by (simp_all add: w write_rank_def write_entry_def)
        have "(muPriority u < fst (write_rank b) \<or> muPriority u = fst (write_rank b) \<and> now \<le> snd (write_rank b))
            \<longleftrightarrow> \<not> rank_less (write_rank b) (write_rank w)" by (auto simp: rank_less_def wr)
        then show ?thesis using e by (simp add: w written_snoc setMetadataLocked_def place rank) (simp add: w [symmetric] wr)
      qed
      show ?thesis
      proof (cases "rank_less (write_rank b) (write_rank w)")
        case less: True
        have "rank_less (write_rank v) (write_rank w)" if "v \<in> set ws" "write_at p v" for v
        proof -
          note v = that
          consider "v \<in> set pre" | "v = b" | "v \<in> set post" using v(1) b(1) by auto
          then show ?thesis
          proof cases
            case 1
            then have "rank_less (write_rank v) (write_rank b)" using b(3) v(2) by (auto simp: list_all_iff)
            then show ?thesis by (rule rank_less_trans [OF _ less])
          next
            case 3
            then have "\<not> rank_less (write_rank b) (write_rank v)" using b(4) v(2) by (auto simp: list_all_iff)
            then show ?thesis by (rule rank_not_less_trans [OF _ less])
          qed (simp add: less)
        qed
        then have "first_best p (ws @ [w]) (Some w)" using True by (intro first_bestI [of _ ws w "[]"]) (auto simp: list_all_iff)
        then show ?thesis using stored less by (intro exI [of _ "Some w"]) simp
      next
        case False
        then have "first_best p (ws @ [w]) (Some b)" using b by (intro first_bestI [of _ pre b "post @ [w]"]) auto
        then show ?thesis using stored False by (intro exI [of _ "Some b"]) simp
      qed
    qed
  qed
qed

text \<open>
  C30: Of all the values plugins wrote for one place, the registry holds the one of the highest priority,
  the latest of these by the clock, and the first written when the clock does not tell them apart.
\<close>

theorem registry_keeps_best:
  "\<exists>best. meta_written ws p = map_option write_entry best \<and> first_best p ws best"
  using written_first_best by blast

section \<open>What is published\<close>

text \<open>
  A value the registry turns down is published all the same: when another plugin's value has a
  higher priority, a plugin's update changes nothing in the registry, is reported as taken, and goes
  out in the next event.
\<close>

theorem rejected_update_published:
  assumes "parseMetadataUpdate prm = Some (u, ev)" "msRegistry s (update_place u) = Some e" "muPriority u < mePriority e"
    and "now + metadataEventFlushDelay \<le> later"
  shows "\<exists>s'. HandleMetadataRequest plugin prm now s = (True, s') \<and> msRegistry s' = msRegistry s
    \<and> ev \<in> set (last (msEvents (flushMetadataEvents later s')))"
proof -
  let ?s = "snd (HandleMetadataRequest plugin prm now s)"
  have h: "HandleMetadataRequest plugin prm now s = (True, ?s)" "msRegistry ?s = msRegistry s" "msLast ?s = now"
      "msPending ?s = AList.update (metadataEventKey ev) ev (msPending s)"
    using assms(1-3) by (simp_all add: HandleMetadataRequest_def setMetadataLocked_def queueMetadataEvents_def Let_def)
  have "ev \<in> snd ` set (msPending ?s)"
  proof -
    have "map_of (msPending ?s) (metadataEventKey ev) = Some ev" by (simp add: h(4) update_conv')
    then show ?thesis by (force dest: map_of_SomeD)
  qed
  then have "ev \<in> set (last (msEvents (flushMetadataEvents later ?s)))"
    using assms(4) h(3) by (auto simp: flushMetadataEvents_def Let_def)
  then show ?thesis using h by blast
qed

definition demo_params :: "int \<Rightarrow> string \<Rightarrow> params" where
  "demo_params prio v = [''type'' \<mapsto> TextValue ''nickname_color'', ''key'' \<mapsto> TextValue ''nickname:bob'', ''value'' \<mapsto> TextValue v,
     ''priority'' \<mapsto> IntValue prio]"

theorem rejected_update_published_witness:
  "\<exists>s s' ev. HandleMetadataRequest ''low'' (demo_params 1 ''red'') 5 s = (True, s') \<and> msRegistry s' = msRegistry s
     \<and> ev ''value'' = Some (TextValue ''red'') \<and> ev \<in> set (last (msEvents (flushMetadataEvents (10 ^ 8) s')))"
proof -
  let ?e = "\<lparr>meValue = Some (TextValue ''blue''), mePlugin = ''high'', mePriority = 9, meTime = 0\<rparr>"
  obtain u ev where p: "parseMetadataUpdate (demo_params 1 ''red'') = Some (u, ev)" "muPriority u = 1" "ev ''value'' = Some (TextValue ''red'')"
    by (simp add: parseMetadataUpdate_def demo_params_def Let_def update_event_def)
  let ?s = "\<lparr>msRegistry = [update_place u \<mapsto> ?e], msPending = [], msFlushSet = False, msLast = 0, msTimers = [], msEvents = []\<rparr>"
  obtain s' where "HandleMetadataRequest ''low'' (demo_params 1 ''red'') 5 ?s = (True, s')" "msRegistry s' = msRegistry ?s"
      "ev \<in> set (last (msEvents (flushMetadataEvents (10 ^ 8) s')))"
    using rejected_update_published [OF p(1), of ?s ?e 5 "10 ^ 8" "''low''"] p(2) by (auto simp: metadataEventFlushDelay_def)
  then show ?thesis using p(3) by blast
qed

end
