(* ===== verification/Plugin_Manager.thy ===== *)
theory Plugin_Manager
  imports Plugin_Metadata Event_Bus
begin

text \<open>
  The plugin manager, \<open>internal/plugin/manager.go\<close>: discovery and loading, the commands plugins register, the
  frames an event is cut into, the queue of actions, and the state kept in the database. The file system and
  the plugin processes are an environment: what discovery finds, which paths are valid and start, and what
  a plugin answers to \<open>initialize\<close>. A running process is a handle with the name its connection was made with.
\<close>

section \<open>State\<close>

record CommandSpec =
  csName :: string
  csAliases :: "string list"
  csUsage :: string
  csDescription :: string

record PluginInfo =
  piName :: string
  piVersion :: string
  piDescription :: string
  piAuthor :: string
  piEvents :: "string list"
  piMetadataTypes :: "string list"
  piSchema :: "string option"
  piCommands :: "CommandSpec list"
  piPath :: string
  piEnabled :: bool

record InitializeResult =
  irName :: string
  irVersion :: string
  irDescription :: string
  irAuthor :: string
  irEvents :: "string list"
  irMetadataTypes :: "string list"
  irSchema :: "string option"
  irCommands :: "CommandSpec list"

text \<open>A response may have no result, or one that does not decode after some commands were read.\<close>

datatype init_reply = NoReply | InitFailed | InitEmpty | InitUndecodable "CommandSpec list" | InitOk InitializeResult

record plugin_env =
  peDiscovered :: "PluginInfo list option"
  peValid :: "string \<Rightarrow> bool"
  peStarts :: "string \<Rightarrow> bool"
  peInit :: "string \<Rightarrow> init_reply"

record pluginCommandEntry =
  ceOwner :: string
  ceSpec :: CommandSpec

record plugin_row =
  prEnabled :: bool
  prSchema :: string

text \<open>A schema is an opaque text, and the empty schema is empty. The rows of \<open>plugin_configs\<close>, which may not be readable.\<close>

record plugin_db =
  pdOpen :: bool
  pdRows :: "string \<rightharpoonup> plugin_row"

record plugin_action =
  paPlugin :: string
  paType :: string
  paData :: params

datatype lifecycle = Loaded string | Unloaded string

record plugin_manager =
  pmPlugins :: "(string \<times> (PluginInfo \<times> nat)) list"
  pmCommands :: "(string \<times> pluginCommandEntry) list"
  pmRegistry :: registry
  pmActions :: "plugin_action list"
  pmRunning :: "(nat \<times> string) list"
  pmNext :: nat
  pmLifecycle :: "lifecycle list"
  pmDB :: plugin_db

definition NewManager :: "plugin_db \<Rightarrow> plugin_manager" where
  "NewManager db = \<lparr>pmPlugins = [], pmCommands = [], pmRegistry = Map.empty, pmActions = [], pmRunning = [], pmNext = 0,
     pmLifecycle = [], pmDB = db\<rparr>"

section \<open>Stored state\<close>

definition GetPluginConfig :: "string \<Rightarrow> plugin_db \<Rightarrow> plugin_row option" where
  "GetPluginConfig name db = (if \<not> pdOpen db then None
     else Some (case pdRows db name of Some r \<Rightarrow> r | None \<Rightarrow> \<lparr>prEnabled = True, prSchema = []\<rparr>))"

definition StoreEnabled :: "string \<Rightarrow> bool \<Rightarrow> plugin_db \<Rightarrow> bool \<times> plugin_db" where
  "StoreEnabled name en db = (if \<not> pdOpen db then (False, db)
     else (True, db\<lparr>pdRows := (pdRows db)(name \<mapsto> (case pdRows db name of
         Some r \<Rightarrow> r\<lparr>prEnabled := en\<rparr> | None \<Rightarrow> \<lparr>prEnabled = en, prSchema = []\<rparr>))\<rparr>))"

definition SetPluginConfigSchema :: "string \<Rightarrow> string \<Rightarrow> plugin_db \<Rightarrow> plugin_db" where
  "SetPluginConfigSchema name schema db = (if \<not> pdOpen db then db
     else db\<lparr>pdRows := (pdRows db)(name \<mapsto> (case pdRows db name of
         Some r \<Rightarrow> r\<lparr>prSchema := schema\<rparr> | None \<Rightarrow> \<lparr>prEnabled = True, prSchema = schema\<rparr>))\<rparr>)"

section \<open>Commands\<close>

definition command_keys :: "CommandSpec \<Rightarrow> string list" where
  "command_keys c = map to_upper (csName c # csAliases c)"

definition registerPluginCommands :: "(string \<Rightarrow> bool) \<Rightarrow> string \<Rightarrow> CommandSpec list \<Rightarrow> (string \<times> pluginCommandEntry) list \<Rightarrow>
    (string \<times> pluginCommandEntry) list" where
  "registerPluginCommands isBuiltin plugin cmds reg =
     fold (\<lambda>c. fold (\<lambda>k reg. if isBuiltin k then reg else if map_of reg k \<noteq> None then reg
         else reg @ [(k, \<lparr>ceOwner = plugin, ceSpec = c\<rparr>)]) (command_keys c)) cmds reg"

definition unregisterPluginCommands :: "string \<Rightarrow> (string \<times> pluginCommandEntry) list \<Rightarrow> (string \<times> pluginCommandEntry) list" where
  "unregisterPluginCommands plugin reg = filter (\<lambda>(k, e). ceOwner e \<noteq> plugin) reg"

definition LookupPluginCommand :: "string \<Rightarrow> plugin_manager \<Rightarrow> pluginCommandEntry option" where
  "LookupPluginCommand name m = map_of (pmCommands m) (to_upper name)"

text \<open>One entry per command, in the order of the iteration.\<close>

definition PluginCommands :: "plugin_manager \<Rightarrow> pluginCommandEntry list" where
  "PluginCommands m = snd (fold (\<lambda>(k, e) (seen, out). let n = to_upper (csName (ceSpec e))
     in if n \<in> set seen then (seen, out) else (n # seen, out @ [e])) (pmCommands m) ([], []))"

section \<open>Loading\<close>

definition close_process :: "nat \<Rightarrow> plugin_manager \<Rightarrow> plugin_manager" where
  "close_process h m = m\<lparr>pmRunning := filter (\<lambda>(h', _). h' \<noteq> h) (pmRunning m)\<rparr>"

definition emitLifecycle :: "lifecycle \<Rightarrow> plugin_manager \<Rightarrow> plugin_manager" where
  "emitLifecycle l m = m\<lparr>pmLifecycle := pmLifecycle m @ [l]\<rparr>"

definition with_result :: "PluginInfo \<Rightarrow> InitializeResult \<Rightarrow> PluginInfo" where
  "with_result info r = info\<lparr>piName := (if irName r = [] then piName info else irName r),
     piVersion := (if irVersion r = [] then piVersion info else irVersion r), piDescription := irDescription r,
     piAuthor := irAuthor r, piEvents := irEvents r, piMetadataTypes := irMetadataTypes r, piSchema := irSchema r,
     piCommands := irCommands r\<rparr>"

definition store_schema :: "string \<Rightarrow> string option \<Rightarrow> plugin_manager \<Rightarrow> plugin_manager" where
  "store_schema name schema m = (case schema of
     None \<Rightarrow> m | Some s \<Rightarrow> m\<lparr>pmDB := SetPluginConfigSchema name s (pmDB m)\<rparr>)"

text \<open>Registering a plugin under the name \<open>info\<close> now has.\<close>

definition install :: "(string \<Rightarrow> bool) \<Rightarrow> PluginInfo \<Rightarrow> CommandSpec list \<Rightarrow> nat \<Rightarrow> plugin_manager \<Rightarrow> plugin_manager" where
  "install isBuiltin info cmds h m = emitLifecycle (Loaded (piName info))
     (m\<lparr>pmCommands := registerPluginCommands isBuiltin (piName info) cmds (pmCommands m),
        pmPlugins := AList.update (piName info) (info, h) (pmPlugins m)\<rparr>)"

definition initialized :: "(string \<Rightarrow> bool) \<Rightarrow> PluginInfo \<Rightarrow> init_reply \<Rightarrow> nat \<Rightarrow> plugin_manager \<Rightarrow> bool \<times> plugin_manager" where
  "initialized isBuiltin info reply h m = (case reply of
     NoReply \<Rightarrow> (False, close_process h m)
   | InitFailed \<Rightarrow> (False, close_process h m)
   | InitEmpty \<Rightarrow> (True, install isBuiltin info [] h m)
   | InitUndecodable cmds \<Rightarrow> (True, install isBuiltin info cmds h m)
   | InitOk r \<Rightarrow> (let info = with_result info r
       in (True, install isBuiltin info (irCommands r) h (store_schema (piName info) (irSchema r) m))))"

definition loadPlugin :: "(string \<Rightarrow> bool) \<Rightarrow> plugin_env \<Rightarrow> PluginInfo \<Rightarrow> plugin_manager \<Rightarrow> bool \<times> plugin_manager" where
  "loadPlugin isBuiltin env info m =
     (if map_of (pmPlugins m) (piName info) \<noteq> None then (False, m)
      else if \<not> peValid env (piPath info) then (False, m)
      else if \<not> peStarts env (piPath info) then (False, m)
      else initialized isBuiltin info (peInit env (piPath info)) (pmNext m)
             (m\<lparr>pmRunning := pmRunning m @ [(pmNext m, piName info)], pmNext := Suc (pmNext m)\<rparr>))"

definition unload :: "string \<Rightarrow> nat \<Rightarrow> plugin_manager \<Rightarrow> plugin_manager" where
  "unload name h m = (let m = close_process h m
     in emitLifecycle (Unloaded name) (m\<lparr>pmRegistry := ClearPluginMetadata name (pmRegistry m),
          pmPlugins := AList.delete name (pmPlugins m), pmCommands := unregisterPluginCommands name (pmCommands m)\<rparr>))"

definition UnloadPlugin :: "string \<Rightarrow> plugin_manager \<Rightarrow> bool \<times> plugin_manager" where
  "UnloadPlugin name m = (case map_of (pmPlugins m) name of None \<Rightarrow> (False, m) | Some (_, h) \<Rightarrow> (True, unload name h m))"

definition discovered :: "string \<Rightarrow> plugin_env \<Rightarrow> PluginInfo option" where
  "discovered name env = (case peDiscovered env of Some ps \<Rightarrow> List.find (\<lambda>p. piName p = name) ps | None \<Rightarrow> None)"

text \<open>The stored rows are read once, before the first plugin is loaded.\<close>

definition GetAllPluginConfigs :: "plugin_db \<Rightarrow> string \<Rightarrow> plugin_row option" where
  "GetAllPluginConfigs db = (if pdOpen db then pdRows db else Map.empty)"

definition DiscoverAndLoad :: "(string \<Rightarrow> bool) \<Rightarrow> plugin_env \<Rightarrow> plugin_manager \<Rightarrow> bool \<times> plugin_manager" where
  "DiscoverAndLoad isBuiltin env m = (case peDiscovered env of
     None \<Rightarrow> (False, m)
   | Some ps \<Rightarrow> (let configs = GetAllPluginConfigs (pmDB m)
       in (True, fold (\<lambda>info m.
            let info = (case configs (piName info) of Some r \<Rightarrow> info\<lparr>piEnabled := prEnabled r\<rparr> | None \<Rightarrow> info)
            in if piEnabled info then snd (loadPlugin isBuiltin env info m) else m) ps m)))"

definition ReloadPlugin :: "(string \<Rightarrow> bool) \<Rightarrow> plugin_env \<Rightarrow> string \<Rightarrow> plugin_manager \<Rightarrow> bool \<times> plugin_manager" where
  "ReloadPlugin isBuiltin env name m = (case discovered name env of
     None \<Rightarrow> (False, m)
   | Some info \<Rightarrow>
       (let m = snd (UnloadPlugin name m);
            info = (case GetPluginConfig name (pmDB m) of Some r \<Rightarrow> info\<lparr>piEnabled := prEnabled r\<rparr> | None \<Rightarrow> info)
        in if piEnabled info then loadPlugin isBuiltin env info m else (True, m)))"

definition SetPluginEnabled :: "(string \<Rightarrow> bool) \<Rightarrow> plugin_env \<Rightarrow> string \<Rightarrow> bool \<Rightarrow> plugin_manager \<Rightarrow> bool \<times> plugin_manager" where
  "SetPluginEnabled isBuiltin env name enabled m = (case GetPluginConfig name (pmDB m) of
     None \<Rightarrow> (False, m)
   | Some previous \<Rightarrow> (case StoreEnabled name enabled (pmDB m) of
       (False, db) \<Rightarrow> (False, m)
     | (True, db) \<Rightarrow>
         (let m = m\<lparr>pmDB := db\<rparr>; restore = (\<lambda>m. m\<lparr>pmDB := snd (StoreEnabled name (prEnabled previous) (pmDB m))\<rparr>)
          in if enabled
             then if map_of (pmPlugins m) name \<noteq> None then (True, m)
                  else (case discovered name env of
                    None \<Rightarrow> (False, restore m)
                  | Some info \<Rightarrow> (case loadPlugin isBuiltin env (info\<lparr>piEnabled := True\<rparr>) m of
                      (True, m) \<Rightarrow> (True, m) | (False, m) \<Rightarrow> (False, restore m)))
             else (case map_of (pmPlugins m) name of None \<Rightarrow> (True, m) | Some (_, h) \<Rightarrow> (True, unload name h m)))))"

text \<open>A process of its own, closed again at the end, when no schema is stored.\<close>

definition bare_info :: "PluginInfo \<Rightarrow> bool \<Rightarrow> string option \<Rightarrow> PluginInfo" where
  "bare_info info en schema = \<lparr>piName = piName info, piVersion = [], piDescription = [], piAuthor = [], piEvents = [],
     piMetadataTypes = [], piSchema = schema, piCommands = [], piPath = piPath info, piEnabled = en\<rparr>"

definition empty_result :: InitializeResult where
  "empty_result = \<lparr>irName = [], irVersion = [], irDescription = [], irAuthor = [], irEvents = [], irMetadataTypes = [],
     irSchema = None, irCommands = []\<rparr>"

definition fetched :: "PluginInfo \<Rightarrow> InitializeResult \<Rightarrow> plugin_manager \<Rightarrow> PluginInfo option \<times> plugin_manager" where
  "fetched info r m = (Some \<lparr>piName = irName r, piVersion = irVersion r, piDescription = irDescription r,
     piAuthor = irAuthor r, piEvents = irEvents r, piMetadataTypes = irMetadataTypes r, piSchema = irSchema r,
     piCommands = [], piPath = piPath info, piEnabled = piEnabled info\<rparr>, store_schema (irName r) (irSchema r) m)"

definition fetch_metadata :: "plugin_env \<Rightarrow> PluginInfo \<Rightarrow> plugin_manager \<Rightarrow> PluginInfo option \<times> plugin_manager" where
  "fetch_metadata env info m = (if \<not> peStarts env (piPath info) then (None, m)
     else case peInit env (piPath info) of
       InitOk r \<Rightarrow> fetched info r m | InitEmpty \<Rightarrow> fetched info empty_result m | _ \<Rightarrow> (None, m))"

definition GetPluginMetadata :: "plugin_env \<Rightarrow> PluginInfo \<Rightarrow> plugin_manager \<Rightarrow> PluginInfo option \<times> plugin_manager" where
  "GetPluginMetadata env info m = (case map_of (pmPlugins m) (piName info) of
     Some (loaded, _) \<Rightarrow> (Some loaded, m)
   | None \<Rightarrow> (case GetPluginConfig (piName info) (pmDB m) of
       None \<Rightarrow> fetch_metadata env info m
     | Some row \<Rightarrow> if prSchema row \<noteq> [] then (Some (bare_info info (prEnabled row) (Some (prSchema row))), m)
         else fetch_metadata env info m))"

definition list_entry :: "plugin_env \<Rightarrow> (string \<Rightarrow> plugin_row option) \<Rightarrow> (string \<times> (PluginInfo \<times> nat)) list \<Rightarrow> PluginInfo \<Rightarrow>
    plugin_manager \<Rightarrow> PluginInfo \<times> plugin_manager" where
  "list_entry env configs loaded info m = (case map_of loaded (piName info) of
     Some (full, _) \<Rightarrow> (full\<lparr>piEnabled := (case configs (piName info) of Some r \<Rightarrow> prEnabled r | None \<Rightarrow> True)\<rparr>, m)
   | None \<Rightarrow>
       (let bare = (case configs (piName info) of
              None \<Rightarrow> bare_info info True None
            | Some r \<Rightarrow> bare_info info (prEnabled r) (if prSchema r \<noteq> [] then Some (prSchema r) else None))
        in if piEnabled bare \<and> piSchema bare = None
           then (case GetPluginMetadata env info m of
               (Some meta, m) \<Rightarrow> (case piSchema meta of
                   None \<Rightarrow> (bare, m)
                 | Some schema \<Rightarrow> (bare\<lparr>piSchema := Some schema,
                     piDescription := (if piDescription meta \<noteq> [] then piDescription meta else piDescription bare),
                     piVersion := (if piVersion meta \<noteq> [] then piVersion meta else piVersion bare),
                     piAuthor := (if piAuthor meta \<noteq> [] then piAuthor meta else piAuthor bare)\<rparr>, m))
             | (None, m) \<Rightarrow> (bare, m))
           else (bare, m)))"

definition ListPlugins :: "plugin_env \<Rightarrow> plugin_manager \<Rightarrow> PluginInfo list \<times> plugin_manager" where
  "ListPlugins env m = (case peDiscovered env of
     None \<Rightarrow> (map (fst \<circ> snd) (pmPlugins m), m)
   | Some ps \<Rightarrow> (let configs = GetAllPluginConfigs (pmDB m); loaded = pmPlugins m
       in fold (\<lambda>info (out, m). case list_entry env configs loaded info m of (i, m) \<Rightarrow> (out @ [i], m)) ps ([], m)))"

definition ClosePlugins :: "plugin_manager \<Rightarrow> plugin_manager" where
  "ClosePlugins m = fold (\<lambda>(name, _, h) m. (close_process h m)\<lparr>pmRegistry := ClearPluginMetadata name (pmRegistry m)\<rparr>) (pmPlugins m) m"

section \<open>What plugins ask for\<close>

definition actionQueueSize :: nat where "actionQueueSize = 100"

definition EnqueueAction :: "plugin_action \<Rightarrow> plugin_manager \<Rightarrow> plugin_manager" where
  "EnqueueAction a m = (if length (pmActions m) < actionQueueSize then m\<lparr>pmActions := pmActions m @ [a]\<rparr> else m)"

text \<open>A write of metadata over the connection \<open>h\<close>, under the name the connection was made with.\<close>

definition write_metadata :: "nat \<Rightarrow> MetadataUpdate \<Rightarrow> int \<Rightarrow> plugin_manager \<Rightarrow> plugin_manager" where
  "write_metadata h u now m = (case map_of (pmRunning m) h of
     None \<Rightarrow> m | Some plugin \<Rightarrow> m\<lparr>pmRegistry := snd (setMetadataLocked plugin u now (pmRegistry m))\<rparr>)"

section \<open>Events\<close>

definition subscribed :: "string \<Rightarrow> PluginInfo \<Rightarrow> bool" where
  "subscribed ty info \<longleftrightarrow> list_ex (\<lambda>t. t = ty \<or> t = ''*'') (piEvents info)"

definition receivers :: "string \<Rightarrow> plugin_manager \<Rightarrow> nat list" where
  "receivers ty m = map (\<lambda>(_, _, h). h) (filter (\<lambda>(_, info, _). subscribed ty info) (pmPlugins m))"

text \<open>A frame of an event: the event as it is, with other updates, or as one chunk of several. The size a
  frame has as a line of JSON is a parameter.\<close>

datatype ('e, 'u) frame = Whole 'e | Updates 'e "'u list" | Chunk 'e "'u list" nat nat

definition maxFrame :: nat where "maxFrame = 48 * 1024"
definition pluginEventChunkOverhead :: nat where "pluginEventChunkOverhead = 128"

fun chunk_updates :: "'u list \<Rightarrow> (('e, 'u) frame \<Rightarrow> nat) \<Rightarrow> 'e \<Rightarrow> 'u list list \<Rightarrow> 'u list \<Rightarrow> 'u list list option" where
  "chunk_updates [] len e out current = Some (if current = [] then out else out @ [current])"
| "chunk_updates (u # us) len e out current =
     (if len (Updates e (current @ [u])) \<le> maxFrame - pluginEventChunkOverhead
      then chunk_updates us len e out (current @ [u])
      else if current = [] then None
      else chunk_updates us len e (out @ [current]) [u])"

definition pluginEventNotifications :: "(('e, 'u) frame \<Rightarrow> nat) \<Rightarrow> 'e \<Rightarrow> 'u list option \<Rightarrow> ('e, 'u) frame list option" where
  "pluginEventNotifications len e updates =
     (if len (Whole e) \<le> maxFrame then Some [Whole e]
      else case updates of
        None \<Rightarrow> None
      | Some us \<Rightarrow> if us = [] then None
          else (case chunk_updates us len e [] [] of
            None \<Rightarrow> None
          | Some chunks \<Rightarrow>
              (let frames = map (\<lambda>i. Chunk e (chunks ! i) (Suc i) (length chunks)) [0..<length chunks]
               in if list_all (\<lambda>f. len f \<le> maxFrame) frames then Some frames else None)))"

section \<open>Steps\<close>

datatype plugin_op =
    LoadAll plugin_env | LoadOne plugin_env PluginInfo | UnloadOne string | Reload plugin_env string | Enable plugin_env string bool
  | Inspect plugin_env PluginInfo | ListAll plugin_env | Act plugin_action | WriteMeta nat MetadataUpdate int

fun plugin_step :: "(string \<Rightarrow> bool) \<Rightarrow> plugin_op \<Rightarrow> plugin_manager \<Rightarrow> plugin_manager" where
  "plugin_step b (LoadAll env) m = snd (DiscoverAndLoad b env m)"
| "plugin_step b (LoadOne env info) m = snd (loadPlugin b env info m)"
| "plugin_step b (UnloadOne name) m = snd (UnloadPlugin name m)"
| "plugin_step b (Reload env name) m = snd (ReloadPlugin b env name m)"
| "plugin_step b (Enable env name en) m = snd (SetPluginEnabled b env name en m)"
| "plugin_step b (Inspect env info) m = snd (GetPluginMetadata env info m)"
| "plugin_step b (ListAll env) m = snd (ListPlugins env m)"
| "plugin_step b (Act a) m = EnqueueAction a m"
| "plugin_step b (WriteMeta h u now) m = write_metadata h u now m"

definition plugin_run :: "(string \<Rightarrow> bool) \<Rightarrow> plugin_op list \<Rightarrow> plugin_manager \<Rightarrow> plugin_manager" where
  "plugin_run b ops m = fold (plugin_step b) ops m"

section \<open>The manager's lock and the event bus\<close>

text \<open>A load holds the manager's lock from before it starts the process until after it has emitted
  \<open>plugin.lifecycle\<close>; the dispatcher needs the lock to deliver an event to the manager.\<close>

datatype loader_pc = NotLoading | Initializing | EmittingLoaded

record ('d, 's) locked_bus =
  lbBus :: "('d, 's) EventBus"
  lbLoader :: loader_pc
  lbDelivering :: "'d Event option"

datatype 'd lock_op = BeginLoad | Initialized | EmitLoaded "'d Event" | Publish "'d Event" | PublishLatest string "'d Event"
  | DispatchNext | TakeLock | CloseBus

definition next_event :: "('d, 's) EventBus \<Rightarrow> ('d Event \<times> ('d, 's) EventBus) option" where
  "next_event b = (case dequeue_event b of
     Some r \<Rightarrow> Some r
   | None \<Rightarrow> if bReady b then (case popLatest (b\<lparr>bReady := False\<rparr>) of (Some (_, e), b) \<Rightarrow> Some (e, b) | (None, _) \<Rightarrow> None) else None)"

fun lock_step :: "'d lock_op \<Rightarrow> ('d, 's) locked_bus \<Rightarrow> ('d, 's) locked_bus" where
  "lock_step BeginLoad s = (if lbLoader s = NotLoading then s\<lparr>lbLoader := Initializing\<rparr> else s)"
| "lock_step Initialized s = (if lbLoader s = Initializing then s\<lparr>lbLoader := EmittingLoaded\<rparr> else s)"
| "lock_step (EmitLoaded e) s = (if lbLoader s = EmittingLoaded
     then (case Emit e (lbBus s) of Some b \<Rightarrow> s\<lparr>lbBus := b, lbLoader := NotLoading\<rparr> | None \<Rightarrow> s) else s)"
| "lock_step (Publish e) s = (case Emit e (lbBus s) of Some b \<Rightarrow> s\<lparr>lbBus := b\<rparr> | None \<Rightarrow> s)"
| "lock_step (PublishLatest k e) s = s\<lparr>lbBus := EmitLatest k e (lbBus s)\<rparr>"
| "lock_step DispatchNext s = (if lbDelivering s \<noteq> None then s
     else case next_event (lbBus s) of None \<Rightarrow> s | Some (e, b) \<Rightarrow> s\<lparr>lbBus := b, lbDelivering := Some e\<rparr>)"
| "lock_step TakeLock s = (case lbDelivering s of
     Some e \<Rightarrow> if lbLoader s = NotLoading then s\<lparr>lbBus := deliver e (lbBus s), lbDelivering := None\<rparr> else s
   | None \<Rightarrow> s)"
| "lock_step CloseBus s = s\<lparr>lbBus := Close (lbBus s)\<rparr>"

definition lock_run :: "'d lock_op list \<Rightarrow> ('d, 's) locked_bus \<Rightarrow> ('d, 's) locked_bus" where
  "lock_run ops s = fold lock_step ops s"

definition quiet_bus :: "'s \<Rightarrow> ('d, 's) locked_bus" where
  "quiet_bus manager = \<lparr>lbBus = Subscribe ''*'' manager NewEventBus, lbLoader = NotLoading, lbDelivering = None\<rparr>"

end
