(* ===== verification/Plugin_Props.thy ===== *)
theory Plugin_Props
  imports Plugin_Manager
begin

text \<open>
  What holds of the plugin manager: who owns a registered command, the frames an event is cut into, the
  plugin that renames itself, and the lock held over \<open>Emit\<close>.
\<close>

section \<open>Who owns what\<close>

text \<open>\<open>plugins_ok\<close>: the registered commands have distinct keys, none of them a built-in's, and each belongs to
  a plugin that is loaded; each loaded plugin has a running process of its own, registered under its name.\<close>

definition commands_ok :: "(string \<Rightarrow> bool) \<Rightarrow> string set \<Rightarrow> (string \<times> pluginCommandEntry) list \<Rightarrow> bool" where
  "commands_ok b names reg \<longleftrightarrow> distinct (map fst reg) \<and> list_all (\<lambda>(k, e). \<not> b k \<and> ceOwner e \<in> names) reg"

definition processes_ok :: "plugin_manager \<Rightarrow> bool" where
  "processes_ok m \<longleftrightarrow> distinct (map fst (pmPlugins m)) \<and> distinct (map (snd \<circ> snd) (pmPlugins m))
     \<and> distinct (map fst (pmRunning m)) \<and> list_all (\<lambda>(h, _). h < pmNext m) (pmRunning m)
     \<and> list_all (\<lambda>(name, info, h). piName info = name \<and> h \<in> fst ` set (pmRunning m)) (pmPlugins m)"

definition plugins_ok :: "(string \<Rightarrow> bool) \<Rightarrow> plugin_manager \<Rightarrow> bool" where
  "plugins_ok b m \<longleftrightarrow> commands_ok b (fst ` set (pmPlugins m)) (pmCommands m) \<and> processes_ok m"

lemma commands_register:
  assumes "commands_ok b names reg" "plugin \<in> names"
  shows "commands_ok b names (registerPluginCommands b plugin cmds reg)"
proof -
  have "commands_ok b names (fold (\<lambda>k reg. if b k then reg else if map_of reg k \<noteq> None then reg
      else reg @ [(k, \<lparr>ceOwner = plugin, ceSpec = c\<rparr>)]) ks reg)" if "commands_ok b names reg" for c ks reg
    using that
  proof (induction ks arbitrary: reg)
    case (Cons k ks)
    from Cons.prems assms(2) have "commands_ok b names (if b k then reg else if map_of reg k \<noteq> None then reg
        else reg @ [(k, \<lparr>ceOwner = plugin, ceSpec = c\<rparr>)])"
      by (auto simp: commands_ok_def map_of_eq_None_iff)
    from Cons.IH [OF this] show ?case by simp
  qed simp
  then show ?thesis
    using assms(1) unfolding registerPluginCommands_def by (induction cmds arbitrary: reg) auto
qed

lemma commands_mono: "commands_ok b names reg \<Longrightarrow> names \<subseteq> names' \<Longrightarrow> commands_ok b names' reg"
  by (auto simp: commands_ok_def list_all_iff)

lemma commands_unregister:
  "commands_ok b names reg \<Longrightarrow> commands_ok b (names - {plugin}) (unregisterPluginCommands plugin reg)"
  by (auto simp: commands_ok_def unregisterPluginCommands_def list_all_iff distinct_map_filter)

text \<open>Closing a process keeps the rest, when no plugin has it.\<close>

lemma close_keeps:
  assumes "plugins_ok b m" "h \<notin> (snd \<circ> snd) ` set (pmPlugins m)"
  shows "plugins_ok b (close_process h m)"
  using assms
  by (force simp: plugins_ok_def processes_ok_def close_process_def list_all_iff distinct_map_filter image_iff)

lemma unload_ok:
  assumes ok: "plugins_ok b m" and at: "map_of (pmPlugins m) name = Some (info, h)"
  shows "plugins_ok b (unload name h m)"
proof -
  from at have mem: "(name, info, h) \<in> set (pmPlugins m)" by (rule map_of_SomeD)
  from ok have d: "distinct (map fst (pmPlugins m))" and dh: "distinct (map (snd \<circ> snd) (pmPlugins m))"
    by (simp_all add: plugins_ok_def processes_ok_def)
  have others: "h' \<noteq> h" if "(n, i, h') \<in> set (pmPlugins m)" "n \<noteq> name" for n i h'
  proof
    assume "h' = h"
    with inj_onD [OF distinct_map [THEN iffD1, OF dh, THEN conjunct2], of "(n, i, h')" "(name, info, h)"] that mem
    show False by simp
  qed
  have names: "fst ` set (AList.delete name (pmPlugins m)) = fst ` set (pmPlugins m) - {name}"
    by (auto simp: AList.delete_eq image_iff)
  have "commands_ok b (fst ` set (AList.delete name (pmPlugins m))) (unregisterPluginCommands name (pmCommands m))"
    unfolding names by (rule commands_unregister) (use ok in \<open>simp add: plugins_ok_def\<close>)
  moreover have "distinct (map fst (AList.delete name (pmPlugins m)))"
    "distinct (map (snd \<circ> snd) (AList.delete name (pmPlugins m)))"
    using d dh by (simp_all add: AList.delete_eq distinct_map_filter)
  moreover have "list_all (\<lambda>(n, i, h'). piName i = n \<and> h' \<in> fst ` set (filter (\<lambda>(h', _). h' \<noteq> h) (pmRunning m)))
      (AList.delete name (pmPlugins m))"
    using ok others by (fastforce simp: plugins_ok_def processes_ok_def list_all_iff AList.delete_eq image_iff)
  ultimately show ?thesis
    using ok
    by (simp add: plugins_ok_def processes_ok_def unload_def close_process_def emitLifecycle_def distinct_map_filter Let_def)
      (auto simp: list_all_iff)
qed

lemma UnloadPlugin_ok: "plugins_ok b m \<Longrightarrow> plugins_ok b (snd (UnloadPlugin name m))"
  by (auto simp: UnloadPlugin_def unload_ok split: option.splits)

lemma store_schema_same [simp]:
  "pmPlugins (store_schema n s m) = pmPlugins m" "pmCommands (store_schema n s m) = pmCommands m"
  "pmRunning (store_schema n s m) = pmRunning m" "pmNext (store_schema n s m) = pmNext m"
  "pmRegistry (store_schema n s m) = pmRegistry m" "pmLifecycle (store_schema n s m) = pmLifecycle m"
  by (simp_all add: store_schema_def split: option.splits)

lemma ok_cong:
  assumes "pmPlugins m' = pmPlugins m" "pmCommands m' = pmCommands m" "pmRunning m' = pmRunning m" "pmNext m' = pmNext m"
  shows "plugins_ok b m' = plugins_ok b m"
  using assms by (simp add: plugins_ok_def processes_ok_def)

lemma start_ok:
  assumes "plugins_ok b m"
  shows "plugins_ok b (m\<lparr>pmRunning := pmRunning m @ [(pmNext m, n)], pmNext := Suc (pmNext m)\<rparr>)"
  using assms by (fastforce simp: plugins_ok_def processes_ok_def list_all_iff)

lemma handles_of_ok: "plugins_ok b m \<Longrightarrow> h \<in> (snd \<circ> snd) ` set (pmPlugins m) \<Longrightarrow> h < pmNext m"
  by (fastforce simp: plugins_ok_def processes_ok_def list_all_iff)

lemma set_update: "distinct (map fst ps) \<Longrightarrow> set (AList.update k v ps) = insert (k, v) {p \<in> set ps. fst p \<noteq> k}"
  by (induction ps) (auto simp: image_iff)

lemma update_subset: "set (AList.update k v ps) \<subseteq> insert (k, v) (set ps)"
  by (induction ps) auto

lemma update_distinct:
  assumes "distinct (map f ps)" "f (k, v) \<notin> f ` set ps"
  shows "distinct (map f (AList.update k v ps))"
  using assms
proof (induction ps)
  case (Cons p ps)
  then have "f p \<notin> f ` set (AList.update k v ps)" using update_subset [of k v ps] by (auto simp: image_iff)
  with Cons show ?case by (simp split: prod.split)
qed auto

lemma install_ok:
  assumes ok: "plugins_ok b m" and run: "h \<in> fst ` set (pmRunning m)" and new: "h \<notin> (snd \<circ> snd) ` set (pmPlugins m)"
  shows "plugins_ok b (install b info cmds h m)"
proof -
  let ?ps = "AList.update (piName info) (info, h) (pmPlugins m)"
  from ok have d: "distinct (map fst (pmPlugins m))" by (simp add: plugins_ok_def processes_ok_def)
  have names: "fst ` set ?ps = insert (piName info) (fst ` set (pmPlugins m))"
    by (auto simp: set_update [OF d] image_iff)
  have "commands_ok b (fst ` set ?ps) (registerPluginCommands b (piName info) cmds (pmCommands m))"
    unfolding names by (rule commands_register [OF commands_mono]) (use ok in \<open>auto simp: plugins_ok_def\<close>)
  moreover have "distinct (map fst ?ps)" using d by (rule distinct_update)
  moreover have "distinct (map (snd \<circ> snd) ?ps)"
    by (rule update_distinct) (use ok new in \<open>simp_all add: plugins_ok_def processes_ok_def\<close>)
  moreover have "list_all (\<lambda>(n, i, h'). piName i = n \<and> h' \<in> fst ` set (pmRunning m)) ?ps"
    using ok run by (auto simp: plugins_ok_def processes_ok_def list_all_iff set_update [OF d])
  ultimately show ?thesis
    using ok by (simp add: plugins_ok_def processes_ok_def install_def emitLifecycle_def)
qed

lemma load_ok: "plugins_ok b m \<Longrightarrow> plugins_ok b (snd (loadPlugin b env info m))"
proof -
  assume ok: "plugins_ok b m"
  let ?m = "m\<lparr>pmRunning := pmRunning m @ [(pmNext m, piName info)], pmNext := Suc (pmNext m)\<rparr>"
  have ok': "plugins_ok b ?m" using ok by (rule start_ok)
  have new: "pmNext m \<notin> (snd \<circ> snd) ` set (pmPlugins m)" using handles_of_ok [OF ok] by blast
  have "plugins_ok b (close_process (pmNext m) ?m)" by (rule close_keeps [OF ok']) (use new in simp)
  moreover have "plugins_ok b (install b i cmds (pmNext m) (store_schema n s ?m))" for i cmds n s
    by (rule install_ok) (use ok' new in \<open>simp_all add: ok_cong [of "store_schema n s ?m" ?m]\<close>)
  moreover have "plugins_ok b (install b i cmds (pmNext m) ?m)" for i cmds
    by (rule install_ok [OF ok']) (use new in simp_all)
  ultimately have "plugins_ok b (snd (initialized b info reply (pmNext m) ?m))" for reply
    by (simp add: initialized_def Let_def split: init_reply.split)
  with ok show ?thesis by (simp add: loadPlugin_def)
qed

lemma DiscoverAndLoad_ok: "plugins_ok b m \<Longrightarrow> plugins_ok b (snd (DiscoverAndLoad b env m))"
proof -
  assume ok: "plugins_ok b m"
  have "plugins_ok b (fold (\<lambda>info m. let info = f info in if piEnabled info then snd (loadPlugin b env info m) else m) ps m)"
    if "plugins_ok b m" for f ps m
    using that by (induction ps arbitrary: m) (simp_all add: Let_def load_ok)
  note loads = this
  show ?thesis
    by (cases "peDiscovered env") (use ok in \<open>simp_all add: DiscoverAndLoad_def loads [unfolded Let_def] Let_def\<close>)
qed

lemma db_ok [simp]: "plugins_ok b (m\<lparr>pmDB := db\<rparr>) = plugins_ok b m"
  by (rule ok_cong) simp_all

lemma ReloadPlugin_ok: "plugins_ok b m \<Longrightarrow> plugins_ok b (snd (ReloadPlugin b env name m))"
  by (simp add: ReloadPlugin_def Let_def load_ok UnloadPlugin_ok split: option.split)

lemma SetPluginEnabled_ok:
  assumes "plugins_ok b m" shows "plugins_ok b (snd (SetPluginEnabled b env name en m))"
proof -
  have load: "plugins_ok b m'" if "loadPlugin b env info (m\<lparr>pmDB := db\<rparr>) = (ok, m')" for info db ok m'
    using load_ok [of b "m\<lparr>pmDB := db\<rparr>" env info] assms that by simp
  have un: "plugins_ok b (unload name h (m\<lparr>pmDB := db\<rparr>))" if "map_of (pmPlugins m) name = Some (info, h)" for db info h
    by (rule unload_ok) (use assms that in simp_all)
  show ?thesis
    using assms by (auto simp: SetPluginEnabled_def Let_def intro: load un split: option.split prod.split bool.split)
qed

lemma GetPluginMetadata_ok: "plugins_ok b m \<Longrightarrow> plugins_ok b (snd (GetPluginMetadata env info m))"
  by (simp add: GetPluginMetadata_def fetch_metadata_def fetched_def ok_cong [of "store_schema n s m" m for n s]
      split: option.split init_reply.split prod.split)

lemma ListPlugins_ok: "plugins_ok b m \<Longrightarrow> plugins_ok b (snd (ListPlugins env m))"
proof -
  assume ok: "plugins_ok b m"
  have entry: "plugins_ok b (snd (list_entry env configs loaded info m))" if "plugins_ok b m" for configs loaded info m
    using GetPluginMetadata_ok [OF that, of env info] that
    by (auto simp: list_entry_def Let_def split: option.split prod.split)
  have "plugins_ok b (snd (fold (\<lambda>info (out, m). case list_entry env configs loaded info m of (i, m) \<Rightarrow> (out @ [i], m)) ps (out, m)))"
    if "plugins_ok b m" for configs loaded ps out m
    using that
  proof (induction ps arbitrary: out m)
    case (Cons info ps)
    obtain i m' where e: "list_entry env configs loaded info m = (i, m')" by (cases "list_entry env configs loaded info m")
    with entry [OF Cons.prems, of configs loaded info] have "plugins_ok b m'" by simp
    with Cons.IH [of m' "out @ [i]"] e show ?case by simp
  qed simp
  with ok show ?thesis by (simp add: ListPlugins_def Let_def split: option.split)
qed

lemma plugin_step_ok: "plugins_ok b m \<Longrightarrow> plugins_ok b (plugin_step b op m)"
  by (cases op)
    (simp_all add: DiscoverAndLoad_ok load_ok UnloadPlugin_ok ReloadPlugin_ok SetPluginEnabled_ok GetPluginMetadata_ok ListPlugins_ok
      EnqueueAction_def write_metadata_def ok_cong [of "m\<lparr>pmActions := a\<rparr>" m for a] ok_cong [of "m\<lparr>pmRegistry := r\<rparr>" m for r]
      split: option.split)


section \<open>Frames\<close>

fun frame_updates :: "('e, 'u) frame \<Rightarrow> 'u list" where
  "frame_updates (Whole e) = []"
| "frame_updates (Updates e us) = us"
| "frame_updates (Chunk e us i n) = us"

lemma chunk_updates_concat:
  "chunk_updates us len e out current = Some cs \<Longrightarrow> concat cs = concat out @ current @ us"
  by (induction us arbitrary: out current) (auto split: if_splits)

lemma chunk_updates_nonempty:
  "chunk_updates us len e out current = Some cs \<Longrightarrow> [] \<notin> set out \<Longrightarrow> [] \<notin> set cs"
  by (induction us arbitrary: out current) (auto split: if_splits)

lemma chunk_updates_total:
  assumes "list_all (\<lambda>u. len (Updates e [u]) \<le> maxFrame - pluginEventChunkOverhead) us"
  shows "\<exists>cs. chunk_updates us len e out current = Some cs"
  using assms by (induction us arbitrary: out current) (auto simp del: append_eq_append_conv)

lemma frames_updates:
  "concat (map frame_updates (map (\<lambda>i. Chunk e (cs ! i) (Suc i) n) [0..<length cs])) = concat cs"
  by (simp add: comp_def map_nth)

text \<open>C34: the frames of an event too large for one frame carry exactly its updates, in order and none twice, no
  frame is empty, they are numbered from 1, and none is over 48 KiB as it is sent; an event that fits is
  sent as it is.\<close>

theorem event_frames_keep_updates:
  assumes "pluginEventNotifications len e (Some us) = Some frames"
  shows "list_all (\<lambda>f. len f \<le> maxFrame) frames \<and>
    (if len (Whole e) \<le> maxFrame then frames = [Whole e]
     else \<exists>cs. frames = map (\<lambda>i. Chunk e (cs ! i) (Suc i) (length cs)) [0..<length cs] \<and> [] \<notin> set cs
       \<and> concat (map frame_updates frames) = us)"
proof (cases "len (Whole e) \<le> maxFrame")
  case True
  with assms show ?thesis by (auto simp: pluginEventNotifications_def)
next
  case False
  with assms obtain cs where cs: "chunk_updates us len e [] [] = Some cs"
      "frames = map (\<lambda>i. Chunk e (cs ! i) (Suc i) (length cs)) [0..<length cs]"
      "list_all (\<lambda>f. len f \<le> maxFrame) frames"
    by (auto simp: pluginEventNotifications_def Let_def split: if_splits option.splits)
  have "concat (map frame_updates frames) = us"
    unfolding cs(2) frames_updates using chunk_updates_concat [OF cs(1)] by simp
  moreover have "[] \<notin> set cs" using chunk_updates_nonempty [OF cs(1)] by simp
  ultimately show ?thesis using False cs(2,3) by auto
qed

lemma event_frames_keep_updates_witness:
  "concat (map frame_updates [Chunk () [1, 2::nat] 1 2, Chunk () [3] 2 2]) = [1, 2, 3]"
proof -
  define len :: "(unit, nat) frame \<Rightarrow> nat" where
    "len f = (case f of Whole _ \<Rightarrow> 60000 | Updates _ us \<Rightarrow> 20000 * length us | Chunk _ us _ _ \<Rightarrow> 20000 * length us + 40)" for f
  have "pluginEventNotifications len () (Some [1, 2, 3]) = Some [Chunk () [1, 2] 1 2, Chunk () [3] 2 2]"
    by (simp add: pluginEventNotifications_def len_def maxFrame_def pluginEventChunkOverhead_def upt_rec)
  from event_frames_keep_updates [OF this] show ?thesis by (simp add: len_def maxFrame_def)
qed

section \<open>A plugin that renames itself\<close>

lemma find_name: "List.find (\<lambda>p. piName p = n) ps = Some info \<Longrightarrow> piName info = n"
  by (induction ps) (auto split: if_splits)

text \<open>C33: a plugin discovered under one name that answers \<open>initialize\<close> with another is registered under the other,
  so disabling the name the user sees reports success and leaves its process running, registered and
  subscribed; and what it has written to the metadata, filed under the name its connection was made with, stays
  when the name it is registered under is unloaded.\<close>

theorem renamed_plugin_survives_disable:
  assumes "discovered name env = Some info" "peValid env (piPath info)" "peStarts env (piPath info)"
    and "peInit env (piPath info) = InitOk r" "irName r \<noteq> []" "irName r \<noteq> name" "pdOpen (pmDB m)"
    and "map_of (pmPlugins m) name = None" "pmNext m \<notin> fst ` set (pmRunning m)"
  shows "let h = pmNext m;
      on = SetPluginEnabled b env name True m;
      off = SetPluginEnabled b env name False (snd on);
      gone = snd (UnloadPlugin (irName r) (write_metadata h u now (snd on)))
    in fst on \<and> fst off \<and> (h, name) \<in> set (pmRunning (snd off))
      \<and> map_option snd (map_of (pmPlugins (snd off)) (irName r)) = Some h
      \<and> (''*'' \<in> set (irEvents r) \<longrightarrow> h \<in> set (receivers ''message.received'' (snd off)))
      \<and> (pmRegistry m (update_place u) = None \<longrightarrow> pmRegistry gone (update_place u) = Some (update_entry name u now))"
proof -
  let ?db = "snd (StoreEnabled name True (pmDB m))" and ?h = "pmNext m"
  let ?i = "with_result (info\<lparr>piEnabled := True\<rparr>) r"
  let ?m = "m\<lparr>pmDB := ?db, pmRunning := pmRunning m @ [(?h, name)], pmNext := Suc ?h\<rparr>"
  let ?on = "install b ?i (irCommands r) ?h (store_schema (irName r) (irSchema r) ?m)"
  have n: "piName info = name" using assms(1) by (auto simp: discovered_def dest: find_name split: option.splits)
  have i: "piName ?i = irName r" "piEvents ?i = irEvents r" using assms(5) by (simp_all add: with_result_def)
  have on: "SetPluginEnabled b env name True m = (True, ?on)"
    using assms i(1)
    by (simp add: SetPluginEnabled_def GetPluginConfig_def StoreEnabled_def loadPlugin_def initialized_def Let_def n)
  have open_db: "pdOpen (pmDB ?on)"
    using assms(7) by (simp add: install_def emitLifecycle_def store_schema_def SetPluginConfigSchema_def StoreEnabled_def split: option.split)
  have gone: "map_of (pmPlugins ?on) name = None"
    using assms(6,8) i(1) by (simp add: install_def emitLifecycle_def update_conv')
  let ?off = "?on\<lparr>pmDB := snd (StoreEnabled name False (pmDB ?on))\<rparr>"
  have off: "SetPluginEnabled b env name False ?on = (True, ?off)"
    using open_db gone by (simp add: SetPluginEnabled_def GetPluginConfig_def StoreEnabled_def Let_def)
  have fresh: "map_of (pmRunning m) ?h = None" using assms(9) by (simp add: map_of_eq_None_iff)
  have reg: "map_of (pmPlugins ?on) (irName r) = Some (?i, ?h)" "map_of (pmRunning ?on) ?h = Some name"
    "(?h, name) \<in> set (pmRunning ?on)" "pmRegistry ?on = pmRegistry m"
    using i(1) fresh by (simp_all add: install_def emitLifecycle_def update_conv' map_add_def)
  have heard: "?h \<in> set (receivers ty ?off)" if "''*'' \<in> set (irEvents r)" for ty
    using map_of_SomeD [OF reg(1)] that i(2)
    by (force simp: receivers_def subscribed_def list_ex_iff)
  show ?thesis
    using reg heard assms(6)
    by (simp add: Let_def on off write_metadata_def UnloadPlugin_def unload_def close_process_def emitLifecycle_def
        ClearPluginMetadata_def setMetadataLocked_def update_entry_def)
qed

lemma renamed_plugin_survives_disable_witness:
  "\<exists>m :: plugin_manager. (0, ''echo'') \<in> set (pmRunning m) \<and> map_option snd (map_of (pmPlugins m) ''relay'') = Some 0"
proof -
  define r where "r = empty_result\<lparr>irName := ''relay'', irEvents := [''*'']\<rparr>"
  define info where "info = \<lparr>piName = ''echo'', piVersion = [], piDescription = [], piAuthor = [], piEvents = [],
    piMetadataTypes = [], piSchema = None, piCommands = [], piPath = ''/p/cascade-echo'', piEnabled = True\<rparr>"
  define env where "env = \<lparr>peDiscovered = Some [info], peValid = (\<lambda>_. True), peStarts = (\<lambda>_. True), peInit = (\<lambda>_. InitOk r)\<rparr>"
  define m where "m = NewManager \<lparr>pdOpen = True, pdRows = Map.empty\<rparr>"
  have "pmNext m = 0" by (simp add: m_def NewManager_def)
  moreover have "discovered ''echo'' env = Some info" "irName r = ''relay''"
    by (simp_all add: env_def discovered_def info_def r_def)
  ultimately show ?thesis
    using renamed_plugin_survives_disable [of "''echo''" env info r m "\<lambda>_. False" undefined 0]
    by (force simp: env_def m_def NewManager_def Let_def)
qed

section \<open>The lock held over an emit\<close>

lemma lock_run_simps [simp]:
  "lock_run [] s = s" "lock_run (op # ops) s = lock_run ops (lock_step op s)"
  "lock_run (ops @ ops') s = lock_run ops' (lock_run ops s)"
  by (simp_all add: lock_run_def)

text \<open>A stuck bus: the loader waits for room, the dispatcher for the lock.\<close>

definition stuck :: "('d, 's) locked_bus \<Rightarrow> bool" where
  "stuck s \<longleftrightarrow> lbLoader s = EmittingLoaded \<and> lbDelivering s \<noteq> None \<and> eventQueueSize \<le> length (bQueue (lbBus s)) \<and> \<not> bClosed (lbBus s)"

lemma stuck_Emit: "stuck s \<Longrightarrow> Emit e (lbBus s) = None"
  by (simp add: stuck_def Emit_def enqueue_event_def)

lemma stuck_step:
  assumes "stuck s" "op \<noteq> CloseBus"
  shows "stuck (lock_step op s) \<and> bQueue (lbBus (lock_step op s)) = bQueue (lbBus s) \<and> bOut (lbBus (lock_step op s)) = bOut (lbBus s)"
proof -
  from assms(1) have "lbLoader s = EmittingLoaded" "lbDelivering s \<noteq> None" by (simp_all add: stuck_def)
  with assms show ?thesis
    by (cases op) (auto simp: stuck_Emit, auto simp: stuck_def EmitLatest_def Let_def)
qed

lemma stuck_run:
  "stuck s \<Longrightarrow> list_all (\<lambda>op. op \<noteq> CloseBus) ops \<Longrightarrow>
   stuck (lock_run ops s) \<and> bQueue (lbBus (lock_run ops s)) = bQueue (lbBus s) \<and> bOut (lbBus (lock_run ops s)) = bOut (lbBus s)"
proof (induction ops arbitrary: s)
  case (Cons op ops)
  then show ?case using stuck_step [of s op] Cons.IH [of "lock_step op s"] by simp
qed simp

text \<open>Filling the queue behind an event the dispatcher has taken.\<close>

lemma publish_fills:
  assumes "\<not> bClosed (lbBus s)" "length (bQueue (lbBus s)) + n \<le> eventQueueSize"
  shows "let s' = lock_run (replicate n (Publish e)) s
    in length (bQueue (lbBus s')) = length (bQueue (lbBus s)) + n \<and> \<not> bClosed (lbBus s')
      \<and> lbLoader s' = lbLoader s \<and> lbDelivering s' = lbDelivering s"
  using assms
proof (induction n arbitrary: s)
  case (Suc n)
  let ?s = "s\<lparr>lbBus := (lbBus s)\<lparr>bQueue := bQueue (lbBus s) @ [e]\<rparr>\<rparr>"
  have "lock_step (Publish e) s = ?s" using Suc.prems by (simp add: Emit_def enqueue_event_def)
  with Suc.IH [of ?s] Suc.prems show ?case by (simp add: Let_def)
qed simp

definition jam :: "'d Event \<Rightarrow> 'd lock_op list" where
  "jam e = [BeginLoad, Publish e, DispatchNext, Initialized] @ replicate eventQueueSize (Publish e)"

lemma jam_stuck:
  fixes e :: "'d Event" and manager :: 's
  shows "stuck (lock_run (jam e) (quiet_bus manager))"
proof -
  define b :: "('d, 's) EventBus" where "b = Subscribe ''*'' manager NewEventBus"
  have b: "bQueue b = []" "\<not> bClosed b" by (simp_all add: b_def Subscribe_def NewEventBus_def)
  define s where "s = \<lparr>lbBus = b, lbLoader = EmittingLoaded, lbDelivering = Some e\<rparr>"
  have "b\<lparr>bQueue := []\<rparr> = b" using b(1) by simp
  then have "lock_run [BeginLoad, Publish e, DispatchNext, Initialized] (quiet_bus manager) = s"
    using b by (simp add: quiet_bus_def s_def Emit_def enqueue_event_def eventQueueSize_def next_event_def dequeue_event_def flip: b_def)
  moreover have "stuck (lock_run (replicate eventQueueSize (Publish e)) s)"
    using publish_fills [of s eventQueueSize e] b by (simp add: s_def stuck_def Let_def)
  ultimately show ?thesis by (simp add: jam_def del: replicate.simps)
qed

text \<open>C32: 1,025 events published while a plugin is being initialized jam the bus: the loader holds the manager's lock and
  waits for room to publish \<open>plugin.lifecycle\<close>, the dispatcher waits for the lock to deliver the first
  event, and whatever is done from then on, short of closing the bus, no event is delivered, none is taken
  off the queue and the loader does not let go. Closing the bus frees the loader.\<close>

theorem plugin_load_deadlocks:
  assumes "list_all (\<lambda>op. op \<noteq> CloseBus) ops"
  shows "let s = lock_run (jam e) (quiet_bus manager); s' = lock_run ops s; freed = lock_run [CloseBus, EmitLoaded e, TakeLock] s'
    in lbLoader s' = EmittingLoaded \<and> lbDelivering s' \<noteq> None \<and> bQueue (lbBus s') = bQueue (lbBus s) \<and> bOut (lbBus s') = bOut (lbBus s)
      \<and> lbLoader freed = NotLoading \<and> lbDelivering freed = None"
proof -
  define s where "s = lock_run ops (lock_run (jam e) (quiet_bus manager))"
  from stuck_run [OF jam_stuck assms, of e manager] have st: "stuck s" by (simp add: s_def)
  then have "Emit e (Close (lbBus s)) = Some (Close (lbBus s))" by (simp add: Emit_def Close_def)
  with st stuck_run [OF jam_stuck assms, of e manager] show ?thesis
    by (auto simp: Let_def stuck_def simp flip: s_def)
qed

lemma plugin_load_deadlocks_witness:
  "let s = lock_run (jam \<lparr>eType = ''a'', eData = ()\<rparr>) (quiet_bus ())
   in bOut (lbBus (lock_run [TakeLock, DispatchNext, BeginLoad, TakeLock] s)) = bOut (lbBus s)"
  using plugin_load_deadlocks [of "[TakeLock, DispatchNext, BeginLoad, TakeLock]" "\<lparr>eType = ''a'', eData = ()\<rparr>" "()"]
  by (simp add: Let_def del: lock_run_simps)

end
