(* ===== verification/Scripts.thy ===== *)
theory Scripts
  imports Extensions Network_Config
begin

text \<open>
  User scripts: the events and queries of the SDK (\<open>cascade/events.go\<close>), the manifest
  (\<open>internal/script/manifest.go\<close>) and the manager (\<open>internal/script/manager.go\<close>) with the timers of
  \<open>scheduler.go\<close>, over the registry and the watchdog of \<open>Extensions\<close>. The interpreter is a parameter: a
  directory has the code that loading it gives, or an error; what \<open>Setup\<close> registers and whether it panics
  is part of the code; how a handler or a timer's function ends is an argument of the step that runs it.
\<close>

section \<open>The SDK\<close>

definition isWordByte :: "char \<Rightarrow> bool" where
  "isWordByte c \<longleftrightarrow> c = CHR ''_'' \<or> 97 \<le> byte c \<and> byte c \<le> 122 \<or> 48 \<le> byte c \<and> byte c \<le> 57"

text \<open>\<open>containsWord\<close>; \<open>left\<close> is the byte before the rest of the text, if there is one.\<close>

definition word_ends :: "string \<Rightarrow> bool" where
  "word_ends s = (case s of [] \<Rightarrow> True | c # _ \<Rightarrow> \<not> isWordByte c)"

fun word_from :: "char option \<Rightarrow> string \<Rightarrow> string \<Rightarrow> bool" where
  "word_from left [] w = False"
| "word_from left (c # s) w =
     (if has_prefix (c # s) w \<and> (left = None \<or> \<not> isWordByte (the left)) \<and> word_ends (drop (length w) (c # s)) then True
      else word_from (Some c) s w)"

definition containsWord :: "string \<Rightarrow> string \<Rightarrow> bool" where
  "containsWord s w = (if w = [] then False else word_from None s w)"

definition IsHighlight :: "string \<Rightarrow> string \<Rightarrow> bool" where
  "IsHighlight self message = (if self = [] then False else containsWord (to_lower message) (to_lower self))"

definition script_arg :: "string \<Rightarrow> int \<Rightarrow> string" where
  "script_arg message n = (let f = str_fields message in if n < 1 \<or> int (length f) < n then [] else f ! nat (n - 1))"

definition plain_channel :: "string \<Rightarrow> bool" where
  "plain_channel t = (case t of [] \<Rightarrow> False | c # _ \<Rightarrow> c = CHR ''#'' \<or> c = CHR ''&'')"

section \<open>Building the event of a script\<close>

record UserStatus =
  usKnown :: bool
  usAway :: bool
  usAwayMessage :: string
  usAccount :: string
  usHost :: string
  usRealname :: string

text \<open>The queries the application offers; any of them may be missing.\<close>

record script_host =
  shSelfNick :: "(int \<Rightarrow> string) option"
  shIsMe :: "(int \<Rightarrow> string \<Rightarrow> bool) option"
  shUserStatus :: "(int \<Rightarrow> string \<Rightarrow> UserStatus) option"
  shIsChannel :: "(int \<Rightarrow> string \<Rightarrow> bool) option"

record ev_context =
  cxSelf :: string
  cxAccount :: string
  cxNetwork :: string
  cxHost :: string
  cxRealname :: string
  cxMsgID :: string
  cxTime :: int

text \<open>\<open>reply\<close> is the network and the target a call of \<open>Reply\<close> sends to.\<close>

datatype script_event =
    TextEvent (evNick: string) string string bool bool "int \<times> string" ev_context
  | NoticeEvent (evNick: string) string string bool "int \<times> string" ev_context
  | JoinEvent (evNick: string) string "int \<times> string" ev_context
  | PartEvent (evNick: string) string string "int \<times> string" ev_context
  | QuitEvent (evNick: string) string ev_context
  | KickEvent (evNick: string) string string string "int \<times> string" ev_context
  | NickEvent string (evNick: string) ev_context
  | UserStatusEvent (evNick: string) string string UserStatus int bool

type_synonym script_data = "string \<rightharpoonup> event_value"

definition str_at :: "script_data \<Rightarrow> string \<Rightarrow> string" where
  "str_at data k = (case data k of Some (TextValue t) \<Rightarrow> t | _ \<Rightarrow> [])"

definition int_at :: "script_data \<Rightarrow> string \<Rightarrow> int" where
  "int_at data k = (case data k of Some (IntValue i) \<Rightarrow> i | _ \<Rightarrow> 0)"

definition bool_at :: "script_data \<Rightarrow> string \<Rightarrow> bool" where
  "bool_at data k = (case data k of Some (BoolValue b) \<Rightarrow> b | _ \<Rightarrow> False)"

definition is_self :: "script_host \<Rightarrow> int \<Rightarrow> string \<Rightarrow> bool" where
  "is_self h net nick = (case shSelfNick h of Some f \<Rightarrow> nick = f net | None \<Rightarrow> False)"

definition is_me :: "script_host \<Rightarrow> int \<Rightarrow> string \<Rightarrow> bool" where
  "is_me h net nick = (case shIsMe h of Some f \<Rightarrow> f net nick | None \<Rightarrow> False)"

definition self_nick :: "script_host \<Rightarrow> int \<Rightarrow> string" where
  "self_nick h net = (case shSelfNick h of Some f \<Rightarrow> f net | None \<Rightarrow> [])"

definition script_isChannel :: "script_host \<Rightarrow> int \<Rightarrow> string \<Rightarrow> bool" where
  "script_isChannel h net target = (case shIsChannel h of Some f \<Rightarrow> f net target | None \<Rightarrow> plain_channel target)"

definition replyTo :: "script_host \<Rightarrow> int \<Rightarrow> string \<Rightarrow> string \<Rightarrow> int \<times> string" where
  "replyTo h net channel nick = (net, if script_isChannel h net channel then channel else nick)"

definition msgFields :: "script_host \<Rightarrow> script_data \<Rightarrow> (string \<times> string \<times> string \<times> int) option" where
  "msgFields h data =
     (let nick = str_at data ''user''; net = int_at data ''networkId''
      in if nick = [] \<or> nick = ''*'' then None
         else if is_self h net nick then None
         else Some (nick, str_at data ''channel'', str_at data ''message'', net))"

definition applyContext :: "script_host \<Rightarrow> script_data \<Rightarrow> int \<Rightarrow> ev_context" where
  "applyContext h data net = \<lparr>cxSelf = self_nick h net, cxAccount = str_at data ''account'', cxNetwork = str_at data ''networkName'',
     cxHost = [], cxRealname = [], cxMsgID = str_at data ''msgid'', cxTime = int_at data ''messageUnix''\<rparr>"

definition buildTextEvent :: "script_host \<Rightarrow> script_data \<Rightarrow> script_event option" where
  "buildTextEvent h data = (case msgFields h data of None \<Rightarrow> None
     | Some (nick, channel, message, net) \<Rightarrow> Some (TextEvent nick channel message (\<not> script_isChannel h net channel)
         (bool_at data ''isAction'') (replyTo h net channel nick) (applyContext h data net)))"

definition buildNoticeEvent :: "script_host \<Rightarrow> script_data \<Rightarrow> script_event option" where
  "buildNoticeEvent h data = (case msgFields h data of None \<Rightarrow> None
     | Some (nick, channel, message, net) \<Rightarrow> Some (NoticeEvent nick channel message (\<not> script_isChannel h net channel)
         (replyTo h net channel nick) (applyContext h data net)))"

text \<open>A field of the event wins over what the application knows of the user. The time is \<open>None\<close> when unset.\<close>

definition data_or :: "script_data \<Rightarrow> string \<Rightarrow> string \<Rightarrow> string" where
  "data_or data k d = (case data k of Some (TextValue t) \<Rightarrow> t | _ \<Rightarrow> d)"

definition network_of :: "script_data \<Rightarrow> string" where
  "network_of data = (let n = str_at data ''networkName'' in if n = [] then str_at data ''network'' else n)"

definition unix_of :: "int option \<Rightarrow> int" where
  "unix_of ts = (case ts of None \<Rightarrow> 0 | Some t \<Rightarrow> t div 10 ^ 9)"

definition applyMembershipContext :: "script_host \<Rightarrow> script_data \<Rightarrow> int option \<Rightarrow> int \<Rightarrow> string \<Rightarrow> ev_context" where
  "applyMembershipContext h data ts net nick =
     (let (account, host, realname) = (case shUserStatus h of None \<Rightarrow> ([], [], [])
            | Some f \<Rightarrow> (usAccount (f net nick), usHost (f net nick), usRealname (f net nick)))
      in \<lparr>cxSelf = self_nick h net, cxAccount = data_or data ''account'' account, cxNetwork = network_of data,
          cxHost = data_or data ''host'' host, cxRealname = data_or data ''realname'' realname, cxMsgID = [],
          cxTime = unix_of ts\<rparr>)"

definition buildJoinEvent :: "script_host \<Rightarrow> script_data \<Rightarrow> int option \<Rightarrow> script_event option" where
  "buildJoinEvent h data ts =
     (let nick = str_at data ''user''; channel = str_at data ''channel''; net = int_at data ''networkId''
      in if nick = [] \<or> nick = ''*'' \<or> is_self h net nick then None
         else Some (JoinEvent nick channel (replyTo h net channel nick) (applyMembershipContext h data ts net nick)))"

definition buildPartEvent :: "script_host \<Rightarrow> script_data \<Rightarrow> int option \<Rightarrow> script_event option" where
  "buildPartEvent h data ts =
     (let nick = str_at data ''user''; channel = str_at data ''channel''; net = int_at data ''networkId''
      in if nick = [] \<or> nick = ''*'' \<or> is_self h net nick then None
         else Some (PartEvent nick channel (str_at data ''reason'') (replyTo h net channel nick)
                (applyMembershipContext h data ts net nick)))"

definition buildQuitEvent :: "script_host \<Rightarrow> script_data \<Rightarrow> int option \<Rightarrow> script_event option" where
  "buildQuitEvent h data ts =
     (let nick = str_at data ''user''; net = int_at data ''networkId''
      in if nick = [] \<or> nick = ''*'' \<or> is_me h net nick then None
         else Some (QuitEvent nick (str_at data ''reason'') (applyMembershipContext h data ts net nick)))"

text \<open>No host and real name in the context of a kick or a change of nick.\<close>

definition buildKickEvent :: "script_host \<Rightarrow> script_data \<Rightarrow> int option \<Rightarrow> script_event option" where
  "buildKickEvent h data ts =
     (let nick = str_at data ''user''; by = str_at data ''kicker''; channel = str_at data ''channel''; net = int_at data ''networkId''
      in if nick = [] \<or> channel = [] then None
         else Some (KickEvent nick by channel (str_at data ''reason'') (replyTo h net channel by)
                ((applyMembershipContext h data ts net by)\<lparr>cxHost := [], cxRealname := []\<rparr>)))"

definition buildNickEvent :: "script_host \<Rightarrow> script_data \<Rightarrow> int option \<Rightarrow> script_event option" where
  "buildNickEvent h data ts =
     (let old = str_at data ''oldNick''; new = str_at data ''newNick''; net = int_at data ''networkId''
      in if old = [] \<or> new = [] then None
         else Some (NickEvent old new ((applyMembershipContext h data ts net new)\<lparr>cxHost := [], cxRealname := []\<rparr>)))"

definition buildUserStatusEvent :: "script_host \<Rightarrow> script_data \<Rightarrow> int option \<Rightarrow> script_event option" where
  "buildUserStatusEvent h data ts =
     (let nick = str_at data ''nickname''; net = int_at data ''networkId''
      in if nick = [] then None
         else Some (UserStatusEvent nick (network_of data) (self_nick h net)
           \<lparr>usKnown = True, usAway = bool_at data ''away'', usAwayMessage = str_at data ''away_message'', usAccount = str_at data ''account'',
            usHost = str_at data ''host'', usRealname = str_at data ''realname''\<rparr> (unix_of ts) (is_me h net nick)))"

text \<open>The handler an event goes to, and the event; \<open>None\<close> where delivery is suppressed.\<close>

definition translate :: "script_host \<Rightarrow> string \<Rightarrow> script_data \<Rightarrow> int option \<Rightarrow> (string \<times> script_event) option" where
  "translate h ty data ts =
     (if ty = ''message.received''
      then if str_at data ''messageType'' = ''notice'' then map_option (Pair ''OnNotice'') (buildNoticeEvent h data)
           else map_option (Pair ''OnText'') (buildTextEvent h data)
      else if ty = ''user.joined'' then map_option (Pair ''OnJoin'') (buildJoinEvent h data ts)
      else if ty = ''user.parted'' then map_option (Pair ''OnPart'') (buildPartEvent h data ts)
      else if ty = ''user.quit'' then map_option (Pair ''OnQuit'') (buildQuitEvent h data ts)
      else if ty = ''user.kicked'' then map_option (Pair ''OnKick'') (buildKickEvent h data ts)
      else if ty = ''user.nick'' then map_option (Pair ''OnNick'') (buildNickEvent h data ts)
      else if ty = ''user.meta'' \<or> ty = ''self.status'' then map_option (Pair ''OnUserStatus'') (buildUserStatusEvent h data ts)
      else None)"

section \<open>The manifest\<close>

record Manifest =
  mfName :: string
  mfDescription :: string
  mfPermissions :: "string list option"

definition manifest_line :: "string \<Rightarrow> (string \<times> string) option" where
  "manifest_line raw =
     (let line = trim_space raw
      in if \<not> has_prefix line ''//'' then None
         else let rest = trim_space (trim_prefix line ''//'')
              in if \<not> has_prefix rest ''cascade:'' then None
                 else case cut_byte (CHR '' '') (trim_prefix rest ''cascade:'') of (key, val, _) \<Rightarrow> Some (trim_space key, trim_space val))"

text \<open>A list that stays empty is nil, so a later line may still set it.\<close>

definition add_manifest :: "string \<Rightarrow> Manifest \<Rightarrow> Manifest" where
  "add_manifest raw m = (case manifest_line raw of None \<Rightarrow> m
     | Some (key, val) \<Rightarrow>
         if key = ''name'' then (if mfName m = [] then m\<lparr>mfName := val\<rparr> else m)
         else if key = ''description'' then (if mfDescription m = [] then m\<lparr>mfDescription := val\<rparr> else m)
         else if key = ''permissions''
         then (if mfPermissions m = None
               then (case filter (\<lambda>p. p \<noteq> []) (map trim_space (split_byte (CHR '','') val)) of
                   [] \<Rightarrow> m | ps \<Rightarrow> m\<lparr>mfPermissions := Some ps\<rparr>)
               else m)
         else m)"

definition parseManifest :: "string list list \<Rightarrow> Manifest" where
  "parseManifest files = fold add_manifest (concat files) \<lparr>mfName = [], mfDescription = [], mfPermissions = None\<rparr>"

end
