(* ===== verification/Script_Manager.thy ===== *)
theory Script_Manager
  imports Scripts
begin

text \<open>
  The script manager, \<open>internal/script/manager.go\<close> and the timers of \<open>scheduler.go\<close>: loading and hot reload,
  enabling, the delivery of an event through the router and the watchdog, and the ticks of timers. What is
  on disk is part of the state; the interpreter is the code a directory loads to.
\<close>

section \<open>State\<close>

datatype timer_kind = Every | After

text \<open>\<open>pcTimers\<close> is what \<open>Setup\<close> registers before it ends, with whether the interval is a duration.\<close>

record package_code =
  pcHandlers :: "string list"
  pcTimers :: "(timer_kind \<times> bool) list"
  pcSetupOk :: bool

record script_dir =
  sdFiles :: "string list list"
  sdPackage :: "string + package_code"

datatype script_out = RanSetup string | Called string string script_event | Ticked string nat | ToldHost

record script_manager =
  smReg :: "unit Registry"
  smScripts :: "string \<rightharpoonup> package_code"
  smSched :: scheduler
  smKinds :: "nat \<rightharpoonup> timer_kind"
  smFired :: "nat set"
  smStrikes :: "string \<rightharpoonup> nat"
  smDisk :: "string \<rightharpoonup> script_dir"
  smDisabled :: "string set"
  smOut :: "script_out list"

definition defaultMaxStrikes :: nat where "defaultMaxStrikes = 3"

definition new_scripts :: "(string \<rightharpoonup> script_dir) \<Rightarrow> string set \<Rightarrow> script_manager" where
  "new_scripts disk disabled = \<lparr>smReg = Map.empty, smScripts = Map.empty,
     smSched = \<lparr>scTimers = Map.empty, scStopped = {}, scNext = 0\<rparr>, smKinds = Map.empty, smFired = {}, smStrikes = Map.empty,
     smDisk = disk, smDisabled = disabled, smOut = []\<rparr>"

definition say_out :: "script_out \<Rightarrow> script_manager \<Rightarrow> script_manager" where "say_out x m = m\<lparr>smOut := smOut m @ [x]\<rparr>"

section \<open>Loading\<close>

definition Has :: "package_code \<Rightarrow> string \<Rightarrow> bool" where "Has p name \<longleftrightarrow> name \<in> set (pcHandlers p)"

text \<open>The event types a script is subscribed to.\<close>

definition subscriptions :: "package_code \<Rightarrow> string list" where
  "subscriptions p =
     (if Has p ''OnText'' \<or> Has p ''OnNotice'' then [''message.received''] else [])
   @ (if Has p ''OnJoin'' then [''user.joined''] else []) @ (if Has p ''OnPart'' then [''user.parted''] else [])
   @ (if Has p ''OnQuit'' then [''user.quit''] else []) @ (if Has p ''OnKick'' then [''user.kicked''] else [])
   @ (if Has p ''OnNick'' then [''user.nick''] else [])
   @ (if Has p ''OnUserStatus'' then [''user.meta'', ''self.status''] else [])"

text \<open>\<open>scheduleEvery\<close> and \<open>scheduleAfter\<close>: an interval that is no duration is ignored.\<close>

definition schedule :: "string \<Rightarrow> timer_kind \<times> bool \<Rightarrow> script_manager \<Rightarrow> script_manager" where
  "schedule i t m = (if \<not> snd t then m
     else case addTimer i (smSched m) of (n, sched) \<Rightarrow> m\<lparr>smSched := sched, smKinds := (smKinds m)(n \<mapsto> fst t)\<rparr>)"

definition RunSetup :: "string \<Rightarrow> package_code \<Rightarrow> script_manager \<Rightarrow> bool \<times> script_manager" where
  "RunSetup i p m = (if \<not> Has p ''Setup'' then (True, m)
     else (pcSetupOk p, fold (schedule i) (pcTimers p) (say_out (RanSetup i) m)))"

definition script_extension :: "string \<Rightarrow> Manifest \<Rightarrow> Extension" where
  "script_extension i man = \<lparr>xID = i, xName = (if mfName man = [] then i else mfName man), xDescription = mfDescription man,
     xKind = KindScript, xEnabled = True, xStatus = StatusLoaded,
     xPerms = (case mfPermissions man of Some ps \<Rightarrow> ps | None \<Rightarrow> []), xErr = []\<rparr>"

definition load_failed :: "string \<Rightarrow> Extension \<Rightarrow> string \<Rightarrow> script_manager \<Rightarrow> script_manager" where
  "load_failed i x err m = m\<lparr>smScripts := (smScripts m)(i := None),
     smReg := Register (x\<lparr>xStatus := StatusError, xErr := err\<rparr>) () [] (smReg m)\<rparr>"

definition dir_of :: "string \<Rightarrow> script_manager \<Rightarrow> script_dir" where
  "dir_of i m = (case smDisk m i of Some d \<Rightarrow> d | None \<Rightarrow> \<lparr>sdFiles = [], sdPackage = Inl ''no .go files''\<rparr>)"

definition loadDir :: "string \<Rightarrow> script_manager \<Rightarrow> script_manager" where
  "loadDir i m =
     (let d = dir_of i m; x = script_extension i (parseManifest (sdFiles d))
      in case sdPackage d of
           Inl err \<Rightarrow> load_failed i x err m
         | Inr p \<Rightarrow> (case RunSetup i p m of
               (False, m) \<Rightarrow> load_failed i x ''Setup: panic'' m
             | (True, m) \<Rightarrow> m\<lparr>smScripts := (smScripts m)(i \<mapsto> p), smReg := Register x () (subscriptions p) (smReg m)\<rparr>))"

definition stop_timers :: "string \<Rightarrow> script_manager \<Rightarrow> script_manager" where
  "stop_timers i m = m\<lparr>smSched := stopTimers i (smSched m)\<rparr>"

definition notify :: "script_manager \<Rightarrow> script_manager" where "notify = say_out ToldHost"

definition reload :: "string \<Rightarrow> script_manager \<Rightarrow> script_manager" where
  "reload i m = notify (loadDir i (stop_timers i m))"

definition unload_script :: "string \<Rightarrow> script_manager \<Rightarrow> script_manager" where
  "unload_script i m = (let m = stop_timers i m
     in notify (m\<lparr>smScripts := (smScripts m)(i := None), smReg := reg_remove i (smReg m)\<rparr>))"

definition Disable :: "string \<Rightarrow> script_manager \<Rightarrow> script_manager" where
  "Disable i m = (let m = stop_timers i m
     in notify (m\<lparr>smReg := SetEnabled i False (smReg m), smDisabled := insert i (smDisabled m)\<rparr>))"

definition Enable :: "string \<Rightarrow> script_manager \<Rightarrow> script_manager" where
  "Enable i m =
     (let m = m\<lparr>smReg := SetStatus i StatusLoaded [] (SetEnabled i True (smReg m)), smStrikes := clearStrikes i (smStrikes m)\<rparr>;
          m = stop_timers i m;
          m = (case smScripts m i of Some p \<Rightarrow> snd (RunSetup i p m) | None \<Rightarrow> m)
      in notify (m\<lparr>smDisabled := smDisabled m - {i}\<rparr>))"

text \<open>\<open>LoadAll\<close>: the directories in the order of the listing; the stored set is read before the first.\<close>

definition LoadAll :: "string list \<Rightarrow> script_manager \<Rightarrow> script_manager" where
  "LoadAll entries m = (let disabled = smDisabled m
     in fold (\<lambda>i m. if smDisk m i = None \<or> sdFiles (dir_of i m) = [] then m
          else let m = loadDir i m in if i \<in> disabled then Disable i m else m) entries m)"

text \<open>A change on disk: a new directory, or a change inside the directory of a script.\<close>

definition handleFSEvent :: "bool \<Rightarrow> string \<Rightarrow> script_manager \<Rightarrow> script_manager" where
  "handleFSEvent created i m =
     (if created \<and> smDisk m i \<noteq> None then notify (loadDir i m)
      else if smDisk m i = None then unload_script i m
      else if sdFiles (dir_of i m) \<noteq> [] then reload i m else m)"

definition close_scripts :: "script_manager \<Rightarrow> script_manager" where
  "close_scripts m = m\<lparr>smSched := stopAll (smSched m)\<rparr>"

definition safe_name :: "string \<Rightarrow> bool" where
  "safe_name name \<longleftrightarrow> name \<noteq> [] \<and> \<not> (CHR ''/'' \<in> set name \<or> CHR 0x5C \<in> set name \<or> name = ''.'' \<or> name = ''..'' \<or> contains_str name ''..'')"

section \<open>Running\<close>

text \<open>The watchdog's verdict on a run: the strikes, and the script switched off where it says so. \<open>Inr\<close> of
  the error the caller sees.\<close>

definition watch :: "string \<Rightarrow> dispatch_end \<Rightarrow> script_manager \<Rightarrow> bool \<times> script_manager" where
  "watch i d m = (case wd_run defaultMaxStrikes i d (smStrikes m) of (verdict, strikes) \<Rightarrow>
     (let m = m\<lparr>smStrikes := strikes\<rparr>;
          m = (case verdict of None \<Rightarrow> m
               | Some why \<Rightarrow> notify (m\<lparr>smReg := DisableAsRunaway i (case why of Deadline \<Rightarrow> ''deadline'' | Strikes n e \<Rightarrow> e) (smReg m)\<rparr>))
      in (d = DispatchOk, m)))"

text \<open>\<open>Deliver\<close>: \<open>ends\<close> is how the handler ends, where one is called. Whether the router saw no error.\<close>

definition Deliver :: "script_host \<Rightarrow> string \<Rightarrow> script_data \<Rightarrow> int option \<Rightarrow> string \<Rightarrow> dispatch_end \<Rightarrow> script_manager \<Rightarrow> bool \<times> script_manager" where
  "Deliver h ty data ts i ends m = (case smScripts m i of
     None \<Rightarrow> watch i DispatchOk m
   | Some p \<Rightarrow> (case translate h ty data ts of
       Some (handler, e) \<Rightarrow> if Has p handler then watch i ends (say_out (Called i handler e) m) else watch i DispatchOk m
     | None \<Rightarrow> watch i DispatchOk m))"

definition status_of :: "string \<Rightarrow> script_manager \<Rightarrow> ext_status option" where
  "status_of i m = map_option xStatus (reg_get (smReg m) i)"

definition deliver_marked :: "script_host \<Rightarrow> string \<Rightarrow> script_data \<Rightarrow> int option \<Rightarrow> string \<Rightarrow> dispatch_end \<Rightarrow> script_manager \<Rightarrow> script_manager" where
  "deliver_marked h ty data ts i ends m = (case Deliver h ty data ts i ends m of (ok, m) \<Rightarrow>
     if ok \<or> status_of i m = Some StatusRunaway then m
     else m\<lparr>smReg := SetStatus i StatusError (case ends of DispatchErr e \<Rightarrow> e | _ \<Rightarrow> ''deadline'') (smReg m)\<rparr>)"

text \<open>The router: the recipients are read once, in the order \<open>ord\<close> of the map.\<close>

definition script_event_in :: "script_host \<Rightarrow> string list \<Rightarrow> string \<Rightarrow> script_data \<Rightarrow> int option \<Rightarrow> (string \<Rightarrow> dispatch_end) \<Rightarrow>
    script_manager \<Rightarrow> script_manager" where
  "script_event_in h ord ty data ts ends m =
     fold (\<lambda>(i, _) m. deliver_marked h ty data ts i (ends i) m) (recipients (smReg m) ord ty) m"

text \<open>A timer that is due: it runs the function if the script is loaded, whatever the registry says.\<close>

definition tick :: "string \<Rightarrow> nat \<Rightarrow> dispatch_end \<Rightarrow> script_manager \<Rightarrow> script_manager" where
  "tick i n ends m =
     (if n \<notin> (case scTimers (smSched m) i of Some ts \<Rightarrow> set ts | None \<Rightarrow> {}) \<or> n \<in> scStopped (smSched m)
         \<or> smKinds m n = Some After \<and> n \<in> smFired m then m
      else let m = m\<lparr>smFired := insert n (smFired m)\<rparr>
           in if smScripts m i = None then snd (watch i DispatchOk m) else snd (watch i ends (say_out (Ticked i n) m)))"

datatype script_op =
    OpLoadAll "string list" | OpReload string | OpDisable string | OpEnable string | OpDisk string "script_dir option"
  | OpFS bool string | OpEvent "string list" string script_data "int option" "string \<Rightarrow> dispatch_end" | OpTick string nat dispatch_end | OpClose

fun script_step :: "script_host \<Rightarrow> script_op \<Rightarrow> script_manager \<Rightarrow> script_manager" where
  "script_step h (OpLoadAll entries) m = LoadAll entries m"
| "script_step h (OpReload i) m = reload i m"
| "script_step h (OpDisable i) m = Disable i m"
| "script_step h (OpEnable i) m = Enable i m"
| "script_step h (OpDisk i d) m = m\<lparr>smDisk := (smDisk m)(i := d)\<rparr>"
| "script_step h (OpFS created i) m = handleFSEvent created i m"
| "script_step h (OpEvent ord ty data ts ends) m = script_event_in h ord ty data ts ends m"
| "script_step h (OpTick i n ends) m = tick i n ends m"
| "script_step h OpClose m = close_scripts m"

definition script_run :: "script_host \<Rightarrow> script_op list \<Rightarrow> script_manager \<Rightarrow> script_manager" where
  "script_run h ops m = fold (script_step h) ops m"

end
