(* ===== verification/Script_Props.thy ===== *)
theory Script_Props
  imports Script_Manager
begin

text \<open>
  What holds of the script manager: the registrations match the code that is loaded, a script the user
  disabled is inert, one the watchdog disabled is not, and a reload undoes a disabling.
\<close>

section \<open>Whole words\<close>

lemma has_prefix_iff: "has_prefix s w \<longleftrightarrow> (\<exists>b. s = w @ b)"
  by (auto simp: has_prefix_def prefix_def)

text \<open>What may stand before an occurrence, with \<open>left\<close> the byte before the text.\<close>

definition left_free :: "char option \<Rightarrow> string \<Rightarrow> bool" where
  "left_free left a \<longleftrightarrow> (if a = [] then left = None \<or> \<not> isWordByte (the left) else \<not> isWordByte (last a))"

lemma left_free_Cons: "left_free left (c # a) = left_free (Some c) a"
  by (simp add: left_free_def)

definition occurs_free :: "char option \<Rightarrow> string \<Rightarrow> string \<Rightarrow> bool" where
  "occurs_free left s w \<longleftrightarrow> (\<exists>a b. s = a @ w @ b \<and> word_ends b \<and> left_free left a)"

lemma occurs_free_Cons:
  "occurs_free left (c # s) w \<longleftrightarrow> (\<exists>b. c # s = w @ b \<and> word_ends b \<and> left_free left []) \<or> occurs_free (Some c) s w" (is "?L \<longleftrightarrow> ?R")
proof
  assume ?L
  then obtain a b where ab: "c # s = a @ w @ b" "word_ends b" "left_free left a" by (auto simp: occurs_free_def)
  show ?R
  proof (cases a)
    case Nil
    then show ?thesis using ab by auto
  next
    case (Cons d a')
    then have "s = a' @ w @ b" "left_free (Some c) a'" using ab left_free_Cons [of left c a'] by auto
    then show ?thesis using ab(2) by (auto simp: occurs_free_def)
  qed
next
  assume ?R
  then show ?L
  proof
    assume "\<exists>b. c # s = w @ b \<and> word_ends b \<and> left_free left []"
    then obtain b where "c # s = [] @ w @ b" "word_ends b" "left_free left []" by auto
    then show ?thesis unfolding occurs_free_def by blast
  next
    assume "occurs_free (Some c) s w"
    then obtain a b where "s = a @ w @ b" "word_ends b" "left_free (Some c) a" by (auto simp: occurs_free_def)
    then have "c # s = (c # a) @ w @ b" "word_ends b" "left_free left (c # a)" by (simp_all add: left_free_Cons)
    then show ?thesis unfolding occurs_free_def by blast
  qed
qed

lemma word_from_iff: "w \<noteq> [] \<Longrightarrow> word_from left s w \<longleftrightarrow> occurs_free left s w"
proof (induction left s w rule: word_from.induct)
  case (1 left w)
  then show ?case by (simp add: occurs_free_def)
next
  case (2 left c s w)
  have "(has_prefix (c # s) w \<and> (left = None \<or> \<not> isWordByte (the left)) \<and> word_ends (drop (length w) (c # s)))
      \<longleftrightarrow> (\<exists>b. c # s = w @ b \<and> word_ends b \<and> left_free left [])"
    by (auto simp: has_prefix_iff left_free_def)
  then show ?case using 2 by (auto simp: occurs_free_Cons)
qed

text \<open>a script's highlight is its nick as a whole word of the line: somewhere in the lowered text, with no
  letter, digit or underscore on either side.\<close>

theorem script_highlight_is_whole_word:
  "IsHighlight self message \<longleftrightarrow> self \<noteq> [] \<and> to_lower self \<noteq> [] \<and> (\<exists>a b. to_lower message = a @ to_lower self @ b \<and> word_ends b
     \<and> (a = [] \<or> \<not> isWordByte (last a)))"
proof (cases "to_lower self = []")
  case False
  have "left_free None a \<longleftrightarrow> a = [] \<or> \<not> isWordByte (last a)" for a by (simp add: left_free_def)
  with False show ?thesis by (simp add: IsHighlight_def containsWord_def word_from_iff occurs_free_def)
qed (simp add: IsHighlight_def containsWord_def)

section \<open>Registrations and code\<close>

definition right_entry :: "string \<Rightarrow> unit entry option \<Rightarrow> package_code option \<Rightarrow> bool" where
  "right_entry i entry code \<longleftrightarrow> (case entry of
     None \<Rightarrow> code = None
   | Some e \<Rightarrow> xID (enExt e) = i \<and> enEvents e = (case code of Some p \<Rightarrow> set (subscriptions p) | None \<Rightarrow> {}))"

definition registered_right :: "script_manager \<Rightarrow> bool" where
  "registered_right m \<longleftrightarrow> (\<forall>i. right_entry i (smReg m i) (smScripts m i))"

lemma schedule_same [simp]:
  "smReg (schedule i t m) = smReg m" "smScripts (schedule i t m) = smScripts m" "smDisk (schedule i t m) = smDisk m"
  "smDisabled (schedule i t m) = smDisabled m" "smOut (schedule i t m) = smOut m"
  by (simp_all add: schedule_def split: prod.split)

lemma schedules_same [simp]:
  "smReg (fold (schedule i) ts m) = smReg m" "smScripts (fold (schedule i) ts m) = smScripts m"
  "smDisk (fold (schedule i) ts m) = smDisk m" "smDisabled (fold (schedule i) ts m) = smDisabled m"
  "smOut (fold (schedule i) ts m) = smOut m"
  by (induction ts arbitrary: m) simp_all

lemma RunSetup_same [simp]:
  "smReg (snd (RunSetup i p m)) = smReg m" "smScripts (snd (RunSetup i p m)) = smScripts m"
  "smDisk (snd (RunSetup i p m)) = smDisk m" "smDisabled (snd (RunSetup i p m)) = smDisabled m"
  by (simp_all add: RunSetup_def say_out_def)

lemma notify_same [simp]:
  "smReg (notify m) = smReg m" "smScripts (notify m) = smScripts m" "smDisk (notify m) = smDisk m" "smSched (notify m) = smSched m"
  "smDisabled (notify m) = smDisabled m" "smKinds (notify m) = smKinds m" "smFired (notify m) = smFired m"
  "smStrikes (notify m) = smStrikes m" "smOut (notify m) = smOut m @ [ToldHost]"
  by (simp_all add: notify_def say_out_def)

lemma right_cong: "smReg m' = smReg m \<Longrightarrow> smScripts m' = smScripts m \<Longrightarrow> registered_right m' = registered_right m"
  by (simp add: registered_right_def)

lemma right_notify [simp]: "registered_right (notify m) = registered_right m" by (rule right_cong) simp_all

lemma right_stop [simp]: "registered_right (stop_timers i m) = registered_right m"
  by (rule right_cong) (simp_all add: stop_timers_def)

lemma right_register:
  assumes "registered_right m" "xID x = i" "set tys = (case code of Some p \<Rightarrow> set (subscriptions p) | None \<Rightarrow> {})"
  shows "registered_right (m\<lparr>smScripts := (smScripts m)(i := code), smReg := Register x () tys (smReg m)\<rparr>)"
  using assms by (simp add: registered_right_def Register_def right_entry_def)

lemma right_failed: "registered_right m \<Longrightarrow> xID x = i \<Longrightarrow> registered_right (load_failed i x err m)"
  using right_register [of m "x\<lparr>xStatus := StatusError, xErr := err\<rparr>" i "[]" None] by (simp add: load_failed_def)

lemma right_load:
  assumes "registered_right m" shows "registered_right (loadDir i m)"
proof -
  have x: "xID (script_extension i man) = i" for man by (simp add: script_extension_def)
  show ?thesis
  proof (cases "sdPackage (dir_of i m)")
    case (Inl err)
    then show ?thesis using right_failed [OF assms x] by (simp add: loadDir_def Let_def)
  next
    case (Inr p)
    obtain ok m' where r: "RunSetup i p m = (ok, m')" by (cases "RunSetup i p m")
    then have "registered_right m'" using right_cong [of m' m] RunSetup_same [of i p m] assms by simp
    then show ?thesis
      using Inr r right_failed [OF _ x] right_register [OF _ x, of m' "subscriptions p" "Some p"]
      by (cases ok) (simp_all add: loadDir_def Let_def)
  qed
qed

lemma right_update:
  assumes "registered_right m" "\<And>x. xID (f x) = xID x"
  shows "registered_right (m\<lparr>smReg := update_ext i f (smReg m)\<rparr>)"
proof -
  have "right_entry j (update_ext i f (smReg m) j) (smScripts m j)" for j
  proof -
    have "right_entry j (smReg m j) (smScripts m j)" using assms(1) by (simp add: registered_right_def)
    then show ?thesis
      using assms(2) by (cases "smReg m i"; cases "j = i") (auto simp: update_ext_def right_entry_def)
  qed
  then show ?thesis by (simp add: registered_right_def)
qed

lemma right_verdicts:
  assumes "registered_right m"
  shows "registered_right (m\<lparr>smReg := SetEnabled i b (smReg m)\<rparr>)" "registered_right (m\<lparr>smReg := SetStatus i st err (smReg m)\<rparr>)"
    "registered_right (m\<lparr>smReg := DisableAsRunaway i why (smReg m)\<rparr>)"
  by (simp_all add: SetEnabled_def SetStatus_def DisableAsRunaway_def Let_def right_update [OF assms])

lemma right_frames [simp]:
  "registered_right (m\<lparr>smStrikes := s\<rparr>) = registered_right m" "registered_right (m\<lparr>smFired := f\<rparr>) = registered_right m"
  "registered_right (say_out x m) = registered_right m" "registered_right (m\<lparr>smDisk := d\<rparr>) = registered_right m"
  "registered_right (m\<lparr>smDisabled := dd\<rparr>) = registered_right m" "registered_right (m\<lparr>smSched := sc\<rparr>) = registered_right m"
  "registered_right (snd (RunSetup i p m)) = registered_right m"
  by (rule right_cong; simp add: say_out_def)+

lemma right_watch: "registered_right m \<Longrightarrow> registered_right (snd (watch i d m))"
  using right_verdicts(3) [of "m\<lparr>smStrikes := s\<rparr>" i for s]
  by (auto simp: watch_def Let_def split: prod.split option.split)

lemma right_Deliver: "registered_right m \<Longrightarrow> registered_right (snd (Deliver h ty data ts i d m))"
  by (auto simp: Deliver_def right_watch split: option.split)

lemma right_deliver: "registered_right m \<Longrightarrow> registered_right (deliver_marked h ty data ts i d m)"
  using right_Deliver [of m h ty data ts i d] by (auto simp: deliver_marked_def right_verdicts(2) split: prod.split)

lemma right_Disable: "registered_right m \<Longrightarrow> registered_right (Disable i m)"
  using right_verdicts(1) [of "stop_timers i m" i False] right_frames(5) by (simp add: Disable_def Let_def)

lemma right_Enable: "registered_right m \<Longrightarrow> registered_right (Enable i m)"
proof -
  assume ok: "registered_right m"
  let ?r = "SetStatus i StatusLoaded [] (SetEnabled i True (smReg m))"
  have "registered_right (m\<lparr>smReg := ?r\<rparr>)" using right_verdicts(2) [OF right_verdicts(1) [OF ok, of i True], of i StatusLoaded "[]"] by simp
  then have "registered_right (m\<lparr>smReg := ?r, smStrikes := clearStrikes i (smStrikes m)\<rparr>)" using right_frames(1) by fastforce
  then show ?thesis by (simp add: Enable_def Let_def split: option.split)
qed

lemma right_LoadAll: "registered_right m \<Longrightarrow> registered_right (LoadAll entries m)"
proof -
  assume ok: "registered_right m"
  have "registered_right (fold (\<lambda>i m. if smDisk m i = None \<or> sdFiles (dir_of i m) = [] then m
          else let m = loadDir i m in if i \<in> disabled then Disable i m else m) entries m)" for disabled
    using ok by (induction entries arbitrary: m) (simp_all add: Let_def right_load right_Disable)
  then show ?thesis by (simp add: LoadAll_def Let_def)
qed

lemma right_unload: "registered_right m \<Longrightarrow> registered_right (unload_script i m)"
  by (simp add: unload_script_def Let_def stop_timers_def registered_right_def reg_remove_def right_entry_def)

lemma right_reload: "registered_right m \<Longrightarrow> registered_right (reload i m)"
  by (simp add: reload_def right_load)

lemma right_step: "registered_right m \<Longrightarrow> registered_right (script_step h op m)"
proof (cases op)
  case (OpEvent ord ty data ts ends)
  assume "registered_right m"
  then have "registered_right (fold (\<lambda>(i, _) m. deliver_marked h ty data ts i (ends i) m) rs m)" for rs :: "(string \<times> unit) list"
    by (induction rs arbitrary: m) (auto simp: right_deliver)
  then show ?thesis by (simp add: OpEvent script_event_in_def)
next
  case (OpTick i n ends)
  assume "registered_right m"
  then show ?thesis by (simp add: OpTick tick_def Let_def right_watch)
qed (simp_all add: right_LoadAll right_reload right_Disable right_Enable handleFSEvent_def right_load right_unload close_scripts_def)


section \<open>Switched off\<close>

definition of_script :: "string \<Rightarrow> script_out \<Rightarrow> bool" where
  "of_script i x \<longleftrightarrow> (case x of RanSetup j \<Rightarrow> j = i | Called j _ _ \<Rightarrow> j = i | Ticked j _ \<Rightarrow> j = i | ToldHost \<Rightarrow> False)"

text \<open>The operations that do not start the script \<open>i\<close> again.\<close>

fun leaves_off :: "string \<Rightarrow> script_op \<Rightarrow> bool" where
  "leaves_off i (OpLoadAll entries) = (i \<notin> set entries)"
| "leaves_off i (OpReload j) = (j \<noteq> i)"
| "leaves_off i (OpEnable j) = (j \<noteq> i)"
| "leaves_off i (OpFS _ j) = (j \<noteq> i)"
| "leaves_off i _ = True"

definition off :: "string \<Rightarrow> script_manager \<Rightarrow> bool" where
  "off i m \<longleftrightarrow> not_enabled i (smReg m) \<and> scTimers (smSched m) i = None"

text \<open>\<open>m'\<close> is off again and has run nothing of the script since \<open>m\<close>.\<close>

definition silent :: "string \<Rightarrow> script_manager \<Rightarrow> script_manager \<Rightarrow> bool" where
  "silent i m m' \<longleftrightarrow> off i m' \<and> filter (of_script i) (smOut m') = filter (of_script i) (smOut m)"

lemma silent_refl: "off i m \<Longrightarrow> silent i m m" by (simp add: silent_def)

lemma silent_trans: "silent i m m' \<Longrightarrow> (off i m' \<Longrightarrow> silent i m' m'') \<Longrightarrow> silent i m m''" by (simp add: silent_def)

lemma not_enabled_update:
  "not_enabled i r \<Longrightarrow> j \<noteq> i \<or> (\<forall>x. \<not> xEnabled x \<longrightarrow> \<not> xEnabled (f x)) \<Longrightarrow> not_enabled i (update_ext j f r)"
  by (auto simp: not_enabled_def update_ext_def split: option.splits if_splits)

lemma not_enabled_other:
  assumes "not_enabled i r"
  shows "not_enabled i (SetStatus j st err r)" "not_enabled i (DisableAsRunaway j why r)" "not_enabled i (SetEnabled j False r)"
    "not_enabled i (reg_remove j r)" "j \<noteq> i \<Longrightarrow> not_enabled i (SetEnabled j b r)" "xID x \<noteq> i \<Longrightarrow> not_enabled i (Register x hh tys r)"
  using assms
  by (simp_all add: SetStatus_def DisableAsRunaway_def SetEnabled_def Let_def not_enabled_update) (simp_all add: not_enabled_def reg_remove_def Register_def)

lemma silent_stop: "off i m \<Longrightarrow> silent i m (stop_timers j m)"
  by (simp add: silent_def off_def stop_timers_def stopTimers_def)

lemma silent_notify: "off i m \<Longrightarrow> silent i m (notify m)"
  by (simp add: silent_def off_def of_script_def)

lemma silent_say: "off i m \<Longrightarrow> \<not> of_script i x \<Longrightarrow> silent i m (say_out x m)"
  by (simp add: silent_def off_def say_out_def)

lemma silent_reg: "off i m \<Longrightarrow> not_enabled i r \<Longrightarrow> silent i m (m\<lparr>smReg := r\<rparr>)"
  by (simp add: silent_def off_def)

lemma silent_frames:
  "off i m \<Longrightarrow> silent i m (m\<lparr>smStrikes := k\<rparr>)" "off i m \<Longrightarrow> silent i m (m\<lparr>smScripts := p\<rparr>)"
  "off i m \<Longrightarrow> silent i m (m\<lparr>smDisabled := dd\<rparr>)" "off i m \<Longrightarrow> silent i m (m\<lparr>smFired := f\<rparr>)" "off i m \<Longrightarrow> silent i m (m\<lparr>smDisk := d\<rparr>)"
  by (simp_all add: silent_def off_def)

lemma silent_schedule: "off i m \<Longrightarrow> j \<noteq> i \<Longrightarrow> silent i m (fold (schedule j) ts m)"
proof (induction ts arbitrary: m)
  case (Cons t ts)
  have "silent i m (schedule j t m)" using Cons.prems by (simp add: silent_def off_def schedule_def addTimer_def)
  then show ?case using Cons by (auto intro: silent_trans)
qed (simp add: silent_refl)

lemma silent_Setup: "off i m \<Longrightarrow> j \<noteq> i \<Longrightarrow> silent i m (snd (RunSetup j p m))"
  by (auto simp: RunSetup_def of_script_def silent_refl intro!: silent_trans [OF silent_say silent_schedule])

lemma silent_load:
  assumes "off i m" "j \<noteq> i" shows "silent i m (loadDir j m)"
proof -
  have failed: "silent i m (load_failed j (script_extension j man) err m)" if "off i m" for man err and m :: script_manager
    unfolding load_failed_def
    using that assms(2) by (simp add: silent_def off_def not_enabled_other(6) script_extension_def)
  show ?thesis
  proof (cases "sdPackage (dir_of j m)")
    case (Inl err)
    then show ?thesis using failed [OF assms(1)] by (simp add: loadDir_def Let_def)
  next
    case (Inr p)
    obtain ok m' where r: "RunSetup j p m = (ok, m')" by (cases "RunSetup j p m")
    then have s: "silent i m m'" using silent_Setup [OF assms] by (metis snd_conv)
    have "silent i m' (m'\<lparr>smScripts := q, smReg := Register (script_extension j man) () tys (smReg m')\<rparr>)" if "off i m'" for q man tys
      using that assms(2) by (simp add: silent_def off_def not_enabled_other(6) script_extension_def)
    then show ?thesis using Inr r silent_trans [OF s] failed by (cases ok) (simp_all add: loadDir_def Let_def)
  qed
qed

lemma silent_Disable: "off i m \<Longrightarrow> silent i m (Disable j m)"
proof -
  assume o: "off i m"
  have "silent i m' (m'\<lparr>smReg := SetEnabled j False (smReg m'), smDisabled := dd\<rparr>)" if "off i m'" for m' dd
    using that by (simp add: silent_def off_def not_enabled_other(3))
  then show ?thesis unfolding Disable_def Let_def
    by (intro silent_trans [OF silent_trans [OF silent_stop [OF o]] silent_notify])
qed

lemma silent_Enable: "off i m \<Longrightarrow> j \<noteq> i \<Longrightarrow> silent i m (Enable j m)"
proof -
  assume o: "off i m" and j: "j \<noteq> i"
  let ?m = "m\<lparr>smReg := SetStatus j StatusLoaded [] (SetEnabled j True (smReg m)), smStrikes := clearStrikes j (smStrikes m)\<rparr>"
  have a: "silent i m ?m" using o j by (simp add: silent_def off_def not_enabled_other)
  have b: "silent i m (stop_timers j ?m)" by (rule silent_trans [OF a silent_stop])
  let ?n = "case smScripts (stop_timers j ?m) j of Some p \<Rightarrow> snd (RunSetup j p (stop_timers j ?m)) | None \<Rightarrow> stop_timers j ?m"
  have c: "silent i m ?n" using b j by (auto intro: silent_trans [OF b silent_Setup] split: option.split)
  show ?thesis unfolding Enable_def Let_def
    by (rule silent_trans [OF silent_trans [OF c silent_frames(3)] silent_notify])
qed

lemma silent_LoadAll: "off i m \<Longrightarrow> i \<notin> set entries \<Longrightarrow> silent i m (LoadAll entries m)"
proof -
  have one: "silent i m (if smDisk m j = None \<or> sdFiles (dir_of j m) = [] then m
          else let m = loadDir j m in if j \<in> disabled then Disable j m else m)" if "off i m" "j \<noteq> i" for j m disabled
    using that silent_trans [OF silent_load silent_Disable] by (simp add: Let_def silent_load silent_refl)
  have "silent i m (fold (\<lambda>i m. if smDisk m i = None \<or> sdFiles (dir_of i m) = [] then m
          else let m = loadDir i m in if i \<in> disabled then Disable i m else m) entries m)"
    if "off i m" "i \<notin> set entries" for disabled m
    using that
  proof (induction entries arbitrary: m)
    case (Cons j es)
    then have "j \<noteq> i" by auto
    show ?case unfolding fold_simps comp_def
      by (rule silent_trans [OF one [OF Cons.prems(1) \<open>j \<noteq> i\<close>]], rule Cons.IH) (use Cons.prems in simp_all)
  qed (simp add: silent_refl)
  then show "off i m \<Longrightarrow> i \<notin> set entries \<Longrightarrow> silent i m (LoadAll entries m)" by (simp add: LoadAll_def Let_def)
qed

lemma silent_unload: "off i m \<Longrightarrow> silent i m (unload_script j m)"
proof -
  assume o: "off i m"
  have "silent i m' (m'\<lparr>smScripts := q, smReg := reg_remove j (smReg m')\<rparr>)" if "off i m'" for m' q
    using that by (simp add: silent_def off_def not_enabled_other)
  then show ?thesis unfolding unload_script_def Let_def
    by (intro silent_trans [OF silent_trans [OF silent_stop [OF o]] silent_notify])
qed

lemma silent_reload: "off i m \<Longrightarrow> j \<noteq> i \<Longrightarrow> silent i m (reload j m)"
  unfolding reload_def
  by (rule silent_trans [OF silent_trans [OF silent_stop silent_load] silent_notify])

lemma silent_watch: "off i m \<Longrightarrow> silent i m (snd (watch j d m))"
proof -
  assume o: "off i m"
  obtain verdict k where v: "wd_run defaultMaxStrikes j d (smStrikes m) = (verdict, k)" by fastforce
  show ?thesis
  proof (cases verdict)
    case None
    then show ?thesis using silent_frames(1) [OF o] by (simp add: watch_def v)
  next
    case (Some why)
    let ?m = "m\<lparr>smStrikes := k, smReg := DisableAsRunaway j (case why of Deadline \<Rightarrow> ''deadline'' | Strikes n e \<Rightarrow> e) (smReg m)\<rparr>"
    have "silent i m ?m" using o by (simp add: silent_def off_def not_enabled_other)
    then have "silent i m (notify ?m)" using silent_trans silent_notify by blast
    then show ?thesis using Some by (simp add: watch_def v)
  qed
qed

lemma silent_deliver: "off i m \<Longrightarrow> j \<noteq> i \<Longrightarrow> silent i m (deliver_marked h ty data ts j d m)"
proof -
  assume o: "off i m" and j: "j \<noteq> i"
  have D: "silent i m (snd (Deliver h ty data ts j d m))"
    using o j by (auto simp: Deliver_def of_script_def intro: silent_watch silent_trans [OF silent_say silent_watch] split: option.split)
  obtain ok m' where D': "Deliver h ty data ts j d m = (ok, m')" by fastforce
  have "silent i m' (m'\<lparr>smReg := SetStatus j StatusError e (smReg m')\<rparr>)" if "off i m'" for e
    by (rule silent_reg [OF that]) (use that in \<open>simp add: off_def not_enabled_other\<close>)
  then show ?thesis using D silent_trans [OF D] by (simp add: deliver_marked_def D')
qed

lemma silent_events: "off i m \<Longrightarrow> silent i m (script_event_in h ord ty data ts ends m)"
proof -
  have all: "silent i m (fold (\<lambda>(j, _) m. deliver_marked h ty data ts j (ends j) m) rs m)"
    if "off i m" "i \<notin> fst ` set rs" for rs :: "(string \<times> unit) list" and m
    using that
  proof (induction rs arbitrary: m)
    case (Cons r rs)
    obtain j u where r: "r = (j, u)" by (cases r)
    with Cons.prems have j: "j \<noteq> i" by auto
    show ?case unfolding fold_simps comp_def r prod.case
      by (rule silent_trans [OF silent_deliver [OF Cons.prems(1) j]], rule Cons.IH) (use Cons.prems in simp_all)
  qed (simp add: silent_refl)
  assume o: "off i m"
  then have "i \<notin> fst ` set (recipients (smReg m) ord ty)"
    by (auto simp: off_def not_enabled_def recipients_mem)
  from all [OF o this] show ?thesis by (simp add: script_event_in_def)
qed

lemma silent_tick: "off i m \<Longrightarrow> silent i m (tick j n d m)"
proof -
  assume o: "off i m"
  show ?thesis
  proof (cases "j = i")
    case True
    then show ?thesis using o by (simp add: tick_def off_def silent_def)
  next
    case False
    let ?m = "m\<lparr>smFired := insert n (smFired m)\<rparr>"
    have f: "silent i m ?m" by (rule silent_frames(4) [OF o])
    have "silent i m (snd (watch j DispatchOk ?m))" by (rule silent_trans [OF f silent_watch])
    moreover have "silent i m (snd (watch j d (say_out (Ticked j n) ?m)))"
      by (rule silent_trans [OF silent_trans [OF f silent_say] silent_watch]) (use False in \<open>simp_all add: of_script_def\<close>)
    ultimately show ?thesis using o by (simp add: tick_def Let_def silent_refl)
  qed
qed

lemma silent_step: "off i m \<Longrightarrow> leaves_off i op \<Longrightarrow> silent i m (script_step h op m)"
proof (cases op)
  case (OpFS created j)
  assume "off i m" "leaves_off i op"
  then show ?thesis using OpFS silent_trans [OF silent_load silent_notify]
    by (simp add: handleFSEvent_def silent_unload silent_reload silent_refl)
next
  case OpClose
  assume "off i m"
  then show ?thesis by (simp add: OpClose silent_def off_def close_scripts_def stopAll_def)
qed (simp_all add: silent_LoadAll silent_reload silent_Disable silent_Enable silent_events silent_tick silent_frames)


definition demo_host :: script_host where
  "demo_host = \<lparr>shSelfNick = Some (\<lambda>_. ''me''), shIsMe = None, shUserStatus = None, shIsChannel = None\<rparr>"


section \<open>Runaways and reloads\<close>

lemma tick_ok:
  assumes "scTimers (smSched m) i = Some ts" "n \<in> set ts" "n \<notin> scStopped (smSched m)" "smKinds m n = Some Every" "smScripts m i = Some p"
  shows "tick i n DispatchOk m = m\<lparr>smFired := insert n (smFired m), smStrikes := (smStrikes m)(i := None), smOut := smOut m @ [Ticked i n]\<rparr>"
  using assms by (simp add: tick_def Let_def watch_def wd_run_def wd_record_def say_out_def)

lemma ticks_ok:
  assumes "scTimers (smSched m) i = Some ts" "n \<in> set ts" "n \<notin> scStopped (smSched m)" "smKinds m n = Some Every" "smScripts m i = Some p"
  shows "smOut ((tick i n DispatchOk ^^ k) m) = smOut m @ replicate k (Ticked i n)
    \<and> smSched ((tick i n DispatchOk ^^ k) m) = smSched m \<and> smKinds ((tick i n DispatchOk ^^ k) m) = smKinds m
    \<and> smScripts ((tick i n DispatchOk ^^ k) m) = smScripts m \<and> smReg ((tick i n DispatchOk ^^ k) m) = smReg m"
proof (induction k)
  case (Suc k)
  let ?m = "(tick i n DispatchOk ^^ k) m"
  have "tick i n DispatchOk ?m
      = ?m\<lparr>smFired := insert n (smFired ?m), smStrikes := (smStrikes ?m)(i := None), smOut := smOut ?m @ [Ticked i n]\<rparr>"
    by (rule tick_ok) (use Suc assms in simp_all)
  with Suc show ?case by (simp add: replicate_append_same [symmetric] del: replicate_append_same)
qed simp


definition demo_code :: package_code where
  "demo_code = \<lparr>pcHandlers = [''OnText'', ''Setup''], pcTimers = [(Every, True)], pcSetupOk = True\<rparr>"

definition demo_disk :: "string \<rightharpoonup> script_dir" where
  "demo_disk = [''a'' \<mapsto> \<lparr>sdFiles = [[''package main'']], sdPackage = Inr demo_code\<rparr>]"

definition demo_scripts :: script_manager where "demo_scripts = loadDir ''a'' (new_scripts demo_disk {})"

lemma demo_loaded:
  "smScripts demo_scripts ''a'' = Some demo_code" "smReg demo_scripts ''a'' \<noteq> None" "scTimers (smSched demo_scripts) ''a'' = Some [0]"
  "scStopped (smSched demo_scripts) = {}" "smKinds demo_scripts 0 = Some Every" "smOut demo_scripts = [RanSetup ''a'']"
  by (simp_all add: demo_scripts_def loadDir_def dir_of_def demo_disk_def new_scripts_def demo_code_def RunSetup_def Has_def say_out_def
      schedule_def addTimer_def Register_def script_extension_def Let_def)

definition demo_line :: script_data where
  "demo_line = [''user'' \<mapsto> TextValue ''bob'', ''channel'' \<mapsto> TextValue ''#c'', ''message'' \<mapsto> TextValue ''hi'']"


text \<open>C40: a change on disk undoes the user's disabling: a script that is disabled, and stored as such, is enabled and
  subscribed again by a reload; and at a start its \<open>Setup\<close> runs before it is disabled.\<close>

theorem reload_undoes_disable:
  assumes "smDisk m i = Some d" "sdFiles d \<noteq> []" "sdPackage d = Inr p" "pcSetupOk p" "Has p ''Setup''" "ty \<in> set (subscriptions p)"
  shows "let off = Disable i m; again = handleFSEvent False i off; started = LoadAll [i] (new_scripts (smDisk m) {i})
    in i \<in> smDisabled again \<and> (i, ()) \<in> set (recipients (smReg again) [i] ty)
      \<and> smOut started = [RanSetup i, ToldHost] \<and> (i, ()) \<notin> set (recipients (smReg started) [i] ty)"
proof -
  let ?x = "script_extension i (parseManifest (sdFiles d))"
  have L: "\<exists>m2. loadDir i m1 = m2 \<and> smReg m2 = Register ?x () (subscriptions p) (smReg m1) \<and> smDisabled m2 = smDisabled m1
      \<and> smOut m2 = smOut m1 @ [RanSetup i]" if "smDisk m1 i = Some d" for m1
  proof -
    obtain m2 where r: "RunSetup i p m1 = (True, m2)" using assms(4,5) by (simp add: RunSetup_def)
    then have "m2 = snd (RunSetup i p m1)" by simp
    then have "smReg m2 = smReg m1" "smDisabled m2 = smDisabled m1" "smOut m2 = smOut m1 @ [RanSetup i]"
      using assms(5) by (simp_all only: RunSetup_same) (simp add: RunSetup_def say_out_def)
    then show ?thesis using that assms(3) r by (simp add: loadDir_def dir_of_def Let_def)
  qed
  have off: "smDisk (Disable i m) i = Some d" "i \<in> smDisabled (Disable i m)"
    using assms(1) by (simp_all add: Disable_def Let_def stop_timers_def)
  have again: "handleFSEvent False i (Disable i m) = notify (loadDir i (stop_timers i (Disable i m)))"
    using off(1) assms(2) by (simp add: handleFSEvent_def reload_def dir_of_def)
  have new: "smDisk (new_scripts (smDisk m) {i}) i = Some d" using assms(1) by (simp add: new_scripts_def)
  have started: "LoadAll [i] (new_scripts (smDisk m) {i}) = Disable i (loadDir i (new_scripts (smDisk m) {i}))"
    using new assms(2) by (simp add: LoadAll_def dir_of_def Let_def) (simp add: new_scripts_def)
  have x: "xID ?x = i" "xEnabled ?x" by (simp_all add: script_extension_def)
  have "(i, ()) \<in> set (recipients (smReg (handleFSEvent False i (Disable i m))) [i] ty)" "i \<in> smDisabled (handleFSEvent False i (Disable i m))"
    using L [of "stop_timers i (Disable i m)"] off again x assms(6) by (auto simp: stop_timers_def recipients_mem Register_def)
  moreover have "smOut (LoadAll [i] (new_scripts (smDisk m) {i})) = [RanSetup i, ToldHost]"
    using L [OF new] started by (auto simp: Disable_def Let_def stop_timers_def new_scripts_def)
  moreover have "(i, ()) \<notin> set (recipients (smReg (LoadAll [i] (new_scripts (smDisk m) {i}))) [i] ty)"
    by (auto simp: started recipients_mem Disable_def Let_def stop_timers_def SetEnabled_def update_ext_def split: option.splits)
  ultimately show ?thesis by (simp add: Let_def)
qed

lemma reload_undoes_disable_witness:
  "(''a'', ()) \<in> set (recipients (smReg (handleFSEvent False ''a'' (Disable ''a'' demo_scripts))) [''a''] ''message.received'')"
proof -
  have "smDisk demo_scripts ''a'' = Some \<lparr>sdFiles = [[''package main'']], sdPackage = Inr demo_code\<rparr>"
    by (simp add: demo_scripts_def loadDir_def dir_of_def demo_disk_def new_scripts_def demo_code_def RunSetup_def Has_def say_out_def
        schedule_def addTimer_def Register_def Let_def)
  from reload_undoes_disable [OF this, of demo_code "''message.received''"] show ?thesis
    by (simp add: Let_def demo_code_def Has_def subscriptions_def)
qed

end
