(* ===== verification/Spec2Isabelle.thy ===== *)
theory Spec2Isabelle
  imports Mode_Parse Dcc_Properties Dcc_Transport Event_Bus Dispatchers Extensions Split_Msg Irc_Roster
    Session_Props Roster_Spec Meta_Props
    Schema_Props Replay_Props Write_Buffer Message_Pages Connection_Sts Activity_Props
    App_Events_Props App_Coalesce Deep_Links Releases Plugin_Ipc Plugin_Props
    Script_Props
begin

text \<open>
  Verification of the Cascade IRC client.
\<close>

end
